(* ===== verification/Prelude.thy ===== *)
theory Prelude
  imports Main "HOL-Library.Word" "HOL-Library.AList" "HOL-Library.List_Lexorder"
    "HOL-Library.Char_ord" "HOL-Library.Code_Target_Nat"
begin

text \<open>
  Shared vocabulary of the development: the error values of the Go code, the result type
  of a fallible function, the case splits the component proofs share, and
  generic facts on lists and on Go maps (association lists with distinct keys).

  Go strings and byte slices are both \<open>string\<close>, one \<open>char\<close> per byte.
\<close>

text \<open>The case splits of results, pairs, options and tests.\<close>

lemmas res_splits = prod.splits sum.splits option.splits if_splits

section \<open>Errors\<close>

text \<open>
  Error numbers of the file system calls. \<open>Fault\<close> holds the failures the environment may
  inject at any call (permissions, full disk, I/O errors); the others follow from the state
  of the file tree.
\<close>

datatype fault_kind = EACCES | EPERM | EIO | ENOSPC | EROFS | EINVAL | EMFILE

datatype errno = ENOENT | EEXIST | ENOTDIR | EISDIR | ELOOP | Fault fault_kind

text \<open>
  A Go \<open>error\<close>. \<open>FieldError\<close> is the struct of internal/config/errors.go, \<open>OsError\<close>
  is the \<open>*PathError\<close> of the os package (operation, path, error number), \<open>Errorf\<close> is a
  formatted message, and \<open>Wrap pre e post\<close> is \<open>fmt.Errorf("pre%wpost", e)\<close>.
\<close>

datatype error =
    FieldError string string string
  | OsError string string errno
  | Errorf string
  | Wrap string error string

type_synonym 'a res = "error + 'a"

definition is_ok :: "'a res \<Rightarrow> bool" where
  "is_ok r = (case r of Inl _ \<Rightarrow> False | Inr _ \<Rightarrow> True)"

lemma is_ok_simps [simp]: "is_ok (Inr x)" "\<not> is_ok (Inl e)"
  by (simp_all add: is_ok_def)

lemma is_ok_iff: "is_ok r \<longleftrightarrow> (\<exists>x. r = Inr x)"
  by (cases r) auto

text \<open>The errno below a chain of \<open>%w\<close> wrappers, as \<open>errors.Is\<close> unwraps it.\<close>

fun error_errno :: "error \<Rightarrow> errno option" where
  "error_errno (OsError _ _ n) = Some n"
| "error_errno (Wrap _ e _) = error_errno e"
| "error_errno (FieldError _ _ _) = None"
| "error_errno (Errorf _) = None"

definition is_not_exist :: "error \<Rightarrow> bool" where
  "is_not_exist e = (error_errno e = Some ENOENT)"

lemma is_not_exist_simps [simp]:
  "is_not_exist (OsError q p n) \<longleftrightarrow> n = ENOENT"
  "is_not_exist (Wrap a e b) \<longleftrightarrow> is_not_exist e"
  "\<not> is_not_exist (FieldError x y z)"
  "\<not> is_not_exist (Errorf s)"
  by (simp_all add: is_not_exist_def)

fun fault_text :: "fault_kind \<Rightarrow> string" where
  "fault_text EACCES = ''permission denied''"
| "fault_text EPERM = ''operation not permitted''"
| "fault_text EIO = ''input/output error''"
| "fault_text ENOSPC = ''no space left on device''"
| "fault_text EROFS = ''read-only file system''"
| "fault_text EINVAL = ''invalid argument''"
| "fault_text EMFILE = ''too many open files''"

fun errno_text :: "errno \<Rightarrow> string" where
  "errno_text ENOENT = ''no such file or directory''"
| "errno_text EEXIST = ''file exists''"
| "errno_text ENOTDIR = ''not a directory''"
| "errno_text EISDIR = ''is a directory''"
| "errno_text ELOOP = ''too many levels of symbolic links''"
| "errno_text (Fault k) = fault_text k"

text \<open>The \<open>Error()\<close> method of each error value (internal/config/errors.go for the first).\<close>

fun error_text :: "error \<Rightarrow> string" where
  "error_text (FieldError path reason hint) = path @ '': '' @ reason @ ''; fix: '' @ hint"
| "error_text (OsError q p n) = q @ '' '' @ p @ '': '' @ errno_text n"
| "error_text (Errorf s) = s"
| "error_text (Wrap a e b) = a @ error_text e @ b"

section \<open>Lists\<close>

fun joinWith :: "string \<Rightarrow> string list \<Rightarrow> string" where
  "joinWith sep [] = []"
| "joinWith sep [x] = x"
| "joinWith sep (x # y # xs) = x @ sep @ joinWith sep (y # xs)"

lemma joinWith_Cons: "xs \<noteq> [] \<Longrightarrow> joinWith sep (x # xs) = x @ sep @ joinWith sep xs"
  by (cases xs) simp_all

lemma joinWith_append1:
  "xs \<noteq> [] \<Longrightarrow> joinWith sep (xs @ [y]) = joinWith sep xs @ sep @ y"
  by (induction xs rule: joinWith.induct[of _ sep]) (simp_all add: joinWith_Cons)

section \<open>Go maps\<close>

text \<open>
  A \<open>map[string]string\<close> is an association list. Reading an absent key gives the zero
  value of the element type, the empty string.
\<close>

type_synonym strmap = "(string \<times> string) list"

definition mget :: "strmap \<Rightarrow> string \<Rightarrow> string" where
  "mget m k = (case map_of m k of Some v \<Rightarrow> v | None \<Rightarrow> [])"

definition mset_key :: "string \<Rightarrow> string \<Rightarrow> strmap \<Rightarrow> strmap" where
  "mset_key k v m = AList.update k v m"

lemma map_of_mset_key [simp]: "map_of (mset_key k v m) = (map_of m)(k \<mapsto> v)"
  by (simp add: mset_key_def update_conv' fun_eq_iff)

lemma mget_mset_key [simp]: "mget (mset_key k v m) k' = (if k' = k then v else mget m k')"
  by (simp add: mget_def)

lemma distinct_mset_key [simp]:
  "distinct (map fst m) \<Longrightarrow> distinct (map fst (mset_key k v m))"
  by (simp add: mset_key_def distinct_update)

lemma set_fst_mset_key [simp]: "fst ` set (mset_key k v m) = insert k (fst ` set m)"
proof -
  have "dom (map_of (mset_key k v m)) = insert k (dom (map_of m))" by simp
  then show ?thesis by (simp only: dom_map_of_conv_image_fst)
qed

lemma mget_Some: "map_of m k = Some v \<Longrightarrow> mget m k = v"
  by (simp add: mget_def)

lemma mget_None: "map_of m k = None \<Longrightarrow> mget m k = []"
  by (simp add: mget_def)

lemma mget_nonempty_in: "mget m k \<noteq> [] \<Longrightarrow> map_of m k = Some (mget m k)"
  by (auto simp: mget_def split: option.splits)

text \<open>The keys of a map in increasing byte order, \<open>sort.Strings\<close> of its key list.\<close>

definition sortedKeysOf :: "strmap \<Rightarrow> string list" where
  "sortedKeysOf m = sort (map fst m)"

lemma set_sortedKeysOf [simp]: "set (sortedKeysOf m) = dom (map_of m)"
  by (simp add: sortedKeysOf_def dom_map_of_conv_image_fst)

lemma sorted_sortedKeysOf: "sorted (sortedKeysOf m)"
  by (simp add: sortedKeysOf_def)

end
