(* ===== verification/GoStrings.thy ===== *)
theory GoStrings
  imports Prelude
begin

text \<open>
  The functions of Go's \<open>strings\<close>, \<open>strconv\<close>, \<open>encoding/hex\<close>, \<open>encoding/base64\<close>,
  \<open>unicode/utf8\<close> and \<open>path/filepath\<close> (Unix) that the program calls, on byte strings.
\<close>

section \<open>Bytes and character classes\<close>

definition byte :: "char \<Rightarrow> nat" where
  "byte c = of_char c"

definition nl :: string where
  "nl = [CHR 0x0A]"

definition isDigit :: "char \<Rightarrow> bool" where
  "isDigit c = (48 \<le> byte c \<and> byte c \<le> 57)"

definition isLowerAZ :: "char \<Rightarrow> bool" where
  "isLowerAZ c = (97 \<le> byte c \<and> byte c \<le> 122)"

definition isUpperAZ :: "char \<Rightarrow> bool" where
  "isUpperAZ c = (65 \<le> byte c \<and> byte c \<le> 90)"

lemma byte_less: "byte c < 256"
  by (simp add: byte_def)

lemma byte_inj: "byte c = byte d \<longleftrightarrow> c = d"
  by (simp add: byte_def)

section \<open>strings\<close>

text \<open>\<open>strings.Split\<close> with a one-byte separator.\<close>

fun splitOn :: "char \<Rightarrow> string \<Rightarrow> string list" where
  "splitOn c [] = [[]]"
| "splitOn c (x # xs) =
     (if x = c then [] # splitOn c xs
      else (case splitOn c xs of [] \<Rightarrow> [[x]] | y # ys \<Rightarrow> (x # y) # ys))"

text \<open>\<open>strings.SplitN\<close>: at most \<open>n\<close> pieces, the last one unsplit.\<close>

fun splitN :: "nat \<Rightarrow> char \<Rightarrow> string \<Rightarrow> string list" where
  "splitN 0 c xs = []"
| "splitN (Suc 0) c xs = [xs]"
| "splitN (Suc (Suc n)) c [] = [[]]"
| "splitN (Suc (Suc n)) c (x # xs) =
     (if x = c then [] # splitN (Suc n) c xs
      else (case splitN (Suc (Suc n)) c xs of [] \<Rightarrow> [[x]] | y # ys \<Rightarrow> (x # y) # ys))"

text \<open>\<open>strings.Cut\<close>: the text before and after the first separator, if there is one.\<close>

fun cutAt :: "char \<Rightarrow> string \<Rightarrow> (string \<times> string) option" where
  "cutAt c [] = None"
| "cutAt c (x # xs) =
     (if x = c then Some ([], xs)
      else (case cutAt c xs of None \<Rightarrow> None | Some (a, b) \<Rightarrow> Some (x # a, b)))"

definition hasPrefix :: "string \<Rightarrow> string \<Rightarrow> bool" where
  "hasPrefix s p = (take (length p) s = p)"

definition hasSuffix :: "string \<Rightarrow> string \<Rightarrow> bool" where
  "hasSuffix s p = (length p \<le> length s \<and> drop (length s - length p) s = p)"

definition trimPrefix :: "string \<Rightarrow> string \<Rightarrow> string" where
  "trimPrefix s p = (if hasPrefix s p then drop (length p) s else s)"

definition trimSuffix :: "string \<Rightarrow> string \<Rightarrow> string" where
  "trimSuffix s p = (if hasSuffix s p then take (length s - length p) s else s)"

fun containsStr :: "string \<Rightarrow> string \<Rightarrow> bool" where
  "containsStr [] p = (p = [])"
| "containsStr (x # xs) p = (hasPrefix (x # xs) p \<or> containsStr xs p)"

definition containsAny :: "string \<Rightarrow> string \<Rightarrow> bool" where
  "containsAny s chars = (\<exists>c \<in> set s. c \<in> set chars)"

text \<open>\<open>strings.ReplaceAll(s, string(a), b)\<close> for a one-byte pattern.\<close>

definition replaceAll :: "char \<Rightarrow> string \<Rightarrow> string \<Rightarrow> string" where
  "replaceAll a b s = concat (map (\<lambda>c. if c = a then b else [c]) s)"

definition trimChars :: "string \<Rightarrow> string \<Rightarrow> string" where
  "trimChars s cutset =
     rev (dropWhile (\<lambda>c. c \<in> set cutset) (rev (dropWhile (\<lambda>c. c \<in> set cutset) s)))"

text \<open>
  The UTF-8 encodings of the white space runes of \<open>unicode.IsSpace\<close>. UTF-8 is
  self-synchronising, so that stripping or splitting at the encoding is what the rune-wise
  library functions do.
\<close>

definition spaceEncodings :: "string list" where
  "spaceEncodings =
     [[CHR 0x09], [CHR 0x0A], [CHR 0x0B], [CHR 0x0C], [CHR 0x0D], [CHR 0x20],
      [CHR 0xC2, CHR 0x85], [CHR 0xC2, CHR 0xA0], [CHR 0xE1, CHR 0x9A, CHR 0x80],
      [CHR 0xE2, CHR 0x80, CHR 0x80], [CHR 0xE2, CHR 0x80, CHR 0x81],
      [CHR 0xE2, CHR 0x80, CHR 0x82], [CHR 0xE2, CHR 0x80, CHR 0x83],
      [CHR 0xE2, CHR 0x80, CHR 0x84], [CHR 0xE2, CHR 0x80, CHR 0x85],
      [CHR 0xE2, CHR 0x80, CHR 0x86], [CHR 0xE2, CHR 0x80, CHR 0x87],
      [CHR 0xE2, CHR 0x80, CHR 0x88], [CHR 0xE2, CHR 0x80, CHR 0x89],
      [CHR 0xE2, CHR 0x80, CHR 0x8A], [CHR 0xE2, CHR 0x80, CHR 0xA8],
      [CHR 0xE2, CHR 0x80, CHR 0xA9], [CHR 0xE2, CHR 0x80, CHR 0xAF],
      [CHR 0xE2, CHR 0x81, CHR 0x9F], [CHR 0xE3, CHR 0x80, CHR 0x80]]"

text \<open>The length of the white space rune at the head of a string, 0 if there is none.\<close>

definition spaceLen :: "string list \<Rightarrow> string \<Rightarrow> nat" where
  "spaceLen encs s = (case find (hasPrefix s) encs of Some p \<Rightarrow> length p | None \<Rightarrow> 0)"

function trimLeftWith :: "string list \<Rightarrow> string \<Rightarrow> string" where
  "trimLeftWith encs s =
     (let n = spaceLen encs s in if n = 0 \<or> s = [] then s else trimLeftWith encs (drop n s))"
  by pat_completeness auto
termination
  by (relation "measure (\<lambda>(encs, s). length s)") auto

declare trimLeftWith.simps [simp del]

definition trimSpace :: "string \<Rightarrow> string" where
  "trimSpace s =
     rev (trimLeftWith (map rev spaceEncodings) (rev (trimLeftWith spaceEncodings s)))"

text \<open>\<open>strings.Fields\<close>, with the bytes of the current field accumulated in reverse.\<close>

function fieldsFrom :: "string \<Rightarrow> string \<Rightarrow> string list" where
  "fieldsFrom cur [] = (if cur = [] then [] else [rev cur])"
| "fieldsFrom cur (x # xs) =
     (let n = spaceLen spaceEncodings (x # xs) in
      if n = 0 then fieldsFrom (x # cur) xs
      else (if cur = [] then [] else [rev cur]) @ fieldsFrom [] (drop (n - 1) xs))"
  by pat_completeness auto
termination
  by (relation "measure (\<lambda>(cur, s). length s)") auto

definition fields :: "string \<Rightarrow> string list" where
  "fields s = fieldsFrom [] s"

text \<open>
  \<open>strings.ToLower\<close>: ASCII letters, and the only two other runes whose lower case is an
  ASCII letter (U+0130 and U+212A). The remaining runes keep their bytes; the program only
  compares lowered text with ASCII words, which no other rune can produce.
\<close>

definition lowerChar :: "char \<Rightarrow> char" where
  "lowerChar c = (if isUpperAZ c then char_of (byte c + 32) else c)"

fun toLower :: "string \<Rightarrow> string" where
  "toLower [] = []"
| "toLower [a] = [lowerChar a]"
| "toLower [a, b] = (if a = CHR 0xC4 \<and> b = CHR 0xB0 then ''i'' else lowerChar a # toLower [b])"
| "toLower (a # b # c # s) =
     (if a = CHR 0xC4 \<and> b = CHR 0xB0 then CHR ''i'' # toLower (c # s)
      else if a = CHR 0xE2 \<and> b = CHR 0x84 \<and> c = CHR 0xAA then CHR ''k'' # toLower s
      else lowerChar a # toLower (b # c # s))"

section \<open>Numbers in text\<close>

definition digitChar :: "nat \<Rightarrow> char" where
  "digitChar n = char_of (48 + n)"

function natText :: "nat \<Rightarrow> string" where
  "natText n = (if n < 10 then [digitChar n] else natText (n div 10) @ [digitChar (n mod 10)])"
  by pat_completeness auto
termination
  by (relation "measure id") auto

declare natText.simps [simp del]

text \<open>\<open>strconv.Itoa\<close> and the verb \<open>%d\<close>.\<close>

definition itoa :: "int \<Rightarrow> string" where
  "itoa i = (if i < 0 then CHR ''-'' # natText (nat (- i)) else natText (nat i))"

definition hexDigits :: string where
  "hexDigits = ''0123456789abcdef''"

definition hexVal :: "char \<Rightarrow> nat option" where
  "hexVal c =
     (if isDigit c then Some (byte c - 48)
      else if 97 \<le> byte c \<and> byte c \<le> 102 then Some (byte c - 87)
      else if 65 \<le> byte c \<and> byte c \<le> 70 then Some (byte c - 55)
      else None)"

text \<open>
  The value of a digit string in base 10 or 16; \<open>None\<close> for the empty string and for any
  other byte (with base 10 and 16 given explicitly, Go accepts neither underscores nor
  prefixes).
\<close>

definition digitVal :: "nat \<Rightarrow> char \<Rightarrow> nat option" where
  "digitVal base c =
     (case hexVal c of Some d \<Rightarrow> if d < base then Some d else None | None \<Rightarrow> None)"

fun digitsVal :: "nat \<Rightarrow> nat \<Rightarrow> string \<Rightarrow> nat option" where
  "digitsVal base acc [] = Some acc"
| "digitsVal base acc (c # cs) =
     (case digitVal base c of None \<Rightarrow> None | Some d \<Rightarrow> digitsVal base (acc * base + d) cs)"

text \<open>\<open>strconv.ParseUint(s, base, 64)\<close>: \<open>None\<close> is its error.\<close>

definition parseUint :: "nat \<Rightarrow> string \<Rightarrow> nat option" where
  "parseUint base s =
     (if s = [] then None
      else case digitsVal base 0 s of
        None \<Rightarrow> None | Some n \<Rightarrow> if n < 2 ^ 64 then Some n else None)"

text \<open>\<open>strconv.Atoi\<close> on a 64-bit platform.\<close>

definition atoi :: "string \<Rightarrow> int option" where
  "atoi s =
     (let neg = hasPrefix s ''-'';
          ds = (if neg \<or> hasPrefix s ''+'' then tl s else s)
      in if ds = [] then None
         else case digitsVal 10 0 ds of
           None \<Rightarrow> None
         | Some n \<Rightarrow>
             let v = (if neg then - int n else int n)
             in if - (2 ^ 63) \<le> v \<and> v < 2 ^ 63 then Some v else None)"

section \<open>Hexadecimal and Base64\<close>

definition hexByte :: "char \<Rightarrow> string" where
  "hexByte c = [hexDigits ! (byte c div 16), hexDigits ! (byte c mod 16)]"

definition hexEncode :: "string \<Rightarrow> string" where
  "hexEncode s = concat (map hexByte s)"

fun hexDecode :: "string \<Rightarrow> string option" where
  "hexDecode [] = Some []"
| "hexDecode [a] = None"
| "hexDecode (a # b # s) =
     (case (hexVal a, hexVal b) of
        (Some x, Some y) \<Rightarrow>
          (case hexDecode s of None \<Rightarrow> None | Some t \<Rightarrow> Some (char_of (16 * x + y) # t))
      | _ \<Rightarrow> None)"

definition b64Alphabet :: string where
  "b64Alphabet = ''ABCDEFGHIJKLMNOPQRSTUVWXYZabcdefghijklmnopqrstuvwxyz0123456789-_''"

definition b64Char :: "nat \<Rightarrow> char" where
  "b64Char n = b64Alphabet ! n"

text \<open>\<open>base64.RawURLEncoding.EncodeToString\<close>.\<close>

fun b64Encode :: "string \<Rightarrow> string" where
  "b64Encode [] = []"
| "b64Encode [a] = [b64Char (byte a div 4), b64Char (byte a mod 4 * 16)]"
| "b64Encode [a, b] =
     [b64Char (byte a div 4), b64Char (byte a mod 4 * 16 + byte b div 16),
      b64Char (byte b mod 16 * 4)]"
| "b64Encode (a # b # c # s) =
     b64Char (byte a div 4) # b64Char (byte a mod 4 * 16 + byte b div 16) #
     b64Char (byte b mod 16 * 4 + byte c div 64) # b64Char (byte c mod 64) # b64Encode s"

fun indexOf :: "char \<Rightarrow> string \<Rightarrow> nat option" where
  "indexOf c [] = None"
| "indexOf c (x # xs) =
     (if c = x then Some 0 else case indexOf c xs of None \<Rightarrow> None | Some i \<Rightarrow> Some (Suc i))"

text \<open>
  \<open>base64.RawURLEncoding.DecodeString\<close>: carriage returns and newlines are skipped, the
  unused low bits of the last symbol are not checked, one left-over symbol is an error.
\<close>

fun b64Groups :: "nat list \<Rightarrow> string option" where
  "b64Groups [] = Some []"
| "b64Groups [a] = None"
| "b64Groups [a, b] = Some [char_of (a * 4 + b div 16)]"
| "b64Groups [a, b, c] = Some [char_of (a * 4 + b div 16), char_of (b mod 16 * 16 + c div 4)]"
| "b64Groups (a # b # c # d # s) =
     (case b64Groups s of
        None \<Rightarrow> None
      | Some t \<Rightarrow>
          Some (char_of (a * 4 + b div 16) # char_of (b mod 16 * 16 + c div 4) #
                char_of (c mod 4 * 64 + d) # t))"

fun b64Vals :: "string \<Rightarrow> nat list option" where
  "b64Vals [] = Some []"
| "b64Vals (c # s) =
     (case indexOf c b64Alphabet of
        None \<Rightarrow> None
      | Some v \<Rightarrow> (case b64Vals s of None \<Rightarrow> None | Some vs \<Rightarrow> Some (v # vs)))"

definition b64Decode :: "string \<Rightarrow> string option" where
  "b64Decode s =
     (case b64Vals (filter (\<lambda>c. c \<noteq> CHR 0x0D \<and> c \<noteq> CHR 0x0A) s) of
        None \<Rightarrow> None | Some vs \<Rightarrow> b64Groups vs)"

section \<open>UTF-8\<close>

definition isCont :: "nat \<Rightarrow> bool" where
  "isCont b = (128 \<le> b \<and> b < 192)"

text \<open>
  \<open>utf8.DecodeRuneInString\<close> on a non-empty string: the rune and its width; an invalid
  sequence is one byte wide and yields U+FFFD.
\<close>

definition byteAt :: "string \<Rightarrow> nat \<Rightarrow> nat" where
  "byteAt s i = (if i < length s then byte (s ! i) else 0)"

definition decodeRune :: "string \<Rightarrow> nat \<times> nat" where
  "decodeRune s =
     (let b0 = byteAt s 0; b1 = byteAt s 1; b2 = byteAt s 2; b3 = byteAt s 3 in
      if b0 < 128 then (b0, 1)
      else if 194 \<le> b0 \<and> b0 < 224 \<and> isCont b1 then (b0 mod 32 * 64 + b1 mod 64, 2)
      else if 224 \<le> b0 \<and> b0 < 240 \<and> isCont b1 \<and> isCont b2
              \<and> (b0 = 224 \<longrightarrow> 160 \<le> b1) \<and> (b0 = 237 \<longrightarrow> b1 < 160)
        then (b0 mod 16 * 4096 + b1 mod 64 * 64 + b2 mod 64, 3)
      else if 240 \<le> b0 \<and> b0 < 245 \<and> isCont b1 \<and> isCont b2 \<and> isCont b3
              \<and> (b0 = 240 \<longrightarrow> 144 \<le> b1) \<and> (b0 = 244 \<longrightarrow> b1 < 144)
        then (b0 mod 8 * 262144 + b1 mod 64 * 4096 + b2 mod 64 * 64 + b3 mod 64, 4)
      else (65533, 1))"

lemma decodeRune_pos: "0 < snd (decodeRune s)"
  by (simp add: decodeRune_def Let_def)

function runes :: "string \<Rightarrow> nat list" where
  "runes [] = []"
| "runes (x # xs) =
     (let (r, n) = decodeRune (x # xs) in r # runes (drop (n - 1) xs))"
  by pat_completeness auto
termination
  by (relation "measure length") auto

definition runeCount :: "string \<Rightarrow> nat" where
  "runeCount s = length (runes s)"

section \<open>Formatting verbs\<close>

text \<open>
  \<open>strconv.Quote\<close> and the verb \<open>%q\<close>. Runes from U+0080 on are taken as printable and kept
  as they are (Go escapes the few that \<open>unicode.IsPrint\<close> refuses).
\<close>

definition backslash :: char where
  "backslash = CHR 0x5C"

definition quoteRune :: "nat \<Rightarrow> nat \<Rightarrow> string \<Rightarrow> string" where
  "quoteRune r n s =
     (if n = 1 \<and> 128 \<le> r then [backslash, CHR ''x''] @ hexByte (hd s)
      else if r = 0x22 \<or> r = 0x5C then [backslash, hd s]
      else if 128 \<le> r then take n s
      else if 32 \<le> r \<and> r < 127 then [hd s]
      else if r = 7 then [backslash, CHR ''a'']
      else if r = 8 then [backslash, CHR ''b'']
      else if r = 12 then [backslash, CHR ''f'']
      else if r = 10 then [backslash, CHR ''n'']
      else if r = 13 then [backslash, CHR ''r'']
      else if r = 9 then [backslash, CHR ''t'']
      else if r = 11 then [backslash, CHR ''v'']
      else [backslash, CHR ''x''] @ hexByte (hd s))"

function quoteFrom :: "string \<Rightarrow> string" where
  "quoteFrom [] = []"
| "quoteFrom (x # xs) =
     (let (r, n) = decodeRune (x # xs) in quoteRune r n (x # xs) @ quoteFrom (drop (n - 1) xs))"
  by pat_completeness auto
termination
  by (relation "measure length") auto

definition goQuote :: "string \<Rightarrow> string" where
  "goQuote s = CHR 0x22 # quoteFrom s @ [CHR 0x22]"

text \<open>The verb \<open>%04o\<close> on a permission word.\<close>

definition octal4 :: "32 word \<Rightarrow> string" where
  "octal4 m =
     (let n = unat m in
      map (\<lambda>d. digitChar (n div d mod 8)) [512, 64, 8, 1])"

section \<open>path/filepath on Unix\<close>

definition slash :: char where
  "slash = CHR ''/''"

definition cleanStep :: "bool \<Rightarrow> string \<Rightarrow> string list \<Rightarrow> string list" where
  "cleanStep rooted c st =
     (if c = [] \<or> c = ''.'' then st
      else if c = ''..'' then
        (case st of
           [] \<Rightarrow> if rooted then [] else [''..'']
         | t # ts \<Rightarrow> if t = ''..'' then ''..'' # st else ts)
      else c # st)"

definition isAbs :: "string \<Rightarrow> bool" where
  "isAbs p = hasPrefix p ''/''"

definition clean :: "string \<Rightarrow> string" where
  "clean p =
     (if p = [] then ''.''
      else let cs = rev (fold (cleanStep (isAbs p)) (splitOn slash p) []) in
        if isAbs p then slash # joinWith ''/'' cs
        else if cs = [] then ''.'' else joinWith ''/'' cs)"

text \<open>\<open>filepath.Join\<close>: leading empty elements are skipped, the rest is joined and cleaned.\<close>

fun joinPath :: "string list \<Rightarrow> string" where
  "joinPath [] = []"
| "joinPath (e # es) = (if e = [] then joinPath es else clean (joinWith ''/'' (e # es)))"

declare joinPath.simps [simp del]

text \<open>Everything up to and including the last slash, and what follows it.\<close>

definition lastPart :: "string \<Rightarrow> string" where
  "lastPart p = rev (takeWhile (\<lambda>c. c \<noteq> slash) (rev p))"

definition uptoSlash :: "string \<Rightarrow> string" where
  "uptoSlash p = rev (dropWhile (\<lambda>c. c \<noteq> slash) (rev p))"

definition dirName :: "string \<Rightarrow> string" where
  "dirName p = clean (uptoSlash p)"

definition baseName :: "string \<Rightarrow> string" where
  "baseName p =
     (if p = [] then ''.''
      else let q = rev (dropWhile (\<lambda>c. c = slash) (rev p)) in
        if q = [] then ''/'' else lastPart q)"

definition absPath :: "string \<Rightarrow> string \<Rightarrow> string" where
  "absPath cwd p = (if isAbs p then clean p else joinPath [cwd, p])"

end
