(* ===== verification/GoOS.thy ===== *)
theory GoOS
  imports GoStrings
begin

text \<open>
  The operating system as the program sees it: a tree of files, and the calls of Go's
  \<open>os\<close>, \<open>io\<close>, \<open>crypto/rand\<close> and \<open>time\<close> packages as functions on an explicit world.

  The tree maps the absolute, lexically cleaned path to the inode found there. Every call
  advances \<open>ticks\<close>; the schedule \<open>faults\<close> of the world says which calls fail, with which
  error, and how many bytes of a write reach the file first. A theorem about an arbitrary
  world is therefore a theorem about every schedule of failures. Permission checks of the
  kernel are covered by the schedule (\<open>EACCES\<close>, \<open>EPERM\<close>). The files below \<open>/proc/sys\<close>
  answer a write with whatever the kernel makes of it: \<open>kernel\<close>.

  Not modelled: symbolic links in the directory part of a path, hard links, and processes
  that change the tree between two calls of one operation (a change between two operations
  is covered, because the start world is arbitrary). \<open>Remove\<close> and \<open>Rename\<close> refuse
  directories, which the program never passes to them.
\<close>

section \<open>The world\<close>

type_synonym filemode = "32 word"

text \<open>The octal permission constants of the sources.\<close>

abbreviation o600 :: filemode where "o600 \<equiv> 0x180"
abbreviation o644 :: filemode where "o644 \<equiv> 0x1A4"
abbreviation o700 :: filemode where "o700 \<equiv> 0x1C0"
abbreviation o755 :: filemode where "o755 \<equiv> 0x1ED"
abbreviation o022 :: filemode where "o022 \<equiv> 0x12"
abbreviation o077 :: filemode where "o077 \<equiv> 0x3F"

text \<open>A special file carries the type letters that \<open>FileMode.String\<close> prints for it.\<close>

datatype node_kind = RegularFile | Directory | Symlink string | SpecialFile string

record inode =
  kind :: node_kind
  perm :: filemode
  uid :: nat
  data :: string

text \<open>
  An instant as \<open>time.Time\<close>, broken down in its zone, which is given by its offset from UTC in
  minutes. The clock of the world answers in UTC.
\<close>

record gotime =
  t_year :: nat
  t_month :: nat
  t_day :: nat
  t_hour :: nat
  t_minute :: nat
  t_second :: nat
  t_nano :: nat
  t_offset :: int

record world =
  tree :: "string \<Rightarrow> inode option"
  cwd :: string
  ticks :: nat
  faults :: "nat \<Rightarrow> (fault_kind \<times> nat) option"
  kernel :: "string \<Rightarrow> (string \<Rightarrow> string \<Rightarrow> string) option"
  umask :: filemode
  euid :: nat
  pid :: nat
  entropy :: "nat \<Rightarrow> char"
  drawn :: nat
  clock :: "nat \<Rightarrow> gotime"

definition tick :: "world \<Rightarrow> world" where
  "tick w = w\<lparr>ticks := Suc (ticks w)\<rparr>"

definition faulted :: "world \<Rightarrow> (fault_kind \<times> nat) option" where
  "faulted w = faults w (ticks w)"

definition keyOf :: "world \<Rightarrow> string \<Rightarrow> string" where
  "keyOf w p = absPath (cwd w) p"

definition lookup :: "world \<Rightarrow> string \<Rightarrow> inode option" where
  "lookup w p = (if p = [] then None else tree w (keyOf w p))"

definition putNode :: "string \<Rightarrow> inode option \<Rightarrow> world \<Rightarrow> world" where
  "putNode p i w = w\<lparr>tree := (tree w)(keyOf w p := i)\<rparr>"

definition isSymlink :: "inode \<Rightarrow> bool" where
  "isSymlink i = (case kind i of Symlink _ \<Rightarrow> True | _ \<Rightarrow> False)"

definition isRegular :: "inode \<Rightarrow> bool" where
  "isRegular i = (kind i = RegularFile)"

definition isDir :: "inode \<Rightarrow> bool" where
  "isDir i = (kind i = Directory)"

text \<open>Following symbolic links at the end of a path, at most 40 of them as Linux does.\<close>

fun resolve :: "nat \<Rightarrow> world \<Rightarrow> string \<Rightarrow> errno + (string \<times> inode)" where
  "resolve 0 w p = Inl ELOOP"
| "resolve (Suc n) w p =
     (case lookup w p of
        None \<Rightarrow> Inl ENOENT
      | Some i \<Rightarrow>
          (case kind i of
             Symlink t \<Rightarrow> resolve n w (if isAbs t then t else joinPath [dirName p, t])
           | _ \<Rightarrow> Inr (p, i)))"

definition parentErr :: "world \<Rightarrow> string \<Rightarrow> errno option" where
  "parentErr w p =
     (case tree w (dirName (keyOf w p)) of
        None \<Rightarrow> Some ENOENT
      | Some d \<Rightarrow> if isDir d then None else Some ENOTDIR)"

text \<open>\<open>FileMode.String\<close>: the type letters and nine permission letters.\<close>

definition modeText :: "inode \<Rightarrow> string" where
  "modeText i =
     (case kind i of RegularFile \<Rightarrow> ''-'' | Directory \<Rightarrow> ''d'' | Symlink _ \<Rightarrow> ''L'' | SpecialFile l \<Rightarrow> l)
     @ map (\<lambda>(n, c). if bit (perm i) n then c else CHR ''-'')
         (zip [8, 7, 6, 5, 4, 3, 2, 1, 0] ''rwxrwxrwx'')"

section \<open>Calls\<close>

definition sys_lstat :: "string \<Rightarrow> world \<Rightarrow> inode res \<times> world" where
  "sys_lstat p w =
     (case faulted w of
        Some (k, _) \<Rightarrow> (Inl (OsError ''lstat'' p (Fault k)), tick w)
      | None \<Rightarrow>
          (case lookup w p of
             None \<Rightarrow> (Inl (OsError ''lstat'' p ENOENT), tick w)
           | Some i \<Rightarrow> (Inr i, tick w)))"

definition sys_stat :: "string \<Rightarrow> world \<Rightarrow> inode res \<times> world" where
  "sys_stat p w =
     (case faulted w of
        Some (k, _) \<Rightarrow> (Inl (OsError ''stat'' p (Fault k)), tick w)
      | None \<Rightarrow>
          (case resolve 41 w p of
             Inl n \<Rightarrow> (Inl (OsError ''stat'' p n), tick w)
           | Inr (q, i) \<Rightarrow> (Inr i, tick w)))"

text \<open>\<open>os.Open\<close>; the handle is the path the link chain ends at.\<close>

definition sys_open :: "string \<Rightarrow> world \<Rightarrow> string res \<times> world" where
  "sys_open p w =
     (case faulted w of
        Some (k, _) \<Rightarrow> (Inl (OsError ''open'' p (Fault k)), tick w)
      | None \<Rightarrow>
          (case resolve 41 w p of
             Inl n \<Rightarrow> (Inl (OsError ''open'' p n), tick w)
           | Inr (q, i) \<Rightarrow> (Inr q, tick w)))"

text \<open>Reading an open handle to its end.\<close>

definition sys_read :: "string \<Rightarrow> world \<Rightarrow> string res \<times> world" where
  "sys_read h w =
     (case faulted w of
        Some (k, _) \<Rightarrow> (Inl (OsError ''read'' h (Fault k)), tick w)
      | None \<Rightarrow>
          (case lookup w h of
             None \<Rightarrow> (Inl (OsError ''read'' h ENOENT), tick w)
           | Some i \<Rightarrow>
               if isDir i then (Inl (OsError ''read'' h EISDIR), tick w)
               else (Inr (data i), tick w)))"

definition sys_readFile :: "string \<Rightarrow> world \<Rightarrow> string res \<times> world" where
  "sys_readFile p w =
     (case sys_open p w of
        (Inl e, w1) \<Rightarrow> (Inl e, w1)
      | (Inr h, w1) \<Rightarrow> sys_read h w1)"

text \<open>\<open>os.OpenFile(p, O_WRONLY|O_CREATE|O_EXCL, mode)\<close>.\<close>

definition sys_createExcl :: "string \<Rightarrow> filemode \<Rightarrow> world \<Rightarrow> unit res \<times> world" where
  "sys_createExcl p mode w =
     (case faulted w of
        Some (k, _) \<Rightarrow> (Inl (OsError ''open'' p (Fault k)), tick w)
      | None \<Rightarrow>
          if p = [] then (Inl (OsError ''open'' p ENOENT), tick w)
          else (case lookup w p of
             Some _ \<Rightarrow> (Inl (OsError ''open'' p EEXIST), tick w)
           | None \<Rightarrow>
               (case parentErr w p of
                  Some n \<Rightarrow> (Inl (OsError ''open'' p n), tick w)
                | None \<Rightarrow>
                    (Inr (),
                     tick (putNode p (Some \<lparr>kind = RegularFile, perm = and mode (not (umask w)),
                                       uid = euid w, data = []\<rparr>) w)))))"

text \<open>\<open>os.OpenFile(p, O_WRONLY, 0)\<close>, with \<open>O_TRUNC\<close> when \<open>trunc\<close>.\<close>

definition sys_openWrite :: "string \<Rightarrow> bool \<Rightarrow> world \<Rightarrow> string res \<times> world" where
  "sys_openWrite p trunc w =
     (case faulted w of
        Some (k, _) \<Rightarrow> (Inl (OsError ''open'' p (Fault k)), tick w)
      | None \<Rightarrow>
          (case resolve 41 w p of
             Inl n \<Rightarrow> (Inl (OsError ''open'' p n), tick w)
           | Inr (q, i) \<Rightarrow>
               if isDir i then (Inl (OsError ''open'' p EISDIR), tick w)
               else if trunc \<and> kernel w (keyOf w q) = None
                 then (Inr q, tick (putNode q (Some (i\<lparr>data := []\<rparr>)) w))
               else (Inr q, tick w)))"

text \<open>One \<open>Write\<close> on a handle positioned at the end of what was written so far.\<close>

definition sys_write :: "string \<Rightarrow> string \<Rightarrow> world \<Rightarrow> unit res \<times> world" where
  "sys_write h txt w =
     (case lookup w h of
        None \<Rightarrow> (Inl (OsError ''write'' h ENOENT), tick w)
      | Some i \<Rightarrow>
          (case (faulted w, kernel w (keyOf w h)) of
             (Some (k, n), None) \<Rightarrow>
               (Inl (OsError ''write'' h (Fault k)),
                tick (putNode h (Some (i\<lparr>data := data i @ take n txt\<rparr>)) w))
           | (Some (k, n), Some f) \<Rightarrow> (Inl (OsError ''write'' h (Fault k)), tick w)
           | (None, None) \<Rightarrow> (Inr (), tick (putNode h (Some (i\<lparr>data := data i @ txt\<rparr>)) w))
           | (None, Some f) \<Rightarrow>
               (Inr (), tick (putNode h (Some (i\<lparr>data := f (data i) txt\<rparr>)) w))))"

definition sys_fchmod :: "string \<Rightarrow> filemode \<Rightarrow> world \<Rightarrow> unit res \<times> world" where
  "sys_fchmod h mode w =
     (case faulted w of
        Some (k, _) \<Rightarrow> (Inl (OsError ''chmod'' h (Fault k)), tick w)
      | None \<Rightarrow>
          (case lookup w h of
             None \<Rightarrow> (Inl (OsError ''chmod'' h ENOENT), tick w)
           | Some i \<Rightarrow> (Inr (), tick (putNode h (Some (i\<lparr>perm := mode\<rparr>)) w))))"

text \<open>\<open>Sync\<close> and \<open>Close\<close> on a handle change no file, but may report a failure.\<close>

definition sys_flush :: "string \<Rightarrow> string \<Rightarrow> world \<Rightarrow> unit res \<times> world" where
  "sys_flush q h w =
     (case faulted w of
        Some (k, _) \<Rightarrow> (Inl (OsError q h (Fault k)), tick w)
      | None \<Rightarrow> (Inr (), tick w))"

definition sys_remove :: "string \<Rightarrow> world \<Rightarrow> unit res \<times> world" where
  "sys_remove p w =
     (case faulted w of
        Some (k, _) \<Rightarrow> (Inl (OsError ''remove'' p (Fault k)), tick w)
      | None \<Rightarrow>
          (case lookup w p of
             None \<Rightarrow> (Inl (OsError ''remove'' p ENOENT), tick w)
           | Some i \<Rightarrow>
               if isDir i then (Inl (OsError ''remove'' p EISDIR), tick w)
               else (Inr (), tick (putNode p None w))))"

definition sys_rename :: "string \<Rightarrow> string \<Rightarrow> world \<Rightarrow> unit res \<times> world" where
  "sys_rename a b w =
     (case faulted w of
        Some (k, _) \<Rightarrow> (Inl (OsError ''rename'' (a @ '' '' @ b) (Fault k)), tick w)
      | None \<Rightarrow>
          (case lookup w a of
             None \<Rightarrow> (Inl (OsError ''rename'' (a @ '' '' @ b) ENOENT), tick w)
           | Some i \<Rightarrow>
               if isDir i then (Inl (OsError ''rename'' (a @ '' '' @ b) EISDIR), tick w)
               else if b = [] then (Inl (OsError ''rename'' (a @ '' '' @ b) ENOENT), tick w)
               else (case parentErr w b of
                  Some n \<Rightarrow> (Inl (OsError ''rename'' (a @ '' '' @ b) n), tick w)
                | None \<Rightarrow>
                    if (case lookup w b of Some j \<Rightarrow> isDir j | None \<Rightarrow> False)
                    then (Inl (OsError ''rename'' (a @ '' '' @ b) EISDIR), tick w)
                    else (Inr (), tick (putNode b (Some i) (putNode a None w))))))"

text \<open>The directories of a path, outermost first.\<close>

definition ancestors :: "string \<Rightarrow> string list" where
  "ancestors k =
     map (\<lambda>n. if n = 0 then ''/'' else joinWith ''/'' (take (Suc n) (splitOn slash k)))
       [0..<length (splitOn slash k)]"

fun makeDirs :: "filemode \<Rightarrow> string list \<Rightarrow> world \<Rightarrow> errno option \<times> world" where
  "makeDirs mode [] w = (None, w)"
| "makeDirs mode (k # ks) w =
     (case tree w k of
        None \<Rightarrow>
          makeDirs mode ks
            (w\<lparr>tree := (tree w)(k \<mapsto> \<lparr>kind = Directory, perm = and mode (not (umask w)),
                               uid = euid w, data = []\<rparr>)\<rparr>)
      | Some i \<Rightarrow>
          if isDir i then makeDirs mode ks w
          else (case resolve 41 w k of
              Inr (q, j) \<Rightarrow> if isDir j then makeDirs mode ks w else (Some ENOTDIR, w)
            | Inl n \<Rightarrow> (Some n, w)))"

definition sys_mkdirAll :: "string \<Rightarrow> filemode \<Rightarrow> world \<Rightarrow> unit res \<times> world" where
  "sys_mkdirAll p mode w =
     (case faulted w of
        Some (k, _) \<Rightarrow> (Inl (OsError ''mkdir'' p (Fault k)), tick w)
      | None \<Rightarrow>
          if p = [] then (Inl (OsError ''mkdir'' p ENOENT), tick w)
          else (case makeDirs mode (ancestors (keyOf w p)) w of
              (None, w1) \<Rightarrow> (Inr (), tick w1)
            | (Some n, w1) \<Rightarrow> (Inl (OsError ''mkdir'' p n), tick w1)))"

definition sys_chmod :: "string \<Rightarrow> filemode \<Rightarrow> world \<Rightarrow> unit res \<times> world" where
  "sys_chmod p mode w =
     (case faulted w of
        Some (k, _) \<Rightarrow> (Inl (OsError ''chmod'' p (Fault k)), tick w)
      | None \<Rightarrow>
          (case resolve 41 w p of
             Inl n \<Rightarrow> (Inl (OsError ''chmod'' p n), tick w)
           | Inr (q, i) \<Rightarrow> (Inr (), tick (putNode q (Some (i\<lparr>perm := mode\<rparr>)) w))))"

text \<open>\<open>rand.Read\<close> into a slice of \<open>n\<close> bytes.\<close>

definition sys_rand :: "nat \<Rightarrow> world \<Rightarrow> string res \<times> world" where
  "sys_rand n w =
     (case faulted w of
        Some (k, _) \<Rightarrow> (Inl (Errorf ''crypto/rand: failed to read''), tick w)
      | None \<Rightarrow>
          (Inr (map (entropy w) [drawn w..<drawn w + n]), tick (w\<lparr>drawn := drawn w + n\<rparr>)))"

definition sys_now :: "world \<Rightarrow> gotime \<times> world" where
  "sys_now w = (clock w (ticks w), tick w)"

text \<open>\<open>filepath.Abs\<close>: only a relative path asks for the working directory.\<close>

definition sys_abs :: "string \<Rightarrow> world \<Rightarrow> string res \<times> world" where
  "sys_abs p w =
     (if isAbs p then (Inr (clean p), w)
      else case faulted w of
        Some (k, _) \<Rightarrow> (Inl (OsError ''getwd'' [] (Fault k)), tick w)
      | None \<Rightarrow> (Inr (joinPath [cwd w, p]), tick w))"

section \<open>What a call may change\<close>

text \<open>The part of the world no call ever changes.\<close>

definition sameEnv :: "world \<Rightarrow> world \<Rightarrow> bool" where
  "sameEnv w w' =
     (cwd w' = cwd w \<and> faults w' = faults w \<and> kernel w' = kernel w \<and> umask w' = umask w \<and>
      euid w' = euid w \<and> pid w' = pid w \<and> entropy w' = entropy w \<and> clock w' = clock w)"

lemma sameEnv_refl [simp, intro]: "sameEnv w w"
  by (simp add: sameEnv_def)

lemma sameEnv_trans [trans]: "sameEnv a b \<Longrightarrow> sameEnv b c \<Longrightarrow> sameEnv a c"
  by (simp add: sameEnv_def)

lemma sameEnv_tick [simp]: "sameEnv w (tick w') \<longleftrightarrow> sameEnv w w'"
  by (simp add: sameEnv_def tick_def)

lemma sameEnv_tick1 [simp]: "sameEnv (tick w) w' \<longleftrightarrow> sameEnv w w'"
  by (simp add: sameEnv_def tick_def)

lemma sameEnv_putNode [simp]: "sameEnv w (putNode p i w') \<longleftrightarrow> sameEnv w w'"
  by (simp add: sameEnv_def putNode_def)

lemma sameEnv_fs [simp]: "sameEnv w (w'\<lparr>tree := f\<rparr>) \<longleftrightarrow> sameEnv w w'"
  by (simp add: sameEnv_def)

lemma sameEnv_drawn [simp]: "sameEnv w (w'\<lparr>drawn := n\<rparr>) \<longleftrightarrow> sameEnv w w'"
  by (simp add: sameEnv_def)

lemma fs_tick [simp]: "tree (tick w) = tree w"
  by (simp add: tick_def)

lemma lookup_tick [simp]: "lookup (tick w) p = lookup w p"
  by (simp add: lookup_def keyOf_def tick_def)

lemma keyOf_tick [simp]: "keyOf (tick w) p = keyOf w p"
  by (simp add: keyOf_def tick_def)

lemma keyOf_putNode [simp]: "keyOf (putNode q i w) p = keyOf w p"
  by (simp add: keyOf_def putNode_def)

lemma fs_putNode [simp]: "tree (putNode p i w) = (tree w)(keyOf w p := i)"
  by (simp add: putNode_def)

lemma sameEnv_keyOf: "sameEnv w w' \<Longrightarrow> keyOf w' p = keyOf w p"
  by (simp add: sameEnv_def keyOf_def)

text \<open>
  The contract every call and every operation built from calls satisfies: it keeps the
  environment, and changes the tree at most at the keys of its footprint.
\<close>

locale fs_call =
  fixes call :: "world \<Rightarrow> 'r \<times> world"
    and foot :: "world \<Rightarrow> string set"
  assumes env: "call w = (r, w') \<Longrightarrow> sameEnv w w'"
    and frame: "call w = (r, w') \<Longrightarrow> k \<notin> foot w \<Longrightarrow> tree w' k = tree w k"
begin

lemma keyOf_same: "call w = (r, w') \<Longrightarrow> keyOf w' p = keyOf w p"
  by (rule sameEnv_keyOf [OF env])

lemma lookup_frame: "call w = (r, w') \<Longrightarrow> keyOf w p \<notin> foot w \<Longrightarrow> lookup w' p = lookup w p"
  by (simp add: lookup_def keyOf_same frame)

lemma mono: "call w = (r, w') \<Longrightarrow> foot w \<subseteq> S \<Longrightarrow> k \<notin> S \<Longrightarrow> tree w' k = tree w k"
  by (rule frame) auto

end

text \<open>A call that only reads.\<close>

locale ro_call = fs_call call "\<lambda>_. {}" for call :: "world \<Rightarrow> 'r \<times> world"
begin

lemma fs_same: "call w = (r, w') \<Longrightarrow> tree w' = tree w"
  by (rule ext) (rule frame, simp_all)

lemma lookup_same: "call w = (r, w') \<Longrightarrow> lookup w' p = lookup w p"
  by (rule lookup_frame) simp_all

end

lemma ro_callI:
  assumes "\<And>w r w'. call w = (r, w') \<Longrightarrow> sameEnv w w'"
    and "\<And>w r w'. call w = (r, w') \<Longrightarrow> tree w' = tree w"
  shows "ro_call call"
proof (unfold_locales, goal_cases)
  case (1 w r w')
  then show ?case by (rule assms(1))
next
  case (2 w r w' k)
  then show ?case by (simp add: assms(2))
qed

interpretation lstat: ro_call "sys_lstat p" for p
  by (rule ro_callI) (auto simp: sys_lstat_def split: option.splits prod.splits)

interpretation stat: ro_call "sys_stat p" for p
  by (rule ro_callI)
    (auto simp: sys_stat_def simp del: resolve.simps split: option.splits prod.splits sum.splits)

interpretation open_ro: ro_call "sys_open p" for p
  by (rule ro_callI)
    (auto simp: sys_open_def simp del: resolve.simps split: option.splits prod.splits sum.splits)

interpretation read: ro_call "sys_read p" for p
  by (rule ro_callI) (auto simp: sys_read_def split: option.splits prod.splits if_splits)

lemma sys_readFile_ro:
  assumes "sys_readFile p w = (r, w')"
  shows "sameEnv w w'" "tree w' = tree w"
proof -
  show "sameEnv w w'" using assms
    by (auto simp: sys_readFile_def split: prod.splits sum.splits
        dest: open_ro.env read.env intro: sameEnv_trans)
  show "tree w' = tree w" using assms
    by (auto simp: sys_readFile_def split: prod.splits sum.splits
        dest!: open_ro.fs_same read.fs_same)
qed

interpretation readFile: ro_call "sys_readFile p" for p
  by (rule ro_callI) (auto dest: sys_readFile_ro)

interpretation flush: ro_call "sys_flush q p" for q p
  by (rule ro_callI) (auto simp: sys_flush_def split: option.splits prod.splits)

interpretation rand: ro_call "sys_rand n" for n
  by (rule ro_callI) (auto simp: sys_rand_def split: option.splits prod.splits)

interpretation now: ro_call sys_now
  by (rule ro_callI) (auto simp: sys_now_def)

interpretation abs_ro: ro_call "sys_abs p" for p
  by (rule ro_callI) (auto simp: sys_abs_def split: option.splits prod.splits if_splits)

lemma sys_abs_result: "sys_abs p w = (Inr q, w') \<Longrightarrow> q = absPath (cwd w) p"
  by (auto simp: sys_abs_def absPath_def split: option.splits if_splits)

interpretation createExcl: fs_call "sys_createExcl p m" "\<lambda>w. {keyOf w p}" for p m
  by unfold_locales
    (auto simp: sys_createExcl_def split: option.splits prod.splits if_splits)

interpretation writeTo: fs_call "sys_write p t" "\<lambda>w. {keyOf w p}" for p t
  by unfold_locales
    (auto simp: sys_write_def split: option.splits prod.splits if_splits)

interpretation fchmod: fs_call "sys_fchmod p m" "\<lambda>w. {keyOf w p}" for p m
  by unfold_locales
    (auto simp: sys_fchmod_def split: option.splits prod.splits if_splits)

interpretation remove: fs_call "sys_remove p" "\<lambda>w. {keyOf w p}" for p
  by unfold_locales
    (auto simp: sys_remove_def split: option.splits prod.splits if_splits)

interpretation rename: fs_call "sys_rename a b" "\<lambda>w. {keyOf w a, keyOf w b}" for a b
  by unfold_locales
    (auto simp: sys_rename_def split: option.splits prod.splits if_splits)

text \<open>The footprint of a call that follows links is where the chain ends.\<close>

definition resolvedKeys :: "world \<Rightarrow> string \<Rightarrow> string set" where
  "resolvedKeys w p = (case resolve 41 w p of Inr (q, i) \<Rightarrow> {keyOf w q} | Inl _ \<Rightarrow> {})"

lemma resolve_nolink:
  assumes "lookup w p = Some i" "\<not> isSymlink i"
  shows "resolve (Suc n) w p = Inr (p, i)"
  using assms by (auto simp: isSymlink_def split: node_kind.splits)

lemma resolvedKeys_nolink:
  "lookup w p = Some i \<Longrightarrow> \<not> isSymlink i \<Longrightarrow> resolvedKeys w p = {keyOf w p}"
  using resolve_nolink [of w p i 40] by (simp add: resolvedKeys_def del: resolve.simps)

interpretation openWrite: fs_call "sys_openWrite p t" "\<lambda>w. resolvedKeys w p" for p t
  by unfold_locales
    (auto simp: sys_openWrite_def resolvedKeys_def simp del: resolve.simps
       split: option.splits prod.splits if_splits sum.splits)

interpretation chmod: fs_call "sys_chmod p m" "\<lambda>w. resolvedKeys w p" for p m
  by unfold_locales
    (auto simp: sys_chmod_def resolvedKeys_def simp del: resolve.simps
       split: option.splits prod.splits if_splits sum.splits)

lemma makeDirs_env: "makeDirs m ks w = (r, w') \<Longrightarrow> sameEnv w w'"
  by (induction m ks w arbitrary: r rule: makeDirs.induct)
    (auto simp del: resolve.simps split: option.splits if_splits prod.splits sum.splits
       simp: sameEnv_def)

lemma makeDirs_frame:
  "makeDirs m ks w = (r, w') \<Longrightarrow> k \<notin> set ks \<or> tree w k \<noteq> None \<Longrightarrow> tree w' k = tree w k"
  by (induction m ks w arbitrary: r rule: makeDirs.induct)
    (auto simp del: resolve.simps split: option.splits if_splits prod.splits sum.splits)

text \<open>\<open>MkdirAll\<close> adds directories at missing ancestors and changes nothing that exists.\<close>

interpretation mkdirAll: fs_call "sys_mkdirAll p m"
  "\<lambda>w. {k \<in> set (ancestors (keyOf w p)). tree w k = None}" for p m
proof (unfold_locales, goal_cases)
  case (1 w r w')
  then show ?case
    by (auto simp: sys_mkdirAll_def split: option.splits prod.splits if_splits dest: makeDirs_env)
next
  case (2 w r w' k)
  then show ?case
    by (auto simp: sys_mkdirAll_def split: option.splits prod.splits if_splits
        dest!: makeDirs_frame [where k = k])
qed

section \<open>Worlds without failing calls\<close>

definition quiet :: "world \<Rightarrow> bool" where
  "quiet w = (\<forall>t. faults w t = None)"

lemma quiet_same: "sameEnv w w' \<Longrightarrow> quiet w \<Longrightarrow> quiet w'"
  by (simp add: quiet_def sameEnv_def)

lemma quiet_faulted [simp]: "quiet w \<Longrightarrow> faulted w = None"
  by (simp add: quiet_def faulted_def)

lemma quiet_tick [simp]: "quiet (tick w) = quiet w"
  by (simp add: quiet_def tick_def)

text \<open>Reading a file that is there and is neither a link nor a directory.\<close>

lemma open_file:
  assumes "sys_open p w = (Inr h, w')" "lookup w p = Some i" "\<not> isSymlink i"
  shows "h = p"
  using assms resolve_nolink [OF assms(2,3), of 40]
  by (auto simp: sys_open_def simp del: resolve.simps split: option.splits)

lemma read_file:
  assumes "sys_read p w = (Inr c, w')" "lookup w p = Some i"
  shows "c = data i"
  using assms by (auto simp: sys_read_def split: option.splits if_splits)

lemma readFile_file:
  assumes "sys_readFile p w = (Inr c, w')" "lookup w p = Some i" "\<not> isSymlink i"
  shows "c = data i"
proof -
  obtain h w1 where o: "sys_open p w = (Inr h, w1)" and r: "sys_read h w1 = (Inr c, w')"
    using assms(1) by (auto simp: sys_readFile_def split: prod.splits sum.splits)
  have "h = p" "lookup w1 p = Some i"
    using open_file [OF o assms(2,3)] open_ro.lookup_same [OF o] assms(2) by simp_all
  then show ?thesis using read_file [of p w1 c w' i] r by simp
qed

lemma open_quiet:
  "quiet w \<Longrightarrow> lookup w p = Some i \<Longrightarrow> \<not> isSymlink i \<Longrightarrow> sys_open p w = (Inr p, tick w)"
  using resolve_nolink [of w p i 40] by (simp add: sys_open_def del: resolve.simps)

lemma read_quiet:
  "quiet w \<Longrightarrow> lookup w p = Some i \<Longrightarrow> \<not> isDir i \<Longrightarrow> sys_read p w = (Inr (data i), tick w)"
  by (simp add: sys_read_def)

lemma readFile_quiet:
  "quiet w \<Longrightarrow> lookup w p = Some i \<Longrightarrow> isRegular i \<Longrightarrow>
     sys_readFile p w = (Inr (data i), tick (tick w))"
  by (simp add: sys_readFile_def open_quiet read_quiet isRegular_def isSymlink_def isDir_def)

end
