(* ===== verification/GoPath.thy ===== *)
theory GoPath
  imports GoOS
begin

text \<open>
  Facts about lexical path cleaning: \<open>Clean\<close> is idempotent, and the key of a file joined
  to a directory is the directory's key extended by the file name. The transaction proofs
  use them to tell the files of a batch apart.
\<close>

section \<open>Splitting and joining\<close>

lemma splitOn_nonempty [simp]: "splitOn c xs \<noteq> []"
  by (induction xs) (auto split: list.splits)

lemma splitOn_append: "splitOn c (xs @ c # ys) = splitOn c xs @ splitOn c ys"
  by (induction xs) (auto split: list.splits)

lemma splitOn_none: "c \<notin> set xs \<Longrightarrow> splitOn c xs = [xs]"
  by (induction xs) auto

lemma splitOn_no_sep: "x \<in> set (splitOn c xs) \<Longrightarrow> c \<notin> set x"
  by (induction xs arbitrary: x) (auto split: list.splits if_splits)

lemma splitOn_join:
  "cs \<noteq> [] \<Longrightarrow> (\<And>x. x \<in> set cs \<Longrightarrow> slash \<notin> set x) \<Longrightarrow> splitOn slash (joinWith ''/'' cs) = cs"
proof (induction cs)
  case (Cons x xs)
  show ?case
  proof (cases "xs = []")
    case True
    then show ?thesis using Cons.prems by (simp add: splitOn_none)
  next
    case False
    have "splitOn slash (x @ slash # joinWith ''/'' xs)
          = splitOn slash x @ splitOn slash (joinWith ''/'' xs)"
      by (rule splitOn_append)
    also have "splitOn slash (joinWith ''/'' xs) = xs"
      using False Cons by simp
    finally show ?thesis using Cons.prems(2) [of x] False
      by (simp add: splitOn_none joinWith_Cons slash_def)
  qed
qed simp

lemma joinWith_splitOn: "joinWith [c] (splitOn c s) = s"
proof (induction s)
  case Nil
  then show ?case by simp
next
  case (Cons x s)
  obtain y ys where y: "splitOn c s = y # ys" by (cases "splitOn c s") auto
  show ?case using Cons.IH y by (cases ys) auto
qed

section \<open>The component stack\<close>

definition normalComp :: "string \<Rightarrow> bool" where
  "normalComp c = (c \<noteq> [] \<and> c \<noteq> ''.'' \<and> slash \<notin> set c)"

lemma cleanStep_normal:
  "\<lbrakk>slash \<notin> set c; \<And>x. x \<in> set st \<Longrightarrow> normalComp x; x \<in> set (cleanStep r c st)\<rbrakk> \<Longrightarrow> normalComp x"
  by (cases "c = [] \<or> c = ''.'' \<or> c = ''..''")
    (auto simp: cleanStep_def slash_def split: if_splits list.splits, auto simp: normalComp_def slash_def)

lemma fold_cleanStep_normal:
  "\<lbrakk>\<And>x. x \<in> set cs \<Longrightarrow> slash \<notin> set x; \<And>x. x \<in> set st \<Longrightarrow> normalComp x;
    x \<in> set (fold (cleanStep r) cs st)\<rbrakk> \<Longrightarrow> normalComp x"
proof (induction cs arbitrary: st)
  case Nil
  then show ?case by simp
next
  case (Cons c cs)
  show ?case
  proof (rule Cons.IH [of "cleanStep r c st"])
    show "slash \<notin> set y" if "y \<in> set cs" for y using Cons.prems(1) that by simp
    show "normalComp y" if "y \<in> set (cleanStep r c st)" for y
      by (rule cleanStep_normal [OF _ _ that]) (use Cons.prems in auto)
    show "x \<in> set (fold (cleanStep r) cs (cleanStep r c st))" using Cons.prems(3) by simp
  qed
qed

text \<open>
  Cleaning a relative component list first and then walking it from a stack \<open>S\<close> is
  walking the raw list; for a rooted list this holds from the empty stack.
\<close>

lemma step_commute:
  assumes "\<not> r0 \<or> (r \<and> S = [])" "\<And>x. x \<in> set st \<Longrightarrow> normalComp x"
  shows "fold (cleanStep r) (rev (cleanStep r0 c st)) S
         = cleanStep r c (fold (cleanStep r) (rev st) S)"
proof (cases st)
  case Nil
  then show ?thesis using assms(1) by (auto simp: cleanStep_def)
next
  case (Cons t ts)
  then have "t \<noteq> []" "t \<noteq> ''.''" using assms(2) by (auto simp: normalComp_def)
  then show ?thesis using Cons by (auto simp: cleanStep_def)
qed

lemma fold_commute:
  assumes "\<not> r0 \<or> (r \<and> S = [])"
    and "\<And>x. x \<in> set cs \<Longrightarrow> slash \<notin> set x" "\<And>x. x \<in> set st \<Longrightarrow> normalComp x"
  shows "fold (cleanStep r) (rev (fold (cleanStep r0) cs st)) S
         = fold (cleanStep r) cs (fold (cleanStep r) (rev st) S)"
  using assms(2,3)
proof (induction cs arbitrary: st)
  case Nil
  then show ?case by simp
next
  case (Cons c cs)
  have n: "normalComp y" if "y \<in> set (cleanStep r0 c st)" for y
    by (rule cleanStep_normal [OF _ _ that]) (use Cons.prems in auto)
  have "fold (cleanStep r) (rev (fold (cleanStep r0) cs (cleanStep r0 c st))) S
        = fold (cleanStep r) cs (fold (cleanStep r) (rev (cleanStep r0 c st)) S)"
    by (rule Cons.IH) (use Cons.prems n in auto)
  also have "fold (cleanStep r) (rev (cleanStep r0 c st)) S
             = cleanStep r c (fold (cleanStep r) (rev st) S)"
    by (rule step_commute) (use assms(1) Cons.prems in auto)
  finally show ?case by simp
qed

section \<open>Cleaned paths\<close>

definition stackOf :: "string \<Rightarrow> string list" where
  "stackOf p = fold (cleanStep (isAbs p)) (splitOn slash p) []"

lemma clean_stackOf:
  "p \<noteq> [] \<Longrightarrow> clean p =
     (if isAbs p then slash # joinWith ''/'' (rev (stackOf p))
      else if stackOf p = [] then ''.'' else joinWith ''/'' (rev (stackOf p)))"
  by (simp add: clean_def stackOf_def Let_def)

lemma stackOf_normal: "x \<in> set (stackOf p) \<Longrightarrow> normalComp x"
  unfolding stackOf_def by (erule fold_cleanStep_normal [rotated 2]) (auto dest: splitOn_no_sep)

lemma isAbs_Cons [simp]: "isAbs (slash # p)"
  by (simp add: isAbs_def hasPrefix_def slash_def)

lemma isAbs_Nil [simp]: "\<not> isAbs []"
  by (simp add: isAbs_def hasPrefix_def)

lemma isAbs_append: "p \<noteq> [] \<Longrightarrow> isAbs (p @ q) = isAbs p"
  by (cases p) (auto simp: isAbs_def hasPrefix_def)

lemma isAbs_iff: "isAbs p \<longleftrightarrow> (\<exists>q. p = slash # q)"
  by (cases p) (auto simp: isAbs_def hasPrefix_def slash_def)

lemma joinWith_Nil_iff: "(\<And>x. x \<in> set cs \<Longrightarrow> x \<noteq> []) \<Longrightarrow> joinWith sep cs = [] \<longleftrightarrow> cs = []"
  by (cases cs; cases "tl cs") (auto simp: neq_Nil_conv)

lemma hd_joinWith: "cs \<noteq> [] \<Longrightarrow> hd cs \<noteq> [] \<Longrightarrow> hd (joinWith sep cs) = hd (hd cs)"
  by (cases cs; cases "tl cs") (auto simp: neq_Nil_conv)

lemma joinWith_rel:
  assumes "cs \<noteq> []" "\<And>x. x \<in> set cs \<Longrightarrow> normalComp x"
  shows "\<not> isAbs (joinWith ''/'' cs)" "joinWith ''/'' cs \<noteq> []"
proof -
  have h: "hd cs \<noteq> []" "slash \<notin> set (hd cs)" using assms by (auto simp: normalComp_def)
  then have "hd (joinWith ''/'' cs) \<noteq> slash"
    using assms(1) hd_joinWith [of cs "''/''"] by (metis list.set_sel(1))
  then show "\<not> isAbs (joinWith ''/'' cs)" by (auto simp: isAbs_iff)
  show "joinWith ''/'' cs \<noteq> []" using assms joinWith_Nil_iff [of cs "''/''"]
    by (auto simp: normalComp_def)
qed

lemma isAbs_clean [simp]: "isAbs (clean p) = isAbs p"
proof (cases "p = []")
  case True
  then show ?thesis by (simp add: clean_def isAbs_def hasPrefix_def)
next
  case False
  have dot: "\<not> isAbs ''.''" by (simp add: isAbs_def hasPrefix_def)
  show ?thesis
  proof (cases "isAbs p \<or> stackOf p = []")
    case True
    then show ?thesis using False dot by (auto simp: clean_stackOf)
  next
    case False
    then show ?thesis using \<open>p \<noteq> []\<close> joinWith_rel(1) [of "rev (stackOf p)"] stackOf_normal
      by (simp add: clean_stackOf)
  qed
qed

lemma clean_nonempty [simp]: "clean p \<noteq> []"
proof (cases "p = [] \<or> isAbs p \<or> stackOf p = []")
  case True
  then show ?thesis by (cases "p = []") (auto simp: clean_stackOf, simp_all add: clean_def)
next
  case False
  then show ?thesis using joinWith_rel(2) [of "rev (stackOf p)"] stackOf_normal
    by (simp add: clean_stackOf)
qed

text \<open>Walking the components of a cleaned path is walking those of the path.\<close>

lemma fold_clean:
  assumes "\<not> isAbs p \<or> (r \<and> S = [])" "p \<noteq> []"
  shows "fold (cleanStep r) (splitOn slash (clean p)) S = fold (cleanStep r) (splitOn slash p) S"
proof -
  have key: "fold (cleanStep r) (rev (stackOf p)) S = fold (cleanStep r) (splitOn slash p) S"
    unfolding stackOf_def using assms(1)
    by (subst fold_commute) (auto dest: splitOn_no_sep)
  have sj: "cs = [] \<or> splitOn slash (joinWith ''/'' cs) = cs" if "cs = rev (stackOf p)" for cs
    using splitOn_join [of cs] stackOf_normal that by (auto simp: normalComp_def)
  have skip: "cleanStep r [] S = S" by (simp add: cleanStep_def)
  show ?thesis
  proof (cases "isAbs p")
    case True
    have "splitOn slash (clean p) = [] # splitOn slash (joinWith ''/'' (rev (stackOf p)))"
      using True assms(2) by (simp add: clean_stackOf)
    then show ?thesis using sj [OF refl] key skip by auto
  next
    case rel: False
    show ?thesis
    proof (cases "stackOf p = []")
      case True
      have "clean p = ''.''" using rel True assms(2) by (simp add: clean_stackOf)
      then show ?thesis using key True by (simp add: cleanStep_def slash_def)
    next
      case False
      then show ?thesis using sj [OF refl] key rel assms(2) by (simp add: clean_stackOf)
    qed
  qed
qed

lemma stackOf_clean: "stackOf (clean p) = stackOf p"
proof (cases "p = []")
  case True
  then show ?thesis by (simp add: clean_def stackOf_def isAbs_def hasPrefix_def cleanStep_def slash_def)
next
  case False
  then show ?thesis unfolding stackOf_def isAbs_clean
    by (rule fold_clean [rotated]) simp
qed

lemma clean_idem [simp]: "clean (clean p) = clean p"
proof (cases "p = []")
  case True
  then show ?thesis by (simp add: clean_def isAbs_def hasPrefix_def cleanStep_def slash_def)
next
  case False
  then show ?thesis by (simp add: clean_stackOf [of "clean p"] stackOf_clean) (simp add: clean_stackOf)
qed

section \<open>Going up\<close>

text \<open>
  The length of a list of components with a slash after each. Walking the components either
  keeps all of them or makes the list shorter, so that cleaning and going to the parent make a
  path shorter unless they leave it as it is.
\<close>

definition weight :: "string list \<Rightarrow> nat" where
  "weight cs = sum_list (map (\<lambda>c. Suc (length c)) cs)"

lemma weight_simps [simp]:
  "weight [] = 0" "weight (c # cs) = Suc (length c) + weight cs" "weight (xs @ ys) = weight xs + weight ys"
  "weight (rev xs) = weight xs"
  by (simp_all add: weight_def rev_map [symmetric] sum_list_rev)

lemma length_joinWith: "cs \<noteq> [] \<Longrightarrow> Suc (length (joinWith ''/'' cs)) = weight cs"
  by (induction cs rule: list_nonempty_induct) (auto simp: joinWith_Cons)

lemma cleanStep_weight:
  "cleanStep r c st = c # st \<or> weight (cleanStep r c st) < Suc (length c) + weight st"
  by (auto simp: cleanStep_def split: list.splits)

lemma fold_weight:
  "fold (cleanStep r) cs st = rev cs @ st \<or> weight (fold (cleanStep r) cs st) < weight cs + weight st"
proof (induction cs arbitrary: st)
  case (Cons c cs)
  show ?case using Cons.IH [of "cleanStep r c st"] cleanStep_weight [of r c st] by auto
qed simp

lemma weight_splitOn: "weight (splitOn slash p) = Suc (length p)"
proof -
  have "joinWith ''/'' (splitOn slash p) = p" using joinWith_splitOn [of slash p] by (simp add: slash_def)
  then show ?thesis using length_joinWith [of "splitOn slash p"] by simp
qed

lemma clean_shorter:
  assumes "p \<noteq> []"
  shows "clean p = ''.'' \<or> clean p = p \<or> length (clean p) < length p"
proof (cases "isAbs p")
  case False
  have "stackOf p = rev (splitOn slash p) \<or> weight (stackOf p) < Suc (length p)"
    using fold_weight [of False "splitOn slash p" "[]"] False by (simp add: stackOf_def weight_splitOn)
  moreover have "clean p = p" if "stackOf p = rev (splitOn slash p)"
    using that False assms joinWith_splitOn [of slash p] by (simp add: clean_stackOf slash_def)
  ultimately show ?thesis using False assms length_joinWith [of "rev (stackOf p)"]
    by (auto simp: clean_stackOf)
next
  case True
  then obtain q where q: "p = slash # q" using isAbs_iff by blast
  have st: "stackOf p = fold (cleanStep True) (splitOn slash q) []"
    using True by (simp add: stackOf_def q cleanStep_def)
  have "stackOf p = rev (splitOn slash q) \<or> weight (stackOf p) < Suc (length q)"
    using fold_weight [of True "splitOn slash q" "[]"] by (simp add: st weight_splitOn)
  moreover have "clean p = p" if "stackOf p = rev (splitOn slash q)"
    using that True joinWith_splitOn [of slash q] by (simp add: clean_stackOf q slash_def)
  moreover have "length (clean p) < length p \<or> clean p = p" if "weight (stackOf p) < Suc (length q)"
    using that True length_joinWith [of "rev (stackOf p)"]
    by (cases "stackOf p = []"; cases q) (auto simp: clean_stackOf q)
  ultimately show ?thesis by blast
qed

lemma uptoSlash_cases: "uptoSlash p = p \<or> length (uptoSlash p) < length p"
proof -
  have "dropWhile P xs = xs \<or> length (dropWhile P xs) < length xs" for P :: "char \<Rightarrow> bool" and xs
    by (cases xs) (auto simp: length_dropWhile_le le_imp_less_Suc)
  then show ?thesis unfolding uptoSlash_def by (metis length_rev rev_rev_ident)
qed

lemma dirName_shorter: "dirName p = ''.'' \<or> dirName p = p \<or> length (dirName p) < length p"
proof (cases "uptoSlash p = []")
  case True
  then show ?thesis by (simp add: dirName_def clean_def)
next
  case False
  then show ?thesis using clean_shorter [OF False] uptoSlash_cases [of p] by (auto simp: dirName_def)
qed

section \<open>A file in a directory\<close>

text \<open>A name that is one path component and not a dot name.\<close>

definition simpleName :: "string \<Rightarrow> bool" where
  "simpleName n = (n \<noteq> [] \<and> slash \<notin> set n \<and> n \<noteq> ''.'' \<and> n \<noteq> ''..'')"

definition child :: "string \<Rightarrow> string \<Rightarrow> string" where
  "child k n = (if k = ''/'' then slash # n else k @ slash # n)"

lemma child_inj [simp]: "child k n = child k m \<longleftrightarrow> n = m"
  by (simp add: child_def)

lemma child_neq [simp]: "n \<noteq> [] \<Longrightarrow> child k n \<noteq> k"
  by (auto simp: child_def)

lemma cleanStep_simple: "simpleName n \<Longrightarrow> cleanStep r n st = n # st"
  by (auto simp: simpleName_def cleanStep_def)

lemma stackOf_join:
  "d \<noteq> [] \<Longrightarrow> simpleName n \<Longrightarrow> stackOf (d @ slash # n) = n # stackOf d"
  by (simp add: stackOf_def splitOn_append isAbs_append splitOn_none simpleName_def
      cleanStep_simple [unfolded simpleName_def])

lemma clean_abs_child:
  assumes "isAbs d" "simpleName n"
  shows "clean (d @ slash # n) = child (clean d) n"
proof -
  have d: "d \<noteq> []" using assms(1) by auto
  have ab: "isAbs (d @ slash # n)" using assms(1) d by (simp add: isAbs_append)
  have "clean (d @ slash # n) = slash # joinWith ''/'' (rev (stackOf d) @ [n])"
    using d ab assms(2) by (simp add: clean_stackOf stackOf_join)
  moreover have "clean d = slash # joinWith ''/'' (rev (stackOf d))"
    using d assms(1) by (simp add: clean_stackOf)
  moreover have "joinWith ''/'' (rev (stackOf d)) = [] \<longleftrightarrow> stackOf d = []"
    using joinWith_Nil_iff [of "rev (stackOf d)" "''/''"] stackOf_normal [of _ d]
    by (auto simp: normalComp_def)
  ultimately show ?thesis
    by (cases "stackOf d = []") (simp_all add: child_def joinWith_append1 slash_def)
qed

lemma joinPath2: "d \<noteq> [] \<Longrightarrow> joinPath [d, n] = clean (d @ slash # n)"
  by (simp add: slash_def joinPath.simps)

lemma isAbs_absPath: "isAbs c \<Longrightarrow> isAbs (absPath c p)"
  by (cases "c = []") (auto simp: absPath_def joinPath2 isAbs_append)

lemma clean_absPath: "isAbs c \<Longrightarrow> clean (absPath c p) = absPath c p"
  by (cases "c = []") (auto simp: absPath_def joinPath2)

lemma stackOf_rel_join:
  assumes "isAbs c" "\<not> isAbs d" "d \<noteq> []"
  shows "stackOf (c @ slash # clean d) = stackOf (c @ slash # d)"
proof -
  have c: "c \<noteq> []" using assms(1) by auto
  show ?thesis using assms c
    by (simp add: stackOf_def splitOn_append isAbs_append fold_clean)
qed

lemma clean_cong_stack:
  "p \<noteq> [] \<Longrightarrow> q \<noteq> [] \<Longrightarrow> isAbs p = isAbs q \<Longrightarrow> stackOf p = stackOf q \<Longrightarrow> clean p = clean q"
  by (simp add: clean_stackOf)

theorem absPath_child:
  assumes c: "isAbs c" and d: "d \<noteq> []" and n: "simpleName n"
  shows "absPath c (joinPath [d, n]) = child (absPath c d) n"
proof (cases "isAbs d")
  case True
  then have "absPath c (joinPath [d, n]) = clean (clean (d @ slash # n))"
    by (simp only: absPath_def joinPath2 [OF d] isAbs_append [OF d] isAbs_clean if_True)
  also have "\<dots> = child (clean d) n"
    unfolding clean_idem by (rule clean_abs_child [OF True n])
  finally show ?thesis using True by (simp only: absPath_def if_True)
next
  case False
  have c': "c \<noteq> []" using c by auto
  let ?q = "d @ slash # n"
  have rel: "\<not> isAbs ?q" "\<not> isAbs (clean ?q)" using False d by (simp_all add: isAbs_append)
  have "absPath c (joinPath [d, n]) = clean (c @ slash # clean ?q)"
    using rel d c' by (simp add: absPath_def joinPath2)
  also have "\<dots> = clean (c @ slash # ?q)"
    by (rule clean_cong_stack) (use c c' rel(1) d in \<open>simp_all add: isAbs_append stackOf_rel_join\<close>)
  also have "\<dots> = child (clean (c @ slash # d)) n"
    using clean_abs_child [of "c @ slash # d" n] c c' n by (simp add: isAbs_append)
  finally show ?thesis using False c' by (simp add: absPath_def joinPath2)
qed

lemma keyOf_join:
  "isAbs (cwd w) \<Longrightarrow> d \<noteq> [] \<Longrightarrow> simpleName n \<Longrightarrow> keyOf w (joinPath [d, n]) = child (keyOf w d) n"
  by (simp add: keyOf_def absPath_child)

lemma uptoSlash_child: "slash \<notin> set n \<Longrightarrow> uptoSlash (k @ slash # n) = k @ [slash]"
proof -
  assume a: "slash \<notin> set n"
  have "dropWhile (\<lambda>c. c \<noteq> slash) (rev n @ slash # rev k) = slash # rev k"
    by (subst dropWhile_append2) (use a in auto)
  then show ?thesis by (simp add: uptoSlash_def)
qed

lemma dirName_child:
  assumes "isAbs k" "clean k = k" "simpleName n"
  shows "dirName (child k n) = k"
proof (cases "k = ''/''")
  case True
  then show ?thesis using uptoSlash_child [of n "[]"] assms(3)
    by (simp add: child_def dirName_def simpleName_def)
      (simp add: clean_def isAbs_def hasPrefix_def slash_def cleanStep_def)
next
  case False
  have k: "k \<noteq> []" using assms(1) by auto
  have "clean (k @ [slash]) = clean k"
    using k by (simp add: clean_stackOf isAbs_append stackOf_def splitOn_append cleanStep_def)
  then show ?thesis using False uptoSlash_child [of n k] assms(2,3)
    by (simp add: child_def dirName_def simpleName_def)
qed

lemma dirName_keyOf_join:
  "isAbs (cwd w) \<Longrightarrow> d \<noteq> [] \<Longrightarrow> simpleName n \<Longrightarrow> dirName (keyOf w (joinPath [d, n])) = keyOf w d"
  by (simp add: keyOf_join dirName_child isAbs_absPath clean_absPath keyOf_def absPath_child)

lemma joinPath2_nonempty: "d \<noteq> [] \<Longrightarrow> joinPath [d, n] \<noteq> []"
  by (simp add: joinPath2)

end
