(* ===== verification/AtomicWrite.thy ===== *)
theory AtomicWrite
  imports GoPath
begin

text \<open>
  internal/secret/atomic.go and atomic_unix.go: the transactional writer behind
  \<open>generate\<close>, \<open>deliver\<close> and \<open>renew-certificate\<close>. A batch of files is staged, written to
  temporary files, moved into place with the old files kept as backups, verified, and
  committed by removing the backups; any failure before the commit rolls the batch back.
\<close>

section \<open>The code\<close>

record outfile =
  fname :: string
  fdata :: string
  fmode :: filemode

record stagedFile =
  sf_file :: outfile
  sf_target :: string
  sf_temp :: string
  sf_backup :: string
  sf_hadTarget :: bool
  sf_installed :: bool

type_synonym renameFunc = "string \<Rightarrow> string \<Rightarrow> world \<Rightarrow> unit res \<times> world"

definition checkDirectoryPermissions :: "filemode \<Rightarrow> unit res" where
  "checkDirectoryPermissions mode =
     (if and mode o022 \<noteq> 0
      then Inl (Errorf (''output directory is writable by group or other users (mode ''
                        @ octal4 mode @ '')''))
      else Inr ())"

definition syncDirectory :: "string \<Rightarrow> world \<Rightarrow> unit res \<times> world" where
  "syncDirectory dir w =
     (case sys_open dir w of
        (Inl e, w1) \<Rightarrow> (Inl e, w1)
      | (Inr h, w1) \<Rightarrow> sys_flush ''sync'' h w1)"

definition checkDirInfo :: "inode \<Rightarrow> unit res" where
  "checkDirInfo info =
     (if isSymlink info then Inl (Errorf ''output directory must not be a symbolic link'')
      else if \<not> isDir info then Inl (Errorf ''output path is not a directory'')
      else checkDirectoryPermissions (perm info))"

definition ensureSecureDirectory :: "string \<Rightarrow> world \<Rightarrow> unit res \<times> world" where
  "ensureSecureDirectory dir w =
     (case sys_lstat dir w of
        (Inr info, w1) \<Rightarrow> (checkDirInfo info, w1)
      | (Inl e, w1) \<Rightarrow>
          if is_not_exist e then
            (case sys_mkdirAll dir o700 w1 of
               (Inl e2, w2) \<Rightarrow> (Inl (Wrap ''create output directory: '' e2 []), w2)
             | (Inr _, w2) \<Rightarrow>
                 (case sys_lstat dir w2 of
                    (Inl e3, w3) \<Rightarrow> (Inl (Wrap ''inspect output directory: '' e3 []), w3)
                  | (Inr info, w3) \<Rightarrow> (checkDirInfo info, w3)))
          else (Inl (Wrap ''inspect output directory: '' e []), w1))"

text \<open>The checks of one file of the batch, up to its entry in \<open>staged\<close>.\<close>

definition nameUnsafe :: "string \<Rightarrow> bool" where
  "nameUnsafe n = (n = [] \<or> baseName n \<noteq> n \<or> containsAny n [slash, backslash, backslash])"

definition stageBackup :: "bool \<Rightarrow> stagedFile \<Rightarrow> world \<Rightarrow> stagedFile res \<times> world" where
  "stageBackup force st w =
     (if \<not> force then (Inr st, w)
      else let st' = st\<lparr>sf_backup := sf_target st @ ''.backup''\<rparr> in
        (case sys_lstat (sf_backup st') w of
           (Inr _, w1) \<Rightarrow> (Inl (Errorf (''refusing existing backup path: '' @ sf_backup st')), w1)
         | (Inl e, w1) \<Rightarrow>
             if is_not_exist e then (Inr st', w1)
             else (Inl (Wrap (''inspect backup path '' @ sf_backup st' @ '': '') e []), w1)))"

definition stageFile :: "string \<Rightarrow> bool \<Rightarrow> outfile \<Rightarrow> world \<Rightarrow> stagedFile res \<times> world" where
  "stageFile dir force file w =
     (let target = joinPath [dir, fname file];
          st = \<lparr>sf_file = file, sf_target = target, sf_temp = [], sf_backup = [],
                sf_hadTarget = False, sf_installed = False\<rparr>
      in case sys_lstat target w of
           (Inr info, w1) \<Rightarrow>
             if isSymlink info then (Inl (Errorf (''refusing symbolic-link output '' @ target)), w1)
             else if \<not> isRegular info
               then (Inl (Errorf (''output target is not a regular file: '' @ target)), w1)
             else if \<not> force
               then (Inl (Errorf (''output already exists: '' @ target @ ''; use --force to replace'')), w1)
             else stageBackup force st w1
         | (Inl e, w1) \<Rightarrow>
             if is_not_exist e then stageBackup force st w1
             else (Inl (Wrap (''inspect output '' @ target @ '': '') e []), w1))"

fun stageFiles ::
  "string \<Rightarrow> bool \<Rightarrow> string list \<Rightarrow> outfile list \<Rightarrow> world \<Rightarrow> stagedFile list res \<times> world" where
  "stageFiles dir force seen [] w = (Inr [], w)"
| "stageFiles dir force seen (file # files) w =
     (if nameUnsafe (fname file)
      then (Inl (Errorf (''unsafe output file name '' @ goQuote (fname file))), w)
      else if fname file \<in> set seen
      then (Inl (Errorf (''duplicate output file '' @ goQuote (fname file))), w)
      else (case stageFile dir force file w of
          (Inl e, w1) \<Rightarrow> (Inl e, w1)
        | (Inr st, w1) \<Rightarrow>
            (case stageFiles dir force (fname file # seen) files w1 of
               (Inl e, w2) \<Rightarrow> (Inl e, w2)
             | (Inr sts, w2) \<Rightarrow> (Inr (st # sts), w2))))"

text \<open>The deferred close and removal of a temporary file that could not be completed.\<close>

definition dropTemp :: "string \<Rightarrow> world \<Rightarrow> world" where
  "dropTemp temp w = snd (sys_remove temp (snd (sys_flush ''close'' temp w)))"

definition fillTemp :: "string \<Rightarrow> outfile \<Rightarrow> world \<Rightarrow> string res \<times> world" where
  "fillTemp temp file w =
     (case sys_fchmod temp (fmode file) w of
        (Inl e, w1) \<Rightarrow> (Inl e, dropTemp temp w1)
      | (Inr _, w1) \<Rightarrow>
          (case sys_write temp (fdata file) w1 of
             (Inl e, w2) \<Rightarrow> (Inl e, dropTemp temp w2)
           | (Inr _, w2) \<Rightarrow>
               (case sys_flush ''sync'' temp w2 of
                  (Inl e, w3) \<Rightarrow> (Inl e, dropTemp temp w3)
                | (Inr _, w3) \<Rightarrow>
                    (case sys_flush ''close'' temp w3 of
                       (Inl e, w4) \<Rightarrow> (Inl e, dropTemp temp w4)
                     | (Inr _, w4) \<Rightarrow> (Inr temp, w4)))))"

definition tempName :: "outfile \<Rightarrow> string \<Rightarrow> string" where
  "tempName file suffix = ''.'' @ fname file @ ''.tmp-'' @ hexEncode suffix"

definition writeTemp :: "string \<Rightarrow> outfile \<Rightarrow> world \<Rightarrow> string res \<times> world" where
  "writeTemp dir file w =
     (case sys_rand 8 w of
        (Inl e, w1) \<Rightarrow> (Inl e, w1)
      | (Inr suffix, w1) \<Rightarrow>
          let temp = joinPath [dir, tempName file suffix] in
          (case sys_createExcl temp (fmode file) w1 of
             (Inl e, w2) \<Rightarrow>
               (Inl (Wrap (''create temporary file for '' @ fname file @ '': '') e []), w2)
           | (Inr _, w2) \<Rightarrow> fillTemp temp file w2))"

fun cleanupTemps :: "stagedFile list \<Rightarrow> world \<Rightarrow> world" where
  "cleanupTemps [] w = w"
| "cleanupTemps (f # fs) w =
     cleanupTemps fs (if sf_temp f \<noteq> [] then snd (sys_remove (sf_temp f) w) else w)"

fun writeTemps ::
  "string \<Rightarrow> stagedFile list \<Rightarrow> world \<Rightarrow> (error option \<times> stagedFile list) \<times> world" where
  "writeTemps dir [] w = ((None, []), w)"
| "writeTemps dir (f # fs) w =
     (case writeTemp dir (sf_file f) w of
        (Inl e, w1) \<Rightarrow> ((Some e, f # fs), w1)
      | (Inr temp, w1) \<Rightarrow>
          (case writeTemps dir fs w1 of
             ((r, fs'), w2) \<Rightarrow> ((r, f\<lparr>sf_temp := temp\<rparr> # fs'), w2)))"

definition installTemp ::
  "renameFunc \<Rightarrow> stagedFile \<Rightarrow> world \<Rightarrow> (error option \<times> stagedFile) \<times> world" where
  "installTemp rename f w =
     (case rename (sf_temp f) (sf_target f) w of
        (Inl e, w1) \<Rightarrow> ((Some e, f), w1)
      | (Inr _, w1) \<Rightarrow> ((None, f\<lparr>sf_temp := [], sf_installed := True\<rparr>), w1))"

definition replaceTarget ::
  "renameFunc \<Rightarrow> bool \<Rightarrow> stagedFile \<Rightarrow> world \<Rightarrow> (error option \<times> stagedFile) \<times> world" where
  "replaceTarget rename force f w =
     (if \<not> force then
        (case sys_lstat (sf_target f) w of
           (Inr _, w1) \<Rightarrow>
             ((Some (Errorf (''output appeared during generation: '' @ sf_target f)), f), w1)
         | (Inl e, w1) \<Rightarrow>
             if is_not_exist e then installTemp rename f w1 else ((Some e, f), w1))
      else
        (case sys_lstat (sf_backup f) w of
           (Inr _, w1) \<Rightarrow>
             ((Some (Errorf (''backup path appeared during generation: '' @ sf_backup f)), f), w1)
         | (Inl e, w1) \<Rightarrow>
             if \<not> is_not_exist e then ((Some e, f), w1)
             else (case sys_lstat (sf_target f) w1 of
                 (Inr _, w2) \<Rightarrow>
                   (case rename (sf_target f) (sf_backup f) w2 of
                      (Inl e2, w3) \<Rightarrow> ((Some e2, f), w3)
                    | (Inr _, w3) \<Rightarrow> installTemp rename (f\<lparr>sf_hadTarget := True\<rparr>) w3)
               | (Inl e2, w2) \<Rightarrow>
                   if is_not_exist e2 then installTemp rename f w2 else ((Some e2, f), w2))))"

fun replaceTargets ::
  "renameFunc \<Rightarrow> bool \<Rightarrow> stagedFile list \<Rightarrow> world \<Rightarrow>
     (error option \<times> stagedFile list) \<times> world" where
  "replaceTargets rename force [] w = ((None, []), w)"
| "replaceTargets rename force (f # fs) w =
     (case replaceTarget rename force f w of
        ((Some e, f'), w1) \<Rightarrow> ((Some e, f' # fs), w1)
      | ((None, f'), w1) \<Rightarrow>
          (case replaceTargets rename force fs w1 of
             ((r, fs'), w2) \<Rightarrow> ((r, f' # fs'), w2)))"

text \<open>One iteration of the loop of \<open>rollbackWrite\<close>: the message it records, if any.\<close>

definition restoreBackup :: "renameFunc \<Rightarrow> stagedFile \<Rightarrow> world \<Rightarrow> string option \<times> world" where
  "restoreBackup rename f w =
     (if \<not> sf_hadTarget f then (None, w)
      else (case rename (sf_backup f) (sf_target f) w of
          (Inl e, w1) \<Rightarrow> (Some (''restore '' @ sf_target f @ '': '' @ error_text e), w1)
        | (Inr _, w1) \<Rightarrow> (None, w1)))"

definition rollbackOne :: "renameFunc \<Rightarrow> stagedFile \<Rightarrow> world \<Rightarrow> string option \<times> world" where
  "rollbackOne rename f w =
     (if \<not> sf_installed f then restoreBackup rename f w
      else (case sys_remove (sf_target f) w of
          (Inl e, w1) \<Rightarrow>
            if is_not_exist e then restoreBackup rename f w1
            else (Some (''remove '' @ sf_target f @ '': '' @ error_text e), w1)
        | (Inr _, w1) \<Rightarrow> restoreBackup rename f w1))"

fun rollbackLoop :: "renameFunc \<Rightarrow> stagedFile list \<Rightarrow> world \<Rightarrow> string list \<times> world" where
  "rollbackLoop rename [] w = ([], w)"
| "rollbackLoop rename (f # fs) w =
     (case rollbackOne rename f w of
        (m, w1) \<Rightarrow>
          (case rollbackLoop rename fs w1 of
             (ms, w2) \<Rightarrow> ((case m of None \<Rightarrow> ms | Some s \<Rightarrow> s # ms), w2)))"

definition rollbackIncomplete :: string where
  "rollbackIncomplete = ''; rollback incomplete: ''"

definition rollbackWrite ::
  "string \<Rightarrow> stagedFile list \<Rightarrow> renameFunc \<Rightarrow> error \<Rightarrow> world \<Rightarrow> error \<times> world" where
  "rollbackWrite dir files rename cause w =
     (case rollbackLoop rename (rev files) w of
        (ms, w1) \<Rightarrow>
          (case syncDirectory dir (cleanupTemps files w1) of
             (s, w2) \<Rightarrow>
               let all = ms @ (case s of Inl e \<Rightarrow> [''sync rollback directory: '' @ error_text e]
                                       | Inr _ \<Rightarrow> [])
               in if all \<noteq> [] then (Wrap [] cause (rollbackIncomplete @ joinWith ''; '' all), w2)
                  else (cause, w2)))"

fun verifyTargets :: "stagedFile list \<Rightarrow> world \<Rightarrow> error option \<times> world" where
  "verifyTargets [] w = (None, w)"
| "verifyTargets (f # fs) w =
     (case sys_readFile (sf_target f) w of
        (Inr content, w1) \<Rightarrow>
          if content = fdata (sf_file f) then verifyTargets fs w1
          else (Some (Errorf (''verify generated file '' @ sf_target f)), w1)
      | (Inl _, w1) \<Rightarrow> (Some (Errorf (''verify generated file '' @ sf_target f)), w1))"

fun removeBackups :: "stagedFile list \<Rightarrow> world \<Rightarrow> unit res \<times> world" where
  "removeBackups [] w = (Inr (), w)"
| "removeBackups (f # fs) w =
     (if sf_hadTarget f then
        (case sys_remove (sf_backup f) w of
           (Inl e, w1) \<Rightarrow>
             (Inl (Wrap (''remove committed-file backup '' @ sf_backup f @ '': '') e []), w1)
         | (Inr _, w1) \<Rightarrow> removeBackups fs w1)
      else removeBackups fs w)"

text \<open>The part of \<open>writeFiles\<close> after verification: the batch is committed.\<close>

definition commitFiles :: "string \<Rightarrow> stagedFile list \<Rightarrow> world \<Rightarrow> unit res \<times> world" where
  "commitFiles dir files w =
     (case removeBackups files w of
        (Inl e, w1) \<Rightarrow> (Inl e, w1)
      | (Inr _, w1) \<Rightarrow>
          (case syncDirectory dir w1 of
             (Inl e, w2) \<Rightarrow> (Inl (Wrap ''sync committed output directory: '' e []), w2)
           | (Inr _, w2) \<Rightarrow> (Inr (), w2)))"

text \<open>
  The part from the first temporary file to the verified targets. A failure here is rolled
  back; success returns the staged files ready to commit.
\<close>

definition installFiles ::
  "string \<Rightarrow> bool \<Rightarrow> renameFunc \<Rightarrow> stagedFile list \<Rightarrow> world \<Rightarrow> stagedFile list res \<times> world" where
  "installFiles dir force rename staged w =
     (case writeTemps dir staged w of
        ((Some e, sts), w1) \<Rightarrow> (Inl e, cleanupTemps sts w1)
      | ((None, sts), w1) \<Rightarrow>
          (case replaceTargets rename force sts w1 of
             ((Some e, sts2), w2) \<Rightarrow>
               (case rollbackWrite dir sts2 rename e w2 of (e', w3) \<Rightarrow> (Inl e', w3))
           | ((None, sts2), w2) \<Rightarrow>
               (case syncDirectory dir w2 of
                  (Inl e, w3) \<Rightarrow>
                    (case rollbackWrite dir sts2 rename (Wrap ''sync output directory: '' e []) w3 of
                       (e', w4) \<Rightarrow> (Inl e', w4))
                | (Inr _, w3) \<Rightarrow>
                    (case verifyTargets sts2 w3 of
                       (Some e, w4) \<Rightarrow>
                         (case rollbackWrite dir sts2 rename e w4 of (e', w5) \<Rightarrow> (Inl e', w5))
                     | (None, w4) \<Rightarrow> (Inr sts2, w4)))))"

definition writeFiles ::
  "string \<Rightarrow> outfile list \<Rightarrow> bool \<Rightarrow> renameFunc \<Rightarrow> world \<Rightarrow> unit res \<times> world" where
  "writeFiles dir files force rename w =
     (if dir = [] then (Inl (Errorf ''output directory is empty''), w)
      else (case ensureSecureDirectory dir w of
          (Inl e, w1) \<Rightarrow> (Inl e, w1)
        | (Inr _, w1) \<Rightarrow>
            (case stageFiles dir force [] files w1 of
               (Inl e, w2) \<Rightarrow> (Inl e, w2)
             | (Inr staged, w2) \<Rightarrow>
                 (case installFiles dir force rename staged w2 of
                    (Inl e, w3) \<Rightarrow> (Inl e, w3)
                  | (Inr sts, w3) \<Rightarrow> commitFiles dir sts w3))))"

definition WriteFiles :: "string \<Rightarrow> outfile list \<Rightarrow> bool \<Rightarrow> world \<Rightarrow> unit res \<times> world" where
  "WriteFiles dir files force w = writeFiles dir files force sys_rename w"

end
