(* ===== verification/DirView.thy ===== *)
theory DirView
  imports GoPath
begin

text \<open>
  One directory of the tree as a map from file names to inodes. A transaction on the files
  of a directory is proved on this map; \<open>dirStep\<close> says that a piece of the run changed the
  map of the directory in a given way and nothing outside it.
\<close>

definition plainDir :: "string \<Rightarrow> world \<Rightarrow> bool" where
  "plainDir dir w =
     (dir \<noteq> [] \<and> isAbs (cwd w) \<and> (\<forall>n. kernel w (child (keyOf w dir) n) = None))"

definition ent :: "string \<Rightarrow> world \<Rightarrow> string \<Rightarrow> inode option" where
  "ent dir w n = (if simpleName n then tree w (child (keyOf w dir) n) else None)"

definition outsideDir :: "string \<Rightarrow> world \<Rightarrow> string \<Rightarrow> bool" where
  "outsideDir dir w k = (\<forall>n. simpleName n \<longrightarrow> k \<noteq> child (keyOf w dir) n)"

definition dirStep :: "string \<Rightarrow> world \<Rightarrow> world \<Rightarrow> (string \<Rightarrow> inode option) \<Rightarrow> bool" where
  "dirStep dir w w' h =
     (sameEnv w w' \<and> ent dir w' = h \<and> (\<forall>k. outsideDir dir w k \<longrightarrow> tree w' k = tree w k))"

lemma plainDir_same: "sameEnv w w' \<Longrightarrow> plainDir dir w \<Longrightarrow> plainDir dir w'"
  by (simp add: plainDir_def sameEnv_keyOf) (simp add: sameEnv_def)

lemma dirStep_refl: "dirStep dir w w (ent dir w)"
  by (simp add: dirStep_def)

lemma dirStep_env: "dirStep dir w w' h \<Longrightarrow> sameEnv w w'"
  by (simp add: dirStep_def)

lemma dirStep_ent: "dirStep dir w w' h \<Longrightarrow> ent dir w' = h"
  by (simp add: dirStep_def)

lemma dirStep_self: "dirStep dir w w' h \<Longrightarrow> dirStep dir w w' (ent dir w')"
  by (simp add: dirStep_def)

lemma dirStep_plain: "dirStep dir w w' h \<Longrightarrow> plainDir dir w \<Longrightarrow> plainDir dir w'"
  by (rule plainDir_same [OF dirStep_env])

lemma dirStep_euid: "dirStep dir w w' h \<Longrightarrow> euid w' = euid w"
  by (simp add: dirStep_def sameEnv_def)

lemma outsideDir_same: "sameEnv w w' \<Longrightarrow> outsideDir dir w' k = outsideDir dir w k"
  by (simp add: outsideDir_def sameEnv_keyOf)

lemma dirStep_trans [trans]:
  "dirStep dir a b h \<Longrightarrow> dirStep dir b c h' \<Longrightarrow> dirStep dir a c h'"
  unfolding dirStep_def using sameEnv_trans outsideDir_same by metis

lemma ent_cong: "sameEnv w w' \<Longrightarrow> tree w' = tree w \<Longrightarrow> ent dir w' = ent dir w"
  by (simp add: ent_def fun_eq_iff sameEnv_keyOf)

lemma dirStep_ro: "sameEnv w w' \<Longrightarrow> tree w' = tree w \<Longrightarrow> dirStep dir w w' (ent dir w)"
  by (simp add: dirStep_def ent_cong)

lemma key_ent:
  "plainDir dir w \<Longrightarrow> simpleName n \<Longrightarrow> keyOf w (joinPath [dir, n]) = child (keyOf w dir) n"
  by (simp add: plainDir_def keyOf_join)

lemma lookup_ent:
  "plainDir dir w \<Longrightarrow> simpleName n \<Longrightarrow> lookup w (joinPath [dir, n]) = ent dir w n"
  using joinPath2_nonempty [of dir n]
  by (simp add: lookup_def key_ent ent_def plainDir_def)

lemma joinPath_inj:
  assumes "plainDir dir w" "simpleName n" "simpleName m"
  shows "joinPath [dir, n] = joinPath [dir, m] \<longleftrightarrow> n = m"
  using key_ent [OF assms(1,2)] key_ent [OF assms(1,3)] by (metis child_inj)

lemma ent_simple: "ent dir w n = Some i \<Longrightarrow> simpleName n"
  by (simp add: ent_def split: if_splits)

lemma tree_ent: "simpleName n \<Longrightarrow> tree w (child (keyOf w dir) n) = ent dir w n"
  by (simp add: ent_def)

text \<open>The tree after a step, key by key: a name of the directory, or outside it.\<close>

lemma dirStep_cases:
  assumes "dirStep dir w w' h"
  obtains (inside) n where "simpleName n" "k = child (keyOf w dir) n" "tree w' k = h n"
    "tree w k = ent dir w n"
  | (outside) "outsideDir dir w k" "tree w' k = tree w k"
proof (cases "outsideDir dir w k")
  case True
  then show ?thesis using assms outside by (simp add: dirStep_def)
next
  case False
  then obtain n where n: "simpleName n" "k = child (keyOf w dir) n"
    by (auto simp: outsideDir_def)
  moreover have "ent dir w' n = h n" using assms by (simp add: dirStep_def)
  moreover have "keyOf w' dir = keyOf w dir" by (rule sameEnv_keyOf [OF dirStep_env [OF assms]])
  ultimately show ?thesis using inside by (simp add: ent_def)
qed

text \<open>Updating one or two entries.\<close>

lemma dirStep_upd:
  assumes "sameEnv w w'" "simpleName n" "tree w' = (tree w)(child (keyOf w dir) n := i)"
  shows "dirStep dir w w' ((ent dir w)(n := i))"
  using assms by (auto simp: dirStep_def ent_def fun_eq_iff sameEnv_keyOf outsideDir_def)

lemma dirStep_upd2:
  assumes "sameEnv w w'" "simpleName n" "simpleName m"
    "tree w' = (tree w)(child (keyOf w dir) n := i, child (keyOf w dir) m := j)"
  shows "dirStep dir w w' ((ent dir w)(n := i, m := j))"
  using assms by (auto simp: dirStep_def ent_def fun_eq_iff sameEnv_keyOf outsideDir_def)

section \<open>The calls on files of the directory\<close>

lemma lstat_dir:
  assumes "sys_lstat (joinPath [dir, n]) w = (r, w')" "plainDir dir w" "simpleName n"
  shows "dirStep dir w w' (ent dir w)"
    and "r = Inr i \<Longrightarrow> ent dir w n = Some i"
    and "r = Inl e \<Longrightarrow> is_not_exist e \<Longrightarrow> ent dir w n = None"
proof -
  show "dirStep dir w w' (ent dir w)"
    by (rule dirStep_ro [OF lstat.env lstat.fs_same]) (rule assms(1))+
  show "r = Inr i \<Longrightarrow> ent dir w n = Some i"
    "r = Inl e \<Longrightarrow> is_not_exist e \<Longrightarrow> ent dir w n = None"
    using assms by (auto simp: sys_lstat_def lookup_ent
        split: option.splits prod.splits)
qed

lemma remove_dir:
  assumes "sys_remove (joinPath [dir, n]) w = (r, w')" "plainDir dir w" "simpleName n"
  shows "r = Inr u \<Longrightarrow> dirStep dir w w' ((ent dir w)(n := None)) \<and> ent dir w n \<noteq> None"
    and "r = Inl e \<Longrightarrow> dirStep dir w w' (ent dir w) \<and> (is_not_exist e \<longrightarrow> ent dir w n = None)"
proof -
  have e: "sameEnv w w'" by (rule remove.env [OF assms(1)])
  show "dirStep dir w w' ((ent dir w)(n := None)) \<and> ent dir w n \<noteq> None" if "r = Inr u"
    using assms e that
    by (auto simp: sys_remove_def lookup_ent key_ent
        split: option.splits prod.splits if_splits intro!: dirStep_upd)
  show "dirStep dir w w' (ent dir w) \<and> (is_not_exist e \<longrightarrow> ent dir w n = None)" if "r = Inl e"
    using assms e that
    by (auto simp: sys_remove_def lookup_ent
        split: option.splits prod.splits if_splits intro!: dirStep_ro)
qed

text \<open>Whatever it answers, a removal leaves the entry as it was or gone.\<close>

lemma remove_dir_any:
  assumes "sys_remove (joinPath [dir, n]) w = (r, w')" "plainDir dir w" "simpleName n"
  shows "\<exists>i. dirStep dir w w' ((ent dir w)(n := i)) \<and> (i = None \<or> i = ent dir w n)"
proof (cases r)
  case (Inl e)
  then have "dirStep dir w w' ((ent dir w)(n := ent dir w n))"
    using remove_dir(2) [OF assms Inl] by simp
  then show ?thesis by blast
next
  case (Inr u)
  then show ?thesis using remove_dir(1) [OF assms Inr] by blast
qed

lemma flush_dir: "sys_flush q p w = (r, w') \<Longrightarrow> dirStep dir w w' (ent dir w)"
  by (rule dirStep_ro [OF flush.env flush.fs_same])

lemma readFile_dir:
  assumes "sys_readFile (joinPath [dir, n]) w = (r, w')" "plainDir dir w" "simpleName n"
    "ent dir w n = Some i" "\<not> isSymlink i"
  shows "dirStep dir w w' (ent dir w)" "r = Inr c \<Longrightarrow> c = data i"
proof -
  show "dirStep dir w w' (ent dir w)"
    by (rule dirStep_ro [OF readFile.env readFile.fs_same]) (rule assms(1))+
  have "resolve 41 w (joinPath [dir, n]) = Inr (joinPath [dir, n], i)"
    using resolve_nolink [of w "joinPath [dir, n]" i 40] assms(2-)
    by (simp add: lookup_ent del: resolve.simps)
  then show "r = Inr c \<Longrightarrow> c = data i" using assms
    by (auto simp: sys_readFile_def sys_open_def sys_read_def lookup_ent
        simp del: resolve.simps split: option.splits prod.splits if_splits)
qed

text \<open>
  A new file in the directory: created empty, then its mode and content set. While the file
  is being filled, its entry is the only one that changes.
\<close>

lemma createExcl_dir:
  assumes "sys_createExcl (joinPath [dir, n]) m w = (r, w')" "plainDir dir w" "simpleName n"
  shows "r = Inl e \<Longrightarrow> dirStep dir w w' (ent dir w)"
    and "r = Inr u \<Longrightarrow> ent dir w n = None \<and>
      dirStep dir w w' ((ent dir w)(n \<mapsto> \<lparr>kind = RegularFile, perm = and m (not (umask w)),
                                      uid = euid w, data = []\<rparr>))"
proof -
  have e: "sameEnv w w'" by (rule createExcl.env [OF assms(1)])
  show "r = Inl e \<Longrightarrow> dirStep dir w w' (ent dir w)"
    using assms e
    by (auto simp: sys_createExcl_def
        split: option.splits prod.splits if_splits intro!: dirStep_ro)
  show "r = Inr u \<Longrightarrow> ent dir w n = None \<and>
      dirStep dir w w' ((ent dir w)(n \<mapsto> \<lparr>kind = RegularFile, perm = and m (not (umask w)),
                                      uid = euid w, data = []\<rparr>))"
    using assms e
    by (auto simp: sys_createExcl_def lookup_ent key_ent
        split: option.splits prod.splits if_splits intro!: dirStep_upd)
qed

lemma fchmod_dir:
  assumes "sys_fchmod (joinPath [dir, n]) m w = (r, w')" "plainDir dir w" "simpleName n"
    "ent dir w n = Some i"
  shows "r = Inl e \<Longrightarrow> dirStep dir w w' (ent dir w)"
    and "r = Inr u \<Longrightarrow> dirStep dir w w' ((ent dir w)(n \<mapsto> i\<lparr>perm := m\<rparr>))"
proof -
  have e: "sameEnv w w'" by (rule fchmod.env [OF assms(1)])
  show "r = Inl e \<Longrightarrow> dirStep dir w w' (ent dir w)"
    "r = Inr u \<Longrightarrow> dirStep dir w w' ((ent dir w)(n \<mapsto> i\<lparr>perm := m\<rparr>))"
    using assms e
    by (auto simp: sys_fchmod_def lookup_ent key_ent
        split: option.splits prod.splits intro!: dirStep_upd dirStep_ro)
qed

lemma write_dir:
  assumes "sys_write (joinPath [dir, n]) txt w = (r, w')" "plainDir dir w" "simpleName n"
    "ent dir w n = Some i"
  shows "r = Inl e \<Longrightarrow> \<exists>d. dirStep dir w w' ((ent dir w)(n \<mapsto> i\<lparr>data := d\<rparr>))"
    and "r = Inr u \<Longrightarrow> dirStep dir w w' ((ent dir w)(n \<mapsto> i\<lparr>data := data i @ txt\<rparr>))"
proof -
  have e: "sameEnv w w'" by (rule writeTo.env [OF assms(1)])
  have k: "kernel w (keyOf w (joinPath [dir, n])) = None"
    using assms(2,3) key_ent [OF assms(2,3)] by (simp add: plainDir_def)
  show "\<exists>d. dirStep dir w w' ((ent dir w)(n \<mapsto> i\<lparr>data := d\<rparr>))" if "r = Inl e"
    using assms e k that
    by (auto simp: sys_write_def lookup_ent key_ent
        split: option.splits prod.splits intro!: dirStep_upd exI)
  show "dirStep dir w w' ((ent dir w)(n \<mapsto> i\<lparr>data := data i @ txt\<rparr>))" if "r = Inr u"
    using assms e k that
    by (auto simp: sys_write_def lookup_ent key_ent
        split: option.splits prod.splits intro!: dirStep_upd)
qed

section \<open>The renaming interface\<close>

text \<open>
  What the transactional writer relies on of the function it is given to rename with: a
  refused rename changes nothing, a successful one moves the inode.
\<close>

locale renamer =
  fixes rename :: "string \<Rightarrow> string \<Rightarrow> world \<Rightarrow> unit res \<times> world"
  assumes ren_env: "rename a b w = (r, w') \<Longrightarrow> sameEnv w w'"
    and ren_err: "rename a b w = (Inl e, w') \<Longrightarrow> tree w' = tree w"
    and ren_ok: "rename a b w = (Inr u, w') \<Longrightarrow>
      \<exists>i. lookup w a = Some i \<and> tree w' = (tree w)(keyOf w a := None, keyOf w b := Some i)"
begin

lemma ren_err_dir: "rename a b w = (Inl e, w') \<Longrightarrow> dirStep dir w w' (ent dir w)"
  by (rule dirStep_ro [OF ren_env ren_err])

lemma ren_ok_dir:
  assumes "rename (joinPath [dir, n]) (joinPath [dir, m]) w = (Inr u, w')"
    "plainDir dir w" "simpleName n" "simpleName m"
  obtains i where "ent dir w n = Some i" "dirStep dir w w' ((ent dir w)(n := None, m \<mapsto> i))"
  using ren_ok [OF assms(1)] ren_env [OF assms(1)] assms(2-)
  by (auto simp: lookup_ent key_ent intro!: dirStep_upd2)

end

interpretation os_rename: renamer sys_rename
proof (unfold_locales, goal_cases)
  case (1 a b w r w')
  then show ?case by (rule rename.env)
next
  case (2 a b w e w')
  then show ?case by (auto simp: sys_rename_def split: option.splits prod.splits if_splits)
next
  case (3 a b w u w')
  then show ?case by (auto simp: sys_rename_def split: option.splits prod.splits if_splits)
qed

end
