(* ===== verification/AtomicProof.thy ===== *)
theory AtomicProof
  imports AtomicWrite DirView
begin

text \<open>
  The transaction argument for internal/secret/atomic.go. The invariant relates the directory
  before the batch (\<open>h0\<close>), the directory now (\<open>h\<close>) and the bookkeeping of each staged file:
  where its old inode is, where its new one is, and that nothing else changed but for
  temporary files. Each step of the run keeps it; rollback and commit are read off it.
\<close>

section \<open>Names of a batch\<close>

definition isTempOf :: "outfile \<Rightarrow> string \<Rightarrow> bool" where
  "isTempOf f t = (\<exists>s. length s = 8 \<and> t = tempName f s)"

definition bakName :: "string \<Rightarrow> string" where
  "bakName n = n @ ''.backup''"

text \<open>
  No file of the batch is hidden (temporary names are), and none is called like the backup
  of another. The batches of the program satisfy it.
\<close>

definition batch_ok :: "outfile list \<Rightarrow> bool" where
  "batch_ok files =
     ((\<forall>f \<in> set files. take 1 (fname f) \<noteq> ''.'') \<and>
      (\<forall>f \<in> set files. \<forall>g \<in> set files. fname f \<noteq> bakName (fname g)))"

lemma length_hexEncode [simp]: "length (hexEncode s) = 2 * length s"
  by (induction s) (simp_all add: hexEncode_def hexByte_def)

lemma hexDigit_not_slash: "i < 16 \<Longrightarrow> hexDigits ! i \<noteq> slash"
proof -
  assume "i < 16"
  then have "hexDigits ! i \<in> set hexDigits" by (intro nth_mem) (simp add: hexDigits_def)
  moreover have "slash \<notin> set hexDigits" by (simp add: hexDigits_def slash_def)
  ultimately show ?thesis by metis
qed

lemma slash_hexByte: "slash \<notin> set (hexByte c)"
proof -
  have "byte c div 16 < 16" using byte_less [of c] by (simp add: less_mult_imp_div_less)
  then show ?thesis
    using hexDigit_not_slash [of "byte c div 16"] hexDigit_not_slash [of "byte c mod 16"]
    by (auto simp: hexByte_def)
qed

lemma slash_hexEncode: "slash \<notin> set (hexEncode s)"
  using slash_hexByte by (auto simp: hexEncode_def)

lemma tempName_simple: "slash \<notin> set (fname f) \<Longrightarrow> simpleName (tempName f s)"
  by (auto simp: simpleName_def tempName_def slash_hexEncode) (simp_all add: slash_def)

lemma tempName_inj:
  assumes "tempName f s = tempName g t" "length s = length t"
  shows "fname f = fname g"
proof -
  have "(fname f @ ''.tmp-'') @ hexEncode s = (fname g @ ''.tmp-'') @ hexEncode t"
    using assms(1) by (simp add: tempName_def)
  then show ?thesis using assms(2) by (metis append_eq_append_conv length_hexEncode)
qed

lemma isTempOf_inj: "isTempOf f t \<Longrightarrow> isTempOf g t \<Longrightarrow> fname f = fname g"
  unfolding isTempOf_def using tempName_inj by metis

lemma isTempOf_hd: "isTempOf f t \<Longrightarrow> take 1 t = ''.''"
  by (auto simp: isTempOf_def tempName_def)

lemma bakName_hd: "n \<noteq> [] \<Longrightarrow> take 1 (bakName n) = take 1 n"
  by (cases n) (simp_all add: bakName_def)

lemma bakName_neq [simp]: "bakName n \<noteq> n" "n \<noteq> bakName n"
  by (simp_all add: bakName_def)

lemma bakName_inj [simp]: "bakName n = bakName m \<longleftrightarrow> n = m"
  by (simp add: bakName_def)

lemma simple_bakName: "simpleName n \<Longrightarrow> simpleName (bakName n)"
  by (auto simp: simpleName_def bakName_def slash_def)

text \<open>The backup path of a target is the path of the backup name.\<close>

lemma backup_path:
  assumes "d \<noteq> []" "simpleName n"
  shows "joinPath [d, n] @ ''.backup'' = joinPath [d, bakName n]"
proof -
  have s: "stackOf (d @ slash # bakName n) = bakName n # stackOf d"
    "stackOf (d @ slash # n) = n # stackOf d"
    using assms simple_bakName by (simp_all add: stackOf_join)
  have "joinWith ''/'' (xs @ [n]) @ ''.backup'' = joinWith ''/'' (xs @ [bakName n])" for xs
    by (cases "xs = []") (simp_all add: joinWith_append1 bakName_def)
  then show ?thesis using assms s
    by (simp add: joinPath2 clean_stackOf isAbs_append)
qed

text \<open>The names a file of the batch owns: its target, its backup, its temporary files.\<close>

definition mine :: "outfile \<Rightarrow> string set" where
  "mine f = {fname f, bakName (fname f)} \<union> {t. isTempOf f t}"

lemma mine_disjoint:
  assumes "batch_ok files" "f \<in> set files" "g \<in> set files" "fname f \<noteq> fname g"
    "fname f \<noteq> []" "fname g \<noteq> []"
  shows "mine f \<inter> mine g = {}"
proof -
  have n: "fname f \<noteq> bakName (fname g)" "fname g \<noteq> bakName (fname f)"
    "take 1 (fname f) \<noteq> ''.''" "take 1 (fname g) \<noteq> ''.''"
    using assms by (auto simp: batch_ok_def)
  have t: "\<not> isTempOf g (fname f)" "\<not> isTempOf f (fname g)"
    "\<not> isTempOf g (bakName (fname f))" "\<not> isTempOf f (bakName (fname g))"
    using n assms(5,6) isTempOf_hd bakName_hd by metis+
  show ?thesis using n t assms(4) isTempOf_inj [of f _ g] by (auto simp: mine_def)
qed

section \<open>The invariant\<close>

abbreviation nm :: "stagedFile \<Rightarrow> string" where
  "nm st \<equiv> fname (sf_file st)"

definition newNode :: "nat \<Rightarrow> outfile \<Rightarrow> inode" where
  "newNode u f = \<lparr>kind = RegularFile, perm = fmode f, uid = u, data = fdata f\<rparr>"

definition shapeOK :: "string \<Rightarrow> bool \<Rightarrow> stagedFile \<Rightarrow> bool" where
  "shapeOK dir force st =
     (simpleName (nm st) \<and> sf_target st = joinPath [dir, nm st] \<and>
      (force \<longrightarrow> sf_backup st = joinPath [dir, bakName (nm st)]) \<and>
      (sf_hadTarget st \<longrightarrow> force))"

definition slotOK ::
  "nat \<Rightarrow> (string \<Rightarrow> inode option) \<Rightarrow> (string \<Rightarrow> inode option) \<Rightarrow> stagedFile \<Rightarrow> bool" where
  "slotOK u h0 h st =
     (h (nm st) = (if sf_installed st then Some (newNode u (sf_file st))
                   else if sf_hadTarget st then None else h0 (nm st)) \<and>
      h (bakName (nm st)) = (if sf_hadTarget st then h0 (nm st) else h0 (bakName (nm st))) \<and>
      (sf_hadTarget st \<longrightarrow> h0 (nm st) \<noteq> None \<and> h0 (bakName (nm st)) = None) \<and>
      (sf_installed st \<and> \<not> sf_hadTarget st \<longrightarrow> h0 (nm st) = None))"

definition tempOK ::
  "string \<Rightarrow> nat \<Rightarrow> (string \<Rightarrow> inode option) \<Rightarrow> (string \<Rightarrow> inode option) \<Rightarrow> stagedFile \<Rightarrow> bool" where
  "tempOK dir u h0 h st =
     (sf_temp st \<noteq> [] \<longrightarrow>
        (\<exists>t. sf_temp st = joinPath [dir, t] \<and> isTempOf (sf_file st) t \<and> h0 t = None \<and>
             h t = Some (newNode u (sf_file st))))"

definition othersOK ::
  "outfile list \<Rightarrow> (string \<Rightarrow> inode option) \<Rightarrow> (string \<Rightarrow> inode option) \<Rightarrow> bool" where
  "othersOK files h0 h =
     (\<forall>n. n \<notin> fname ` set files \<and> n \<notin> bakName ` fname ` set files \<longrightarrow>
        h n = h0 n \<or> (h0 n = None \<and> (\<exists>f \<in> set files. isTempOf f n)))"

definition batchInv ::
  "string \<Rightarrow> bool \<Rightarrow> nat \<Rightarrow> (string \<Rightarrow> inode option) \<Rightarrow> (string \<Rightarrow> inode option) \<Rightarrow>
     stagedFile list \<Rightarrow> bool" where
  "batchInv dir force u h0 h sts =
     (distinct (map nm sts) \<and> batch_ok (map sf_file sts) \<and>
      (\<forall>st \<in> set sts. shapeOK dir force st \<and> slotOK u h0 h st \<and> tempOK dir u h0 h st) \<and>
      othersOK (map sf_file sts) h0 h)"

lemma simpleName_nonempty: "simpleName n \<Longrightarrow> n \<noteq> []"
  by (simp add: simpleName_def)

lemma batchInv_mem:
  "batchInv dir force u h0 h sts \<Longrightarrow> st \<in> set sts \<Longrightarrow>
     shapeOK dir force st \<and> slotOK u h0 h st \<and> tempOK dir u h0 h st"
  by (simp add: batchInv_def)

lemma slot_cong:
  "(\<And>n. n \<in> mine (sf_file st) \<Longrightarrow> h' n = h n) \<Longrightarrow> slotOK u h0 h' st = slotOK u h0 h st"
  by (simp add: slotOK_def mine_def)

lemma temp_cong:
  "(\<And>n. n \<in> mine (sf_file st) \<Longrightarrow> h' n = h n) \<Longrightarrow> tempOK dir u h0 h' st = tempOK dir u h0 h st"
  unfolding tempOK_def by (rule imp_cong [OF refl]) (metis (mono_tags, lifting) UnCI mem_Collect_eq mine_def)

text \<open>A step that touches only what one staged file owns keeps the invariant of the others.\<close>

lemma batchInv_step:
  assumes inv: "batchInv dir force u h0 h (pre @ st # post)"
    and same: "\<And>n. n \<notin> mine (sf_file st) \<Longrightarrow> h' n = h n"
    and fl: "sf_file st' = sf_file st"
    and ok: "shapeOK dir force st'" "slotOK u h0 h' st'" "tempOK dir u h0 h' st'"
    and temps: "\<And>t. isTempOf (sf_file st) t \<Longrightarrow> h' t = h0 t \<or> h0 t = None"
  shows "batchInv dir force u h0 h' (pre @ st' # post)"
proof -
  let ?S = "pre @ st # post"
  have files: "map sf_file (pre @ st' # post) = map sf_file ?S" using fl by simp
  have bok: "batch_ok (map sf_file ?S)" "distinct (map nm ?S)" using inv by (auto simp: batchInv_def)
  have st: "st \<in> set ?S" by simp
  have rest: "shapeOK dir force x \<and> slotOK u h0 h' x \<and> tempOK dir u h0 h' x"
    if "x \<in> set (pre @ post)" for x
  proof -
    have x: "x \<in> set ?S" using that by auto
    have "nm x \<noteq> nm st" using bok(2) that by (auto simp: image_iff)
    then have "mine (sf_file x) \<inter> mine (sf_file st) = {}"
      using mine_disjoint [OF bok(1), of "sf_file x" "sf_file st"] x st
        batchInv_mem [OF inv x] batchInv_mem [OF inv st] simpleName_nonempty
      by (auto simp: shapeOK_def)
    then have "h' n = h n" if "n \<in> mine (sf_file x)" for n using same that by blast
    then show ?thesis using batchInv_mem [OF inv x] slot_cong [of x h' h] temp_cong [of x h' h]
      by simp
  qed
  have others: "othersOK (map sf_file ?S) h0 h'"
  proof -
    have o: "othersOK (map sf_file ?S) h0 h" using inv by (simp add: batchInv_def)
    show ?thesis unfolding othersOK_def
    proof (intro allI impI)
      fix n
      assume n: "n \<notin> fname ` set (map sf_file ?S) \<and> n \<notin> bakName ` fname ` set (map sf_file ?S)"
      show "h' n = h0 n \<or> h0 n = None \<and> (\<exists>f \<in> set (map sf_file ?S). isTempOf f n)"
      proof (cases "isTempOf (sf_file st) n")
        case True
        then show ?thesis using temps by auto
      next
        case False
        then have "n \<notin> mine (sf_file st)" using n by (auto simp: mine_def)
        then have "h' n = h n" by (rule same)
        then show ?thesis using o n by (simp only: othersOK_def) blast
      qed
    qed
  qed
  show ?thesis unfolding batchInv_def files
    using bok others rest ok fl by (auto simp: fl)
qed

section \<open>Temporary files\<close>

lemma tempName_isTempOf: "length s = 8 \<Longrightarrow> isTempOf f (tempName f s)"
  by (auto simp: isTempOf_def)

text \<open>
  A run that changes one fresh entry only: the map now differs from the first one at that
  name alone.
\<close>

definition oneEntry :: "string \<Rightarrow> world \<Rightarrow> world \<Rightarrow> string \<Rightarrow> inode option \<Rightarrow> bool" where
  "oneEntry dir w w' t i = dirStep dir w w' ((ent dir w)(t := i))"

lemma oneEntry_trans:
  assumes "oneEntry dir a b t i" "oneEntry dir b c t j"
  shows "oneEntry dir a c t j"
proof -
  have "ent dir b = (ent dir a)(t := i)"
    using assms(1) by (simp add: oneEntry_def dirStep_ent)
  then have "dirStep dir b c ((ent dir a)(t := j))" using assms(2) by (simp add: oneEntry_def)
  then show ?thesis using assms(1) unfolding oneEntry_def by (rule dirStep_trans [rotated])
qed

lemma oneEntry_same: "dirStep dir a b (ent dir a) \<Longrightarrow> ent dir a t = i \<Longrightarrow> oneEntry dir a b t i"
  by (auto simp: oneEntry_def fun_upd_idem)

lemma oneEntry_at: "oneEntry dir a b t i \<Longrightarrow> ent dir b t = i"
  by (simp add: oneEntry_def dirStep_ent)

lemma oneEntry_plain: "oneEntry dir a b t i \<Longrightarrow> plainDir dir a \<Longrightarrow> plainDir dir b"
  unfolding oneEntry_def by (rule dirStep_plain)

lemma dropTemp_entry:
  assumes "plainDir dir w" "simpleName t"
  shows "\<exists>i. oneEntry dir w (dropTemp (joinPath [dir, t]) w) t i"
proof -
  let ?p = "joinPath [dir, t]"
  obtain r1 w1 where f: "sys_flush ''close'' ?p w = (r1, w1)" by fastforce
  obtain r2 w2 where rm: "sys_remove ?p w1 = (r2, w2)" by fastforce
  have s1: "dirStep dir w w1 (ent dir w)" by (rule flush_dir [OF f])
  have p1: "plainDir dir w1" by (rule dirStep_plain [OF s1 assms(1)])
  obtain i where "dirStep dir w1 w2 ((ent dir w1)(t := i))"
    using remove_dir_any [OF rm p1 assms(2)] by blast
  then have "oneEntry dir w w2 t i"
    using dirStep_trans [OF s1] dirStep_ent [OF s1] by (simp add: oneEntry_def)
  then show ?thesis using f rm by (auto simp: dropTemp_def)
qed

text \<open>Filling the created file: the new inode on success, some entry or none otherwise.\<close>

lemma fillTemp_entry:
  assumes run: "fillTemp (joinPath [dir, t]) f w = (r, w')"
    and pd: "plainDir dir w" and st: "simpleName t"
    and e0: "ent dir w t = Some i" "kind i = RegularFile" "data i = []" "uid i = euid w"
  shows "\<exists>j. oneEntry dir w w' t j \<and>
    (\<forall>x. r = Inr x \<longrightarrow> x = joinPath [dir, t] \<and> j = Some (newNode (euid w) f))"
proof -
  let ?p = "joinPath [dir, t]"
  have drop: "\<exists>j. oneEntry dir w (dropTemp ?p v) t j" if "oneEntry dir w v t k" for v k
    using dropTemp_entry [OF oneEntry_plain [OF that pd] st] oneEntry_trans [OF that] by blast
  obtain r1 w1 where c1: "sys_fchmod ?p (fmode f) w = (r1, w1)" by fastforce
  show ?thesis
  proof (cases r1)
    case (Inl e)
    have "oneEntry dir w w1 t (Some i)"
      using fchmod_dir(1) [OF c1 pd st e0(1) Inl] e0(1) by (rule oneEntry_same)
    then show ?thesis using drop run c1 Inl by (auto simp: fillTemp_def)
  next
    case (Inr u1)
    let ?i1 = "i\<lparr>perm := fmode f\<rparr>"
    have s1: "oneEntry dir w w1 t (Some ?i1)"
      using fchmod_dir(2) [OF c1 pd st e0(1) Inr] by (simp add: oneEntry_def)
    note p1 = oneEntry_plain [OF s1 pd] and e1 = oneEntry_at [OF s1]
    obtain r2 w2 where c2: "sys_write ?p (fdata f) w1 = (r2, w2)" by fastforce
    show ?thesis
    proof (cases r2)
      case (Inl e)
      obtain k where "oneEntry dir w1 w2 t k"
        using write_dir(1) [OF c2 p1 st e1 Inl] by (auto simp: oneEntry_def)
      then have "oneEntry dir w w2 t k" by (rule oneEntry_trans [OF s1])
      then show ?thesis using drop run c1 c2 Inr Inl
        by (auto simp: fillTemp_def)
    next
      case i2: (Inr u2)
      let ?i2 = "?i1\<lparr>data := data ?i1 @ fdata f\<rparr>"
      have n2: "?i2 = newNode (euid w) f" using e0 by (cases i) (simp add: newNode_def)
      have "oneEntry dir w1 w2 t (Some ?i2)"
        using write_dir(2) [OF c2 p1 st e1 i2] by (simp add: oneEntry_def)
      then have s2: "oneEntry dir w w2 t (Some ?i2)" by (rule oneEntry_trans [OF s1])
      obtain r3 w3 where c3: "sys_flush ''sync'' ?p w2 = (r3, w3)" by fastforce
      have s3: "oneEntry dir w w3 t (Some ?i2)"
        by (rule oneEntry_trans [OF s2 oneEntry_same [OF flush_dir [OF c3] oneEntry_at [OF s2]]])
      obtain r4 w4 where c4: "sys_flush ''close'' ?p w3 = (r4, w4)" by fastforce
      have s4: "oneEntry dir w w4 t (Some ?i2)"
        by (rule oneEntry_trans [OF s3 oneEntry_same [OF flush_dir [OF c4] oneEntry_at [OF s3]]])
      show ?thesis using run c1 c2 c3 c4 Inr i2 drop [OF s3] drop [OF s4] s4 [unfolded n2]
        by (cases r3; cases r4) (auto simp: fillTemp_def)
    qed
  qed
qed

lemma writeTemp_entry:
  assumes run: "writeTemp dir f w = (r, w')" and pd: "plainDir dir w"
    and nf: "slash \<notin> set (fname f)"
  obtains (failed) t j where "isTempOf f t" "ent dir w t = None" "oneEntry dir w w' t j" "\<not> is_ok r"
  | (same) "dirStep dir w w' (ent dir w)" "\<not> is_ok r"
  | (written) t where "isTempOf f t" "simpleName t" "ent dir w t = None" "r = Inr (joinPath [dir, t])"
      "oneEntry dir w w' t (Some (newNode (euid w) f))"
proof -
  obtain r1 w1 where c1: "sys_rand 8 w = (r1, w1)" by fastforce
  have s1: "dirStep dir w w1 (ent dir w)" by (rule dirStep_ro [OF rand.env rand.fs_same]) (rule c1)+
  show ?thesis
  proof (cases r1)
    case (Inl e)
    then show ?thesis using same run c1 s1 by (auto simp: writeTemp_def)
  next
    case (Inr sfx)
    have len: "length sfx = 8"
      using c1 Inr by (auto simp: sys_rand_def split: option.splits prod.splits)
    let ?t = "tempName f sfx" let ?p = "joinPath [dir, ?t]"
    have t: "isTempOf f ?t" "simpleName ?t"
      using len nf by (simp_all add: tempName_isTempOf tempName_simple)
    note p1 = dirStep_plain [OF s1 pd]
    obtain r2 w2 where c2: "sys_createExcl ?p (fmode f) w1 = (r2, w2)" by fastforce
    show ?thesis
    proof (cases r2)
      case (Inl e)
      have "dirStep dir w w2 (ent dir w)"
        using dirStep_trans [OF s1 createExcl_dir(1) [OF c2 p1 t(2) Inl]] dirStep_ent [OF s1] by simp
      then show ?thesis using same run c1 c2 Inr Inl
        by (auto simp: writeTemp_def Let_def)
    next
      case i2: (Inr u2)
      let ?i = "\<lparr>kind = RegularFile, perm = and (fmode f) (not (umask w1)), uid = euid w1, data = []\<rparr>"
      have c: "ent dir w1 ?t = None" "dirStep dir w1 w2 ((ent dir w1)(?t \<mapsto> ?i))"
        using createExcl_dir(2) [OF c2 p1 t(2) i2] by auto
      have s2: "oneEntry dir w w2 ?t (Some ?i)"
        using dirStep_trans [OF s1 c(2)] dirStep_ent [OF s1] by (simp add: oneEntry_def)
      have u: "euid w1 = euid w" "euid w2 = euid w"
        using dirStep_euid [OF s1] dirStep_euid [OF c(2)] by simp_all
      have fill: "fillTemp ?p f w2 = (r, w')"
        using run c1 c2 Inr i2 by (simp add: writeTemp_def Let_def)
      obtain j where j: "oneEntry dir w2 w' ?t j"
        "\<forall>x. r = Inr x \<longrightarrow> x = ?p \<and> j = Some (newNode (euid w2) f)"
        using fillTemp_entry [OF fill oneEntry_plain [OF s2 pd] t(2) oneEntry_at [OF s2]] u by auto
      have s3: "oneEntry dir w w' ?t j" by (rule oneEntry_trans [OF s2 j(1)])
      have n0: "ent dir w ?t = None" using c(1) dirStep_ent [OF s1] by simp
      show ?thesis
      proof (cases r)
        case (Inl e)
        then show ?thesis using failed [OF t(1) n0 s3] by simp
      next
        case (Inr x)
        then show ?thesis using written [OF t n0] j(2) s3 u by simp
      qed
    qed
  qed
qed

section \<open>Keeping the invariant\<close>

lemma temp_not_slot:
  assumes "batch_ok files" "f \<in> set files" "isTempOf f t" "\<forall>g \<in> set files. fname g \<noteq> []"
  shows "t \<notin> fname ` set files" "t \<notin> bakName ` fname ` set files"
proof -
  have h: "take 1 (fname g) \<noteq> ''.''" "take 1 (bakName (fname g)) \<noteq> ''.''" if "g \<in> set files" for g
    using assms(1,4) that bakName_hd by (auto simp: batch_ok_def)
  note hd = isTempOf_hd [OF assms(3)]
  show "t \<notin> fname ` set files"
  proof
    assume "t \<in> fname ` set files"
    then obtain g where "g \<in> set files" "t = fname g" by blast
    then show False using h(1) [of g] hd by simp
  qed
  show "t \<notin> bakName ` fname ` set files"
  proof
    assume "t \<in> bakName ` fname ` set files"
    then obtain g where "g \<in> set files" "t = bakName (fname g)" by blast
    then show False using h(2) [of g] hd by simp
  qed
qed

lemma batchInv_temp_fresh:
  assumes inv: "batchInv dir force u h0 h sts" and st: "st \<in> set sts"
    and t: "isTempOf (sf_file st) t"
  shows "t \<noteq> nm st" "t \<noteq> bakName (nm st)" "h t = h0 t \<or> h0 t = None"
proof -
  have ne: "\<forall>g \<in> set (map sf_file sts). fname g \<noteq> []"
    using batchInv_mem [OF inv] simpleName_nonempty by (auto simp: shapeOK_def)
  have bok: "batch_ok (map sf_file sts)" using inv by (simp add: batchInv_def)
  have fm: "sf_file st \<in> set (map sf_file sts)" using st by simp
  note ns = temp_not_slot [OF bok fm t ne]
  show "t \<noteq> nm st" using ns(1) imageI [OF fm, of fname] by metis
  show "t \<noteq> bakName (nm st)" using ns(2) imageI [OF imageI [OF fm], of bakName fname] by metis
  have "othersOK (map sf_file sts) h0 h" using inv by (simp add: batchInv_def)
  then show "h t = h0 t \<or> h0 t = None" using ns by (auto simp only: othersOK_def)
qed

lemma temp_in_mine: "isTempOf f t \<Longrightarrow> t \<in> mine f"
  by (simp add: mine_def)

lemma slot_in_mine [simp]: "fname f \<in> mine f" "bakName (fname f) \<in> mine f"
  by (simp_all add: mine_def)

text \<open>One more temporary file of \<open>st\<close>, recorded or left behind.\<close>

lemma batchInv_addTemp:
  assumes inv: "batchInv dir force u h0 h (pre @ st # post)"
    and t: "isTempOf (sf_file st) t" "h t = None"
    and st: "\<not> sf_installed st" "\<not> sf_hadTarget st"
    and p: "p = [] \<or> (p = joinPath [dir, t] \<and> i = Some (newNode u (sf_file st)))"
  shows "batchInv dir force u h0 (h(t := i)) (pre @ st\<lparr>sf_temp := p\<rparr> # post)"
proof (rule batchInv_step [OF inv])
  have m: "st \<in> set (pre @ st # post)" by simp
  note fr = batchInv_temp_fresh [OF inv m t(1)] and mem = batchInv_mem [OF inv m]
  show "(h(t := i)) n = h n" if "n \<notin> mine (sf_file st)" for n
    using that temp_in_mine [OF t(1)] by auto
  show "shapeOK dir force (st\<lparr>sf_temp := p\<rparr>)" using mem by (simp add: shapeOK_def)
  show "slotOK u h0 (h(t := i)) (st\<lparr>sf_temp := p\<rparr>)" using mem fr(1,2) by (simp add: slotOK_def)
  show "tempOK dir u h0 (h(t := i)) (st\<lparr>sf_temp := p\<rparr>)"
  proof (cases "p = []")
    case False
    then have "p = joinPath [dir, t]" "i = Some (newNode u (sf_file st))" using p by blast+
    moreover have "h0 t = None" using fr(3) t(2) by auto
    ultimately show ?thesis using t(1)
      unfolding tempOK_def by (intro impI exI [of _ t]) simp
  qed (simp add: tempOK_def)
  show "(h(t := i)) t' = h0 t' \<or> h0 t' = None" if "isTempOf (sf_file st) t'" for t'
    using fr(3) t(2) batchInv_temp_fresh(3) [OF inv m that] by (cases "t' = t") auto
qed simp

lemma shape_slash: "shapeOK dir force st \<Longrightarrow> slash \<notin> set (nm st)"
  by (simp add: shapeOK_def simpleName_def)

definition untouched :: "stagedFile \<Rightarrow> bool" where
  "untouched st = (\<not> sf_installed st \<and> \<not> sf_hadTarget st)"

text \<open>
  Every entry that differs from before is a file of the batch or a recorded temporary file:
  a run without failures leaves nothing else.
\<close>

definition accounted ::
  "string \<Rightarrow> (string \<Rightarrow> inode option) \<Rightarrow> (string \<Rightarrow> inode option) \<Rightarrow> stagedFile list \<Rightarrow> bool" where
  "accounted dir h0 h sts =
     (\<forall>n. n \<notin> nm ` set sts \<and> n \<notin> bakName ` nm ` set sts \<and> simpleName n \<and>
          h n \<noteq> h0 n \<longrightarrow>
        (\<exists>st \<in> set sts. sf_temp st = joinPath [dir, n]))"

lemma accounted_record:
  assumes "accounted dir h0 h (pre @ st # post)" "sf_temp st = []" "dir \<noteq> []"
  shows "accounted dir h0 (h(t := i)) (pre @ st\<lparr>sf_temp := joinPath [dir, t]\<rparr> # post)"
proof -
  have j: "joinPath [dir, n] \<noteq> []" for n using assms(3) by (rule joinPath2_nonempty)
  show ?thesis unfolding accounted_def
  proof (intro allI impI)
    fix n
    let ?S = "pre @ st\<lparr>sf_temp := joinPath [dir, t]\<rparr> # post"
    assume n: "n \<notin> nm ` set ?S \<and> n \<notin> bakName ` nm ` set ?S \<and> simpleName n \<and>
      (h(t := i)) n \<noteq> h0 n"
    show "\<exists>st \<in> set ?S. sf_temp st = joinPath [dir, n]"
    proof (cases "n = t")
      case False
      then have "\<exists>x \<in> set (pre @ st # post). sf_temp x = joinPath [dir, n]"
        using assms(1) n unfolding accounted_def by simp
      then show ?thesis using assms(2) j [of n] by auto
    qed simp
  qed
qed

lemma writeTemps_inv:
  assumes "writeTemps dir S w = ((r, S'), w')" "plainDir dir w"
    "batchInv dir force (euid w) h0 (ent dir w) (pre @ S)"
    "\<And>st. st \<in> set S \<Longrightarrow> untouched st \<and> sf_temp st = []"
  shows "dirStep dir w w' (ent dir w') \<and> batchInv dir force (euid w) h0 (ent dir w') (pre @ S') \<and>
    map sf_file S' = map sf_file S \<and> (\<forall>st \<in> set S'. untouched st) \<and>
    (r = None \<longrightarrow> (\<forall>st \<in> set S'. sf_temp st \<noteq> []) \<and>
       (accounted dir h0 (ent dir w) (pre @ S) \<longrightarrow> accounted dir h0 (ent dir w') (pre @ S')))"
  using assms
proof (induction S arbitrary: w pre S' r w')
  case Nil
  then show ?case by (auto simp: dirStep_refl)
next
  case (Cons st S)
  note inv = Cons.prems(3) and pd = Cons.prems(2)
  have st: "untouched st" "sf_temp st = []" using Cons.prems(4) by simp_all
  have m: "st \<in> set (pre @ st # S)" by simp
  have sl: "slash \<notin> set (nm st)" using batchInv_mem [OF inv m] shape_slash by blast
  obtain r1 w1 where c1: "writeTemp dir (sf_file st) w = (r1, w1)" by fastforce
  from c1 pd sl show ?case
  proof (cases rule: writeTemp_entry)
    case (failed t j)
    then obtain e where "r1 = Inl e" by (cases r1) auto
    then have res: "r = Some e" "S' = st # S" "w' = w1" using Cons.prems(1) c1 by simp_all
    have h: "dirStep dir w w1 ((ent dir w)(t := j))" using failed(3) by (simp add: oneEntry_def)
    have "batchInv dir force (euid w) h0 ((ent dir w)(t := j)) (pre @ st\<lparr>sf_temp := []\<rparr> # S)"
      by (rule batchInv_addTemp [OF inv failed(1,2)]) (use st in \<open>simp_all add: untouched_def\<close>)
    moreover have "st\<lparr>sf_temp := []\<rparr> = st" using st(2) by simp
    ultimately have "batchInv dir force (euid w) h0 (ent dir w1) (pre @ st # S)"
      by (simp only: dirStep_ent [OF h])
    then show ?thesis using res dirStep_self [OF h] Cons.prems(4) by auto
  next
    case same
    then obtain e where "r1 = Inl e" by (cases r1) auto
    then have res: "r = Some e" "S' = st # S" "w' = w1" using Cons.prems(1) c1 by simp_all
    then show ?thesis using same(1) dirStep_ent [OF same(1)] inv Cons.prems(4) by auto
  next
    case (written t)
    let ?p = "joinPath [dir, t]" let ?st = "st\<lparr>sf_temp := joinPath [dir, t]\<rparr>"
    have h: "dirStep dir w w1 ((ent dir w)(t := Some (newNode (euid w) (sf_file st))))"
      using written(5) by (simp add: oneEntry_def)
    have inv1: "batchInv dir force (euid w) h0 (ent dir w1) (pre @ ?st # S)"
      unfolding dirStep_ent [OF h]
      by (rule batchInv_addTemp [OF inv written(1,3)]) (use st in \<open>simp_all add: untouched_def\<close>)
    have u: "euid w1 = euid w" by (rule dirStep_euid [OF h])
    obtain r2 S2 w2 where c2: "writeTemps dir S w1 = ((r2, S2), w2)" by (metis prod.exhaust)
    have res: "r = r2" "S' = ?st # S2" "w' = w2" using Cons.prems(1) c1 c2 written(4) by simp_all
    have "dirStep dir w1 w2 (ent dir w2) \<and> batchInv dir force (euid w1) h0 (ent dir w2) ((pre @ [?st]) @ S2)
        \<and> map sf_file S2 = map sf_file S \<and> (\<forall>st \<in> set S2. untouched st) \<and>
        (r2 = None \<longrightarrow> (\<forall>st \<in> set S2. sf_temp st \<noteq> []) \<and>
          (accounted dir h0 (ent dir w1) ((pre @ [?st]) @ S) \<longrightarrow>
             accounted dir h0 (ent dir w2) ((pre @ [?st]) @ S2)))"
      by (rule Cons.IH [OF c2 dirStep_plain [OF h pd]]) (use inv1 u Cons.prems(4) in auto)
    moreover have d: "dir \<noteq> []" "?p \<noteq> []" using pd joinPath2_nonempty by (auto simp: plainDir_def)
    moreover have "accounted dir h0 (ent dir w1) (pre @ ?st # S)"
      if "accounted dir h0 (ent dir w) (pre @ st # S)"
      unfolding dirStep_ent [OF h] by (rule accounted_record [OF that st(2) d(1)])
    ultimately show ?thesis using res st u dirStep_trans [OF h] by (auto simp: untouched_def)
  qed
qed

text \<open>The recorded temporary file of \<open>f\<close> is gone, and only its slot changed beside.\<close>

definition movedIn :: "string \<Rightarrow> stagedFile \<Rightarrow> world \<Rightarrow> world \<Rightarrow> bool" where
  "movedIn dir f w w' =
     (\<exists>t. sf_temp f = joinPath [dir, t] \<and> simpleName t \<and> ent dir w' t = None \<and>
        (\<forall>n. n \<noteq> t \<and> n \<noteq> nm f \<and> n \<noteq> bakName (nm f) \<longrightarrow> ent dir w' n = ent dir w n))"

text \<open>Two entries of \<open>st\<close> change, and its bookkeeping with them.\<close>

lemma batchInv_move:
  assumes inv: "batchInv dir force u h0 h (pre @ st # post)"
    and ab: "a \<in> mine (sf_file st)" "b \<in> {nm st, bakName (nm st)}"
    and at: "isTempOf (sf_file st) a \<Longrightarrow> h0 a = None"
    and h': "h' = (h(a := None, b \<mapsto> i))"
    and fl: "sf_file st' = sf_file st"
    and ok: "shapeOK dir force st'" "slotOK u h0 h' st'" "tempOK dir u h0 h' st'"
  shows "batchInv dir force u h0 h' (pre @ st' # post)"
proof (rule batchInv_step [OF inv _ fl ok])
  have m: "st \<in> set (pre @ st # post)" by simp
  show "h' n = h n" if "n \<notin> mine (sf_file st)" for n
    using that ab slot_in_mine [of "sf_file st"] unfolding h' by auto
  show "h' t = h0 t \<or> h0 t = None" if t: "isTempOf (sf_file st) t" for t
  proof -
    note fr = batchInv_temp_fresh [OF inv m t]
    have tb: "t \<noteq> b" using fr(1,2) ab(2) by auto
    show ?thesis
    proof (cases "t = a")
      case True
      then show ?thesis using at t by simp
    next
      case False
      then show ?thesis using fr(3) tb unfolding h' by simp
    qed
  qed
qed

context renamer
begin

lemma installTemp_inv:
  assumes run: "installTemp rename f w = ((r, f'), w')" and pd: "plainDir dir w"
    and inv: "batchInv dir force (euid w) h0 (ent dir w) (pre @ f # post)"
    and st: "\<not> sf_installed f" "sf_temp f \<noteq> []" "ent dir w (nm f) = None"
      "sf_hadTarget f \<or> h0 (nm f) = None"
  shows "dirStep dir w w' (ent dir w') \<and>
    batchInv dir force (euid w) h0 (ent dir w') (pre @ f' # post) \<and> sf_file f' = sf_file f \<and>
    (r = None \<longrightarrow> sf_installed f' \<and> sf_temp f' = [] \<and> movedIn dir f w w')"
proof -
  have m: "f \<in> set (pre @ f # post)" by simp
  note mem = batchInv_mem [OF inv m]
  obtain t where t: "sf_temp f = joinPath [dir, t]" "isTempOf (sf_file f) t" "h0 t = None"
    "ent dir w t = Some (newNode (euid w) (sf_file f))"
    using mem st(2) by (auto simp: tempOK_def)
  note fr = batchInv_temp_fresh [OF inv m t(2)]
  have sn: "simpleName t" "simpleName (nm f)" "sf_target f = joinPath [dir, nm f]"
    using ent_simple [OF t(4)] mem by (simp_all add: shapeOK_def)
  obtain r1 w1 where c1: "rename (sf_temp f) (sf_target f) w = (r1, w1)" by fastforce
  show ?thesis
  proof (cases r1)
    case (Inl e)
    have s: "dirStep dir w w1 (ent dir w)" using ren_err_dir c1 Inl by blast
    show ?thesis using run c1 Inl inv s dirStep_ent [OF s] by (auto simp: installTemp_def)
  next
    case (Inr u)
    obtain i where i: "ent dir w t = Some i"
      "dirStep dir w w1 ((ent dir w)(t := None, nm f \<mapsto> i))"
      using ren_ok_dir c1 Inr t(1) sn pd by metis
    let ?f = "f\<lparr>sf_temp := [], sf_installed := True\<rparr>"
    have res: "r = None" "f' = ?f" "w' = w1" using run c1 Inr by (auto simp: installTemp_def)
    have new: "i = newNode (euid w) (sf_file f)" using i(1) t(4) by simp
    have "batchInv dir force (euid w) h0 (ent dir w1) (pre @ ?f # post)"
    proof (rule batchInv_move [OF inv temp_in_mine [OF t(2)] _ t(3) dirStep_ent [OF i(2)]])
      show "shapeOK dir force ?f" using mem by (simp add: shapeOK_def)
      show "slotOK (euid w) h0 (ent dir w1) ?f"
        using mem fr(1,2) st new unfolding dirStep_ent [OF i(2)] by (auto simp: slotOK_def)
      show "tempOK dir (euid w) h0 (ent dir w1) ?f" by (simp add: tempOK_def)
    qed simp_all
    moreover have "movedIn dir f w w1"
      unfolding movedIn_def dirStep_ent [OF i(2)] using t(1) fr(1) sn(1) by (intro exI [of _ t]) auto
    ultimately show ?thesis using res dirStep_self [OF i(2)] by simp
  qed
qed

lemma replaceTarget_inv:
  assumes run: "replaceTarget rename force f w = ((r, f'), w')" and pd: "plainDir dir w"
    and inv: "batchInv dir force (euid w) h0 (ent dir w) (pre @ f # post)"
    and st: "untouched f" "sf_temp f \<noteq> []"
  shows "dirStep dir w w' (ent dir w') \<and>
    batchInv dir force (euid w) h0 (ent dir w') (pre @ f' # post) \<and> sf_file f' = sf_file f \<and>
    (r = None \<longrightarrow> sf_installed f' \<and> sf_temp f' = [] \<and> movedIn dir f w w')"
proof -
  have m: "f \<in> set (pre @ f # post)" by simp
  note mem = batchInv_mem [OF inv m]
  have sn: "simpleName (nm f)" "simpleName (bakName (nm f))" "sf_target f = joinPath [dir, nm f]"
    using mem simple_bakName by (auto simp: shapeOK_def)
  have slot: "ent dir w (nm f) = h0 (nm f)" "ent dir w (bakName (nm f)) = h0 (bakName (nm f))"
    "\<not> sf_installed f" using mem st(1) by (simp_all add: slotOK_def untouched_def)
  have stop: ?thesis if "dirStep dir w w' (ent dir w)" "f' = f" "r \<noteq> None"
    using that inv dirStep_ent [OF that(1)] by auto
  \<comment> \<open>installing over an absent target, after read-only calls\<close>
  have go: ?thesis if s: "dirStep dir w v (ent dir w)" and n: "ent dir w (nm f) = None"
    and i: "installTemp rename f v = ((r, f'), w')" for v
  proof -
    have e: "ent dir v = ent dir w" "euid v = euid w"
      using dirStep_ent [OF s] dirStep_euid [OF s] by simp_all
    show ?thesis
      using installTemp_inv [OF i dirStep_plain [OF s pd], of force h0 pre post]
        inv st slot n e dirStep_trans [OF s] by (auto simp: movedIn_def)
  qed
  show ?thesis
  proof (cases force)
    case False
    obtain r1 w1 where c1: "sys_lstat (sf_target f) w = (r1, w1)" by fastforce
    note l1 = lstat_dir [OF c1 [unfolded sn(3)] pd sn(1)]
    show ?thesis
    proof (cases r1)
      case (Inr i)
      then show ?thesis using stop run c1 l1(1) False by (auto simp: replaceTarget_def)
    next
      case (Inl e)
      then show ?thesis using stop go [OF l1(1) l1(3)] run c1 l1(1) False
        by (auto simp: replaceTarget_def split: if_splits)
    qed
  next
    case force: True
    have bk: "sf_backup f = joinPath [dir, bakName (nm f)]" using mem force by (simp add: shapeOK_def)
    obtain r1 w1 where c1: "sys_lstat (sf_backup f) w = (r1, w1)" by fastforce
    note l1 = lstat_dir [OF c1 [unfolded bk] pd sn(2)]
    obtain r2 w2 where c2: "sys_lstat (sf_target f) w1 = (r2, w2)" by fastforce
    note l2 = lstat_dir [OF c2 [unfolded sn(3)] dirStep_plain [OF l1(1) pd] sn(1)]
    have e1: "ent dir w1 = ent dir w" by (rule dirStep_ent [OF l1(1)])
    have s2: "dirStep dir w w2 (ent dir w)" using dirStep_trans [OF l1(1) l2(1)] e1 by simp
    consider (bad) "\<exists>e. r1 = Inl e \<and> \<not> is_not_exist e" | (found) "is_ok r1"
      | (absent) e where "r1 = Inl e" "is_not_exist e" by (cases r1) auto
    then show ?thesis
    proof cases
      case bad
      then show ?thesis using stop run c1 l1(1) force by (auto simp: replaceTarget_def)
    next
      case found
      then show ?thesis using stop run c1 l1(1) force by (cases r1) (auto simp: replaceTarget_def)
    next
      case (absent e)
      have nob: "ent dir w (bakName (nm f)) = None" by (rule l1(3) [OF absent])
      show ?thesis
      proof (cases r2)
        case (Inl e2)
        then show ?thesis using stop go [OF s2] l2(3) e1 run c1 c2 absent s2 force
          by (auto simp: replaceTarget_def split: if_splits)
      next
        case i2: (Inr i)
        obtain r3 w3 where c3: "rename (sf_target f) (sf_backup f) w2 = (r3, w3)" by fastforce
        show ?thesis
        proof (cases r3)
          case (Inl e3)
          have "dirStep dir w w3 (ent dir w)"
            using dirStep_trans [OF s2 ren_err_dir] c3 Inl dirStep_ent [OF s2] by metis
          then show ?thesis using stop run c1 c2 c3 absent i2 Inl force by (auto simp: replaceTarget_def)
        next
          case (Inr u)
          have p2: "plainDir dir w2" and e2: "ent dir w2 = ent dir w"
            using dirStep_plain [OF s2 pd] dirStep_ent [OF s2] by simp_all
          obtain j where j: "ent dir w2 (nm f) = Some j"
            "dirStep dir w2 w3 ((ent dir w2)(nm f := None, bakName (nm f) \<mapsto> j))"
            using ren_ok_dir c3 Inr sn bk p2 by metis
          have s3: "dirStep dir w w3 ((ent dir w)(nm f := None, bakName (nm f) \<mapsto> j))"
            using dirStep_trans [OF s2 j(2)] e2 by simp
          let ?f = "f\<lparr>sf_hadTarget := True\<rparr>"
          have inv3: "batchInv dir force (euid w) h0 (ent dir w3) (pre @ ?f # post)"
          proof (rule batchInv_move [OF inv slot_in_mine(1) _ _ dirStep_ent [OF s3]])
            show "h0 (nm f) = None" if "isTempOf (sf_file f) (nm f)"
              using batchInv_temp_fresh(1) [OF inv m that] by simp
            show "shapeOK dir force ?f" using mem force by (simp add: shapeOK_def)
            show "slotOK (euid w) h0 (ent dir w3) ?f"
              using slot nob j(1) e2 unfolding dirStep_ent [OF s3] by (simp add: slotOK_def)
            show "tempOK dir (euid w) h0 (ent dir w3) ?f"
              using mem batchInv_temp_fresh(1,2) [OF inv m] unfolding dirStep_ent [OF s3]
              by (auto simp: tempOK_def)
          qed simp_all
          have run3: "installTemp rename ?f w3 = ((r, f'), w')"
            using run c1 c2 c3 absent i2 Inr force by (simp add: replaceTarget_def)
          have u: "euid w3 = euid w" by (rule dirStep_euid [OF s3])
          have i3: "dirStep dir w3 w' (ent dir w') \<and>
              batchInv dir force (euid w3) h0 (ent dir w') (pre @ f' # post) \<and> sf_file f' = sf_file ?f \<and>
              (r = None \<longrightarrow> sf_installed f' \<and> sf_temp f' = [] \<and> movedIn dir ?f w3 w')"
            by (rule installTemp_inv [OF run3 dirStep_plain [OF s3 pd]])
              (use inv3 u st slot in \<open>simp_all add: dirStep_ent [OF s3]\<close>)
          have "movedIn dir f w w'" if "movedIn dir ?f w3 w'"
            using that unfolding movedIn_def dirStep_ent [OF s3] by auto
          then show ?thesis using i3 u dirStep_trans [OF s3] by auto
        qed
      qed
    qed
  qed
qed

lemma accounted_moved:
  assumes a: "accounted dir h0 (ent dir w) (pre @ f # post)" and mv: "movedIn dir f w w'"
    and inv: "batchInv dir force u h0 (ent dir w) (pre @ f # post)"
    and pd: "plainDir dir w" and fl: "sf_file f' = sf_file f"
  shows "accounted dir h0 (ent dir w') (pre @ f' # post)"
proof -
  obtain t where t: "sf_temp f = joinPath [dir, t]" "simpleName t" "ent dir w' t = None"
    "\<And>n. n \<noteq> t \<Longrightarrow> n \<noteq> nm f \<Longrightarrow> n \<noteq> bakName (nm f) \<Longrightarrow> ent dir w' n = ent dir w n"
    using mv unfolding movedIn_def by blast
  have d: "dir \<noteq> []" using pd by (simp add: plainDir_def)
  have "tempOK dir u h0 (ent dir w) f" using batchInv_mem [OF inv] by simp
  then obtain t' where t': "joinPath [dir, t] = joinPath [dir, t']" "h0 t' = None" "simpleName t'"
    using t(1) joinPath2_nonempty [OF d, of t] ent_simple unfolding tempOK_def by metis
  have h0t: "h0 t = None" using joinPath_inj [OF pd t(2) t'(3)] t' by simp
  show ?thesis unfolding accounted_def
  proof (intro allI impI)
    fix n
    let ?S = "pre @ f' # post"
    assume n: "n \<notin> nm ` set ?S \<and> n \<notin> bakName ` nm ` set ?S \<and> simpleName n \<and> ent dir w' n \<noteq> h0 n"
    have nt: "n \<noteq> t" using n t(3) h0t by auto
    then have "ent dir w' n = ent dir w n" using t(4) n fl by simp
    then have "\<exists>x \<in> set (pre @ f # post). sf_temp x = joinPath [dir, n]"
      using a n fl unfolding accounted_def by simp
    then show "\<exists>st \<in> set ?S. sf_temp st = joinPath [dir, n]"
      using t(1) joinPath_inj [OF pd t(2), of n] n nt by auto
  qed
qed

lemma replaceTargets_inv:
  assumes "replaceTargets rename force S w = ((r, S'), w')" "plainDir dir w"
    "batchInv dir force (euid w) h0 (ent dir w) (pre @ S)"
    "\<And>st. st \<in> set S \<Longrightarrow> untouched st \<and> sf_temp st \<noteq> []"
  shows "dirStep dir w w' (ent dir w') \<and> batchInv dir force (euid w) h0 (ent dir w') (pre @ S') \<and>
    map sf_file S' = map sf_file S \<and>
    (r = None \<longrightarrow> (\<forall>st \<in> set S'. sf_installed st \<and> sf_temp st = []) \<and>
       (accounted dir h0 (ent dir w) (pre @ S) \<longrightarrow> accounted dir h0 (ent dir w') (pre @ S')))"
  using assms
proof (induction S arbitrary: w pre S' r w')
  case Nil
  then show ?case by (auto simp: dirStep_refl)
next
  case (Cons f S)
  note inv = Cons.prems(3) and pd = Cons.prems(2)
  have st: "untouched f" "sf_temp f \<noteq> []" using Cons.prems(4) by simp_all
  obtain r1 f1 w1 where c1: "replaceTarget rename force f w = ((r1, f1), w1)" by (metis prod.exhaust)
  note one = replaceTarget_inv [OF c1 pd inv st]
  show ?case
  proof (cases r1)
    case (Some e)
    then show ?thesis using Cons.prems(1) c1 one by auto
  next
    case None
    obtain r2 S2 w2 where c2: "replaceTargets rename force S w1 = ((r2, S2), w2)" by (metis prod.exhaust)
    have res: "r = r2" "S' = f1 # S2" "w' = w2" using Cons.prems(1) c1 c2 None by simp_all
    have u: "euid w1 = euid w" using one dirStep_euid by blast
    have p1: "plainDir dir w1" using one dirStep_plain [OF _ pd] by blast
    have "dirStep dir w1 w2 (ent dir w2) \<and>
        batchInv dir force (euid w1) h0 (ent dir w2) ((pre @ [f1]) @ S2) \<and>
        map sf_file S2 = map sf_file S \<and>
        (r2 = None \<longrightarrow> (\<forall>st \<in> set S2. sf_installed st \<and> sf_temp st = []) \<and>
          (accounted dir h0 (ent dir w1) ((pre @ [f1]) @ S) \<longrightarrow>
             accounted dir h0 (ent dir w2) ((pre @ [f1]) @ S2)))"
      by (rule Cons.IH [OF c2 p1]) (use one u Cons.prems(4) in auto)
    moreover have "accounted dir h0 (ent dir w1) (pre @ f1 # S)"
      if "accounted dir h0 (ent dir w) (pre @ f # S)"
      using accounted_moved [OF that _ inv pd] one None by blast
    moreover have "dirStep dir w w2 (ent dir w2)" if "dirStep dir w1 w2 (ent dir w2)"
      using dirStep_trans [OF _ that] one by blast
    ultimately show ?thesis using res one None u by auto
  qed
qed

end

end
