(* ===== verification/AtomicRollback.thy ===== *)
theory AtomicRollback
  imports AtomicProof
begin

text \<open>
  The ends of the transaction of internal/secret/atomic.go: the rollback loop, the removal of
  temporary files, the verification of the targets and the commit.
\<close>

section \<open>Removing temporary files\<close>

text \<open>A temporary file of a batch that was not there before.\<close>

definition strayTemp :: "outfile list \<Rightarrow> (string \<Rightarrow> inode option) \<Rightarrow> string \<Rightarrow> bool" where
  "strayTemp files h0 n = (h0 n = None \<and> (\<exists>f \<in> set files. isTempOf f n))"

lemma strayTemp_Cons:
  "strayTemp [sf_file st] h0 n \<Longrightarrow> strayTemp (map sf_file (st # S)) h0 n"
  "strayTemp (map sf_file S) h0 n \<Longrightarrow> strayTemp (map sf_file (st # S)) h0 n"
  by (auto simp: strayTemp_def)

lemma cleanupTemps_dir:
  assumes "plainDir dir w" "\<And>st. st \<in> set S \<Longrightarrow> \<exists>h. tempOK dir u h0 h st \<and> (\<forall>n. h n \<noteq> None \<longrightarrow> simpleName n)"
  shows "dirStep dir w (cleanupTemps S w) (ent dir (cleanupTemps S w)) \<and>
    (\<forall>n. ent dir (cleanupTemps S w) n = ent dir w n \<or>
         (ent dir (cleanupTemps S w) n = None \<and> strayTemp (map sf_file S) h0 n))"
  using assms
proof (induction S arbitrary: w)
  case Nil
  then show ?case by (simp add: dirStep_refl)
next
  case (Cons st S)
  let ?w1 = "if sf_temp st \<noteq> [] then snd (sys_remove (sf_temp st) w) else w"
  have one: "dirStep dir w ?w1 (ent dir ?w1) \<and>
      (\<forall>n. ent dir ?w1 n = ent dir w n \<or> (ent dir ?w1 n = None \<and> strayTemp [sf_file st] h0 n))"
  proof (cases "sf_temp st = []")
    case True
    then show ?thesis by (simp add: dirStep_refl)
  next
    case False
    obtain h where h: "tempOK dir u h0 h st" "\<forall>n. h n \<noteq> None \<longrightarrow> simpleName n"
      using Cons.prems(2) [of st] by auto
    obtain t where t: "sf_temp st = joinPath [dir, t]" "isTempOf (sf_file st) t" "h0 t = None" "simpleName t"
      using h False unfolding tempOK_def by (metis option.distinct(1))
    obtain r v where c: "sys_remove (joinPath [dir, t]) w = (r, v)" by fastforce
    obtain i where i: "dirStep dir w v ((ent dir w)(t := i))" "i = None \<or> i = ent dir w t"
      using remove_dir_any [OF c Cons.prems(1) t(4)] by blast
    have "?w1 = v" using False t(1) c by simp
    then show ?thesis using i t dirStep_self [OF i(1)] by (auto simp: dirStep_ent [OF i(1)] strayTemp_def)
  qed
  have p1: "plainDir dir ?w1" using one dirStep_plain [OF _ Cons.prems(1)] by blast
  have rest: "dirStep dir ?w1 (cleanupTemps S ?w1) (ent dir (cleanupTemps S ?w1)) \<and>
    (\<forall>n. ent dir (cleanupTemps S ?w1) n = ent dir ?w1 n \<or>
         (ent dir (cleanupTemps S ?w1) n = None \<and> strayTemp (map sf_file S) h0 n))"
    by (rule Cons.IH [OF p1]) (use Cons.prems(2) in auto)
  have "dirStep dir w (cleanupTemps S ?w1) (ent dir (cleanupTemps S ?w1))"
    using one rest dirStep_trans by blast
  moreover have "ent dir (cleanupTemps S ?w1) n = ent dir w n \<or>
      (ent dir (cleanupTemps S ?w1) n = None \<and> strayTemp (map sf_file (st # S)) h0 n)" for n
  proof -
    have "ent dir ?w1 n = ent dir w n \<or> ent dir ?w1 n = None \<and> strayTemp [sf_file st] h0 n"
      using one by blast
    moreover have "ent dir (cleanupTemps S ?w1) n = ent dir ?w1 n \<or>
        ent dir (cleanupTemps S ?w1) n = None \<and> strayTemp (map sf_file S) h0 n"
      using rest by blast
    ultimately show ?thesis
      using strayTemp_Cons(1) [of st h0 n S] strayTemp_Cons(2) [of S h0 n st] by metis
  qed
  ultimately show ?case by (simp only: cleanupTemps.simps) blast
qed

lemma batch_tempOK:
  "batchInv dir force u h0 (ent dir w) S \<Longrightarrow> st \<in> set S \<Longrightarrow>
     \<exists>h. tempOK dir u h0 h st \<and> (\<forall>n. h n \<noteq> None \<longrightarrow> simpleName n)"
  using batchInv_mem [of dir force u h0 "ent dir w" S st] ent_simple by blast

section \<open>The rollback loop\<close>

text \<open>
  The old inode of a target survives, at its place or as its backup, and so does a file that
  was already called like the backup.
\<close>

definition keptIn :: "(string \<Rightarrow> inode option) \<Rightarrow> (string \<Rightarrow> inode option) \<Rightarrow> string \<Rightarrow> bool" where
  "keptIn h0 h n =
     ((h0 n = None \<or> h n = h0 n \<or> h (bakName n) = h0 n) \<and>
      (h0 (bakName n) = None \<or> h (bakName n) = h0 (bakName n)))"

definition slotRestored ::
  "(string \<Rightarrow> inode option) \<Rightarrow> (string \<Rightarrow> inode option) \<Rightarrow> string \<Rightarrow> bool" where
  "slotRestored h0 h n = (h n = h0 n \<and> h (bakName n) = h0 (bakName n))"

lemma slotRestored_kept: "slotRestored h0 h n \<Longrightarrow> keptIn h0 h n"
  by (simp add: slotRestored_def keptIn_def)

lemma slotOK_kept: "slotOK u h0 h st \<Longrightarrow> keptIn h0 h (nm st)"
  by (auto simp: slotOK_def keptIn_def split: if_splits)

text \<open>What undoing one file achieves, as a relation between the two maps.\<close>

definition undoes ::
  "(string \<Rightarrow> inode option) \<Rightarrow> (string \<Rightarrow> inode option) \<Rightarrow> (string \<Rightarrow> inode option) \<Rightarrow>
     string \<Rightarrow> bool \<Rightarrow> bool" where
  "undoes h0 h h' n ok =
     ((\<forall>k. k \<noteq> n \<and> k \<noteq> bakName n \<longrightarrow> h' k = h k) \<and> keptIn h0 h' n \<and> (ok \<longrightarrow> slotRestored h0 h' n))"

text \<open>The files of one batch own different names, so undoing one does not disturb another.\<close>

definition apart :: "stagedFile list \<Rightarrow> bool" where
  "apart S = (distinct (map nm S) \<and>
     (\<forall>a \<in> set S. \<forall>b \<in> set S. nm a \<noteq> bakName (nm b)))"

context renamer
begin

lemma restoreBackup_dir:
  assumes run: "restoreBackup rename f w = (m, w')" and pd: "plainDir dir w"
    and sh: "shapeOK dir force f" and at: "ent dir w (nm f) = None" "sf_hadTarget f"
    and bk: "ent dir w (bakName (nm f)) = h0 (nm f)" "h0 (bakName (nm f)) = None"
  shows "dirStep dir w w' (ent dir w') \<and> undoes h0 (ent dir w) (ent dir w') (nm f) (m = None)"
proof -
  have sn: "simpleName (nm f)" "simpleName (bakName (nm f))" "sf_target f = joinPath [dir, nm f]"
    "sf_backup f = joinPath [dir, bakName (nm f)]"
    using sh at(2) simple_bakName by (auto simp: shapeOK_def)
  obtain r1 w1 where c1: "rename (sf_backup f) (sf_target f) w = (r1, w1)" by fastforce
  show ?thesis
  proof (cases r1)
    case (Inl e)
    have s: "dirStep dir w w1 (ent dir w)" using ren_err_dir c1 Inl by blast
    have "w' = w1" "m \<noteq> None" using run c1 Inl at(2) by (auto simp: restoreBackup_def)
    then show ?thesis using s bk by (auto simp: dirStep_ent [OF s] undoes_def keptIn_def)
  next
    case (Inr u)
    obtain i where i: "ent dir w (bakName (nm f)) = Some i"
      "dirStep dir w w1 ((ent dir w)(bakName (nm f) := None, nm f \<mapsto> i))"
      using ren_ok_dir c1 Inr sn pd by metis
    have "w' = w1" "m = None" using run c1 Inr at(2) by (auto simp: restoreBackup_def)
    moreover have "undoes h0 (ent dir w) (ent dir w1) (nm f) True"
      using i(1) bk unfolding dirStep_ent [OF i(2)] undoes_def slotRestored_def keptIn_def by auto
    ultimately show ?thesis using dirStep_self [OF i(2)] by simp
  qed
qed

lemma rollbackOne_dir:
  assumes run: "rollbackOne rename f w = (m, w')" and pd: "plainDir dir w"
    and sh: "shapeOK dir force f" and sl: "slotOK u h0 (ent dir w) f"
  shows "dirStep dir w w' (ent dir w') \<and> undoes h0 (ent dir w) (ent dir w') (nm f) (m = None)"
proof (cases "sf_installed f")
  case False
  show ?thesis
  proof (cases "sf_hadTarget f")
    case had: True
    show ?thesis
      by (rule restoreBackup_dir [OF _ pd sh _ had])
        (use run False had sl in \<open>auto simp: rollbackOne_def slotOK_def\<close>)
  next
    case no: False
    then have "m = None" "w' = w" using run False by (simp_all add: rollbackOne_def restoreBackup_def)
    then show ?thesis using sl False no
      by (simp add: dirStep_refl undoes_def slotOK_def slotRestored_def keptIn_def)
  qed
next
  case inst: True
  have sn: "simpleName (nm f)" "sf_target f = joinPath [dir, nm f]" using sh by (auto simp: shapeOK_def)
  have new: "ent dir w (nm f) = Some (newNode u (sf_file f))" using sl inst by (simp add: slotOK_def)
  obtain r1 w1 where c1: "sys_remove (sf_target f) w = (r1, w1)" by fastforce
  note rm = remove_dir [OF c1 [unfolded sn(2)] pd sn(1)]
  show ?thesis
  proof (cases r1)
    case (Inl e)
    then have s: "dirStep dir w w1 (ent dir w)" and ne: "\<not> is_not_exist e"
      using rm(2) [OF Inl] new by auto
    have "w' = w1" "m \<noteq> None" using run c1 Inl inst ne by (auto simp: rollbackOne_def)
    then show ?thesis using s slotOK_kept [OF sl] by (auto simp: dirStep_ent [OF s] undoes_def)
  next
    case (Inr x)
    have s: "dirStep dir w w1 ((ent dir w)(nm f := None))" using rm(1) [OF Inr] by blast
    have run1: "restoreBackup rename f w1 = (m, w')" using run c1 Inr inst by (simp add: rollbackOne_def)
    have e1: "ent dir w1 = (ent dir w)(nm f := None)" by (rule dirStep_ent [OF s])
    show ?thesis
    proof (cases "sf_hadTarget f")
      case had: True
      have "dirStep dir w1 w' (ent dir w') \<and> undoes h0 (ent dir w1) (ent dir w') (nm f) (m = None)"
        by (rule restoreBackup_dir [OF run1 dirStep_plain [OF s pd] sh _ had])
          (use sl had e1 in \<open>auto simp: slotOK_def\<close>)
      then show ?thesis using dirStep_trans [OF s] e1 by (auto simp: undoes_def)
    next
      case no: False
      then have "m = None" "w' = w1" using run1 by (simp_all add: restoreBackup_def)
      then show ?thesis using sl inst no dirStep_self [OF s] e1
        by (auto simp: undoes_def slotOK_def slotRestored_def keptIn_def)
    qed
  qed
qed

lemma rollbackLoop_dir:
  assumes "rollbackLoop rename S w = (ms, w')" "plainDir dir w" "apart S"
    "\<And>st. st \<in> set S \<Longrightarrow> shapeOK dir force st \<and> slotOK u h0 (ent dir w) st"
  shows "dirStep dir w w' (ent dir w') \<and>
    (\<forall>k. k \<notin> nm ` set S \<and> k \<notin> bakName ` nm ` set S \<longrightarrow> ent dir w' k = ent dir w k) \<and>
    (\<forall>st \<in> set S. keptIn h0 (ent dir w') (nm st) \<and> (ms = [] \<longrightarrow> slotRestored h0 (ent dir w') (nm st)))"
  using assms
proof (induction S arbitrary: w ms w')
  case Nil
  then show ?case by (simp add: dirStep_refl)
next
  case (Cons f S)
  note pd = Cons.prems(2)
  obtain m w1 where c1: "rollbackOne rename f w = (m, w1)" by fastforce
  obtain ms2 w2 where c2: "rollbackLoop rename S w1 = (ms2, w2)" by fastforce
  have res: "w' = w2" "ms = (case m of None \<Rightarrow> ms2 | Some s \<Rightarrow> s # ms2)"
    using Cons.prems(1) c1 c2 by simp_all
  have ff: "shapeOK dir force f" "slotOK u h0 (ent dir w) f" using Cons.prems(4) by auto
  have one: "dirStep dir w w1 (ent dir w1)" "undoes h0 (ent dir w) (ent dir w1) (nm f) (m = None)"
    using rollbackOne_dir [OF c1 pd ff] by auto
  have diff: "nm st \<noteq> nm f" "nm st \<noteq> bakName (nm f)" "bakName (nm st) \<noteq> nm f"
    "bakName (nm st) \<noteq> bakName (nm f)" if "st \<in> set S" for st
    using Cons.prems(3) that by (auto simp: apart_def image_iff)
  have slots: "shapeOK dir force st \<and> slotOK u h0 (ent dir w1) st" if "st \<in> set S" for st
    using Cons.prems(4) [of st] that diff [OF that] one(2) by (auto simp: slotOK_def undoes_def)
  have ap: "apart S" using Cons.prems(3) by (simp add: apart_def)
  have IH: "dirStep dir w1 w2 (ent dir w2)"
    "\<And>k. k \<notin> nm ` set S \<Longrightarrow> k \<notin> bakName ` nm ` set S \<Longrightarrow> ent dir w2 k = ent dir w1 k"
    "\<And>st. st \<in> set S \<Longrightarrow> keptIn h0 (ent dir w2) (nm st)"
    "\<And>st. st \<in> set S \<Longrightarrow> ms2 = [] \<Longrightarrow> slotRestored h0 (ent dir w2) (nm st)"
    using Cons.IH [OF c2 dirStep_plain [OF one(1) pd] ap slots] by blast+
  have keep: "ent dir w2 (nm f) = ent dir w1 (nm f)" "ent dir w2 (bakName (nm f)) = ent dir w1 (bakName (nm f))"
    using diff IH(2) by force+
  have own: "keptIn h0 (ent dir w2) (nm f)" "ms = [] \<Longrightarrow> slotRestored h0 (ent dir w2) (nm f)"
    using one(2) keep res(2) by (auto simp: undoes_def keptIn_def slotRestored_def split: option.splits)
  have fr: "ent dir w2 k = ent dir w k"
    if "k \<notin> nm ` set (f # S)" "k \<notin> bakName ` nm ` set (f # S)" for k
    using that IH(2) [of k] one(2) by (simp add: undoes_def)
  have ms2: "ms = [] \<Longrightarrow> ms2 = []" using res(2) by (auto split: option.splits)
  show ?case using dirStep_trans [OF one(1) IH(1)] own IH(3,4) fr ms2 res(1) by auto
qed

end

section \<open>The outcomes\<close>

definition restoredMap ::
  "outfile list \<Rightarrow> (string \<Rightarrow> inode option) \<Rightarrow> (string \<Rightarrow> inode option) \<Rightarrow> bool" where
  "restoredMap files h0 h = (\<forall>n. h n = h0 n \<or> (strayTemp files h0 n))"

definition keptMap ::
  "outfile list \<Rightarrow> (string \<Rightarrow> inode option) \<Rightarrow> (string \<Rightarrow> inode option) \<Rightarrow> bool" where
  "keptMap files h0 h =
     ((\<forall>f \<in> set files. keptIn h0 h (fname f)) \<and>
      (\<forall>n. n \<notin> fname ` set files \<and> n \<notin> bakName ` fname ` set files \<longrightarrow>
         h n = h0 n \<or> strayTemp files h0 n))"

definition incompleteError :: "error \<Rightarrow> bool" where
  "incompleteError e =
     (case e of Wrap a _ b \<Rightarrow> a = [] \<and> hasPrefix b rollbackIncomplete | _ \<Rightarrow> False)"

definition committedError :: "error \<Rightarrow> bool" where
  "committedError e =
     (case e of
        Wrap a _ _ \<Rightarrow> hasPrefix a ''remove committed-file backup ''
                     \<or> a = ''sync committed output directory: ''
      | _ \<Rightarrow> False)"

lemma hasPrefix_append [simp]: "hasPrefix (p @ q) p"
  by (simp add: hasPrefix_def)

lemma batchInv_names:
  assumes "batchInv dir force u h0 h S"
  shows "batch_ok (map sf_file S)" "\<forall>g \<in> set (map sf_file S). fname g \<noteq> []" "apart S"
proof -
  show b: "batch_ok (map sf_file S)" using assms by (simp add: batchInv_def)
  show "\<forall>g \<in> set (map sf_file S). fname g \<noteq> []"
    using batchInv_mem [OF assms] simpleName_nonempty by (auto simp: shapeOK_def)
  show "apart S" using assms b by (auto simp: apart_def batchInv_def batch_ok_def)
qed

lemma slots_not_stray:
  assumes "batchInv dir force u h0 h S" "st \<in> set S"
  shows "\<not> strayTemp (map sf_file S) h0 (nm st)" "\<not> strayTemp (map sf_file S) h0 (bakName (nm st))"
proof -
  note n = batchInv_names [OF assms(1)]
  have m: "sf_file st \<in> set (map sf_file S)" using assms(2) by simp
  have "nm st \<in> fname ` set (map sf_file S)" "bakName (nm st) \<in> bakName ` fname ` set (map sf_file S)"
    using m by blast+
  then show "\<not> strayTemp (map sf_file S) h0 (nm st)" "\<not> strayTemp (map sf_file S) h0 (bakName (nm st))"
    using temp_not_slot [OF n(1) _ _ n(2)] unfolding strayTemp_def by metis+
qed

lemma batchInv_kept: "batchInv dir force u h0 h S \<Longrightarrow> keptMap (map sf_file S) h0 h"
  unfolding keptMap_def
proof (intro conjI)
  assume inv: "batchInv dir force u h0 h S"
  show "\<forall>f \<in> set (map sf_file S). keptIn h0 h (fname f)"
  proof
    fix f
    assume "f \<in> set (map sf_file S)"
    then obtain st where "st \<in> set S" "f = sf_file st" by auto
    then show "keptIn h0 h (fname f)" using batchInv_mem [OF inv] slotOK_kept by blast
  qed
  have "othersOK (map sf_file S) h0 h" using inv by (simp add: batchInv_def)
  then show "\<forall>n. n \<notin> fname ` set (map sf_file S) \<and> n \<notin> bakName ` fname ` set (map sf_file S) \<longrightarrow>
     h n = h0 n \<or> strayTemp (map sf_file S) h0 n" unfolding othersOK_def strayTemp_def by blast
qed

text \<open>Removing temporary files preserves both.\<close>

lemma kept_cleanup:
  assumes inv: "batchInv dir force u h0 h1 S"
    and k: "keptMap (map sf_file S) h0 h"
    and c: "\<forall>n. h' n = h n \<or> (h' n = None \<and> strayTemp (map sf_file S) h0 n)"
  shows "keptMap (map sf_file S) h0 h'"
proof -
  have s: "h' (nm st) = h (nm st)" "h' (bakName (nm st)) = h (bakName (nm st))" if "st \<in> set S" for st
    using slots_not_stray [OF inv that] c by blast+
  have oth: "h' n = h0 n \<or> strayTemp (map sf_file S) h0 n"
    if "n \<notin> fname ` set (map sf_file S)" "n \<notin> bakName ` fname ` set (map sf_file S)" for n
    using k that c unfolding keptMap_def by metis
  have "keptIn h0 h' (fname f)" if "f \<in> set (map sf_file S)" for f
    using k that s unfolding keptMap_def keptIn_def by auto
  then show ?thesis using oth unfolding keptMap_def by blast
qed

lemma restored_cleanup:
  assumes "restoredMap files h0 h" "\<forall>n. h' n = h n \<or> (h' n = None \<and> strayTemp files h0 n)"
  shows "restoredMap files h0 h'"
  using assms unfolding restoredMap_def by metis

lemma syncDirectory_dir: "syncDirectory d w = (r, w') \<Longrightarrow> dirStep dir w w' (ent dir w)"
proof (rule dirStep_ro)
  assume a: "syncDirectory d w = (r, w')"
  then show "sameEnv w w'"
    by (auto simp: syncDirectory_def split: prod.splits sum.splits
        dest: open_ro.env flush.env intro: sameEnv_trans)
  from a show "tree w' = tree w"
    by (auto simp: syncDirectory_def split: prod.splits sum.splits
        dest!: open_ro.fs_same flush.fs_same)
qed

context renamer
begin

lemma rollbackWrite_dir:
  assumes run: "rollbackWrite dir S rename cause w = (e, w')" and pd: "plainDir dir w"
    and inv: "batchInv dir force u h0 (ent dir w) S"
  shows "dirStep dir w w' (ent dir w')" and "keptMap (map sf_file S) h0 (ent dir w')"
    and "(e = cause \<and> restoredMap (map sf_file S) h0 (ent dir w')) \<or>
         (\<exists>msg. e = Wrap [] cause (rollbackIncomplete @ msg))"
proof -
  obtain ms w1 where c1: "rollbackLoop rename (rev S) w = (ms, w1)" by fastforce
  let ?w2 = "cleanupTemps S w1"
  obtain s w3 where c3: "syncDirectory dir ?w2 = (s, w3)" by fastforce
  have w': "w' = w3" using run c1 c3 by (auto simp: rollbackWrite_def Let_def split: if_splits)
  have ap: "apart (rev S)" using batchInv_names(3) [OF inv] by (simp add: apart_def rev_map [symmetric])
  have sl: "shapeOK dir force st \<and> slotOK u h0 (ent dir w) st" if "st \<in> set (rev S)" for st
    using batchInv_mem [OF inv] that by simp
  note loop = rollbackLoop_dir [OF c1 pd ap sl]
  have l: "dirStep dir w w1 (ent dir w1)"
    "\<And>k. k \<notin> nm ` set S \<Longrightarrow> k \<notin> bakName ` nm ` set S \<Longrightarrow> ent dir w1 k = ent dir w k"
    "\<And>st. st \<in> set S \<Longrightarrow> keptIn h0 (ent dir w1) (nm st)"
    "\<And>st. st \<in> set S \<Longrightarrow> ms = [] \<Longrightarrow> slotRestored h0 (ent dir w1) (nm st)"
    using loop by auto
  have p1: "plainDir dir w1" by (rule dirStep_plain [OF l(1) pd])
  have cl: "dirStep dir w1 ?w2 (ent dir ?w2)"
    "\<forall>n. ent dir ?w2 n = ent dir w1 n \<or> (ent dir ?w2 n = None \<and> strayTemp (map sf_file S) h0 n)"
    using cleanupTemps_dir [OF p1 batch_tempOK [OF inv]] by blast+
  have sy: "dirStep dir ?w2 w3 (ent dir ?w2)" by (rule syncDirectory_dir [OF c3])
  have e3: "ent dir w3 = ent dir ?w2" by (rule dirStep_ent [OF sy])
  show "dirStep dir w w' (ent dir w')"
    unfolding w' e3 using dirStep_trans [OF l(1) dirStep_trans [OF cl(1) sy]] .
  have img: "fname ` set (map sf_file S) = nm ` set S" by (simp add: image_image)
  have oth: "n \<notin> nm ` set S \<Longrightarrow> n \<notin> bakName ` nm ` set S \<Longrightarrow>
      ent dir w1 n = h0 n \<or> strayTemp (map sf_file S) h0 n" for n
    using batchInv_kept [OF inv] l(2) [of n] unfolding keptMap_def img by auto
  have "keptMap (map sf_file S) h0 (ent dir w1)"
    using l(3) oth unfolding keptMap_def img by auto
  then show "keptMap (map sf_file S) h0 (ent dir w')"
    unfolding w' e3 by (rule kept_cleanup [OF inv _ cl(2)])
  show "(e = cause \<and> restoredMap (map sf_file S) h0 (ent dir w')) \<or>
      (\<exists>msg. e = Wrap [] cause (rollbackIncomplete @ msg))"
  proof (cases "ms = [] \<and> is_ok s")
    case True
    have "restoredMap (map sf_file S) h0 (ent dir w1)" unfolding restoredMap_def
    proof
      fix n
      show "ent dir w1 n = h0 n \<or> strayTemp (map sf_file S) h0 n"
      proof (cases "n \<in> nm ` set S \<or> n \<in> bakName ` nm ` set S")
        case in_slot: True
        then obtain st where "st \<in> set S" "n = nm st \<or> n = bakName (nm st)" by auto
        then show ?thesis using l(4) True unfolding slotRestored_def by metis
      qed (use oth in blast)
    qed
    then have "restoredMap (map sf_file S) h0 (ent dir w3)"
      unfolding e3 by (rule restored_cleanup [OF _ cl(2)])
    moreover have "e = cause" using run c1 c3 True
      by (auto simp: rollbackWrite_def Let_def is_ok_def split: sum.splits)
    ultimately show ?thesis using w' by simp
  next
    case False
    then show ?thesis using run c1 c3
      by (auto simp: rollbackWrite_def Let_def is_ok_def split: sum.splits if_splits)
  qed
qed

lemma verifyTargets_dir:
  assumes "verifyTargets S w = (r, w')" "plainDir dir w"
    "\<And>st. st \<in> set S \<Longrightarrow> shapeOK dir force st \<and> ent dir w (nm st) = Some (newNode u (sf_file st))"
  shows "dirStep dir w w' (ent dir w)"
  using assms
proof (induction S arbitrary: w)
  case Nil
  then show ?case by (simp add: dirStep_refl)
next
  case (Cons f S)
  have sn: "simpleName (nm f)" "sf_target f = joinPath [dir, nm f]"
    and at: "ent dir w (nm f) = Some (newNode u (sf_file f))"
    using Cons.prems(3) [of f] by (auto simp: shapeOK_def)
  obtain r1 w1 where c1: "sys_readFile (sf_target f) w = (r1, w1)" by fastforce
  have s: "dirStep dir w w1 (ent dir w)"
    by (rule readFile_dir(1) [OF c1 [unfolded sn(2)] Cons.prems(2) sn(1) at])
      (simp add: isSymlink_def newNode_def)
  have e1: "ent dir w1 = ent dir w" by (rule dirStep_ent [OF s])
  show ?case
  proof (cases "r1 = Inr (fdata (sf_file f))")
    case True
    have "dirStep dir w1 w' (ent dir w1)"
      by (rule Cons.IH [OF _ dirStep_plain [OF s Cons.prems(2)]])
        (use Cons.prems c1 True e1 in auto)
    then show ?thesis using dirStep_trans [OF s] e1 by simp
  next
    case False
    then have "w' = w1" using Cons.prems(1) c1 by (auto split: sum.splits if_splits)
    then show ?thesis using s by simp
  qed
qed

end

text \<open>What \<open>installFiles\<close> guarantees of its result, over the map \<open>h0\<close> before it.\<close>

definition installPost ::
  "string \<Rightarrow> bool \<Rightarrow> (string \<Rightarrow> inode option) \<Rightarrow> world \<Rightarrow> outfile list \<Rightarrow>
     stagedFile list res \<Rightarrow> world \<Rightarrow> bool" where
  "installPost dir force h0 w files r w' =
     (dirStep dir w w' (ent dir w') \<and>
      (\<forall>e. r = Inl e \<longrightarrow> keptMap files h0 (ent dir w') \<and>
          (\<not> incompleteError e \<longrightarrow> restoredMap files h0 (ent dir w'))) \<and>
      (\<forall>S'. r = Inr S' \<longrightarrow> batchInv dir force (euid w) h0 (ent dir w') S' \<and>
        map sf_file S' = files \<and> (\<forall>st \<in> set S'. sf_installed st \<and> sf_temp st = []) \<and>
        accounted dir h0 (ent dir w') S'))"

context renamer
begin

text \<open>
  From the staged batch to the verified targets: all files in place, or the old state, or an
  error that says the rollback is incomplete, with every old file still there.
\<close>

lemma installFiles_dir:
  assumes run: "installFiles dir force rename S w = (r, w')" and pd: "plainDir dir w"
    and inv: "batchInv dir force (euid w) h0 (ent dir w) S"
    and st: "\<And>st. st \<in> set S \<Longrightarrow> untouched st \<and> sf_temp st = []"
    and acc: "accounted dir h0 (ent dir w) S"
  shows "installPost dir force h0 w (map sf_file S) r w'"
proof -
  let ?files = "map sf_file S" and ?good = "installPost dir force h0 w (map sf_file S)"
  have undone: "?good (Inl e) w3"
    if "rollbackWrite dir S2 rename c w2 = (e, w3)" "dirStep dir w w2 (ent dir w2)"
      "batchInv dir force (euid w) h0 (ent dir w2) S2" "map sf_file S2 = ?files" for S2 c w2 e w3
  proof -
    note rb = rollbackWrite_dir [OF that(1) dirStep_plain [OF that(2) pd] that(3)]
    show ?thesis using rb that(4) dirStep_trans [OF that(2) rb(1)]
      by (auto simp: installPost_def incompleteError_def)
  qed
  obtain r1 S1 w1 where c1: "writeTemps dir S w = ((r1, S1), w1)" by (metis prod.exhaust)
  have t: "dirStep dir w w1 (ent dir w1)" "batchInv dir force (euid w) h0 (ent dir w1) S1"
    "map sf_file S1 = ?files" "\<And>st. st \<in> set S1 \<Longrightarrow> untouched st"
    "r1 = None \<Longrightarrow> (\<forall>st \<in> set S1. sf_temp st \<noteq> []) \<and> accounted dir h0 (ent dir w1) S1"
    using writeTemps_inv [OF c1 pd, of force h0 "[]"] inv st acc by auto
  note p1 = dirStep_plain [OF t(1) pd] and u1 = dirStep_euid [OF t(1)]
  show ?thesis
  proof (cases r1)
    case (Some e1)
    let ?w2 = "cleanupTemps S1 w1"
    have cl: "dirStep dir w1 ?w2 (ent dir ?w2)"
      "\<forall>n. ent dir ?w2 n = ent dir w1 n \<or> (ent dir ?w2 n = None \<and> strayTemp (map sf_file S1) h0 n)"
      using cleanupTemps_dir [OF p1 batch_tempOK [OF t(2)]] by blast+
    have "restoredMap (map sf_file S1) h0 (ent dir w1)" unfolding restoredMap_def
    proof
      fix n
      show "ent dir w1 n = h0 n \<or> strayTemp (map sf_file S1) h0 n"
      proof (cases "n \<in> nm ` set S1 \<or> n \<in> bakName ` nm ` set S1")
        case True
        then obtain x where x: "x \<in> set S1" "n = nm x \<or> n = bakName (nm x)" by auto
        then have "slotOK (euid w) h0 (ent dir w1) x" "untouched x"
          using batchInv_mem [OF t(2)] t(4) by blast+
        then show ?thesis using x(2) by (auto simp: slotOK_def untouched_def)
      next
        case False
        then show ?thesis using batchInv_kept [OF t(2)] by (simp add: keptMap_def image_image)
      qed
    qed
    then have "restoredMap ?files h0 (ent dir ?w2)"
      using restored_cleanup [OF _ cl(2)] t(3) by metis
    moreover have "keptMap ?files h0 (ent dir ?w2)"
      using kept_cleanup [OF t(2) batchInv_kept [OF t(2)] cl(2)] t(3) by metis
    moreover have "r = Inl e1" "w' = ?w2" using run c1 Some by (simp_all add: installFiles_def)
    ultimately show ?thesis using dirStep_trans [OF t(1) cl(1)] by (simp add: installPost_def)
  next
    case None
    obtain r2 S2 w2 where c2: "replaceTargets rename force S1 w1 = ((r2, S2), w2)"
      by (metis prod.exhaust)
    have q: "dirStep dir w1 w2 (ent dir w2)" "batchInv dir force (euid w) h0 (ent dir w2) S2"
      "map sf_file S2 = ?files"
      "r2 = None \<Longrightarrow> (\<forall>st \<in> set S2. sf_installed st \<and> sf_temp st = []) \<and> accounted dir h0 (ent dir w2) S2"
      using replaceTargets_inv [OF c2 p1, of h0 "[]"] t u1 None by auto
    have s2: "dirStep dir w w2 (ent dir w2)" by (rule dirStep_trans [OF t(1) q(1)])
    note p2 = dirStep_plain [OF s2 pd]
    show ?thesis
    proof (cases r2)
      case (Some e2)
      obtain e3 w3 where c3: "rollbackWrite dir S2 rename e2 w2 = (e3, w3)" by fastforce
      have "r = Inl e3" "w' = w3" using run c1 None c2 Some c3 by (simp_all add: installFiles_def)
      then show ?thesis using undone [OF c3 s2 q(2,3)] by simp
    next
      case n2: None
      obtain r3 w3 where c3: "syncDirectory dir w2 = (r3, w3)" by fastforce
      have sy: "dirStep dir w2 w3 (ent dir w2)" by (rule syncDirectory_dir [OF c3])
      have e3: "ent dir w3 = ent dir w2" by (rule dirStep_ent [OF sy])
      have s3: "dirStep dir w w3 (ent dir w3)" using dirStep_trans [OF s2 sy] e3 by simp
      note p3 = dirStep_plain [OF s3 pd]
      have i3: "batchInv dir force (euid w) h0 (ent dir w3) S2" using q(2) e3 by simp
      show ?thesis
      proof (cases r3)
        case (Inl e)
        obtain e4 w4 where c4:
          "rollbackWrite dir S2 rename (Wrap ''sync output directory: '' e []) w3 = (e4, w4)" by fastforce
        have "r = Inl e4" "w' = w4"
          using run c1 None c2 n2 c3 Inl c4 by (simp_all add: installFiles_def)
        then show ?thesis using undone [OF c4 s3 i3 q(3)] by simp
      next
        case (Inr x)
        obtain r4 w4 where c4: "verifyTargets S2 w3 = (r4, w4)" by fastforce
        have v: "dirStep dir w3 w4 (ent dir w3)"
          by (rule verifyTargets_dir [OF c4 p3, of force "euid w"])
            (use batchInv_mem [OF i3] q(4) [OF n2] in \<open>auto simp: slotOK_def\<close>)
        have e4: "ent dir w4 = ent dir w3" by (rule dirStep_ent [OF v])
        have s4: "dirStep dir w w4 (ent dir w4)" using dirStep_trans [OF s3 v] e4 by simp
        have i4: "batchInv dir force (euid w) h0 (ent dir w4) S2" using i3 e4 by simp
        show ?thesis
        proof (cases r4)
          case (Some e)
          obtain e5 w5 where c5: "rollbackWrite dir S2 rename e w4 = (e5, w5)" by fastforce
          have "r = Inl e5" "w' = w5"
            using run c1 None c2 n2 c3 Inr c4 Some c5 by (simp_all add: installFiles_def)
          then show ?thesis using undone [OF c5 s4 i4 q(3)] by simp
        next
          case n4: None
          have "r = Inr S2" "w' = w4" using run c1 None c2 n2 c3 Inr c4 n4 by (simp_all add: installFiles_def)
          then show ?thesis using s4 i4 q(3,4) n2 e3 e4 by (simp add: installPost_def)
        qed
      qed
    qed
  qed
qed

end

end
