(* ===== verification/AtomicSpec.thy ===== *)
theory AtomicSpec
  imports AtomicRollback
begin

text \<open>
  The contract of \<open>WriteFiles\<close> (internal/secret/atomic.go): the whole batch appears or
  nothing changes, and every failure says which of the two holds.
\<close>

section \<open>Staging\<close>

lemma stageBackup_ro: "stageBackup force st w = (r, w') \<Longrightarrow> sameEnv w w' \<and> tree w' = tree w"
  by (auto simp: stageBackup_def Let_def split: if_splits prod.splits sum.splits
      dest: lstat.env lstat.fs_same)

lemma stageFile_ro:
  assumes "stageFile dir force f w = (r, w')"
  shows "sameEnv w w' \<and> tree w' = tree w"
proof -
  obtain r1 w1 where c: "sys_lstat (joinPath [dir, fname f]) w = (r1, w1)" by fastforce
  note s = lstat.env [OF c] lstat.fs_same [OF c]
  show ?thesis using assms c s
    by (auto simp: stageFile_def Let_def split: if_splits sum.splits
        dest!: stageBackup_ro intro: sameEnv_trans)
qed

lemma stageFiles_ro: "stageFiles dir force seen files w = (r, w') \<Longrightarrow> sameEnv w w' \<and> tree w' = tree w"
proof (induction files arbitrary: seen w r w')
  case Nil
  then show ?case by simp
next
  case (Cons f fs)
  show ?case
  proof (cases "nameUnsafe (fname f) \<or> fname f \<in> set seen")
    case True
    then show ?thesis using Cons.prems by (auto split: if_splits)
  next
    case False
    obtain r1 w1 where c: "stageFile dir force f w = (r1, w1)" by fastforce
    note s = stageFile_ro [OF c]
    show ?thesis
    proof (cases r1)
      case (Inl e)
      then show ?thesis using Cons.prems c s False by auto
    next
      case (Inr st)
      obtain r2 w2 where c2: "stageFiles dir force (fname f # seen) fs w1 = (r2, w2)" by fastforce
      have "w' = w2" using Cons.prems c Inr c2 False by (auto split: sum.splits)
      then show ?thesis using Cons.IH [OF c2] s by (auto intro: sameEnv_trans)
    qed
  qed
qed

text \<open>What staging one file records about it.\<close>

definition stagedAs :: "string \<Rightarrow> bool \<Rightarrow> outfile \<Rightarrow> stagedFile \<Rightarrow> bool" where
  "stagedAs dir force f st =
     (sf_file st = f \<and> sf_target st = joinPath [dir, fname f] \<and> untouched st \<and> sf_temp st = [] \<and>
      (force \<longrightarrow> sf_backup st = joinPath [dir, fname f] @ ''.backup''))"

lemma stageBackup_as:
  assumes "stageBackup force st w = (Inr st', w')" "sf_file st = f" "untouched st" "sf_temp st = []"
    "sf_target st = joinPath [dir, fname f]"
  shows "stagedAs dir force f st'"
  using assms
  by (auto simp: stageBackup_def Let_def stagedAs_def untouched_def
      split: if_splits prod.splits sum.splits)

lemma stageFile_as: "stageFile dir force f w = (Inr st, w') \<Longrightarrow> stagedAs dir force f st"
  by (auto simp: stageFile_def Let_def untouched_def split: if_splits prod.splits sum.splits
      elim!: stageBackup_as)

lemma stageFiles_as:
  "stageFiles dir force seen files w = (Inr S, w') \<Longrightarrow>
     map sf_file S = files \<and> (\<forall>st \<in> set S. stagedAs dir force (sf_file st) st) \<and>
     distinct (map fname files) \<and> set (map fname files) \<inter> set seen = {} \<and>
     (\<forall>f \<in> set files. \<not> nameUnsafe (fname f))"
proof (induction files arbitrary: seen w S w')
  case Nil
  then show ?case by simp
next
  case (Cons f fs)
  have ok: "\<not> nameUnsafe (fname f)" "fname f \<notin> set seen" using Cons.prems by (auto split: if_splits)
  obtain r1 w1 where c: "stageFile dir force f w = (r1, w1)" by fastforce
  obtain st where r1: "r1 = Inr st" using Cons.prems c ok by (cases r1) auto
  obtain r2 w2 where c2: "stageFiles dir force (fname f # seen) fs w1 = (r2, w2)" by fastforce
  obtain S2 where r2: "r2 = Inr S2" "S = st # S2" using Cons.prems c r1 c2 ok by (cases r2) auto
  have st: "stagedAs dir force f st" using stageFile_as c r1 by simp
  then have "sf_file st = f" by (simp add: stagedAs_def)
  then show ?case using Cons.IH [OF c2 [unfolded r2(1)]] st ok r2 by auto
qed

lemma simple_safe:
  assumes "\<not> nameUnsafe n" "take 1 n \<noteq> ''.''"
  shows "simpleName n"
proof -
  have "slash \<notin> set n" "n \<noteq> []"
    using assms(1) by (auto simp: nameUnsafe_def containsAny_def)
  then show ?thesis using assms(2) by (auto simp: simpleName_def)
qed

lemma staged_shape:
  assumes "stagedAs dir force f st" "simpleName (fname f)" "dir \<noteq> []"
  shows "shapeOK dir force st"
  using assms backup_path [of dir "fname f"] by (auto simp: stagedAs_def shapeOK_def untouched_def)

lemma staged_batch:
  assumes "stageFiles dir force seen files w = (Inr S, w')" "batch_ok files" "dir \<noteq> []"
  shows "batchInv dir force u h0 h0 S"
proof -
  note st = stageFiles_as [OF assms(1)]
  have m: "map sf_file S = files" "\<forall>st \<in> set S. stagedAs dir force (sf_file st) st"
    "distinct (map fname files)" using st by blast+
  have d: "distinct (map nm S)" using m(3) unfolding m(1) [symmetric] map_map comp_def .
  have safe: "\<not> nameUnsafe (fname f)" "take 1 (fname f) \<noteq> ''.''" if "f \<in> set files" for f
    using st assms(2) that unfolding batch_ok_def by blast+
  have sn: "simpleName (nm x)" if "x \<in> set S" for x
  proof (rule simple_safe)
    have "sf_file x \<in> set files" using m(1) that by auto
    then show "\<not> nameUnsafe (nm x)" "take 1 (nm x) \<noteq> ''.''" by (rule safe)+
  qed
  have "shapeOK dir force x \<and> slotOK u h0 h0 x \<and> tempOK dir u h0 h0 x" if "x \<in> set S" for x
    using m(2) that staged_shape [OF _ sn [OF that] assms(3)]
    by (auto simp: slotOK_def tempOK_def stagedAs_def untouched_def)
  then show ?thesis using d m(1) assms(2) by (simp add: batchInv_def othersOK_def)
qed

section \<open>The output directory\<close>

lemma joinWith_split: "joinWith ''/'' (splitOn slash k) = k"
proof (induction k)
  case Nil
  then show ?case by simp
next
  case (Cons c k)
  obtain x xs where x: "splitOn slash k = x # xs" by (cases "splitOn slash k") auto
  show ?case using Cons.IH x by (cases xs) (auto simp: slash_def)
qed

lemma length_joinWith_take: "length (joinWith s (take m xs)) \<le> length (joinWith s xs)"
proof (induction xs arbitrary: m)
  case Nil
  then show ?case by simp
next
  case (Cons x xs)
  show ?case
  proof (cases m)
    case (Suc k)
    show ?thesis
    proof (cases "xs = [] \<or> k = 0")
      case True
      then show ?thesis using Suc by (cases xs) auto
    next
      case False
      then have "take k xs \<noteq> []" "xs \<noteq> []" by (auto simp: take_eq_Nil)
      then show ?thesis using Cons.IH [of k] Suc by (simp add: joinWith_Cons)
    qed
  qed simp
qed

lemma ancestors_length: "a \<in> set (ancestors k) \<Longrightarrow> k \<noteq> [] \<Longrightarrow> length a \<le> length k"
proof -
  assume a: "a \<in> set (ancestors k)" and k: "k \<noteq> []"
  have "length (joinWith ''/'' (take m (splitOn slash k))) \<le> length k" for m
    using length_joinWith_take [of "''/''" m "splitOn slash k"] by (simp only: joinWith_split)
  moreover have "1 \<le> length k" using k by (cases k) auto
  ultimately show ?thesis using a unfolding ancestors_def by (auto split: if_splits)
qed

lemma child_longer: "n \<noteq> [] \<Longrightarrow> k \<noteq> [] \<Longrightarrow> length k < length (child k n)"
  by (cases n) (auto simp: child_def)

lemma child_not_ancestor: "n \<noteq> [] \<Longrightarrow> k \<noteq> [] \<Longrightarrow> child k n \<notin> set (ancestors k)"
  using ancestors_length child_longer by (metis leD)

text \<open>Preparing the directory adds missing ancestors and changes nothing else.\<close>

definition onlyAncestors :: "string \<Rightarrow> world \<Rightarrow> world \<Rightarrow> bool" where
  "onlyAncestors dir w w' =
     (sameEnv w w' \<and>
      (\<forall>k. tree w' k = tree w k \<or> (tree w k = None \<and> k \<in> set (ancestors (keyOf w dir)))))"

lemma mkdirAll_ancestors: "sys_mkdirAll dir m w = (r, w') \<Longrightarrow> onlyAncestors dir w w'"
  unfolding onlyAncestors_def using mkdirAll.env mkdirAll.frame by blast

lemma onlyAncestors_ro:
  "sameEnv a b \<Longrightarrow> tree b = tree a \<Longrightarrow> onlyAncestors dir b c \<Longrightarrow> onlyAncestors dir a c"
  "onlyAncestors dir a b \<Longrightarrow> sameEnv b c \<Longrightarrow> tree c = tree b \<Longrightarrow> onlyAncestors dir a c"
  by (auto simp: onlyAncestors_def sameEnv_keyOf intro: sameEnv_trans)

lemma onlyAncestors_refl: "sameEnv w w' \<Longrightarrow> tree w' = tree w \<Longrightarrow> onlyAncestors dir w w'"
  by (simp add: onlyAncestors_def)

lemma ensureSecureDirectory_ancestors:
  assumes "ensureSecureDirectory dir w = (r, w')"
  shows "onlyAncestors dir w w'"
proof -
  obtain r1 w1 where c1: "sys_lstat dir w = (r1, w1)" by fastforce
  note s1 = lstat.env [OF c1] lstat.fs_same [OF c1]
  obtain r2 w2 where c2: "sys_mkdirAll dir o700 w1 = (r2, w2)" by fastforce
  note s2 = onlyAncestors_ro(1) [OF s1 mkdirAll_ancestors [OF c2]]
  obtain r3 w3 where c3: "sys_lstat dir w2 = (r3, w3)" by fastforce
  note s3 = onlyAncestors_ro(2) [OF s2 lstat.env [OF c3] lstat.fs_same [OF c3]]
  have "w' \<in> {w1, w2, w3}" using assms c1 c2 c3
    by (auto simp: ensureSecureDirectory_def split: sum.splits if_splits)
  then show ?thesis using onlyAncestors_refl [OF s1] s2 s3 by auto
qed

lemma onlyAncestors_ent:
  assumes "onlyAncestors dir w w'" "plainDir dir w"
  shows "ent dir w' = ent dir w"
proof
  fix n
  have "keyOf w dir \<noteq> []"
    using isAbs_absPath [of "cwd w" dir] assms(2) by (auto simp: plainDir_def keyOf_def)
  then have "simpleName n \<Longrightarrow> child (keyOf w dir) n \<notin> set (ancestors (keyOf w dir))"
    using child_not_ancestor simpleName_nonempty by metis
  moreover have "keyOf w' dir = keyOf w dir"
    using assms(1) by (simp add: onlyAncestors_def sameEnv_keyOf)
  ultimately show "ent dir w' n = ent dir w n"
    using assms(1) unfolding ent_def onlyAncestors_def by metis
qed

section \<open>The commit\<close>

lemma removeBackups_dir:
  assumes "removeBackups S w = (r, w')" "plainDir dir w" "\<And>st. st \<in> set S \<Longrightarrow> shapeOK dir force st"
  shows "dirStep dir w w' (ent dir w') \<and>
    (\<forall>n. ent dir w' n = ent dir w n \<or> (\<exists>st \<in> set S. sf_hadTarget st \<and> n = bakName (nm st))) \<and>
    (r = Inr () \<longrightarrow> (\<forall>st \<in> set S. sf_hadTarget st \<longrightarrow> ent dir w' (bakName (nm st)) = None))"
  using assms
proof (induction S arbitrary: w r w')
  case Nil
  then show ?case by (auto simp: dirStep_refl)
next
  case (Cons f S)
  note pd = Cons.prems(2) and sh = Cons.prems(3)
  show ?case
  proof (cases "sf_hadTarget f")
    case False
    have run: "removeBackups S w = (r, w')" using Cons.prems(1) False by simp
    show ?thesis using Cons.IH [OF run pd sh] False by auto
  next
    case had: True
    have sn: "simpleName (bakName (nm f))" "sf_backup f = joinPath [dir, bakName (nm f)]"
      using sh [of f] had simple_bakName by (auto simp: shapeOK_def)
    obtain r1 w1 where c: "sys_remove (sf_backup f) w = (r1, w1)" by fastforce
    note rm = remove_dir [OF c [unfolded sn(2)] pd sn(1)]
    show ?thesis
    proof (cases r1)
      case (Inl e)
      have s: "dirStep dir w w1 (ent dir w)" using rm(2) [OF Inl] by blast
      have "w' = w1" "r \<noteq> Inr ()" using Cons.prems(1) had c Inl by auto
      then show ?thesis using s dirStep_ent [OF s] by simp
    next
      case (Inr u)
      have s: "dirStep dir w w1 ((ent dir w)(bakName (nm f) := None))" using rm(1) [OF Inr] by blast
      have run: "removeBackups S w1 = (r, w')" using Cons.prems(1) had c Inr by simp
      have e1: "ent dir w1 = (ent dir w)(bakName (nm f) := None)" by (rule dirStep_ent [OF s])
      have IH: "dirStep dir w1 w' (ent dir w')"
        "\<And>n. ent dir w' n = ent dir w1 n \<or> (\<exists>st \<in> set S. sf_hadTarget st \<and> n = bakName (nm st))"
        "r = Inr () \<Longrightarrow> \<forall>st \<in> set S. sf_hadTarget st \<longrightarrow> ent dir w' (bakName (nm st)) = None"
        using Cons.IH [OF run dirStep_plain [OF s pd] sh] by auto
      have own: "ent dir w' (bakName (nm f)) = None" if "r = Inr ()"
        using IH(2) [of "bakName (nm f)"] IH(3) [OF that] e1 by auto
      have "ent dir w' n = ent dir w n \<or> (\<exists>st \<in> set (f # S). sf_hadTarget st \<and> n = bakName (nm st))" for n
        using IH(2) [of n] had e1 by (cases "n = bakName (nm f)") auto
      then show ?thesis using dirStep_trans [OF s IH(1)] own IH(3) by auto
    qed
  qed
qed

text \<open>The directory after a committed batch: the new files, everything else as before.\<close>

definition installedMap ::
  "nat \<Rightarrow> outfile list \<Rightarrow> (string \<Rightarrow> inode option) \<Rightarrow> bool" where
  "installedMap u files h = (\<forall>f \<in> set files. h (fname f) = Some (newNode u f))"

definition committedMap ::
  "nat \<Rightarrow> outfile list \<Rightarrow> (string \<Rightarrow> inode option) \<Rightarrow> (string \<Rightarrow> inode option) \<Rightarrow> bool" where
  "committedMap u files h0 h =
     (installedMap u files h \<and> (\<forall>n. n \<notin> fname ` set files \<longrightarrow> h n = h0 n))"

lemma batchInv_bak_not_nm:
  assumes "batchInv dir force u h0 h S" "a \<in> set S" "b \<in> set S"
  shows "bakName (nm a) \<noteq> nm b"
  using batchInv_names(3) [OF assms(1)] assms(2,3) unfolding apart_def by metis

lemma commitFiles_dir:
  assumes run: "commitFiles dir S w = (r, w')" and pd: "plainDir dir w"
    and inv: "batchInv dir force u h0 (ent dir w) S"
    and st: "\<And>st. st \<in> set S \<Longrightarrow> sf_installed st \<and> sf_temp st = []"
    and acc: "accounted dir h0 (ent dir w) S" and h0: "\<And>n. \<not> simpleName n \<Longrightarrow> h0 n = None"
  shows "dirStep dir w w' (ent dir w') \<and> installedMap u (map sf_file S) (ent dir w') \<and>
    (r = Inr () \<longrightarrow> committedMap u (map sf_file S) h0 (ent dir w')) \<and>
    (\<forall>e. r = Inl e \<longrightarrow> committedError e)"
proof -
  obtain r1 w1 where c1: "removeBackups S w = (r1, w1)" by fastforce
  have rb: "dirStep dir w w1 (ent dir w1)"
    "\<And>n. ent dir w1 n = ent dir w n \<or> (\<exists>st \<in> set S. sf_hadTarget st \<and> n = bakName (nm st))"
    "r1 = Inr () \<Longrightarrow> \<forall>st \<in> set S. sf_hadTarget st \<longrightarrow> ent dir w1 (bakName (nm st)) = None"
    using removeBackups_dir [OF c1 pd] batchInv_mem [OF inv] by auto
  obtain r2 w2 where c2: "syncDirectory dir w1 = (r2, w2)" by fastforce
  have s2: "dirStep dir w1 w2 (ent dir w1)" by (rule syncDirectory_dir [OF c2])
  have w': "w' = w1 \<or> w' = w2" using run c1 c2
    by (auto simp: commitFiles_def split: sum.splits)
  have e: "ent dir w' = ent dir w1" using w' dirStep_ent [OF s2] by auto
  have step: "dirStep dir w w' (ent dir w')"
    using w' rb(1) dirStep_trans [OF rb(1) s2] dirStep_ent [OF s2] by auto
  have new: "ent dir w1 (nm x) = Some (newNode u (sf_file x))" if "x \<in> set S" for x
  proof -
    have "ent dir w1 (nm x) = ent dir w (nm x)"
      using rb(2) [of "nm x"] batchInv_bak_not_nm [OF inv _ that] by metis
    then show ?thesis using batchInv_mem [OF inv that] st [OF that] by (simp add: slotOK_def)
  qed
  have inst: "installedMap u (map sf_file S) (ent dir w')"
    using new by (auto simp: installedMap_def e)
  have same: "ent dir w1 n = h0 n" if ok: "r1 = Inr ()" and n: "n \<notin> nm ` set S" for n
  proof (cases "n \<in> bakName ` nm ` set S")
    case True
    then obtain x where x: "x \<in> set S" "n = bakName (nm x)" by auto
    have sl: "slotOK u h0 (ent dir w) x" using batchInv_mem [OF inv x(1)] by simp
    show ?thesis
    proof (cases "sf_hadTarget x")
      case True
      then show ?thesis using rb(3) [OF ok] sl x by (simp add: slotOK_def)
    next
      case False
      have "\<not> (\<exists>st \<in> set S. sf_hadTarget st \<and> n = bakName (nm st))"
      proof
        assume "\<exists>st \<in> set S. sf_hadTarget st \<and> n = bakName (nm st)"
        then obtain y where y: "y \<in> set S" "sf_hadTarget y" "nm y = nm x" using x(2) by auto
        then have "y = x" using inv x(1) unfolding batchInv_def distinct_map inj_on_def by blast
        then show False using False y(2) by simp
      qed
      then have "ent dir w1 n = ent dir w n" using rb(2) [of n] by blast
      then show ?thesis using sl False x(2) by (simp add: slotOK_def)
    qed
  next
    case False
    have k: "ent dir w1 n = ent dir w n" using rb(2) [of n] False by auto
    show ?thesis
    proof (cases "simpleName n")
      case True
      have "ent dir w n = h0 n"
        using acc n False True st joinPath2_nonempty pd unfolding accounted_def plainDir_def by metis
      then show ?thesis using k by simp
    next
      case ns: False
      then show ?thesis using h0 by (simp add: ent_def)
    qed
  qed
  have "committedMap u (map sf_file S) h0 (ent dir w')" if "r = Inr ()"
  proof -
    have "r1 = Inr ()" using run c1 that by (auto simp: commitFiles_def split: sum.splits)
    then show ?thesis using inst same by (auto simp: committedMap_def e image_image)
  qed
  moreover have "committedError x" if "r = Inl x" for x
  proof -
    have b: "committedError y" if "removeBackups T v = (Inl y, v')" for T v y v'
      using that by (induction T arbitrary: v)
        (auto simp: committedError_def hasPrefix_def split: if_splits prod.splits sum.splits)
    show ?thesis using run c1 c2 that b [of S w] 
      by (auto simp: commitFiles_def split: sum.splits) (simp add: committedError_def)
  qed
  ultimately show ?thesis using step inst by blast
qed

end
