(* ===== verification/AtomicLive.thy ===== *)
theory AtomicLive
  imports AtomicSpec
begin

text \<open>
  A run of \<open>WriteFiles\<close> (internal/secret/atomic.go) that meets no failing call succeeds: each
  guard of the code, evaluated on a fault-free world.
\<close>

definition dirReady :: "string \<Rightarrow> world \<Rightarrow> bool" where
  "dirReady dir w =
     (plainDir dir w \<and> quiet w \<and> (\<exists>i. tree w (keyOf w dir) = Some i \<and> isDir i))"

lemma dirReady_step:
  assumes "dirStep dir w w' h" "dirReady dir w"
  shows "dirReady dir w'"
proof -
  have "outsideDir dir w (keyOf w dir)"
    using child_neq simpleName_nonempty unfolding outsideDir_def by metis
  then have "tree w' (keyOf w dir) = tree w (keyOf w dir)" using assms(1) by (simp add: dirStep_def)
  moreover have "keyOf w' dir = keyOf w dir" by (rule sameEnv_keyOf [OF dirStep_env [OF assms(1)]])
  ultimately show ?thesis using assms quiet_same [OF dirStep_env [OF assms(1)]] dirStep_plain [OF assms(1)]
    by (auto simp: dirReady_def)
qed

lemma dirReadyD: "dirReady dir w \<Longrightarrow> plainDir dir w" "dirReady dir w \<Longrightarrow> faulted w = None"
  by (simp_all add: dirReady_def)

lemma parent_ready:
  "dirReady dir w \<Longrightarrow> simpleName n \<Longrightarrow> parentErr w (joinPath [dir, n]) = None"
  by (auto simp: parentErr_def dirReady_def plainDir_def dirName_keyOf_join)

section \<open>The calls without faults\<close>

lemma lstat_ready:
  assumes "dirReady dir w" "simpleName n"
  shows "sys_lstat (joinPath [dir, n]) w =
    (case ent dir w n of None \<Rightarrow> (Inl (OsError ''lstat'' (joinPath [dir, n]) ENOENT), tick w)
                       | Some i \<Rightarrow> (Inr i, tick w))"
  using dirReadyD [OF assms(1)] assms(2) by (simp add: sys_lstat_def lookup_ent)

lemma create_ready:
  assumes "dirReady dir w" "simpleName n" "ent dir w n = None"
  shows "\<exists>w'. sys_createExcl (joinPath [dir, n]) m w = (Inr (), w')"
proof -
  note d = dirReadyD [OF assms(1)]
  have "dir \<noteq> []" using d(1) by (simp add: plainDir_def)
  then show ?thesis using d assms joinPath2_nonempty [of dir n] parent_ready [OF assms(1,2)]
    by (simp add: sys_createExcl_def lookup_ent)
qed

lemma fchmod_ready:
  "dirReady dir w \<Longrightarrow> simpleName n \<Longrightarrow> ent dir w n = Some i \<Longrightarrow>
     \<exists>w'. sys_fchmod (joinPath [dir, n]) m w = (Inr (), w')"
  using dirReadyD [of dir w] by (simp add: sys_fchmod_def lookup_ent)

lemma write_ready:
  "dirReady dir w \<Longrightarrow> simpleName n \<Longrightarrow> ent dir w n = Some i \<Longrightarrow>
     \<exists>w'. sys_write (joinPath [dir, n]) txt w = (Inr (), w')"
  using dirReadyD [of dir w] by (auto simp: sys_write_def lookup_ent split: option.splits)

lemma flush_ready: "quiet w \<Longrightarrow> sys_flush q p w = (Inr (), tick w)"
  by (simp add: sys_flush_def)

lemma sync_ready:
  assumes "dirReady dir w"
  shows "\<exists>w'. syncDirectory dir w = (Inr (), w')"
proof -
  obtain i where i: "tree w (keyOf w dir) = Some i" "isDir i" "dir \<noteq> []" "quiet w"
    using assms by (auto simp: dirReady_def plainDir_def)
  have "lookup w dir = Some i" "\<not> isSymlink i"
    using i by (auto simp: lookup_def isDir_def isSymlink_def)
  then have "resolve 41 w dir = Inr (dir, i)"
    using resolve_nolink [of w dir i 40] by (simp del: resolve.simps)
  then have "sys_open dir w = (Inr dir, tick w)" using i(4)
    by (simp add: sys_open_def del: resolve.simps)
  moreover have "quiet (tick w)" using i(4) by (simp add: quiet_def tick_def)
  ultimately show ?thesis by (simp add: syncDirectory_def flush_ready)
qed

lemma remove_ready:
  "dirReady dir w \<Longrightarrow> simpleName n \<Longrightarrow> ent dir w n = Some i \<Longrightarrow> \<not> isDir i \<Longrightarrow>
     \<exists>w'. sys_remove (joinPath [dir, n]) w = (Inr (), w')"
  using dirReadyD [of dir w] by (simp add: sys_remove_def lookup_ent)

lemma rename_ready:
  assumes "dirReady dir w" "simpleName n" "simpleName m" "ent dir w n = Some i" "\<not> isDir i"
    "\<And>j. ent dir w m = Some j \<Longrightarrow> \<not> isDir j"
  shows "\<exists>w'. sys_rename (joinPath [dir, n]) (joinPath [dir, m]) w = (Inr (), w')"
proof -
  note d = dirReadyD [OF assms(1)]
  have "dir \<noteq> []" using d(1) by (simp add: plainDir_def)
  then show ?thesis using d assms joinPath2_nonempty [of dir m] parent_ready [OF assms(1,3)]
    by (auto simp: sys_rename_def lookup_ent split: option.splits)
qed

lemma readFile_ready:
  assumes "dirReady dir w" "simpleName n" "ent dir w n = Some i" "isRegular i"
  shows "\<exists>w'. sys_readFile (joinPath [dir, n]) w = (Inr (data i), w')"
proof -
  let ?p = "joinPath [dir, n]"
  note d = dirReadyD [OF assms(1)]
  have l: "lookup w ?p = Some i" using d(1) assms(2,3) by (simp add: lookup_ent)
  have "\<not> isSymlink i" "\<not> isDir i" using assms(4) by (auto simp: isRegular_def isSymlink_def isDir_def)
  then have "resolve 41 w ?p = Inr (?p, i)"
    using resolve_nolink [OF l, of 40] by (simp del: resolve.simps)
  then have "sys_open ?p w = (Inr ?p, tick w)" using d(2)
    by (simp add: sys_open_def del: resolve.simps)
  moreover have "quiet (tick w)" using assms(1) by (simp add: dirReady_def quiet_def tick_def)
  ultimately show ?thesis using l \<open>\<not> isDir i\<close> by (simp add: sys_readFile_def sys_read_def)
qed

section \<open>Temporary files\<close>

lemma dirReady_one: "oneEntry dir w w' t i \<Longrightarrow> dirReady dir w \<Longrightarrow> dirReady dir w'"
  unfolding oneEntry_def by (rule dirReady_step)

lemma fillTemp_ready:
  assumes rd: "dirReady dir w" and t: "simpleName t" "ent dir w t = Some i"
  shows "\<exists>w'. fillTemp (joinPath [dir, t]) f w = (Inr (joinPath [dir, t]), w')"
proof -
  let ?p = "joinPath [dir, t]"
  obtain w1 where c1: "sys_fchmod ?p (fmode f) w = (Inr (), w1)" using fchmod_ready [OF assms] by blast
  have s1: "dirStep dir w w1 ((ent dir w)(t \<mapsto> i\<lparr>perm := fmode f\<rparr>))"
    using fchmod_dir(2) [OF c1 dirReadyD(1) [OF rd] t] by simp
  note r1 = dirReady_step [OF s1 rd] and e1 = dirStep_ent [OF s1]
  obtain w2 where c2: "sys_write ?p (fdata f) w1 = (Inr (), w2)"
    using write_ready [OF r1 t(1)] e1 by auto
  have "sameEnv w1 w2" by (rule writeTo.env [OF c2])
  then have q2: "quiet w2" using r1 quiet_same by (auto simp: dirReady_def)
  then have q3: "quiet (tick w2)" by (simp add: quiet_def tick_def)
  show ?thesis using c1 c2 q2 q3 by (simp add: fillTemp_def flush_ready)
qed

lemma writeTemp_ready:
  assumes rd: "dirReady dir w" and f: "slash \<notin> set (fname f)"
    and fresh: "\<And>t. isTempOf f t \<Longrightarrow> ent dir w t = None"
  shows "\<exists>x w'. writeTemp dir f w = (Inr x, w')"
proof -
  let ?s = "map (entropy w) [drawn w..<drawn w + 8]"
  obtain w1 where c0: "sys_rand 8 w = (Inr ?s, w1)"
    using dirReadyD(2) [OF rd] by (auto simp: sys_rand_def)
  have s0: "dirStep dir w w1 (ent dir w)" by (rule dirStep_ro [OF rand.env [OF c0] rand.fs_same [OF c0]])
  note r0 = dirReady_step [OF s0 rd]
  let ?t = "tempName f ?s"
  have t: "isTempOf f ?t" "simpleName ?t" using f by (auto intro: tempName_isTempOf tempName_simple)
  have "ent dir w1 ?t = None" using fresh [OF t(1)] dirStep_ent [OF s0] by simp
  then obtain w2 where c1: "sys_createExcl (joinPath [dir, ?t]) (fmode f) w1 = (Inr (), w2)"
    using create_ready [OF r0 t(2)] by blast
  obtain i where s1: "dirStep dir w1 w2 ((ent dir w1)(?t \<mapsto> i))"
    using createExcl_dir(2) [OF c1 dirReadyD(1) [OF r0] t(2)] by blast
  have "ent dir w2 ?t = Some i" using dirStep_ent [OF s1] by simp
  then obtain w3 where "fillTemp (joinPath [dir, ?t]) f w2 = (Inr (joinPath [dir, ?t]), w3)"
    using fillTemp_ready [OF dirReady_step [OF s1 r0] t(2)] by blast
  then show ?thesis using c0 c1 by (simp add: writeTemp_def Let_def)
qed

lemma writeTemps_ready:
  assumes "writeTemps dir S w = ((r, S'), w')" "dirReady dir w" "distinct (map nm S)"
    "\<And>st. st \<in> set S \<Longrightarrow> slash \<notin> set (nm st)"
    "\<And>st t. st \<in> set S \<Longrightarrow> isTempOf (sf_file st) t \<Longrightarrow> ent dir w t = None"
  shows "r = None"
  using assms
proof (induction S arbitrary: w r S' w')
  case Nil
  then show ?case by simp
next
  case (Cons f S)
  have sl: "slash \<notin> set (nm f)" using Cons.prems(4) by simp
  obtain x w1 where c1: "writeTemp dir (sf_file f) w = (Inr x, w1)"
    using writeTemp_ready [OF Cons.prems(2) sl] Cons.prems(5) by fastforce
  obtain r2 S2 w2 where c2: "writeTemps dir S w1 = ((r2, S2), w2)" by (metis prod.exhaust)
  obtain t j where t: "isTempOf (sf_file f) t" "oneEntry dir w w1 t j"
    using writeTemp_entry [OF c1 dirReadyD(1) [OF Cons.prems(2)] sl] by (metis is_ok_simps(1) oneEntry_same)
  have "r2 = None"
  proof (rule Cons.IH [OF c2 dirReady_one [OF t(2) Cons.prems(2)]])
    show "distinct (map nm S)" using Cons.prems(3) by simp
    show "slash \<notin> set (nm st)" if "st \<in> set S" for st using Cons.prems(4) that by simp
    show "ent dir w1 u = None" if "st \<in> set S" "isTempOf (sf_file st) u" for st u
    proof -
      have "nm st \<noteq> nm f" using Cons.prems(3) that(1) by (auto simp: image_iff)
      then have "u \<noteq> t" using isTempOf_inj [OF that(2)] t(1) by blast
      then show ?thesis using Cons.prems(5) [of st u] that t(2)
        by (simp add: oneEntry_def dirStep_ent)
    qed
  qed
  then show ?case using Cons.prems(1) c1 c2 by simp
qed

section \<open>Replacing, verifying, committing\<close>

definition placeable :: "bool \<Rightarrow> (string \<Rightarrow> inode option) \<Rightarrow> outfile \<Rightarrow> bool" where
  "placeable force h f =
     (if force then h (bakName (fname f)) = None \<and> (\<forall>i. h (fname f) = Some i \<longrightarrow> isRegular i)
      else h (fname f) = None)"

lemma placeable_cong:
  "h' (fname f) = h (fname f) \<Longrightarrow> h' (bakName (fname f)) = h (bakName (fname f)) \<Longrightarrow>
     placeable force h' f = placeable force h f"
  by (simp add: placeable_def)

lemma regular_not_dir: "isRegular i \<Longrightarrow> \<not> isDir i"
  by (simp add: isRegular_def isDir_def)

lemma newNode_kind [simp]: "isRegular (newNode u f)" "\<not> isDir (newNode u f)"
  by (simp_all add: newNode_def isRegular_def isDir_def)

lemma installTemp_ready:
  assumes rd: "dirReady dir w" and f: "sf_temp f = joinPath [dir, t]" "sf_target f = joinPath [dir, nm f]"
    and t: "simpleName t" "simpleName (nm f)" "ent dir w t = Some i" "\<not> isDir i" "ent dir w (nm f) = None"
  shows "fst (fst (installTemp sys_rename f w)) = None"
proof -
  obtain w' where "sys_rename (joinPath [dir, t]) (joinPath [dir, nm f]) w = (Inr (), w')"
    using rename_ready [OF rd t(1,2,3,4)] t(5) by auto
  then show ?thesis using f by (simp add: installTemp_def)
qed

lemma replaceTarget_ready:
  assumes rd: "dirReady dir w" and inv: "batchInv dir force (euid w) h0 (ent dir w) (pre @ f # post)"
    and f: "untouched f" "sf_temp f \<noteq> []" "placeable force (ent dir w) (sf_file f)"
  shows "fst (fst (replaceTarget sys_rename force f w)) = None"
proof -
  have "f \<in> set (pre @ f # post)" by simp
  note mem = batchInv_mem [OF inv this]
  have sn: "simpleName (nm f)" "simpleName (bakName (nm f))" "sf_target f = joinPath [dir, nm f]"
    "force \<Longrightarrow> sf_backup f = joinPath [dir, bakName (nm f)]"
    using mem simple_bakName by (auto simp: shapeOK_def)
  obtain t where t: "sf_temp f = joinPath [dir, t]" "isTempOf (sf_file f) t"
    "ent dir w t = Some (newNode (euid w) (sf_file f))"
    using mem f(2) by (auto simp: tempOK_def)
  have ts: "simpleName t" by (rule ent_simple [OF t(3)])
  note fr = batchInv_temp_fresh(1,2) [OF inv \<open>f \<in> set (pre @ f # post)\<close> t(2)]
  have tk: "dirStep dir v (tick v) (ent dir v)" for v by (rule dirStep_ro) simp_all
  have inst: "fst (fst (installTemp sys_rename g v)) = None"
    if "dirReady dir v" "ent dir v t = ent dir w t" "ent dir v (nm f) = None"
      "sf_temp g = sf_temp f" "sf_target g = sf_target f" "nm g = nm f" for g v
    by (rule installTemp_ready [OF that(1), of g t]) (use that t ts sn in auto)
  note r1 = dirReady_step [OF tk rd] and e1 = dirStep_ent [OF tk [of w]]
  note r2 = dirReady_step [OF tk r1] and e2 = dirStep_ent [OF tk [of "tick w"]]
  show ?thesis
  proof (cases force)
    case False
    have n: "ent dir w (nm f) = None" using f(3) False by (simp add: placeable_def)
    then show ?thesis using False sn lstat_ready [OF rd sn(1)] inst [OF r1] e1
      by (simp add: replaceTarget_def split: prod.splits)
  next
    case True
    have b: "ent dir w (bakName (nm f)) = None" using f(3) True by (simp add: placeable_def)
    have run: "replaceTarget sys_rename force f w =
        (case sys_lstat (joinPath [dir, nm f]) (tick w) of
           (Inr _, w2) \<Rightarrow>
             (case sys_rename (joinPath [dir, nm f]) (joinPath [dir, bakName (nm f)]) w2 of
                (Inl e2, w3) \<Rightarrow> ((Some e2, f), w3)
              | (Inr _, w3) \<Rightarrow> installTemp sys_rename (f\<lparr>sf_hadTarget := True\<rparr>) w3)
         | (Inl e2, w2) \<Rightarrow>
             if is_not_exist e2 then installTemp sys_rename f w2 else ((Some e2, f), w2))"
      using True sn lstat_ready [OF rd sn(2)] b
      by (simp add: replaceTarget_def split: prod.split sum.split)
    show ?thesis
    proof (cases "ent dir w (nm f)")
      case None
      then show ?thesis unfolding run using lstat_ready [OF r1 sn(1)] e1 e2 inst [OF r2] sn by simp
    next
      case (Some i)
      have d: "\<not> isDir i" using f(3) True Some regular_not_dir by (simp add: placeable_def)
      obtain w3 where c: "sys_rename (joinPath [dir, nm f]) (joinPath [dir, bakName (nm f)]) (tick (tick w))
          = (Inr (), w3)"
        using rename_ready [OF r2 sn(1,2)] Some b d e1 e2 by auto
      obtain j where s3: "dirStep dir (tick (tick w)) w3 ((ent dir w)(nm f := None, bakName (nm f) \<mapsto> j))"
        using os_rename.ren_ok_dir [OF c dirReadyD(1) [OF r2] sn(1,2)] e1 e2 by metis
      note e3 = dirStep_ent [OF s3]
      have "fst (fst (installTemp sys_rename (f\<lparr>sf_hadTarget := True\<rparr>) w3)) = None"
        by (rule inst [OF dirReady_step [OF s3 r2]]) (use e3 fr in auto)
      then show ?thesis unfolding run using lstat_ready [OF r1 sn(1)] e1 Some c by simp
    qed
  qed
qed

lemma replaceTargets_ready:
  assumes "replaceTargets sys_rename force S w = ((r, S'), w')" "dirReady dir w"
    "batchInv dir force (euid w) h0 (ent dir w) (pre @ S)"
    "\<And>st. st \<in> set S \<Longrightarrow> untouched st \<and> sf_temp st \<noteq> [] \<and> placeable force (ent dir w) (sf_file st)"
  shows "r = None"
  using assms
proof (induction S arbitrary: w pre S' r w')
  case Nil
  then show ?case by simp
next
  case (Cons f S)
  note rd = Cons.prems(2) and inv = Cons.prems(3)
  have f: "untouched f" "sf_temp f \<noteq> []" "placeable force (ent dir w) (sf_file f)"
    using Cons.prems(4) by auto
  obtain f' w1 where c1: "replaceTarget sys_rename force f w = ((None, f'), w1)"
    using replaceTarget_ready [OF rd inv f] by (metis fst_conv prod.exhaust)
  have s: "dirStep dir w w1 (ent dir w1)"
    "batchInv dir force (euid w) h0 (ent dir w1) ((pre @ [f']) @ S)" "sf_file f' = sf_file f"
    "movedIn dir f w w1"
    using os_rename.replaceTarget_inv [OF c1 dirReadyD(1) [OF rd] inv f(1,2)] by auto
  obtain r2 S2 w2 where c2: "replaceTargets sys_rename force S w1 = ((r2, S2), w2)"
    by (metis prod.exhaust)
  have eu: "euid w1 = euid w" by (rule dirStep_euid [OF s(1)])
  obtain t where t: "sf_temp f = joinPath [dir, t]" "simpleName t"
    "\<And>n. n \<noteq> t \<Longrightarrow> n \<noteq> nm f \<Longrightarrow> n \<noteq> bakName (nm f) \<Longrightarrow> ent dir w1 n = ent dir w n"
    using s(4) unfolding movedIn_def by blast
  have fm: "f \<in> set (pre @ f # S)" by simp
  obtain t' where t': "joinPath [dir, t] = joinPath [dir, t']" "isTempOf (sf_file f) t'" "simpleName t'"
    using batchInv_mem [OF inv fm] f(2) t(1) ent_simple unfolding tempOK_def by metis
  have "t = t'" using t'(1) joinPath_inj [OF dirReadyD(1) [OF rd] t(2) t'(3)] by simp
  then have tf: "isTempOf (sf_file f) t" using t'(2) by simp
  have keep: "ent dir w1 n = ent dir w n" if "st \<in> set S" "n \<in> mine (sf_file st)" for st n
  proof -
    have st: "st \<in> set (pre @ f # S)" using that(1) by simp
    have "distinct (map nm (pre @ f # S))" using inv by (simp add: batchInv_def)
    then have "nm st \<noteq> nm f" using that(1) by (auto simp: image_iff)
    then have "mine (sf_file st) \<inter> mine (sf_file f) = {}"
      using mine_disjoint [OF batchInv_names(1) [OF inv], of "sf_file st" "sf_file f"] st
        batchInv_names(2) [OF inv] by auto
    then have no: "n \<notin> mine (sf_file f)" using that(2) by (simp only: disjoint_iff) metis
    have "n \<noteq> t" "n \<noteq> nm f" "n \<noteq> bakName (nm f)"
      using no temp_in_mine [OF tf] slot_in_mine [of "sf_file f"] by (metis+)
    then show ?thesis by (rule t(3))
  qed
  have "r2 = None"
  proof (rule Cons.IH [OF c2 dirReady_step [OF s(1) rd] s(2) [folded eu]])
    fix st
    assume st: "st \<in> set S"
    have "placeable force (ent dir w1) (sf_file st) = placeable force (ent dir w) (sf_file st)"
      using keep [OF st] slot_in_mine [of "sf_file st"] by (intro placeable_cong) auto
    then show "untouched st \<and> sf_temp st \<noteq> [] \<and> placeable force (ent dir w1) (sf_file st)"
      using Cons.prems(4) [of st] st by simp
  qed
  then show ?case using Cons.prems(1) c1 c2 by simp
qed

lemma verifyTargets_ready:
  assumes "verifyTargets S w = (r, w')" "dirReady dir w"
    "\<And>st. st \<in> set S \<Longrightarrow> shapeOK dir force st \<and> ent dir w (nm st) = Some (newNode u (sf_file st))"
  shows "r = None"
  using assms
proof (induction S arbitrary: w r)
  case Nil
  then show ?case by simp
next
  case (Cons f S)
  have sn: "simpleName (nm f)" "sf_target f = joinPath [dir, nm f]"
    and at: "ent dir w (nm f) = Some (newNode u (sf_file f))"
    using Cons.prems(3) [of f] by (auto simp: shapeOK_def)
  obtain w1 where c: "sys_readFile (sf_target f) w = (Inr (fdata (sf_file f)), w1)"
    using readFile_ready [OF Cons.prems(2) sn(1) at newNode_kind(1)] sn(2) by (auto simp: newNode_def)
  have s: "dirStep dir w w1 (ent dir w)"
    by (rule dirStep_ro [OF readFile.env [OF c] readFile.fs_same [OF c]])
  have run: "verifyTargets S w1 = (r, w')" using Cons.prems(1) c by simp
  show ?case
    by (rule Cons.IH [OF run dirReady_step [OF s Cons.prems(2)]])
      (use Cons.prems(3) dirStep_ent [OF s] in auto)
qed

lemma removeBackups_ready:
  assumes "removeBackups S w = (r, w')" "dirReady dir w" "distinct (map nm S)"
    "\<And>st. st \<in> set S \<Longrightarrow> shapeOK dir force st"
    "\<And>st. st \<in> set S \<Longrightarrow> sf_hadTarget st \<Longrightarrow> \<exists>i. ent dir w (bakName (nm st)) = Some i \<and> \<not> isDir i"
  shows "r = Inr ()"
  using assms
proof (induction S arbitrary: w r)
  case Nil
  then show ?case by simp
next
  case (Cons f S)
  show ?case
  proof (cases "sf_hadTarget f")
    case False
    have run: "removeBackups S w = (r, w')" using Cons.prems(1) False by simp
    show ?thesis by (rule Cons.IH [OF run Cons.prems(2)]) (use Cons.prems(3-5) in auto)
  next
    case True
    have sn: "simpleName (bakName (nm f))" "sf_backup f = joinPath [dir, bakName (nm f)]"
      using Cons.prems(4) [of f] True simple_bakName by (auto simp: shapeOK_def)
    obtain i where i: "ent dir w (bakName (nm f)) = Some i" "\<not> isDir i" using Cons.prems(5) [of f] True by auto
    obtain w1 where c: "sys_remove (sf_backup f) w = (Inr (), w1)"
      using remove_ready [OF Cons.prems(2) sn(1) i] sn(2) by auto
    have s: "dirStep dir w w1 ((ent dir w)(bakName (nm f) := None))"
      using remove_dir(1) [OF c [unfolded sn(2)] dirReadyD(1) [OF Cons.prems(2)] sn(1)] by simp
    have run: "removeBackups S w1 = (r, w')" using Cons.prems(1) True c by simp
    have nf: "nm st \<noteq> nm f" if "st \<in> set S" for st using Cons.prems(3) that by (auto simp: image_iff)
    show ?thesis
      by (rule Cons.IH [OF run dirReady_step [OF s Cons.prems(2)]])
        (use Cons.prems(3-5) nf dirStep_ent [OF s] in auto)
  qed
qed

end
