(* ===== verification/Samples.thy ===== *)
theory Samples
  imports GoPath
begin

text \<open>
  Concrete worlds on which the properties are evaluated: an output directory \<open>/out\<close> of mode
  0700 in an otherwise empty tree, without failing calls, and the same with one failing call.
\<close>

definition dirNode :: "filemode \<Rightarrow> nat \<Rightarrow> inode" where
  "dirNode m u = \<lparr>kind = Directory, perm = m, uid = u, data = []\<rparr>"

definition fileNode :: "filemode \<Rightarrow> nat \<Rightarrow> string \<Rightarrow> inode" where
  "fileNode m u t = \<lparr>kind = RegularFile, perm = m, uid = u, data = t\<rparr>"

definition epoch :: gotime where
  "epoch = \<lparr>t_year = 2026, t_month = 1, t_day = 2, t_hour = 3, t_minute = 4, t_second = 5, t_nano = 0, t_offset = 0\<rparr>"

definition sampleWorld :: "(string \<Rightarrow> inode option) \<Rightarrow> world" where
  "sampleWorld t =
     \<lparr>tree = t, cwd = ''/'', ticks = 0, faults = (\<lambda>_. None), kernel = (\<lambda>_. None), umask = o022,
      euid = 0, pid = 7, entropy = (\<lambda>_. CHR ''A''), drawn = 0, clock = (\<lambda>_. epoch)\<rparr>"

definition outTree :: "string \<Rightarrow> inode option" where
  "outTree = [''/'' \<mapsto> dirNode o755 0, ''/out'' \<mapsto> dirNode o700 0]"

definition outWorld :: world where
  "outWorld = sampleWorld outTree"

text \<open>The call number \<open>n\<close> fails.\<close>

definition failing :: "nat \<Rightarrow> world \<Rightarrow> world" where
  "failing n w = w\<lparr>faults := (\<lambda>t. if t = n then Some (EIO, 0) else None)\<rparr>"

lemma outWorld_sel [simp]:
  "cwd outWorld = ''/''" "euid outWorld = 0" "kernel outWorld = (\<lambda>_. None)"
  "faults outWorld = (\<lambda>_. None)" "tree outWorld = outTree"
  by (simp_all add: outWorld_def sampleWorld_def)

end
