(* ===== verification/WriteFilesSpec.thy ===== *)
theory WriteFilesSpec
  imports AtomicLive Samples
begin

text \<open>
  The properties of \<open>WriteFiles\<close> (internal/secret/atomic.go), for every schedule of failing
  calls: what the directory holds after a success, what an error still guarantees, and that
  a run without failing calls succeeds.
\<close>

section \<open>The outcomes, on the tree\<close>

abbreviation target :: "string \<Rightarrow> outfile \<Rightarrow> string" where
  "target dir f \<equiv> joinPath [dir, fname f]"

text \<open>All new files are in place.\<close>

definition filesInstalled :: "string \<Rightarrow> outfile list \<Rightarrow> world \<Rightarrow> bool" where
  "filesInstalled dir files w =
     (\<forall>f \<in> set files. lookup w (target dir f) = Some (newNode (euid w) f))"

text \<open>Nothing but the targets differs, except for directories created on the way.\<close>

definition onlyTargets :: "string \<Rightarrow> outfile list \<Rightarrow> world \<Rightarrow> world \<Rightarrow> bool" where
  "onlyTargets dir files w w' =
     (\<forall>k. k \<notin> (\<lambda>f. keyOf w (target dir f)) ` set files \<longrightarrow>
        tree w' k = tree w k \<or> (tree w k = None \<and> k \<in> set (ancestors (keyOf w dir))))"

text \<open>
  Everything is as before, except for directories created on the way and temporary files
  that could not be removed.
\<close>

definition rolledBack :: "string \<Rightarrow> outfile list \<Rightarrow> world \<Rightarrow> world \<Rightarrow> bool" where
  "rolledBack dir files w w' =
     (\<forall>k. tree w' k = tree w k \<or>
        (tree w k = None \<and>
          (k \<in> set (ancestors (keyOf w dir)) \<or>
           (\<exists>f \<in> set files. \<exists>t. isTempOf f t \<and> k = child (keyOf w dir) t))))"

text \<open>Every file that was at a target is still there, or at its backup path.\<close>

definition oldSurvive :: "string \<Rightarrow> outfile list \<Rightarrow> world \<Rightarrow> world \<Rightarrow> bool" where
  "oldSurvive dir files w w' =
     (\<forall>f \<in> set files. \<forall>i. lookup w (target dir f) = Some i \<longrightarrow>
        lookup w' (target dir f) = Some i \<or> lookup w' (target dir f @ ''.backup'') = Some i)"

section \<open>From the directory map to the tree\<close>

lemma same_dir:
  assumes "onlyAncestors dir w v" "dirStep dir v w' h" "plainDir dir w"
  shows "keyOf v p = keyOf w p" "keyOf w' p = keyOf w p" "ent dir w' = h" "euid w' = euid w"
    "plainDir dir v" "plainDir dir w'" "ent dir v = ent dir w" "euid v = euid w"
proof -
  have e: "sameEnv w v" "sameEnv v w'" using assms dirStep_env by (auto simp: onlyAncestors_def)
  show "keyOf v p = keyOf w p" "keyOf w' p = keyOf w p" "ent dir w' = h" "euid w' = euid w"
    "plainDir dir v" "plainDir dir w'" "ent dir v = ent dir w" "euid v = euid w"
    using e assms sameEnv_keyOf [OF e(1)] sameEnv_keyOf [OF e(2)] plainDir_same dirStep_ent
      onlyAncestors_ent [OF assms(1,3)] by (auto simp: sameEnv_def)
qed

lemma tree_change:
  assumes oa: "onlyAncestors dir w v" and ds: "dirStep dir v w' h" and pd: "plainDir dir w"
    and ne: "tree w' k \<noteq> tree w k"
  shows "(tree w k = None \<and> k \<in> set (ancestors (keyOf w dir))) \<or>
    (\<exists>n. simpleName n \<and> k = child (keyOf w dir) n \<and> h n \<noteq> ent dir w n \<and> tree w k = ent dir w n)"
proof (cases rule: dirStep_cases [OF ds, of k])
  case (1 n)
  note sd = same_dir [OF oa ds pd]
  have "k = child (keyOf w dir) n" "tree w k = ent dir w n"
    using 1 sd(1) tree_ent [of n w dir] by simp_all
  then show ?thesis using 1 ne by auto
next
  case 2
  then show ?thesis using oa ne unfolding onlyAncestors_def by metis
qed

lemma filesInstalledI:
  assumes "installedMap (euid w) files (ent dir w)" "plainDir dir w"
  shows "filesInstalled dir files w"
  unfolding filesInstalled_def
proof
  fix f
  assume "f \<in> set files"
  then have n: "ent dir w (fname f) = Some (newNode (euid w) f)"
    using assms(1) by (simp add: installedMap_def)
  then show "lookup w (target dir f) = Some (newNode (euid w) f)"
    using lookup_ent [OF assms(2) ent_simple [OF n]] by simp
qed

lemma onlyTargetsI:
  assumes oa: "onlyAncestors dir w v" and ds: "dirStep dir v w' h" and pd: "plainDir dir w"
    and h: "\<And>n. n \<notin> fname ` set files \<Longrightarrow> h n = ent dir w n"
  shows "onlyTargets dir files w w'"
  unfolding onlyTargets_def
proof (intro allI impI)
  fix k
  assume k: "k \<notin> (\<lambda>f. keyOf w (target dir f)) ` set files"
  have False if n: "simpleName n" "k = child (keyOf w dir) n" "h n \<noteq> ent dir w n" for n
  proof -
    obtain f where f: "f \<in> set files" "n = fname f" using h n(3) by blast
    then have "k = keyOf w (target dir f)" using n(2) key_ent [OF pd n(1)] by simp
    then show False using k f(1) by blast
  qed
  then show "tree w' k = tree w k \<or> (tree w k = None \<and> k \<in> set (ancestors (keyOf w dir)))"
    using tree_change [OF oa ds pd, of k] by blast
qed

lemma rolledBackI:
  assumes oa: "onlyAncestors dir w v" and ds: "dirStep dir v w' h" and pd: "plainDir dir w"
    and h: "restoredMap files (ent dir w) h"
  shows "rolledBack dir files w w'"
  unfolding rolledBack_def
proof
  fix k
  show "tree w' k = tree w k \<or> (tree w k = None \<and> (k \<in> set (ancestors (keyOf w dir)) \<or>
         (\<exists>f \<in> set files. \<exists>t. isTempOf f t \<and> k = child (keyOf w dir) t)))"
  proof (cases "tree w' k = tree w k")
    case False
    from tree_change [OF oa ds pd False] show ?thesis
    proof
      assume "\<exists>n. simpleName n \<and> k = child (keyOf w dir) n \<and> h n \<noteq> ent dir w n \<and> tree w k = ent dir w n"
      then obtain n where n: "k = child (keyOf w dir) n" "h n \<noteq> ent dir w n" "tree w k = ent dir w n"
        by blast
      have "strayTemp files (ent dir w) n" using h n(2) unfolding restoredMap_def by blast
      then show ?thesis using n unfolding strayTemp_def by auto
    qed blast
  qed simp
qed

lemma oldSurviveI:
  assumes pd: "plainDir dir w" "plainDir dir w'" and k: "keptMap files (ent dir w) (ent dir w')"
    and sn: "\<And>f. f \<in> set files \<Longrightarrow> simpleName (fname f)"
  shows "oldSurvive dir files w w'"
  unfolding oldSurvive_def
proof (intro ballI allI impI)
  fix f i
  assume f: "f \<in> set files" and i: "lookup w (target dir f) = Some i"
  note s = sn [OF f] simple_bakName [OF sn [OF f]]
  have d: "dir \<noteq> []" using pd by (simp add: plainDir_def)
  have e: "ent dir w (fname f) = Some i" using i lookup_ent [OF pd(1) s(1)] by simp
  have "keptIn (ent dir w) (ent dir w') (fname f)" using k f by (simp add: keptMap_def)
  then show "lookup w' (target dir f) = Some i \<or> lookup w' (target dir f @ ''.backup'') = Some i"
    using e lookup_ent [OF pd(2) s(1)] lookup_ent [OF pd(2) s(2)] backup_path [OF d s(1)]
    by (auto simp: keptIn_def)
qed

section \<open>The whole run\<close>

lemma ent_not_simple: "\<not> simpleName n \<Longrightarrow> ent dir w n = None"
  by (simp add: ent_def)

lemma staged_simple:
  assumes "stageFiles dir force seen files w = (Inr S, w')" "batch_ok files" "f \<in> set files"
  shows "simpleName (fname f)"
proof (rule simple_safe)
  show "\<not> nameUnsafe (fname f)" using stageFiles_as [OF assms(1)] assms(3) by blast
  show "take 1 (fname f) \<noteq> ''.''" using assms(2,3) by (simp add: batch_ok_def)
qed

text \<open>The parts of a run: directory, staging, installation, commit.\<close>

lemma WriteFiles_runs:
  assumes run: "WriteFiles dir files force w = (r, w')" and pd: "plainDir dir w"
  obtains (early) e where "r = Inl e" "onlyAncestors dir w w'"
  | (install) e u v S where "r = Inl e" "onlyAncestors dir w v"
      "stageFiles dir force [] files u = (Inr S, v)"
      "installFiles dir force sys_rename S v = (Inl e, w')"
  | (commit) u v S S' v2 where "onlyAncestors dir w v"
      "stageFiles dir force [] files u = (Inr S, v)"
      "installFiles dir force sys_rename S v = (Inr S', v2)" "commitFiles dir S' v2 = (r, w')"
proof -
  have d: "dir \<noteq> []" using pd by (simp add: plainDir_def)
  obtain r1 w1 where c1: "ensureSecureDirectory dir w = (r1, w1)" by fastforce
  obtain r2 w2 where c2: "stageFiles dir force [] files w1 = (r2, w2)" by fastforce
  have o1: "onlyAncestors dir w w1" by (rule ensureSecureDirectory_ancestors [OF c1])
  have o2: "onlyAncestors dir w w2" using onlyAncestors_ro(2) [OF o1] stageFiles_ro [OF c2] by blast
  note run' = run [unfolded WriteFiles_def writeFiles_def] d c1
  show thesis
  proof (cases r1)
    case (Inl e)
    then show thesis using early [of e] run' o1 by simp
  next
    case i1: (Inr x)
    show thesis
    proof (cases r2)
      case (Inl e)
      then show thesis using early [of e] run' o2 i1 c2 by simp
    next
      case (Inr S)
      obtain r3 w3 where c3: "installFiles dir force sys_rename S w2 = (r3, w3)" by fastforce
      show thesis
      proof (cases r3)
        case (Inl e)
        then show thesis using install [of e w2 w1 S] run' o2 i1 c2 Inr c3 by simp
      next
        case i3: (Inr S')
        then show thesis using commit [of w2 w1 S S' w3] run' o2 i1 c2 Inr c3 by simp
      qed
    qed
  qed
qed

lemma install_post:
  assumes oa: "onlyAncestors dir w v" and st: "stageFiles dir force [] files u = (Inr S, v)"
    and run: "installFiles dir force sys_rename S v = (r, w')" and pd: "plainDir dir w"
    and bo: "batch_ok files"
  shows "installPost dir force (ent dir w) v files r w'"
proof -
  have d: "dir \<noteq> []" and ev: "ent dir v = ent dir w" and pv: "plainDir dir v"
    using pd same_dir [OF oa dirStep_refl pd] by (auto simp: plainDir_def)
  note as = stageFiles_as [OF st]
  have m: "map sf_file S = files" using as by blast
  have inv: "batchInv dir force (euid v) (ent dir w) (ent dir v) S"
    using staged_batch [OF st bo d] ev by simp
  have un: "untouched x \<and> sf_temp x = []" if "x \<in> set S" for x
    using as that unfolding stagedAs_def by blast
  have "accounted dir (ent dir w) (ent dir v) S" by (simp add: accounted_def ev)
  then show ?thesis using os_rename.installFiles_dir [OF run pv inv un] m by simp
qed

lemma commit_post:
  assumes oa: "onlyAncestors dir w v" and st: "stageFiles dir force [] files u = (Inr S, v)"
    and i: "installFiles dir force sys_rename S v = (Inr S', v2)"
    and run: "commitFiles dir S' v2 = (r, w')" and pd: "plainDir dir w" and bo: "batch_ok files"
  shows "dirStep dir v w' (ent dir w') \<and> installedMap (euid w) files (ent dir w') \<and>
    (r = Inr () \<longrightarrow> committedMap (euid w) files (ent dir w) (ent dir w')) \<and>
    (\<forall>e. r = Inl e \<longrightarrow> committedError e)"
proof -
  note ip = install_post [OF oa st i pd bo, unfolded installPost_def]
  have s: "dirStep dir v v2 (ent dir v2)" and m: "map sf_file S' = files"
    and b: "batchInv dir force (euid v) (ent dir w) (ent dir v2) S'"
    and ins: "\<And>x. x \<in> set S' \<Longrightarrow> sf_installed x \<and> sf_temp x = []"
    and acc: "accounted dir (ent dir w) (ent dir v2) S'" using ip by auto
  have p2: "plainDir dir v2" and eu: "euid v = euid w"
    using same_dir [OF oa s pd] by auto
  show ?thesis
    using commitFiles_dir [OF run p2 b ins acc ent_not_simple] dirStep_trans [OF s] m eu by simp
qed

section \<open>Without force\<close>

lemma stageFile_absent:
  assumes "stageFile dir False f w = (Inr st, w')" "plainDir dir w" "simpleName (fname f)"
  shows "ent dir w (fname f) = None"
proof -
  obtain r1 w1 where c: "sys_lstat (joinPath [dir, fname f]) w = (r1, w1)" by fastforce
  obtain e where "r1 = Inl e" "is_not_exist e"
    using assms(1) c by (auto simp: stageFile_def Let_def split: sum.splits if_splits)
  then show ?thesis using lstat_dir(3) [OF c assms(2,3)] by blast
qed

lemma stageFiles_absent:
  assumes "stageFiles dir False seen files w = (Inr S, w')" "plainDir dir w"
    "\<And>f. f \<in> set files \<Longrightarrow> simpleName (fname f)" "f \<in> set files"
  shows "ent dir w (fname f) = None"
  using assms
proof (induction files arbitrary: seen w S w')
  case Nil
  then show ?case by simp
next
  case (Cons g gs)
  have ok: "\<not> nameUnsafe (fname g)" "fname g \<notin> set seen" using Cons.prems(1) by (auto split: if_splits)
  obtain r1 w1 where c: "stageFile dir False g w = (r1, w1)" by fastforce
  obtain st where r1: "r1 = Inr st" using Cons.prems(1) c ok by (cases r1) auto
  obtain r2 w2 where c2: "stageFiles dir False (fname g # seen) gs w1 = (r2, w2)" by fastforce
  obtain S2 where r2: "r2 = Inr S2" using Cons.prems(1) c r1 c2 ok by (cases r2) auto
  have env: "sameEnv w w1" "tree w1 = tree w" using stageFile_ro [OF c] by auto
  show ?case
  proof (cases "f = g")
    case True
    then show ?thesis using stageFile_absent [OF c [unfolded r1] Cons.prems(2)] Cons.prems(3) by simp
  next
    case False
    have "ent dir w1 (fname f) = None"
      by (rule Cons.IH [OF c2 [unfolded r2] plainDir_same [OF env(1) Cons.prems(2)]])
        (use Cons.prems(3,4) False in auto)
    then show ?thesis using ent_cong [OF env] by simp
  qed
qed

text \<open>
  A kept directory in which no target existed has every old entry.
\<close>

lemma kept_existing:
  assumes "keptMap files h0 h" "\<And>f. f \<in> set files \<Longrightarrow> h0 (fname f) = None" "h0 n \<noteq> None"
  shows "h n = h0 n"
proof (cases "n \<in> fname ` set files \<or> n \<in> bakName ` fname ` set files")
  case True
  then obtain f where f: "f \<in> set files" "n = bakName (fname f)" using assms(2,3) by auto
  then have "keptIn h0 h (fname f)" using assms(1) by (simp add: keptMap_def)
  then show ?thesis using f(2) assms(3) unfolding keptIn_def by metis
next
  case False
  then have "h n = h0 n \<or> strayTemp files h0 n" using assms(1) by (simp add: keptMap_def)
  then show ?thesis using assms(3) by (simp add: strayTemp_def)
qed

lemma removeBackups_none:
  "removeBackups S w = (r, w') \<Longrightarrow> \<forall>st \<in> set S. \<not> sf_hadTarget st \<Longrightarrow> w' = w \<and> r = Inr ()"
  by (induction S) auto

lemma commit_kept:
  assumes run: "commitFiles dir S w = (r, w')" and inv: "batchInv dir False u h0 (ent dir w) S"
  shows "keptMap (map sf_file S) h0 (ent dir w') \<and> dirStep dir w w' (ent dir w')"
proof -
  have "\<forall>st \<in> set S. \<not> sf_hadTarget st" using batchInv_mem [OF inv] unfolding shapeOK_def by blast
  then have rb: "removeBackups S w = (Inr (), w)" using removeBackups_none by (metis prod.exhaust)
  obtain r2 w2 where c: "syncDirectory dir w = (r2, w2)" by fastforce
  have "w' = w2" using run rb c by (auto simp: commitFiles_def split: sum.splits)
  then show ?thesis
    using syncDirectory_dir [OF c, of dir] dirStep_ent batchInv_kept [OF inv] by metis
qed

lemma existing_kept:
  assumes oa: "onlyAncestors dir w v" and ds: "dirStep dir v w' h" and pd: "plainDir dir w"
    and k: "keptMap files (ent dir w) h" and a: "\<And>f. f \<in> set files \<Longrightarrow> ent dir w (fname f) = None"
    and ex: "tree w p \<noteq> None"
  shows "tree w' p = tree w p"
proof (rule ccontr)
  assume "tree w' p \<noteq> tree w p"
  from tree_change [OF oa ds pd this] ex
  obtain n where "h n \<noteq> ent dir w n" "ent dir w n \<noteq> None" by metis
  then show False using kept_existing [OF k a] by blast
qed

lemma absent_before:
  assumes "onlyAncestors dir w v" "stageFiles dir False [] files u = (Inr S, v)" "plainDir dir w"
    "batch_ok files" "f \<in> set files"
  shows "ent dir w (fname f) = None"
proof -
  have e: "sameEnv u v" "tree v = tree u" using stageFiles_ro [OF assms(2)] by auto
  have "plainDir dir v" using same_dir [OF assms(1) dirStep_refl assms(3)] by simp
  then have "plainDir dir u" using e(1) by (auto simp: sameEnv_def intro: plainDir_same [rotated])
  then have "ent dir u (fname f) = None"
    by (rule stageFiles_absent [OF assms(2)]) (use staged_simple [OF assms(2,4)] assms(5) in auto)
  then show ?thesis using ent_cong [OF e] onlyAncestors_ent [OF assms(1,3)] by simp
qed

section \<open>Without faults\<close>

text \<open>The conditions under which the guards of \<open>WriteFiles\<close> all pass.\<close>

definition writable :: "string \<Rightarrow> outfile list \<Rightarrow> bool \<Rightarrow> world \<Rightarrow> bool" where
  "writable dir files force w =
     (dirReady dir w \<and>
      (\<exists>i. lookup w dir = Some i \<and> isDir i \<and> and (perm i) o022 = 0) \<and>
      distinct (map fname files) \<and>
      (\<forall>f \<in> set files. \<not> nameUnsafe (fname f) \<and> placeable force (ent dir w) f \<and>
         (\<forall>t. isTempOf f t \<longrightarrow> ent dir w t = None)))"

lemma ensure_ready:
  assumes "writable dir files force w"
  shows "ensureSecureDirectory dir w = (Inr (), tick w)"
proof -
  obtain i where i: "lookup w dir = Some i" "isDir i" "and (perm i) o022 = 0" "quiet w"
    using assms by (auto simp: writable_def dirReady_def)
  have "\<not> isSymlink i" using i(2) by (simp add: isDir_def isSymlink_def)
  then show ?thesis using i
    by (simp add: ensureSecureDirectory_def sys_lstat_def checkDirInfo_def checkDirectoryPermissions_def)
qed

lemma dirReady_tick: "dirReady dir w \<Longrightarrow> dirReady dir (tick w)" "ent dir (tick w) = ent dir w"
proof -
  have s: "dirStep dir w (tick w) (ent dir w)" by (rule dirStep_ro) simp_all
  show "dirReady dir w \<Longrightarrow> dirReady dir (tick w)" by (rule dirReady_step [OF s])
  show "ent dir (tick w) = ent dir w" by (rule dirStep_ent [OF s])
qed

lemma stageFile_ready:
  assumes rd: "dirReady dir w" and n: "simpleName (fname f)" and p: "placeable force (ent dir w) f"
  shows "\<exists>st w'. stageFile dir force f w = (Inr st, w')"
proof -
  let ?t = "joinPath [dir, fname f]"
  have b: "\<exists>st' w'. stageBackup force st (tick w) = (Inr st', w')" if "sf_target st = ?t" for st
  proof (cases force)
    case True
    have "dir \<noteq> []" using rd by (simp add: dirReady_def plainDir_def)
    note bp = backup_path [OF this n]
    have "sys_lstat (?t @ ''.backup'') (tick w)
        = (Inl (OsError ''lstat'' (joinPath [dir, bakName (fname f)]) ENOENT), tick (tick w))"
      using lstat_ready [OF dirReady_tick(1) [OF rd] simple_bakName [OF n]] p True
      by (simp add: bp dirReady_tick(2) placeable_def)
    then show ?thesis using True that by (simp add: stageBackup_def Let_def)
  qed (simp add: stageBackup_def)
  show ?thesis
  proof (cases "ent dir w (fname f)")
    case None
    then show ?thesis using lstat_ready [OF rd n] b by (simp add: stageFile_def Let_def)
  next
    case (Some i)
    then have "force" "isRegular i" using p by (auto simp: placeable_def split: if_splits)
    moreover from this have "\<not> isSymlink i" by (auto simp: isRegular_def isSymlink_def)
    ultimately show ?thesis using lstat_ready [OF rd n] b Some by (simp add: stageFile_def Let_def)
  qed
qed

lemma stageFiles_ready:
  assumes "dirReady dir w" "distinct (map fname files)" "set (map fname files) \<inter> set seen = {}"
    "\<And>f. f \<in> set files \<Longrightarrow> \<not> nameUnsafe (fname f) \<and> simpleName (fname f) \<and> placeable force (ent dir w) f"
  shows "\<exists>S w'. stageFiles dir force seen files w = (Inr S, w')"
  using assms
proof (induction files arbitrary: seen w)
  case Nil
  then show ?case by simp
next
  case (Cons f fs)
  have f: "\<not> nameUnsafe (fname f)" "simpleName (fname f)" "placeable force (ent dir w) f"
    using Cons.prems(4) by auto
  obtain st w1 where c: "stageFile dir force f w = (Inr st, w1)"
    using stageFile_ready [OF Cons.prems(1) f(2,3)] by blast
  have s: "dirStep dir w w1 (ent dir w)" using stageFile_ro [OF c] by (intro dirStep_ro) auto
  have "\<exists>S w'. stageFiles dir force (fname f # seen) fs w1 = (Inr S, w')"
    by (rule Cons.IH [OF dirReady_step [OF s Cons.prems(1)]])
      (use Cons.prems(2-4) dirStep_ent [OF s] in auto)
  then show ?case using c f(1) Cons.prems(3) by auto
qed

lemma installFiles_ready:
  assumes rd: "dirReady dir w" and inv: "batchInv dir force (euid w) h0 (ent dir w) S"
    and st: "\<And>x. x \<in> set S \<Longrightarrow> untouched x \<and> sf_temp x = [] \<and> placeable force (ent dir w) (sf_file x)"
    and fresh: "\<And>x t. x \<in> set S \<Longrightarrow> isTempOf (sf_file x) t \<Longrightarrow> ent dir w t = None"
    and acc: "accounted dir h0 (ent dir w) S"
  shows "\<exists>S' w'. installFiles dir force sys_rename S w = (Inr S', w')"
proof -
  note pd = dirReadyD(1) [OF rd]
  have dn: "distinct (map nm S)" using inv by (simp add: batchInv_def)
  obtain r1 S1 w1 where c1: "writeTemps dir S w = ((r1, S1), w1)" by (metis prod.exhaust)
  have r1: "r1 = None"
    by (rule writeTemps_ready [OF c1 rd dn]) (use batchInv_mem [OF inv] shape_slash fresh in blast)+
  have t: "dirStep dir w w1 (ent dir w1)" "batchInv dir force (euid w) h0 (ent dir w1) S1"
    "map sf_file S1 = map sf_file S" "\<And>x. x \<in> set S1 \<Longrightarrow> untouched x \<and> sf_temp x \<noteq> []"
    using writeTemps_inv [OF c1 pd, of force h0 "[]"] inv st r1 by auto
  note rd1 = dirReady_step [OF t(1) rd] and eu = dirStep_euid [OF t(1)]
  have pl: "placeable force (ent dir w1) (sf_file x)" if "x \<in> set S1" for x
  proof -
    have "sf_file x \<in> set (map sf_file S)" using that t(3) by (metis image_eqI list.set_map)
    then obtain y where y: "y \<in> set S" "sf_file y = sf_file x" by auto
    have "slotOK (euid w) h0 (ent dir w1) x" "slotOK (euid w) h0 (ent dir w) y" "untouched x" "untouched y"
      using batchInv_mem [OF t(2) that] batchInv_mem [OF inv y(1)] t(4) [OF that] st [OF y(1)] by auto
    then have "placeable force (ent dir w1) (sf_file x) = placeable force (ent dir w) (sf_file x)"
      using y(2) by (intro placeable_cong) (auto simp: slotOK_def untouched_def)
    then show ?thesis using st [OF y(1)] y(2) by simp
  qed
  obtain r2 S2 w2 where c2: "replaceTargets sys_rename force S1 w1 = ((r2, S2), w2)"
    by (metis prod.exhaust)
  have r2: "r2 = None"
    by (rule replaceTargets_ready [OF c2 rd1, of h0 "[]"]) (use t pl eu in auto)
  have q: "dirStep dir w1 w2 (ent dir w2)" "batchInv dir force (euid w) h0 (ent dir w2) S2"
    "\<And>x. x \<in> set S2 \<Longrightarrow> sf_installed x"
    using os_rename.replaceTargets_inv [OF c2 dirReadyD(1) [OF rd1], of h0 "[]"] t eu r2 by auto
  note rd2 = dirReady_step [OF q(1) rd1]
  obtain w3 where c3: "syncDirectory dir w2 = (Inr (), w3)" using sync_ready [OF rd2] by blast
  have s3: "dirStep dir w2 w3 (ent dir w2)" by (rule syncDirectory_dir [OF c3])
  obtain r4 w4 where c4: "verifyTargets S2 w3 = (r4, w4)" by fastforce
  have "r4 = None"
    by (rule verifyTargets_ready [OF c4 dirReady_step [OF s3 rd2], of force "euid w"])
      (use batchInv_mem [OF q(2)] q(3) dirStep_ent [OF s3] in \<open>auto simp: slotOK_def\<close>)
  then show ?thesis using c1 r1 c2 r2 c3 c4 by (simp add: installFiles_def)
qed

lemma commitFiles_ready:
  assumes rd: "dirReady dir w" and inv: "batchInv dir force u h0 (ent dir w) S"
    and pl: "\<And>x. x \<in> set S \<Longrightarrow> placeable force h0 (sf_file x)"
  shows "\<exists>w'. commitFiles dir S w = (Inr (), w')"
proof -
  obtain r1 w1 where c1: "removeBackups S w = (r1, w1)" by fastforce
  have sh: "shapeOK dir force x" "slotOK u h0 (ent dir w) x" if "x \<in> set S" for x
    using batchInv_mem [OF inv that] by auto
  have dn: "distinct (map nm S)" using inv by (simp add: batchInv_def)
  have "r1 = Inr ()"
  proof (rule removeBackups_ready [OF c1 rd dn sh(1)])
    fix x
    assume x: "x \<in> set S" "sf_hadTarget x"
    have f: force using sh(1) [OF x(1)] x(2) by (simp add: shapeOK_def)
    obtain i where i: "h0 (nm x) = Some i" "ent dir w (bakName (nm x)) = Some i"
      using sh(2) [OF x(1)] x(2) by (auto simp: slotOK_def)
    then have "\<not> isDir i" using pl [OF x(1)] f regular_not_dir by (simp add: placeable_def)
    then show "\<exists>i. ent dir w (bakName (nm x)) = Some i \<and> \<not> isDir i" using i by blast
  qed
  moreover have "dirStep dir w w1 (ent dir w1)"
    using removeBackups_dir [OF c1 dirReadyD(1) [OF rd] sh(1)] by blast
  moreover obtain w2 where "syncDirectory dir w1 = (Inr (), w2)"
    using sync_ready dirReady_step [OF \<open>dirStep dir w w1 (ent dir w1)\<close> rd] by blast
  ultimately show ?thesis using c1 by (simp add: commitFiles_def)
qed

section \<open>Samples\<close>

definition sampleFile :: outfile where
  "sampleFile = \<lparr>fname = ''a'', fdata = ''new'', fmode = o600\<rparr>"

lemma sample_plain [simp]: "plainDir ''/out'' outWorld" "plainDir ''/out'' (failing n outWorld)"
  by (simp_all add: plainDir_def failing_def isAbs_def hasPrefix_def)

lemma sample_batch [simp]: "batch_ok [sampleFile]"
  by (simp add: batch_ok_def sampleFile_def bakName_def)

lemma sample_key: "keyOf outWorld ''/out'' = ''/out''"
  by code_simp

lemma sample_ent: "ent ''/out'' outWorld n = None"
  by (auto simp: ent_def sample_key child_def outTree_def simpleName_def)

lemma sample_writable: "writable ''/out'' [sampleFile] False outWorld"
proof -
  have "\<not> nameUnsafe (fname sampleFile)" by code_simp
  moreover have "tree outWorld (keyOf outWorld ''/out'') = Some (dirNode o700 0)"
    by (simp add: sample_key outTree_def)
  moreover have "isDir (dirNode o700 0)" "and (perm (dirNode o700 0)) o022 = 0"
    by (simp_all add: dirNode_def isDir_def)
  ultimately show ?thesis
    by (auto simp: writable_def dirReady_def quiet_def lookup_def placeable_def sample_ent)
qed

section \<open>The four facts\<close>

lemma WriteFiles_installs:
  assumes "WriteFiles dir files force w = (Inr x, w')" "plainDir dir w" "batch_ok files"
  shows "filesInstalled dir files w' \<and> onlyTargets dir files w w'"
  using assms(1,2)
proof (cases rule: WriteFiles_runs)
  case (commit u v S S' v2)
  note cp = commit_post [OF commit assms(2,3)]
  have s: "dirStep dir v w' (ent dir w')" and c: "committedMap (euid w) files (ent dir w) (ent dir w')"
    using cp by auto
  note sd = same_dir [OF commit(1) s assms(2)]
  have "filesInstalled dir files w'"
    by (rule filesInstalledI) (use c sd in \<open>auto simp: committedMap_def\<close>)
  moreover have "onlyTargets dir files w w'"
    by (rule onlyTargetsI [OF commit(1) s assms(2)]) (use c in \<open>simp add: committedMap_def\<close>)
  ultimately show ?thesis ..
qed auto

lemma WriteFiles_fails:
  assumes "WriteFiles dir files force w = (Inl e, w')" "plainDir dir w" "batch_ok files"
  shows "rolledBack dir files w w' \<or>
    (incompleteError e \<and> oldSurvive dir files w w') \<or>
    (committedError e \<and> filesInstalled dir files w')"
  using assms(1,2)
proof (cases rule: WriteFiles_runs)
  case (early e')
  then show ?thesis unfolding rolledBack_def onlyAncestors_def by blast
next
  case (install e' u v S)
  note ip = install_post [OF install(2,3,4) assms(2,3), unfolded installPost_def]
  have s: "dirStep dir v w' (ent dir w')" and k: "keptMap files (ent dir w) (ent dir w')"
    and rs: "\<not> incompleteError e \<Longrightarrow> restoredMap files (ent dir w) (ent dir w')"
    using ip install(1) by auto
  note sd = same_dir [OF install(2) s assms(2)]
  show ?thesis
  proof (cases "incompleteError e")
    case True
    have "oldSurvive dir files w w'"
      by (rule oldSurviveI [OF assms(2) sd(6) k]) (rule staged_simple [OF install(3) assms(3)])
    then show ?thesis using True by blast
  next
    case False
    then show ?thesis using rolledBackI [OF install(2) s assms(2) rs] by blast
  qed
next
  case (commit u v S S' v2)
  note cp = commit_post [OF commit assms(2,3)]
  have s: "dirStep dir v w' (ent dir w')" and c: "installedMap (euid w) files (ent dir w')"
    and ce: "committedError e" using cp by auto
  note sd = same_dir [OF commit(1) s assms(2)]
  have "filesInstalled dir files w'"
    by (rule filesInstalledI) (use c sd in auto)
  then show ?thesis using ce by blast
qed

lemma WriteFiles_keeps:
  assumes "WriteFiles dir files False w = (r, w')" "plainDir dir w" "batch_ok files"
    "tree w p \<noteq> None"
  shows "tree w' p = tree w p"
  using assms(1,2)
proof (cases rule: WriteFiles_runs)
  case (early e)
  then show ?thesis using assms(4) unfolding onlyAncestors_def by metis
next
  case (install e u v S)
  note ip = install_post [OF install(2,3,4) assms(2,3), unfolded installPost_def]
  have k: "keptMap files (ent dir w) (ent dir w')" and s: "dirStep dir v w' (ent dir w')"
    using ip by auto
  show ?thesis
    by (rule existing_kept [OF install(2) s assms(2) k absent_before [OF install(2,3) assms(2,3)] assms(4)])
next
  case (commit u v S S' v2)
  note ip = install_post [OF commit(1-3) assms(2,3), unfolded installPost_def]
  have s: "dirStep dir v v2 (ent dir v2)" and m: "map sf_file S' = files"
    and b: "batchInv dir False (euid v) (ent dir w) (ent dir v2) S'" using ip by auto
  have k: "keptMap files (ent dir w) (ent dir w')" and s2: "dirStep dir v w' (ent dir w')"
    using commit_kept [OF commit(4) b] m dirStep_trans [OF s] by auto
  show ?thesis
    by (rule existing_kept [OF commit(1) s2 assms(2) k absent_before [OF commit(1,2) assms(2,3)] assms(4)])
qed

lemma WriteFiles_ready:
  assumes wr: "writable dir files force w" and bo: "batch_ok files"
  shows "\<exists>w'. WriteFiles dir files force w = (Inr (), w')"
proof -
  have rd: "dirReady dir w" and pd: "plainDir dir w" and d: "dir \<noteq> []"
    using wr by (auto simp: writable_def dirReady_def plainDir_def)
  note rt = dirReady_tick(1) [OF rd] dirReady_tick(2) [of dir w]
  have fs: "\<not> nameUnsafe (fname f)" "placeable force (ent dir w) f" "simpleName (fname f)"
    "\<And>t. isTempOf f t \<Longrightarrow> ent dir w t = None" if "f \<in> set files" for f
    using wr bo that simple_safe unfolding writable_def batch_ok_def by blast+
  obtain S v where c: "stageFiles dir force [] files (tick w) = (Inr S, v)"
    using stageFiles_ready [OF rt(1), of files "[]" force] wr fs rt(2) by (auto simp: writable_def)
  have oa: "onlyAncestors dir w v" using stageFiles_ro [OF c] by (simp add: onlyAncestors_def)
  have ev: "ent dir v = ent dir w" by (rule onlyAncestors_ent [OF oa pd])
  have rv: "dirReady dir v"
    by (rule dirReady_step [OF dirStep_ro rt(1)]) (use stageFiles_ro [OF c] in auto)
  note as = stageFiles_as [OF c]
  have m: "map sf_file S = files" using as by blast
  have inF: "sf_file x \<in> set files" if "x \<in> set S" for x using m that by (metis image_eqI list.set_map)
  have inv: "batchInv dir force (euid v) (ent dir w) (ent dir v) S" using staged_batch [OF c bo d] ev by simp
  have un: "untouched x \<and> sf_temp x = [] \<and> placeable force (ent dir v) (sf_file x)" if "x \<in> set S" for x
    using as that fs(2) [OF inF [OF that]] ev unfolding stagedAs_def by auto
  have "accounted dir (ent dir w) (ent dir v) S" by (simp add: accounted_def ev)
  then obtain S' v2 where c2: "installFiles dir force sys_rename S v = (Inr S', v2)"
    using installFiles_ready [OF rv inv un] fs(4) inF ev by metis
  note ip = install_post [OF oa c c2 pd bo, unfolded installPost_def]
  have s: "dirStep dir v v2 (ent dir v2)" and m2: "map sf_file S' = files"
    and b: "batchInv dir force (euid v) (ent dir w) (ent dir v2) S'" using ip by auto
  have "placeable force (ent dir w) (sf_file x)" if "x \<in> set S'" for x
    using fs(2) m2 that by (metis image_eqI list.set_map)
  then obtain w3 where "commitFiles dir S' v2 = (Inr (), w3)"
    using commitFiles_ready [OF dirReady_step [OF s rv] b] by blast
  then show ?thesis using d ensure_ready [OF wr] c c2
    by (auto simp: WriteFiles_def writeFiles_def)
qed

section \<open>Properties\<close>

text \<open>
  The three facts on the outcome are about batches without hidden names in which no name is
  another one with \<open>.backup\<close> appended (\<open>batch_ok\<close>); the batches of \<open>generate\<close>, \<open>deliver\<close> and
  \<open>renew-certificate\<close> are such. The code does not check this, and the facts fail without it:
  with force, the target \<open>a\<close> is moved to the backup path \<open>a.backup\<close>, the file of that name in the
  batch is then installed over a backup of its own, and the commit removes what is at \<open>a.backup\<close>.
\<close>

definition occupiedWorld :: world where
  "occupiedWorld = sampleWorld [''/'' \<mapsto> dirNode o755 0, ''/out'' \<mapsto> dirNode o700 0,
     ''/out/a'' \<mapsto> fileNode o600 0 ''old'']"

lemma backup_name_lost:
  "(case WriteFiles ''/out'' [sampleFile, sampleFile\<lparr>fname := ''a.backup''\<rparr>] True occupiedWorld of
      (r, w') \<Rightarrow> (is_ok r, lookup w' ''/out/a.backup'' = None)) = (True, True)"
  by code_simp

text \<open>
  Claim C1. Take a batch without hidden names in which no name is another one with \<open>.backup\<close>
  appended, and an output directory that is an ordinary one (\<open>plainDir\<close>: not empty, the working
  directory absolute, not a place below /proc/sys where the kernel answers writes). A successful
  \<open>WriteFiles\<close> leaves every file of the batch in place, regular, with exactly the requested
  content and mode and owned by the process, and leaves every other path of the tree unchanged
  (no temporary file, no backup), except that the output directory and the directories above it
  are created where they were missing. This holds for every schedule of failing calls.
\<close>

theorem WriteFiles_success:
  assumes "WriteFiles dir files force w = (Inr x, w')" "plainDir dir w" "batch_ok files"
  shows "filesInstalled dir files w' \<and> onlyTargets dir files w w'"
  using assms by (rule WriteFiles_installs)

lemma WriteFiles_success_witness:
  "\<exists>x w'. WriteFiles ''/out'' [sampleFile] False outWorld = (Inr x, w') \<and>
     filesInstalled ''/out'' [sampleFile] w' \<and> onlyTargets ''/out'' [sampleFile] outWorld w'"
proof -
  have "is_ok (fst (WriteFiles ''/out'' [sampleFile] False outWorld))" by code_simp
  then obtain x w' where "WriteFiles ''/out'' [sampleFile] False outWorld = (Inr x, w')"
    by (metis is_ok_iff prod.collapse)
  then show ?thesis using WriteFiles_success by force
qed

text \<open>
  Claim C2. Take a batch without hidden names in which no name is another one with \<open>.backup\<close>
  appended, and an ordinary output directory (as in C1). Whichever calls fail, an error of
  \<open>WriteFiles\<close> leaves one of three states: the tree is as before but for directories created on the way to the output and temporary files that could not be removed; or
  the error says that the rollback is incomplete, and every old file survives at its path or its
  backup path; or the error says that the batch was committed, and all new files are in place.
\<close>

theorem WriteFiles_failure:
  assumes "WriteFiles dir files force w = (Inl e, w')" "plainDir dir w" "batch_ok files"
  shows "rolledBack dir files w w' \<or>
    (incompleteError e \<and> oldSurvive dir files w w') \<or>
    (committedError e \<and> filesInstalled dir files w')"
  using assms by (rule WriteFiles_fails)

lemma WriteFiles_failure_witness:
  "\<exists>e w'. WriteFiles ''/out'' [sampleFile] False (failing 3 outWorld) = (Inl e, w') \<and>
     (rolledBack ''/out'' [sampleFile] (failing 3 outWorld) w' \<or>
      (incompleteError e \<and> oldSurvive ''/out'' [sampleFile] (failing 3 outWorld) w') \<or>
      (committedError e \<and> filesInstalled ''/out'' [sampleFile] w'))"
proof -
  have "\<not> is_ok (fst (WriteFiles ''/out'' [sampleFile] False (failing 3 outWorld)))" by code_simp
  then obtain e w' where run: "WriteFiles ''/out'' [sampleFile] False (failing 3 outWorld) = (Inl e, w')"
    by (metis is_ok_iff prod.collapse obj_sumE)
  show ?thesis using run WriteFiles_failure [OF run sample_plain(2) sample_batch] by blast
qed

text \<open>
  Claim C3. Without \<open>--force\<close>, \<open>WriteFiles\<close> never changes or removes a path that existed
  before the call, whether it succeeds or fails and whichever calls fail.
\<close>

theorem WriteFiles_no_overwrite:
  assumes "WriteFiles dir files False w = (r, w')" "plainDir dir w" "batch_ok files"
    "tree w p \<noteq> None"
  shows "tree w' p = tree w p"
  using assms by (rule WriteFiles_keeps)

lemma WriteFiles_no_overwrite_witness:
  "tree (snd (WriteFiles ''/out'' [sampleFile] False outWorld)) ''/out'' = Some (dirNode o700 0)"
proof -
  have t: "tree outWorld ''/out'' = Some (dirNode o700 0)" by (simp add: outTree_def)
  obtain r w' where run: "WriteFiles ''/out'' [sampleFile] False outWorld = (r, w')" by fastforce
  have "tree w' ''/out'' = tree outWorld ''/out''"
    by (rule WriteFiles_no_overwrite [OF run]) (simp_all add: outTree_def)
  then show ?thesis using run t by simp
qed

text \<open>
  Claim C4. \<open>WriteFiles\<close> succeeds whenever no call fails, the output directory is an ordinary one
  (as in C1), exists and is writable by nobody else, the names of the batch are safe, different and not hidden and none is
  another one with \<open>.backup\<close> appended, no temporary name is taken, and each target is free or,
  with force, a regular file; with force, no backup path may exist.
\<close>

theorem WriteFiles_succeeds:
  assumes wr: "writable dir files force w" and bo: "batch_ok files"
  shows "\<exists>w'. WriteFiles dir files force w = (Inr (), w')"
  using assms by (rule WriteFiles_ready)

lemma WriteFiles_succeeds_witness:
  "\<exists>w'. WriteFiles ''/out'' [sampleFile] False outWorld = (Inr (), w')"
  by (rule WriteFiles_succeeds [OF sample_writable sample_batch])

end
