(* ===== verification/Json.thy ===== *)
theory Json
  imports GoStrings
begin

text \<open>
  encoding/json of the standard library as the program uses it: reading one document, the
  decoding rules for structs, pointers, strings, integers and string maps with unknown fields
  disallowed, and \<open>MarshalIndent\<close> with two spaces.

  A string literal is kept as the raw text between its quotes, as the decoder does.
\<close>

section \<open>Documents\<close>

datatype json =
    JNull
  | JBool bool
  | JNum string
  | JStr string
  | JArr "json list"
  | JObj "(string \<times> json) list"

definition dq :: char where "dq = CHR 0x22"

definition isWs :: "char \<Rightarrow> bool" where
  "isWs c = (c = CHR 0x20 \<or> c = CHR 0x09 \<or> c = CHR 0x0D \<or> c = CHR 0x0A)"

definition skipWs :: "string \<Rightarrow> string" where
  "skipWs s = dropWhile isWs s"

lemma skipWs_length [termination_simp]: "length (skipWs s) \<le> length s"
  by (simp add: skipWs_def length_dropWhile_le)

lemma skipWs_length2: "2 * length (skipWs s) \<le> Suc (2 * length s)"
  using skipWs_length [of s] by linarith

definition isHex :: "char \<Rightarrow> bool" where
  "isHex c = (hexVal c \<noteq> None)"

text \<open>The raw text of a string literal and what follows its closing quote.\<close>

fun consRaw :: "string \<Rightarrow> (string \<times> string) option \<Rightarrow> (string \<times> string) option" where
  "consRaw p None = None"
| "consRaw p (Some (raw, r)) = Some (p @ raw, r)"

function scanString :: "string \<Rightarrow> (string \<times> string) option" where
  "scanString s =
     (case s of
        [] \<Rightarrow> None
      | c # t \<Rightarrow>
          if c = dq then Some ([], t)
          else if byte c < 32 then None
          else if c \<noteq> backslash then consRaw [c] (scanString t)
          else (case t of
              [] \<Rightarrow> None
            | e # u \<Rightarrow>
                if e \<in> set (dq # backslash # ''/bfnrt'') then consRaw [c, e] (scanString u)
                else if e = CHR ''u'' \<and> length u \<ge> 4 \<and> list_all isHex (take 4 u)
                  then consRaw (c # e # take 4 u) (scanString (drop 4 u))
                else None))"
  by pat_completeness auto
termination
  by (relation "measure length") auto

declare scanString.simps [simp del]

text \<open>A number literal: sign, integer part, fraction and exponent.\<close>

definition digits :: "string \<Rightarrow> string" where
  "digits s = takeWhile isDigit s"

definition scanInt :: "string \<Rightarrow> string option" where
  "scanInt s = (if hasPrefix s ''0'' then Some ''0'' else if digits s = [] then None else Some (digits s))"

definition scanFrac :: "string \<Rightarrow> string option" where
  "scanFrac s =
     (if hasPrefix s ''.'' then
        (if digits (tl s) = [] then None else Some (CHR ''.'' # digits (tl s)))
      else Some [])"

definition scanExp :: "string \<Rightarrow> string option" where
  "scanExp s =
     (if hasPrefix s ''e'' \<or> hasPrefix s ''E'' then
        (let sg = (if hasPrefix (tl s) ''+'' \<or> hasPrefix (tl s) ''-'' then take 1 (tl s) else []);
             ds = digits (drop (1 + length sg) s)
         in if ds = [] then None else Some (hd s # sg @ ds))
      else Some [])"

definition scanNumber :: "string \<Rightarrow> (string \<times> string) option" where
  "scanNumber s =
     (let sg = (if hasPrefix s ''-'' then ''-'' else []); s1 = drop (length sg) s in
      case scanInt s1 of
        None \<Rightarrow> None
      | Some i \<Rightarrow>
          let s2 = drop (length i) s1 in
          (case scanFrac s2 of
             None \<Rightarrow> None
           | Some f \<Rightarrow>
               let s3 = drop (length f) s2 in
               (case scanExp s3 of
                  None \<Rightarrow> None
                | Some e \<Rightarrow> Some (sg @ i @ f @ e, drop (length e) s3))))"

text \<open>
  A value, the members of an object after its brace, the elements of an array after its
  bracket. The comparisons of lengths only serve termination: \<open>jvalue_shorter\<close> shows that they
  always hold.
\<close>

function jvalue :: "string \<Rightarrow> (json \<times> string) option"
  and jmembers :: "string \<Rightarrow> ((string \<times> json) list \<times> string) option"
  and jelems :: "string \<Rightarrow> (json list \<times> string) option" where
  "jvalue s =
     (case s of
        [] \<Rightarrow> None
      | c # t \<Rightarrow>
          if c = CHR ''{'' then
            (if hasPrefix (skipWs t) ''}'' then Some (JObj [], tl (skipWs t))
             else map_option (\<lambda>(ms, r). (JObj ms, r)) (jmembers (skipWs t)))
          else if c = CHR ''['' then
            (if hasPrefix (skipWs t) '']'' then Some (JArr [], tl (skipWs t))
             else map_option (\<lambda>(es, r). (JArr es, r)) (jelems (skipWs t)))
          else if c = dq then map_option (\<lambda>(raw, r). (JStr raw, r)) (scanString t)
          else if c = CHR ''-'' \<or> isDigit c then map_option (\<lambda>(n, r). (JNum n, r)) (scanNumber s)
          else if hasPrefix s ''true'' then Some (JBool True, drop 4 s)
          else if hasPrefix s ''false'' then Some (JBool False, drop 5 s)
          else if hasPrefix s ''null'' then Some (JNull, drop 4 s)
          else None)"
| "jmembers s =
     (if s = [] \<or> hd s \<noteq> dq then None
      else case scanString (tl s) of
        None \<Rightarrow> None
      | Some (k, r1) \<Rightarrow>
          (let r2 = skipWs r1; r3 = skipWs (tl r2) in
           if \<not> hasPrefix r2 '':'' \<or> \<not> length r3 < length s then None
           else case jvalue r3 of
             None \<Rightarrow> None
           | Some (v, r4) \<Rightarrow>
               (let r5 = skipWs r4; r6 = skipWs (tl r5) in
                if hasPrefix r5 ''}'' then Some ([(k, v)], tl r5)
                else if hasPrefix r5 '','' \<and> length r6 < length s
                  then map_option (\<lambda>(ms, r). ((k, v) # ms, r)) (jmembers r6)
                else None)))"
| "jelems s =
     (case jvalue s of
        None \<Rightarrow> None
      | Some (v, r4) \<Rightarrow>
          (let r5 = skipWs r4; r6 = skipWs (tl r5) in
           if hasPrefix r5 '']'' then Some ([v], tl r5)
           else if hasPrefix r5 '','' \<and> length r6 < length s
             then map_option (\<lambda>(es, r). (v # es, r)) (jelems r6)
           else None))"
  by pat_completeness auto
termination
  by (relation "measure (case_sum (\<lambda>s. 2 * length s)
        (case_sum (\<lambda>s. 2 * length s) (\<lambda>s. 2 * length s + 1)))")
    (auto simp: less_Suc_eq_le skipWs_length skipWs_length2)

declare jvalue.simps [simp del] jmembers.simps [simp del] jelems.simps [simp del]

text \<open>One document with nothing but white space around it.\<close>

definition parseJson :: "string \<Rightarrow> json option" where
  "parseJson s =
     (case jvalue (skipWs s) of
        None \<Rightarrow> None
      | Some (v, r) \<Rightarrow> if skipWs r = [] then Some v else None)"

section \<open>Text of literals\<close>

text \<open>The UTF-8 encoding of a rune; surrogates and values beyond the range give U+FFFD.\<close>

definition encodeRune :: "nat \<Rightarrow> string" where
  "encodeRune r =
     (if r < 128 then [char_of r]
      else if r < 2048 then [char_of (192 + r div 64), char_of (128 + r mod 64)]
      else if (55296 \<le> r \<and> r < 57344) \<or> 1114111 < r then [CHR 0xEF, CHR 0xBF, CHR 0xBD]
      else if r < 65536
        then [char_of (224 + r div 4096), char_of (128 + r div 64 mod 64), char_of (128 + r mod 64)]
      else [char_of (240 + r div 262144), char_of (128 + r div 4096 mod 64),
            char_of (128 + r div 64 mod 64), char_of (128 + r mod 64)])"

definition hex4 :: "string \<Rightarrow> nat option" where
  "hex4 s = (if length s < 4 then None else digitsVal 16 0 (take 4 s))"

definition simpleEscape :: "char \<Rightarrow> char" where
  "simpleEscape e =
     (if e = CHR ''b'' then CHR 0x08 else if e = CHR ''f'' then CHR 0x0C
      else if e = CHR ''n'' then CHR 0x0A else if e = CHR ''r'' then CHR 0x0D
      else if e = CHR ''t'' then CHR 0x09 else e)"

text \<open>The second half of a surrogate pair, written as an escape at the head of the text.\<close>

definition lowSurrogate :: "string \<Rightarrow> nat option" where
  "lowSurrogate s =
     (case s of
        a # b # t \<Rightarrow>
          if a = backslash \<and> b = CHR ''u'' then
            (case hex4 t of
               Some r \<Rightarrow> if 56320 \<le> r \<and> r < 57344 then Some r else None
             | None \<Rightarrow> None)
          else None
      | _ \<Rightarrow> None)"

text \<open>The value of a raw literal: escapes are resolved, invalid UTF-8 becomes U+FFFD.\<close>

function unquote :: "string \<Rightarrow> string" where
  "unquote s =
     (case s of
        [] \<Rightarrow> []
      | c # t \<Rightarrow>
          if c = backslash then
            (case t of
               [] \<Rightarrow> []
             | e # u \<Rightarrow>
                 if e \<noteq> CHR ''u'' then simpleEscape e # unquote u
                 else (case hex4 u of
                     None \<Rightarrow> []
                   | Some r \<Rightarrow>
                       if 55296 \<le> r \<and> r < 56320 then
                         (case lowSurrogate (drop 4 u) of
                            Some r2 \<Rightarrow>
                              encodeRune ((r - 55296) * 1024 + (r2 - 56320) + 65536)
                                @ unquote (drop 10 u)
                          | None \<Rightarrow> encodeRune 65533 @ unquote (drop 4 u))
                       else encodeRune r @ unquote (drop 4 u)))
          else if byte c < 128 then c # unquote t
          else (let (r, n) = decodeRune s in encodeRune r @ unquote (drop (n - 1) t)))"
  by pat_completeness auto
termination
  by (relation "measure length") auto

declare unquote.simps [simp del]

text \<open>The escaping of \<open>json.Marshal\<close>, with HTML escaping on.\<close>

definition escapeByte :: "char \<Rightarrow> string" where
  "escapeByte c =
     (if c = dq \<or> c = backslash then [backslash, c]
      else if c = CHR 0x08 then [backslash, CHR ''b'']
      else if c = CHR 0x0C then [backslash, CHR ''f'']
      else if c = CHR 0x0A then [backslash, CHR ''n'']
      else if c = CHR 0x0D then [backslash, CHR ''r'']
      else if c = CHR 0x09 then [backslash, CHR ''t'']
      else if byte c < 32 \<or> c = CHR ''<'' \<or> c = CHR ''>'' \<or> c = CHR ''&''
        then [backslash, CHR ''u'', CHR ''0'', CHR ''0''] @ hexByte c
      else [c])"

function escape :: "string \<Rightarrow> string" where
  "escape s =
     (case s of
        [] \<Rightarrow> []
      | c # t \<Rightarrow>
          if byte c < 128 then escapeByte c @ escape t
          else (let (r, n) = decodeRune s in
            (if n = 1 then [backslash] @ ''ufffd''
             else if r = 8232 then [backslash] @ ''u2028''
             else if r = 8233 then [backslash] @ ''u2029''
             else take n s) @ escape (drop (n - 1) t)))"
  by pat_completeness auto
termination
  by (relation "measure length") auto

declare escape.simps [simp del]

section \<open>Printing\<close>

definition indentText :: "nat \<Rightarrow> string" where
  "indentText d = nl @ concat (replicate d ''  '')"

definition quoted :: "string \<Rightarrow> string" where
  "quoted raw = dq # raw @ [dq]"

text \<open>\<open>json.MarshalIndent(v, "", "  ")\<close> of a document, at a nesting depth.\<close>

fun pretty :: "nat \<Rightarrow> json \<Rightarrow> string" where
  "pretty d JNull = ''null''"
| "pretty d (JBool b) = (if b then ''true'' else ''false'')"
| "pretty d (JNum n) = n"
| "pretty d (JStr raw) = quoted raw"
| "pretty d (JArr es) =
     (if es = [] then ''[]''
      else ''['' @ joinWith '','' (map (\<lambda>e. indentText (Suc d) @ pretty (Suc d) e) es)
        @ indentText d @ '']'')"
| "pretty d (JObj ms) =
     (if ms = [] then ''{}''
      else ''{'' @ joinWith '',''
             (map (\<lambda>(k, v). indentText (Suc d) @ quoted k @ '': '' @ pretty (Suc d) v) ms)
        @ indentText d @ ''}'')"

end
