(* ===== verification/JsonProof.thy ===== *)
theory JsonProof
  imports Json
begin

text \<open>
  The JSON reader undoes the printer: literals, then documents.
\<close>

section \<open>Reading consumes input\<close>

lemma consRaw_Some: "consRaw p x = Some (raw, r) \<longleftrightarrow> (\<exists>raw'. x = Some (raw', r) \<and> raw = p @ raw')"
  by (cases x) auto

lemma scanString_shorter: "scanString s = Some (raw, r) \<Longrightarrow> length r < length s"
proof (induction s arbitrary: raw r rule: scanString.induct)
  case (1 s)
  show ?case
  proof (cases s)
    case Nil
    then show ?thesis using "1.prems" by (simp add: scanString.simps)
  next
    case (Cons c t)
    show ?thesis
    proof (cases "c = dq \<or> byte c < 32 \<or> c \<noteq> backslash")
      case True
      then show ?thesis using "1.prems" "1.IH"(1) [OF Cons] Cons
        by (subst (asm) scanString.simps) (force simp: consRaw_Some split: if_splits)
    next
      case False
      then obtain e u where t: "t = e # u"
        using "1.prems" Cons by (subst (asm) scanString.simps) (auto split: list.splits)
      show ?thesis using "1.prems" "1.IH"(2,3) [OF Cons _ _ _ t] Cons t False
        by (subst (asm) scanString.simps) (force simp: consRaw_Some split: if_splits)
    qed
  qed
qed

lemma scanNumber_shorter:
  "scanNumber s = Some (n, r) \<Longrightarrow> length r < length s"
proof -
  let ?sg = "if hasPrefix s ''-'' then ''-'' else []"
  assume "scanNumber s = Some (n, r)"
  then have "\<exists>i. scanInt (drop (length ?sg) s) = Some i \<and> length r \<le> length s - (length ?sg + length i)"
    unfolding scanNumber_def Let_def by (auto split: option.splits)
  then obtain i where i: "scanInt (drop (length ?sg) s) = Some i"
    and r: "length r \<le> length s - (length ?sg + length i)" by blast
  have "i \<noteq> []" "drop (length ?sg) s \<noteq> []"
    using i by (auto simp: scanInt_def digits_def hasPrefix_def split: if_splits)
  then show "length r < length s" using r by (cases i) auto
qed

section \<open>Literals\<close>

definition ascii :: "string \<Rightarrow> bool" where
  "ascii s = list_all (\<lambda>c. byte c < 128) s"

lemma ascii_simps [simp]: "ascii []" "ascii (c # s) \<longleftrightarrow> byte c < 128 \<and> ascii s"
  "ascii (s @ t) \<longleftrightarrow> ascii s \<and> ascii t"
  by (simp_all add: ascii_def)

lemma escape_nil [simp]: "escape [] = []"
  by (subst escape.simps) simp

lemma escape_ascii: "byte c < 128 \<Longrightarrow> escape (c # t) = escapeByte c @ escape t"
  by (subst escape.simps) simp

lemma hexDigit_val: "i < 16 \<Longrightarrow> hexVal (hexDigits ! i) = Some i"
proof -
  have "\<forall>i \<in> set [0..<16]. hexVal (hexDigits ! i) = Some i" by code_simp
  moreover assume "i < 16"
  ultimately show ?thesis by simp
qed

lemma hexByte_parts: "byte c div 16 < 16" "byte c mod 16 < 16"
  using byte_less [of c] by (simp_all add: less_mult_imp_div_less)

lemma byte_char: "char_of (byte c) = c"
  by (simp add: byte_def)

text \<open>The three shapes of an escaped byte.\<close>

lemma escapeByte_cases:
  assumes "byte c < 128"
  obtains (plain) "escapeByte c = [c]" "c \<noteq> dq" "c \<noteq> backslash" "32 \<le> byte c"
  | (simple) e where "escapeByte c = [backslash, e]" "e \<in> set (dq # backslash # ''bfnrt'')"
      "simpleEscape e = c"
  | (hex) "escapeByte c = [backslash, CHR ''u'', CHR ''0'', CHR ''0''] @ hexByte c"
proof -
  consider "c = dq" | "c = backslash" | "c = CHR 0x08" | "c = CHR 0x0C" | "c = CHR 0x0A"
    | "c = CHR 0x0D" | "c = CHR 0x09"
    | "c \<notin> {dq, backslash, CHR 0x08, CHR 0x0C, CHR 0x0A, CHR 0x0D, CHR 0x09}" by blast
  then show thesis
  proof cases
    case 8
    show thesis
    proof (cases "byte c < 32 \<or> c = CHR ''<'' \<or> c = CHR ''>'' \<or> c = CHR ''&''")
      case True
      then show thesis using 8 hex by (simp add: escapeByte_def)
    next
      case False
      then show thesis using 8 plain by (simp add: escapeByte_def)
    qed
  qed (rule simple, simp add: escapeByte_def dq_def backslash_def,
       simp add: dq_def backslash_def, simp add: simpleEscape_def dq_def backslash_def)+
qed

lemma scanString_step:
  assumes "byte c < 128"
  shows "scanString (escapeByte c @ t) = consRaw (escapeByte c) (scanString t)"
  using assms
proof (cases rule: escapeByte_cases)
  case plain
  then show ?thesis by (subst scanString.simps) simp
next
  case (simple e)
  have "backslash \<noteq> dq" "\<not> byte backslash < 32" by (simp_all add: dq_def backslash_def byte_def)
  then show ?thesis using simple by (subst scanString.simps) auto
next
  case hex
  have "backslash \<noteq> dq" "\<not> byte backslash < 32" by (simp_all add: dq_def backslash_def byte_def)
  moreover have "CHR ''u'' \<notin> set (dq # backslash # ''/bfnrt'')" by (simp add: dq_def backslash_def)
  moreover have "list_all isHex (take 4 (CHR ''0'' # CHR ''0'' # hexByte c))"
    using hexDigit_val [OF hexByte_parts(1)] hexDigit_val [OF hexByte_parts(2)] hexDigit_val [of 0]
    by (simp add: isHex_def hexByte_def hexVal_def isDigit_def byte_def)
  moreover have "length (hexByte c) = 2" by (simp add: hexByte_def)
  ultimately show ?thesis unfolding hex by (subst scanString.simps) (simp add: hexByte_def)
qed

lemma scanString_escape: "ascii s \<Longrightarrow> scanString (escape s @ dq # r) = Some (escape s, r)"
proof (induction s)
  case Nil
  then show ?case by (subst scanString.simps) simp
next
  case (Cons c s)
  then show ?case by (simp add: escape_ascii scanString_step)
qed

lemma unquote_nil [simp]: "unquote [] = []"
  by (subst unquote.simps) simp

lemma unquote_step:
  assumes "byte c < 128"
  shows "unquote (escapeByte c @ t) = c # unquote t"
  using assms
proof (cases rule: escapeByte_cases)
  case plain
  then show ?thesis using assms by (subst unquote.simps) simp
next
  case (simple e)
  have "e \<noteq> CHR ''u''" using simple(2) by (auto simp: dq_def backslash_def)
  then show ?thesis using simple by (subst unquote.simps) simp
next
  case hex
  have "hexVal (CHR ''0'') = Some 0" by code_simp
  then have h: "hex4 (CHR ''0'' # CHR ''0'' # hexByte c @ t) = Some (byte c)"
    using hexDigit_val [OF hexByte_parts(1)] hexDigit_val [OF hexByte_parts(2)] hexByte_parts [of c]
    by (simp add: hex4_def hexByte_def digitVal_def)
  have "\<not> 55296 \<le> byte c" "length (hexByte c) = 2" using assms by (simp_all add: hexByte_def)
  then show ?thesis unfolding hex using assms h
    by (subst unquote.simps) (simp add: encodeRune_def byte_char hexByte_def)
qed

text \<open>Escaping loses nothing.\<close>

lemma unquote_escape: "ascii s \<Longrightarrow> unquote (escape s) = s"
  by (induction s) (simp_all add: escape_ascii unquote_step)

lemma natText_digits: "n \<noteq> 0 \<or> True \<Longrightarrow> list_all isDigit (natText n) \<and> natText n \<noteq> []"
proof (induction n rule: natText.induct)
  case (1 n)
  have d: "isDigit (digitChar (n mod 10))" "n < 10 \<Longrightarrow> isDigit (digitChar n)" for n
    by (simp_all add: isDigit_def digitChar_def byte_def)
  show ?case using 1 d by (subst (1 2) natText.simps) auto
qed

section \<open>Documents\<close>

lemma tl_length: "s \<noteq> [] \<Longrightarrow> length (tl s) < length s"
  by (cases s) auto

lemma hasPrefix_nonempty: "hasPrefix s (c # p) \<Longrightarrow> s \<noteq> []"
  by (auto simp: hasPrefix_def)

text \<open>Every reader consumes at least one byte, so the guards for termination never fail.\<close>

lemma jvalue_shorter:
  "jvalue s = Some (v, r) \<Longrightarrow> length r < length s"
  "jmembers s = Some (ms, r) \<Longrightarrow> length r < length s"
  "jelems s = Some (es, r) \<Longrightarrow> length r < length s"
proof (induction s and s and s arbitrary: v r and ms r and es r rule: jvalue_jmembers_jelems.induct)
  case (1 s)
  show ?case
  proof (cases s)
    case Nil
    then show ?thesis using "1.prems" by (simp add: jvalue.simps)
  next
    case (Cons c t)
    have tl: "length (tl (skipWs t)) < length s" "length (skipWs t) < length s"
      using Cons skipWs_length [of t] by (cases "skipWs t"; simp)+
    note IH = "1.IH" [OF Cons]
    show ?thesis
    proof (cases "c = CHR ''{'' \<or> c = CHR ''[''")
      case True
      then show ?thesis using "1.prems" IH tl Cons
        by (subst (asm) jvalue.simps) (fastforce split: if_splits dest: less_trans)
    next
      case False
      then show ?thesis using "1.prems" Cons scanString_shorter [of t] scanNumber_shorter [of s]
        by (subst (asm) jvalue.simps)
          (fastforce split: if_splits simp: less_Suc_eq dest: hasPrefix_nonempty)
    qed
  qed
next
  case (2 s)
  obtain k r1 v r4 where p: "s \<noteq> []" "hd s = dq" "scanString (tl s) = Some (k, r1)"
    "hasPrefix (skipWs r1) '':''" "length (skipWs (tl (skipWs r1))) < length s"
    "jvalue (skipWs (tl (skipWs r1))) = Some (v, r4)"
    using "2.prems" by (subst (asm) jmembers.simps) (auto simp: Let_def split: if_splits option.splits)
  have v: "length r4 < length s" using "2.IH"(1) [of "(k, r1)" k r1 "skipWs r1" "skipWs (tl (skipWs r1))" v r4] p by auto
  have t: "length (tl (skipWs r4)) < length s" using skipWs_length [of r4] v by simp
  show ?case
  proof (cases "hasPrefix (skipWs r4) ''}''")
    case True
    then show ?thesis using "2.prems" p t by (subst (asm) jmembers.simps) (simp add: Let_def)
  next
    case False
    then obtain ms' where m: "hasPrefix (skipWs r4) '',''" "length (skipWs (tl (skipWs r4))) < length s"
      "jmembers (skipWs (tl (skipWs r4))) = Some (ms', r)"
      using "2.prems" p by (subst (asm) jmembers.simps) (auto simp: Let_def split: if_splits)
    have "length r < length (skipWs (tl (skipWs r4)))"
      by (rule "2.IH"(2) [of "(k, r1)" k r1 _ _ "(v, r4)" v r4]) (use p m False in auto)
    then show ?thesis using m(2) by simp
  qed
next
  case (3 s)
  obtain v r4 where p: "jvalue s = Some (v, r4)"
    using "3.prems" by (subst (asm) jelems.simps) (auto split: option.splits)
  have v: "length r4 < length s" by (rule "3.IH"(1) [OF p])
  have t: "length (tl (skipWs r4)) < length s" using skipWs_length [of r4] v by simp
  show ?case
  proof (cases "hasPrefix (skipWs r4) '']''")
    case True
    then show ?thesis using "3.prems" p t by (subst (asm) jelems.simps) (simp add: Let_def)
  next
    case False
    then obtain es' where m: "hasPrefix (skipWs r4) '',''" "length (skipWs (tl (skipWs r4))) < length s"
      "jelems (skipWs (tl (skipWs r4))) = Some (es', r)"
      using "3.prems" p by (subst (asm) jelems.simps) (auto simp: Let_def split: if_splits)
    have "length r < length (skipWs (tl (skipWs r4)))"
      by (rule "3.IH"(2) [OF p]) (use m False in auto)
    then show ?thesis using m(2) by simp
  qed
qed

section \<open>The reader undoes the printer\<close>

definition rawOK :: "string \<Rightarrow> bool" where
  "rawOK raw = (\<forall>r. scanString (raw @ dq # r) = Some (raw, r))"

lemma rawOK_escape: "ascii s \<Longrightarrow> rawOK (escape s)"
  by (simp add: rawOK_def scanString_escape)

text \<open>What may follow a value in printed text.\<close>

definition ender :: "string \<Rightarrow> bool" where
  "ender r = (r = [] \<or> hd r \<in> set ('','' @ nl))"

definition numOK :: "string \<Rightarrow> bool" where
  "numOK n = (n \<noteq> [] \<and> (hd n = CHR ''-'' \<or> isDigit (hd n)) \<and>
     (\<forall>r. ender r \<longrightarrow> scanNumber (n @ r) = Some (n, r)))"

fun jsonOK :: "json \<Rightarrow> bool" where
  "jsonOK (JNum n) = numOK n"
| "jsonOK (JStr raw) = rawOK raw"
| "jsonOK (JArr es) = list_all jsonOK es"
| "jsonOK (JObj ms) = list_all (\<lambda>(k, v). rawOK k \<and> jsonOK v) ms"
| "jsonOK _ = True"

lemma skipWs_indent: "skipWs (indentText d @ x) = skipWs x"
proof -
  have "list_all isWs (indentText d)"
    by (induction d) (auto simp: indentText_def nl_def isWs_def)
  then show ?thesis by (simp add: skipWs_def dropWhile_append2 list_all_iff)
qed

lemma skipWs_nonws: "s \<noteq> [] \<Longrightarrow> \<not> isWs (hd s) \<Longrightarrow> skipWs s = s"
  by (cases s) (simp_all add: skipWs_def)

lemma pretty_start: "jsonOK j \<Longrightarrow> pretty d j \<noteq> [] \<and> \<not> isWs (hd (pretty d j))"
  by (cases j) (auto simp: quoted_def isWs_def dq_def numOK_def isDigit_def byte_def)

definition item :: "nat \<Rightarrow> string \<times> json \<Rightarrow> string" where
  "item d m = indentText d @ quoted (fst m) @ '': '' @ pretty d (snd m)"

lemma pretty_obj: "ms \<noteq> [] \<Longrightarrow> pretty d (JObj ms) =
    ''{'' @ joinWith '','' (map (item (Suc d)) ms) @ indentText d @ ''}''"
proof -
  have "(\<lambda>(k, v). indentText (Suc d) @ quoted k @ '': '' @ pretty (Suc d) v) = item (Suc d)"
    by (auto simp: item_def fun_eq_iff)
  then show "ms \<noteq> [] \<Longrightarrow> pretty d (JObj ms) =
      ''{'' @ joinWith '','' (map (item (Suc d)) ms) @ indentText d @ ''}''"
    by (simp only: pretty.simps) simp
qed

lemma ender_indent: "ender (indentText d @ x)" "ender (CHR '','' # x)"
  by (simp_all add: ender_def indentText_def nl_def)

definition readsBack :: "json \<Rightarrow> bool" where
  "readsBack j = (\<forall>d r. ender r \<longrightarrow> jvalue (pretty d j @ r) = Some (j, r))"

lemma isWs_punct [simp]: "\<not> isWs CHR '':''" "\<not> isWs CHR '',''" "\<not> isWs CHR ''}''" "\<not> isWs CHR '']''"
  "\<not> isWs dq" "isWs CHR '' ''"
  by (simp_all add: isWs_def dq_def)

lemma skipWs_cons [simp]: "skipWs (c # s) = (if isWs c then skipWs s else c # s)"
  by (simp add: skipWs_def)

text \<open>The members of a printed object.\<close>

lemma jmembers_item:
  assumes "rawOK (fst m)" "readsBack (snd m)" "jsonOK (snd m)" "ender r"
  shows "jmembers (quoted (fst m) @ '': '' @ pretty d (snd m) @ r) =
    (if hasPrefix (skipWs r) ''}'' then Some ([m], tl (skipWs r))
     else if hasPrefix (skipWs r) '',''
       then map_option (\<lambda>(ms, x). (m # ms, x)) (jmembers (skipWs (tl (skipWs r))))
     else None)"
proof -
  let ?p = "pretty d (snd m) @ r"
  have sc: "scanString (fst m @ dq # '': '' @ ?p) = Some (fst m, '': '' @ ?p)"
    using assms(1) unfolding rawOK_def by blast
  have ps: "skipWs ?p = ?p" using pretty_start [OF assms(3), of d] by (simp add: skipWs_nonws)
  have v: "jvalue ?p = Some (snd m, r)" using assms(2,4) by (simp add: readsBack_def)
  have l: "length (skipWs (tl (skipWs r))) < length (quoted (fst m) @ '': '' @ ?p)"
  proof -
    have "length (tl (skipWs r)) \<le> length r" using skipWs_length [of r] by simp
    then show ?thesis using skipWs_length [of "tl (skipWs r)"] by (simp add: quoted_def)
  qed
  show ?thesis using sc ps v l
    by (subst jmembers.simps) (simp add: quoted_def hasPrefix_def)
qed

lemma jmembers_items:
  assumes "ms \<noteq> []" "\<forall>m \<in> set ms. rawOK (fst m) \<and> jsonOK (snd m) \<and> readsBack (snd m)"
  shows "jmembers (skipWs (joinWith '','' (map (item d) ms) @ indentText e @ CHR ''}'' # r)) = Some (ms, r)"
  using assms
proof (induction ms)
  case Nil
  then show ?case by simp
next
  case (Cons m ms)
  have m: "rawOK (fst m)" "jsonOK (snd m)" "readsBack (snd m)" using Cons.prems(2) by auto
  have start: "skipWs (item d m @ x) = quoted (fst m) @ '': '' @ pretty d (snd m) @ x" for x
    by (simp add: item_def skipWs_indent quoted_def)
  show ?case
  proof (cases "ms = []")
    case True
    let ?r = "indentText e @ CHR ''}'' # r"
    have "skipWs ?r = CHR ''}'' # r" by (simp add: skipWs_indent)
    then show ?thesis using True jmembers_item [OF m(1,3,2) ender_indent(1), of d e "CHR ''}'' # r"]
      by (simp add: start hasPrefix_def)
  next
    case False
    let ?rest = "joinWith '','' (map (item d) ms) @ indentText e @ CHR ''}'' # r"
    have "joinWith '','' (map (item d) (m # ms)) = item d m @ CHR '','' # joinWith '','' (map (item d) ms)"
      using False by (cases ms) simp_all
    moreover have "jmembers (skipWs ?rest) = Some (ms, r)" using Cons.IH [OF False] Cons.prems(2) by simp
    ultimately show ?thesis using jmembers_item [OF m(1,3,2) ender_indent(2), of d ?rest]
      by (simp add: start hasPrefix_def)
  qed
qed

definition element :: "nat \<Rightarrow> json \<Rightarrow> string" where
  "element d v = indentText d @ pretty d v"

lemma jelems_items:
  assumes "es \<noteq> []" "\<forall>v \<in> set es. jsonOK v \<and> readsBack v"
  shows "jelems (skipWs (joinWith '','' (map (element d) es) @ indentText e @ CHR '']'' # r)) = Some (es, r)"
  using assms
proof (induction es)
  case Nil
  then show ?case by simp
next
  case (Cons v es)
  have v: "jsonOK v" "readsBack v" using Cons.prems(2) by auto
  have start: "skipWs (element d v @ x) = pretty d v @ x" for x
    using pretty_start [OF v(1), of d] by (simp add: element_def skipWs_indent skipWs_nonws)
  have val: "jvalue (pretty d v @ x) = Some (v, x)" if "ender x" for x
    using v(2) that by (simp add: readsBack_def)
  show ?case
  proof (cases "es = []")
    case True
    have "skipWs (indentText e @ CHR '']'' # r) = CHR '']'' # r" by (simp add: skipWs_indent)
    then show ?thesis using True val [OF ender_indent(1), of e "CHR '']'' # r"]
      by (subst jelems.simps) (simp add: start hasPrefix_def)
  next
    case False
    let ?rest = "joinWith '','' (map (element d) es) @ indentText e @ CHR '']'' # r"
    have j: "joinWith '','' (map (element d) (v # es)) = element d v @ CHR '','' # joinWith '','' (map (element d) es)"
      using False by (cases es) simp_all
    have "length (skipWs ?rest) < length (pretty d v @ CHR '','' # ?rest)"
      using skipWs_length [of ?rest] by simp
    moreover have "jelems (skipWs ?rest) = Some (es, r)" using Cons.IH [OF False] Cons.prems(2) by simp
    ultimately show ?thesis using j val [OF ender_indent(2), of ?rest]
      by (subst jelems.simps) (simp add: start hasPrefix_def Let_def)
  qed
qed

lemma json_readsBack: "jsonOK j \<Longrightarrow> readsBack j"
proof (induction j)
  case (JNum n)
  have "jvalue (n @ r) = Some (JNum n, r)" if e: "ender r" for r
  proof -
    obtain c t where n: "n = c # t" "c = CHR ''-'' \<or> isDigit c" "scanNumber (n @ r) = Some (n, r)"
      using JNum e by (cases n) (auto simp: numOK_def)
    have "c \<noteq> CHR ''{''" "c \<noteq> CHR ''[''" "c \<noteq> dq" using n(2) by (auto simp: isDigit_def byte_def dq_def)
    then show ?thesis using n by (subst jvalue.simps) simp
  qed
  then show ?case by (simp add: readsBack_def)
next
  case (JStr raw)
  have "jvalue (quoted raw @ r) = Some (JStr raw, r)" for r
    using JStr by (subst jvalue.simps) (simp add: quoted_def rawOK_def, simp add: dq_def)
  then show ?case by (simp add: readsBack_def)
next
  case (JArr es)
  have "jvalue (pretty d (JArr es) @ r) = Some (JArr es, r)" for d r
  proof (cases "es = []")
    case True
    then show ?thesis by (subst jvalue.simps) (simp add: hasPrefix_def)
  next
    case False
    let ?t = "joinWith '','' (map (element (Suc d)) es) @ indentText d @ CHR '']'' # r"
    have e: "jelems (skipWs ?t) = Some (es, r)"
      using jelems_items [OF False] JArr by (auto simp: list_all_iff)
    have "jelems [] = None \<and> (\<forall>x. jelems (CHR '']'' # x) = None)"
      by (simp add: jelems.simps [of "[]"] jelems.simps [of "CHR '']'' # x" for x]
          jvalue.simps [of "[]"] jvalue.simps [of "CHR '']'' # x" for x] hasPrefix_def isDigit_def byte_def dq_def)
    then have "\<not> hasPrefix (skipWs ?t) '']''" using e by (cases "skipWs ?t") (auto simp: hasPrefix_def)
    then show ?thesis using False e
      by (subst jvalue.simps) (simp add: element_def [abs_def])
  qed
  then show ?case by (simp add: readsBack_def)
next
  case (JObj ms)
  have "jvalue (pretty d (JObj ms) @ r) = Some (JObj ms, r)" for d r
  proof (cases "ms = []")
    case True
    then show ?thesis by (subst jvalue.simps) (simp add: hasPrefix_def)
  next
    case False
    let ?t = "joinWith '','' (map (item (Suc d)) ms) @ indentText d @ CHR ''}'' # r"
    have ok: "\<forall>m \<in> set ms. rawOK (fst m) \<and> jsonOK (snd m) \<and> readsBack (snd m)"
      using JObj by (fastforce simp: list_all_iff)
    have e: "jmembers (skipWs ?t) = Some (ms, r)" by (rule jmembers_items [OF False ok])
    have "jmembers (CHR ''}'' # x) = None" for x by (subst jmembers.simps) (simp add: dq_def)
    then have "\<not> hasPrefix (skipWs ?t) ''}''" using e
      by (cases "skipWs ?t") (auto simp: hasPrefix_def)
    then show ?thesis using False e pretty_obj [OF False, of d]
      by (subst jvalue.simps) simp
  qed
  then show ?case by (simp add: readsBack_def)
next
  case (JBool b)
  have "jvalue (pretty d (JBool b) @ r) = Some (JBool b, r)" for d r
    by (subst jvalue.simps) (simp add: hasPrefix_def dq_def isDigit_def byte_def)
  then show ?case by (simp add: readsBack_def)
next
  case JNull
  have "jvalue (pretty d JNull @ r) = Some (JNull, r)" for d r
    by (subst jvalue.simps) (simp add: hasPrefix_def dq_def isDigit_def byte_def)
  then show ?case by (simp add: readsBack_def)
qed

text \<open>A printed document, with the newline the program appends, is read back as it was.\<close>

lemma parse_pretty:
  assumes "jsonOK j"
  shows "parseJson (pretty 0 j @ nl) = Some j"
proof -
  have "jvalue (pretty 0 j @ nl) = Some (j, nl)"
    using json_readsBack [OF assms] by (simp add: readsBack_def ender_def nl_def)
  moreover have "skipWs (pretty 0 j @ nl) = pretty 0 j @ nl"
    using pretty_start [OF assms, of 0] by (simp add: skipWs_nonws)
  ultimately show ?thesis by (simp add: parseJson_def nl_def isWs_def, simp add: skipWs_def)
qed

lemma digits_end:
  assumes "list_all isDigit n" "ender r"
  shows "digits (n @ r) = n"
proof -
  have "\<not> isDigit (hd r)" if "r \<noteq> []" using assms(2) that
    by (auto simp: ender_def isDigit_def byte_def nl_def)
  then have "takeWhile isDigit r = []" by (cases r) auto
  then show ?thesis using assms(1) by (simp add: digits_def list_all_iff takeWhile_append2)
qed

lemma natText_nonzero: "0 < n \<Longrightarrow> hd (natText n) \<noteq> CHR ''0''"
proof (induction n rule: natText.induct)
  case (1 n)
  show ?case
  proof (cases "n < 10")
    case True
    have "byte (digitChar n) = 48 + n" using True by (simp add: byte_def digitChar_def)
    then have "digitChar n \<noteq> CHR ''0''" using "1.prems" by (auto simp: byte_def)
    then show ?thesis using True by (subst natText.simps) simp
  next
    case False
    then have "hd (natText (n div 10)) \<noteq> CHR ''0''" using "1.IH" by simp
    moreover have "natText (n div 10) \<noteq> []" using natText_digits by blast
    ultimately show ?thesis using False by (subst natText.simps) simp
  qed
qed

lemma numOK_natText: "numOK (natText n)"
proof -
  have d: "list_all isDigit (natText n)" "natText n \<noteq> []" using natText_digits [of n] by auto
  have "scanNumber (natText n @ r) = Some (natText n, r)" if r: "ender r" for r
  proof -
    have c: "isDigit (hd (natText n))" using d by (cases "natText n") auto
    then have "\<not> hasPrefix (natText n @ r) ''-''"
      using d(2) by (cases "natText n") (auto simp: hasPrefix_def isDigit_def byte_def)
    moreover have "scanInt (natText n @ r) = Some (natText n)"
    proof (cases "n = 0")
      case True
      moreover have "natText 0 = ''0''" by code_simp
      ultimately show ?thesis by (simp add: scanInt_def hasPrefix_def)
    next
      case False
      then have "\<not> hasPrefix (natText n @ r) ''0''"
        using natText_nonzero [of n] d(2) by (cases "natText n") (auto simp: hasPrefix_def)
      then show ?thesis using digits_end [OF d(1) r] d(2) by (simp add: scanInt_def)
    qed
    moreover have "scanFrac r = Some []" "scanExp r = Some []"
      using r by (cases r; auto simp: scanFrac_def scanExp_def hasPrefix_def ender_def nl_def)+
    ultimately show ?thesis by (simp add: scanNumber_def Let_def)
  qed
  moreover have "isDigit (hd (natText n))" using d by (cases "natText n") auto
  ultimately show ?thesis using d(2) by (simp add: numOK_def)
qed

end
