(* ===== verification/JsonDecode.thy ===== *)
theory JsonDecode
  imports JsonProof
begin

text \<open>
  The rules by which encoding/json stores a document into Go values, with
  \<open>DisallowUnknownFields\<close>: field names match exactly or else up to case folding, \<open>null\<close> leaves
  a plain value and clears a pointer or map, a repeated member decodes into the value already
  there, and any type mismatch or unknown name is an error (\<open>None\<close>).
\<close>

section \<open>Field names\<close>

text \<open>
  Case folding of a field name: ASCII letters, and the two other runes that fold to one, the
  Kelvin sign and the long s.
\<close>

definition upperChar :: "char \<Rightarrow> char" where
  "upperChar c = (if isLowerAZ c then char_of (byte c - 32) else c)"

fun foldName :: "string \<Rightarrow> string" where
  "foldName [] = []"
| "foldName [a] = [upperChar a]"
| "foldName [a, b] = (if a = CHR 0xC5 \<and> b = CHR 0xBF then ''S'' else upperChar a # foldName [b])"
| "foldName (a # b # c # s) =
     (if a = CHR 0xC5 \<and> b = CHR 0xBF then CHR ''S'' # foldName (c # s)
      else if a = CHR 0xE2 \<and> b = CHR 0x84 \<and> c = CHR 0xAA then CHR ''K'' # foldName s
      else upperChar a # foldName (b # c # s))"

definition matchField :: "string list \<Rightarrow> string \<Rightarrow> string option" where
  "matchField names k =
     (if k \<in> set names then Some k else find (\<lambda>n. foldName n = foldName k) names)"

lemma matchField_exact [simp]: "k \<in> set names \<Longrightarrow> matchField names k = Some k"
  by (simp add: matchField_def)

lemma matchField_in: "matchField names k = Some n \<Longrightarrow> n \<in> set names"
  by (auto simp: matchField_def find_Some_iff split: if_splits)

section \<open>Values\<close>

fun decodeMembers ::
  "string list \<Rightarrow> (string \<Rightarrow> json \<Rightarrow> 'a \<Rightarrow> 'a option) \<Rightarrow> (string \<times> json) list \<Rightarrow> 'a \<Rightarrow> 'a option" where
  "decodeMembers names store [] acc = Some acc"
| "decodeMembers names store ((raw, v) # ms) acc =
     (case matchField names (unquote raw) of
        None \<Rightarrow> None
      | Some n \<Rightarrow>
          (case store n v acc of None \<Rightarrow> None | Some acc' \<Rightarrow> decodeMembers names store ms acc'))"

definition decodeStruct ::
  "string list \<Rightarrow> (string \<Rightarrow> json \<Rightarrow> 'a \<Rightarrow> 'a option) \<Rightarrow> json \<Rightarrow> 'a \<Rightarrow> 'a option" where
  "decodeStruct names store j acc =
     (case j of JNull \<Rightarrow> Some acc | JObj ms \<Rightarrow> decodeMembers names store ms acc | _ \<Rightarrow> None)"

definition decodePointer ::
  "string list \<Rightarrow> (string \<Rightarrow> json \<Rightarrow> 'a \<Rightarrow> 'a option) \<Rightarrow> 'a \<Rightarrow> json \<Rightarrow> 'a option \<Rightarrow> 'a option option" where
  "decodePointer names store zero j cur =
     (case j of
        JNull \<Rightarrow> Some None
      | JObj ms \<Rightarrow>
          map_option Some
            (decodeMembers names store ms (case cur of None \<Rightarrow> zero | Some x \<Rightarrow> x))
      | _ \<Rightarrow> None)"

definition decodeString :: "json \<Rightarrow> string \<Rightarrow> string option" where
  "decodeString j cur =
     (case j of JNull \<Rightarrow> Some cur | JStr raw \<Rightarrow> Some (unquote raw) | _ \<Rightarrow> None)"

definition decodeInt :: "json \<Rightarrow> int \<Rightarrow> int option" where
  "decodeInt j cur = (case j of JNull \<Rightarrow> Some cur | JNum n \<Rightarrow> atoi n | _ \<Rightarrow> None)"

definition decodeIntPointer :: "json \<Rightarrow> int option \<Rightarrow> int option option" where
  "decodeIntPointer j cur =
     (case j of JNull \<Rightarrow> Some None | JNum n \<Rightarrow> map_option Some (atoi n) | _ \<Rightarrow> None)"

text \<open>A \<open>map[string]string\<close>; a \<open>null\<close> element is the empty string.\<close>

fun decodeEntries :: "(string \<times> json) list \<Rightarrow> strmap \<Rightarrow> strmap option" where
  "decodeEntries [] m = Some m"
| "decodeEntries ((raw, v) # ms) m =
     (case decodeString v [] of
        None \<Rightarrow> None | Some s \<Rightarrow> decodeEntries ms (mset_key (unquote raw) s m))"

definition decodeMap :: "json \<Rightarrow> strmap \<Rightarrow> strmap option" where
  "decodeMap j cur = (case j of JNull \<Rightarrow> Some [] | JObj ms \<Rightarrow> decodeEntries ms cur | _ \<Rightarrow> None)"

section \<open>Unknown fields\<close>

lemma decodeMembers_unknown:
  "(raw, v) \<in> set ms \<Longrightarrow> matchField names (unquote raw) = None \<Longrightarrow> decodeMembers names store ms acc = None"
proof (induction ms arbitrary: acc)
  case (Cons m ms)
  then show ?case by (cases m) (auto split: option.splits)
qed simp

lemma decodeMembers_known:
  "decodeMembers names store ms acc = Some x \<Longrightarrow> (raw, v) \<in> set ms \<Longrightarrow> matchField names (unquote raw) \<noteq> None"
  using decodeMembers_unknown [of raw v ms names store acc] by auto

lemma decodeStruct_unknown:
  "(raw, v) \<in> set ms \<Longrightarrow> matchField names (unquote raw) = None \<Longrightarrow>
     decodeStruct names store (JObj ms) acc = None"
  by (simp add: decodeStruct_def decodeMembers_unknown)

section \<open>Values written by the program\<close>

definition jsonString :: "string \<Rightarrow> json" where
  "jsonString s = JStr (escape s)"

definition jsonInt :: "int \<Rightarrow> json" where
  "jsonInt i = JNum (itoa i)"

definition jsonField :: "string \<Rightarrow> json \<Rightarrow> (string \<times> json) list" where
  "jsonField name v = [(escape name, v)]"

text \<open>\<open>omitempty\<close>: nothing for an empty string, a zero number or a nil pointer.\<close>

definition omitEmptyString :: "string \<Rightarrow> string \<Rightarrow> (string \<times> json) list" where
  "omitEmptyString name s = (if s = [] then [] else jsonField name (jsonString s))"

definition omitNil :: "string \<Rightarrow> ('a \<Rightarrow> json) \<Rightarrow> 'a option \<Rightarrow> (string \<times> json) list" where
  "omitNil name f x = (case x of None \<Rightarrow> [] | Some y \<Rightarrow> jsonField name (f y))"

definition jsonMap :: "strmap \<Rightarrow> json" where
  "jsonMap m = JObj (map (\<lambda>k. (escape k, jsonString (mget m k))) (sortedKeysOf m))"

lemma decodeString_json [simp]: "ascii s \<Longrightarrow> decodeString (jsonString s) cur = Some s"
  by (simp add: decodeString_def jsonString_def unquote_escape)

lemma jsonOK_string [simp]: "ascii s \<Longrightarrow> jsonOK (jsonString s)"
  by (simp add: jsonString_def rawOK_escape)

lemma jsonOK_fields:
  "jsonOK (JObj []) = True"
  "jsonOK (JObj (xs @ ys)) \<longleftrightarrow> jsonOK (JObj xs) \<and> jsonOK (JObj ys)"
  "ascii n \<Longrightarrow> jsonOK v \<Longrightarrow> jsonOK (JObj (jsonField n v))"
  "ascii n \<Longrightarrow> ascii s \<Longrightarrow> jsonOK (JObj (omitEmptyString n s))"
  "ascii n \<Longrightarrow> (\<And>y. x = Some y \<Longrightarrow> jsonOK (f y)) \<Longrightarrow> jsonOK (JObj (omitNil n f x))"
  by (auto simp: jsonField_def omitEmptyString_def omitNil_def rawOK_escape split: option.splits)

lemma decodeMembers_append:
  "decodeMembers names store (xs @ ys) acc =
     (case decodeMembers names store xs acc of None \<Rightarrow> None | Some a \<Rightarrow> decodeMembers names store ys a)"
  by (induction names store xs acc rule: decodeMembers.induct) (auto split: option.splits)

lemma decodeMembers_field:
  "ascii n \<Longrightarrow> n \<in> set names \<Longrightarrow> decodeMembers names store (jsonField n v) acc = store n v acc"
  by (simp add: jsonField_def unquote_escape split: option.splits)

lemma decodeMembers_omitString:
  "ascii n \<Longrightarrow> n \<in> set names \<Longrightarrow> decodeMembers names store (omitEmptyString n s) acc =
     (if s = [] then Some acc else store n (jsonString s) acc)"
  by (simp add: omitEmptyString_def decodeMembers_field)

lemma decodeMembers_omitNil:
  "ascii n \<Longrightarrow> n \<in> set names \<Longrightarrow> decodeMembers names store (omitNil n f x) acc =
     (case x of None \<Rightarrow> Some acc | Some y \<Rightarrow> store n (f y) acc)"
  by (simp add: omitNil_def decodeMembers_field split: option.splits)

subsection \<open>Integers\<close>

lemma natText_val: "digitsVal 10 0 (natText n) = Some n"
proof -
  have d: "digitVal 10 (digitChar i) = Some i" if "i < 10" for i
  proof -
    have "\<forall>i \<in> set [0..<10]. digitVal 10 (digitChar i) = Some i" by code_simp
    then show ?thesis using that by simp
  qed
  have app: "digitsVal b a (xs @ [c]) =
      (case digitsVal b a xs of None \<Rightarrow> None | Some x \<Rightarrow> digitsVal b x [c])" for b a xs c
    by (induction xs arbitrary: a) (auto split: option.splits)
  show ?thesis
  proof (induction n rule: natText.induct)
    case (1 n)
    show ?case
    proof (cases "n < 10")
      case True
      then show ?thesis using d by (subst natText.simps) simp
    next
      case False
      then show ?thesis using 1 d [of "n mod 10"] div_mult_mod_eq [of n 10]
        by (subst natText.simps) (simp add: app)
    qed
  qed
qed

definition int64 :: "int \<Rightarrow> bool" where
  "int64 i = (- (2 ^ 63) \<le> i \<and> i < 2 ^ 63)"

lemma natText_start: "\<not> hasPrefix (natText n) ''-''" "\<not> hasPrefix (natText n) ''+''" "natText n \<noteq> []"
proof -
  have "isDigit (hd (natText n))" "natText n \<noteq> []" using natText_digits [of n] by (cases "natText n"; auto)+
  then show "\<not> hasPrefix (natText n) ''-''" "\<not> hasPrefix (natText n) ''+''" "natText n \<noteq> []"
    by (cases "natText n"; auto simp: hasPrefix_def isDigit_def byte_def)+
qed

lemma atoi_itoa: "int64 i \<Longrightarrow> atoi (itoa i) = Some i"
proof -
  assume r: "int64 i"
  show ?thesis
  proof (cases "i < 0")
    case True
    then show ?thesis using r natText_start [of "nat (- i)"]
      by (auto simp: atoi_def itoa_def hasPrefix_def natText_val int64_def Let_def)
  next
    case False
    then show ?thesis using r natText_start [of "nat i"]
      by (auto simp: atoi_def itoa_def natText_val int64_def Let_def)
  qed
qed

lemma decodeInt_json [simp]: "int64 i \<Longrightarrow> decodeInt (jsonInt i) cur = Some i"
  by (simp add: decodeInt_def jsonInt_def atoi_itoa)

lemma numOK_itoa: "numOK (itoa i)"
proof (cases "i < 0")
  case False
  then show ?thesis by (simp add: itoa_def numOK_natText)
next
  case True
  let ?n = "natText (nat (- i))"
  have s: "scanNumber (?n @ r) = Some (?n, r)" if "ender r" for r
    using numOK_natText [of "nat (- i)"] that by (simp add: numOK_def)
  have "\<not> hasPrefix (?n @ r) ''-''" for r
    using natText_start [of "nat (- i)"] by (cases ?n) (auto simp: hasPrefix_def)
  then have "scanNumber (CHR ''-'' # ?n @ r) = Some (CHR ''-'' # ?n, r)" if "ender r" for r
    using s [OF that] by (auto simp: scanNumber_def hasPrefix_def Let_def split: option.splits)
  then show ?thesis using True by (simp add: itoa_def numOK_def)
qed

lemma jsonOK_int [simp]: "jsonOK (jsonInt i)"
  by (simp add: jsonInt_def numOK_itoa)

subsection \<open>String maps\<close>

lemma decodeEntries_map:
  assumes "distinct ks" "set ks \<inter> fst ` set acc = {}" "\<forall>k \<in> set ks. ascii k \<and> ascii (f k)"
  shows "decodeEntries (map (\<lambda>k. (escape k, jsonString (f k))) ks) acc = Some (acc @ map (\<lambda>k. (k, f k)) ks)"
  using assms
proof (induction ks arbitrary: acc)
  case Nil
  then show ?case by simp
next
  case (Cons k ks)
  have "mset_key k (f k) acc = acc @ [(k, f k)]"
  proof -
    have "k \<notin> fst ` set acc" using Cons.prems(2) by auto
    then show ?thesis unfolding mset_key_def by (induction acc) auto
  qed
  then show ?case using Cons.IH [of "acc @ [(k, f k)]"] Cons.prems by (auto simp: unquote_escape)
qed

text \<open>A map survives the round trip up to the order of its entries.\<close>

lemma decodeMap_json:
  assumes "distinct (map fst m)" "\<forall>(k, v) \<in> set m. ascii k \<and> ascii v"
  shows "decodeMap (jsonMap m) [] = Some (map (\<lambda>k. (k, mget m k)) (sortedKeysOf m))"
proof -
  have "ascii k \<and> ascii (mget m k)" if k: "k \<in> set (sortedKeysOf m)" for k
  proof -
    obtain v where "map_of m k = Some v" using k by auto
    then show ?thesis using assms(2) map_of_SomeD [of m k v] by (auto simp: mget_def)
  qed
  moreover have "distinct (sortedKeysOf m)" using assms(1) by (simp add: sortedKeysOf_def)
  ultimately show ?thesis using decodeEntries_map [of "sortedKeysOf m" "[]" "mget m"]
    by (simp add: decodeMap_def jsonMap_def)
qed

lemma map_of_sorted: "map_of (map (\<lambda>k. (k, mget m k)) (sortedKeysOf m)) = map_of m"
proof
  fix k
  show "map_of (map (\<lambda>k. (k, mget m k)) (sortedKeysOf m)) k = map_of m k"
    using set_sortedKeysOf [of m]
    by (cases "map_of m k") (auto simp: map_of_map_restrict restrict_map_def mget_def)
qed

lemma jsonOK_map:
  assumes "\<forall>(k, v) \<in> set m. ascii k \<and> ascii v"
  shows "jsonOK (jsonMap m)"
proof -
  have "ascii k \<and> ascii (mget m k)" if k: "k \<in> set (sortedKeysOf m)" for k
  proof -
    obtain v where "map_of m k = Some v" using k by auto
    then show ?thesis using assms map_of_SomeD [of m k v] by (auto simp: mget_def)
  qed
  then show ?thesis by (auto simp: jsonMap_def list_all_iff rawOK_escape)
qed

section \<open>One document\<close>

text \<open>
  \<open>Decode\<close> on a fresh decoder, and a second \<open>Decode\<close> that must find the end of the text: the
  first value is stored, anything but white space after it is trailing data.
\<close>

datatype 'a document = BadDocument | TrailingData | Document 'a

definition readDocument :: "(json \<Rightarrow> 'a \<Rightarrow> 'a option) \<Rightarrow> 'a \<Rightarrow> string \<Rightarrow> 'a document" where
  "readDocument store zero content =
     (case jvalue (skipWs content) of
        None \<Rightarrow> BadDocument
      | Some (v, rest) \<Rightarrow>
          (case store v zero of
             None \<Rightarrow> BadDocument
           | Some x \<Rightarrow> if skipWs rest = [] then Document x else TrailingData))"

lemma readDocument_iff:
  "readDocument store zero content = Document x \<longleftrightarrow>
     (\<exists>v. parseJson content = Some v \<and> store v zero = Some x)"
  by (auto simp: readDocument_def parseJson_def split: option.splits prod.splits if_splits)

lemma readDocument_pretty:
  assumes "jsonOK j" "store j zero = Some x"
  shows "readDocument store zero (pretty 0 j @ nl) = Document x"
  using assms parse_pretty [OF assms(1)] by (simp add: readDocument_iff)

end
