(* ===== verification/NetAddr.thy ===== *)
theory NetAddr
  imports GoPath
begin

text \<open>
  Addresses and names the configuration uses: \<open>net/netip.ParseAddr\<close> of the standard library,
  and the predicates of internal/config/validate.go on UUIDs and DNS names.
\<close>

section \<open>netip.ParseAddr\<close>

text \<open>Bytes of an IPv4 address, 16-bit groups and zone of an IPv6 address.\<close>

datatype ipAddr = IPv4 "nat list" | IPv6 "nat list" string

definition parseOctet :: "string \<Rightarrow> nat option" where
  "parseOctet s =
     (if s = [] \<or> (length s > 1 \<and> hd s = CHR ''0'') then None
      else case digitsVal 10 0 s of
        None \<Rightarrow> None | Some n \<Rightarrow> if n \<le> 255 then Some n else None)"

fun collect :: "('a \<Rightarrow> 'b option) \<Rightarrow> 'a list \<Rightarrow> 'b list option" where
  "collect f [] = Some []"
| "collect f (x # xs) =
     (case f x of None \<Rightarrow> None
      | Some y \<Rightarrow> (case collect f xs of None \<Rightarrow> None | Some ys \<Rightarrow> Some (y # ys)))"

definition parseIPv4Fields :: "string \<Rightarrow> nat list option" where
  "parseIPv4Fields s =
     (let ps = splitOn (CHR ''.'') s in if length ps \<noteq> 4 then None else collect parseOctet ps)"

text \<open>
  One round of the loop of \<open>parseIPv6\<close> per group, \<open>n\<close> groups still missing: the groups read so far in
  reverse and the position of the ellipsis. The value is the text left over, the groups and
  the ellipsis.
\<close>

fun parseIPv6Loop ::
  "nat \<Rightarrow> nat list \<Rightarrow> nat option \<Rightarrow> string \<Rightarrow> (string \<times> nat list \<times> nat option) option" where
  "parseIPv6Loop 0 acc el s = Some (s, acc, el)"
| "parseIPv6Loop (Suc n) acc el s =
     (let ds = takeWhile (\<lambda>c. hexVal c \<noteq> None) s; rest = drop (length ds) s in
      if ds = [] \<or> length ds > 4 then None
      else if hasPrefix rest ''.'' then
        (if el = None \<and> length acc \<noteq> 6 then None
         else if length acc + 2 > 8 then None
         else case parseIPv4Fields s of
           Some [a, b, c, d] \<Rightarrow> Some ([], (c * 256 + d) # (a * 256 + b) # acc, el)
         | _ \<Rightarrow> None)
      else
        let acc' = the (digitsVal 16 0 ds) # acc in
        if rest = [] then Some ([], acc', el)
        else if hd rest \<noteq> CHR '':'' \<or> tl rest = [] then None
        else if hd (tl rest) = CHR '':'' then
          (if el \<noteq> None then None
           else if tl (tl rest) = [] then Some ([], acc', Some (length acc'))
           else parseIPv6Loop n acc' (Some (length acc')) (tl (tl rest)))
        else parseIPv6Loop n acc' el (tl rest))"

definition parseIPv6 :: "string \<Rightarrow> ipAddr option" where
  "parseIPv6 s =
     (let (addr, zone) = (case cutAt (CHR ''%'') s of None \<Rightarrow> (s, None) | Some (a, z) \<Rightarrow> (a, Some z)) in
      if zone = Some [] then None
      else
        let z = (case zone of None \<Rightarrow> [] | Some z \<Rightarrow> z);
            lead = hasPrefix addr ''::'';
            body = (if lead then drop 2 addr else addr)
        in if lead \<and> body = [] then Some (IPv6 (replicate 8 0) z)
           else case parseIPv6Loop 8 [] (if lead then Some 0 else None) body of
             None \<Rightarrow> None
           | Some (left, acc, el) \<Rightarrow>
               if left \<noteq> [] then None
               else if length acc < 8 then
                 (case el of
                    None \<Rightarrow> None
                  | Some e \<Rightarrow>
                      Some (IPv6 (take e (rev acc) @ replicate (8 - length acc) 0 @ drop e (rev acc)) z))
               else if el \<noteq> None then None
               else Some (IPv6 (rev acc) z))"

definition parseAddr :: "string \<Rightarrow> ipAddr option" where
  "parseAddr s =
     (case find (\<lambda>c. c = CHR ''.'' \<or> c = CHR '':'' \<or> c = CHR ''%'') s of
        None \<Rightarrow> None
      | Some c \<Rightarrow>
          if c = CHR ''.'' then map_option IPv4 (parseIPv4Fields s)
          else if c = CHR '':'' then parseIPv6 s
          else None)"

lemma parseAddr_samples:
  "parseAddr ''0.0.0.0'' = Some (IPv4 [0, 0, 0, 0])"
  "parseAddr ''::'' = Some (IPv6 [0, 0, 0, 0, 0, 0, 0, 0] [])"
  "parseAddr ''fe80::1%eth0'' = Some (IPv6 [0xfe80, 0, 0, 0, 0, 0, 0, 1] ''eth0'')"
  "parseAddr ''::ffff:1.2.3.4'' = Some (IPv6 [0, 0, 0, 0, 0, 0xffff, 0x102, 0x304] [])"
  "parseAddr ''1.2.3.04'' = None"
  "parseAddr ''1:2:3:4:5:6:7::8'' = None"
  by code_simp+

section \<open>UUIDs, IP literals and DNS names\<close>

definition validUUID :: "string \<Rightarrow> bool" where
  "validUUID v =
     (if length v \<noteq> 36 \<or> v ! 8 \<noteq> CHR ''-'' \<or> v ! 13 \<noteq> CHR ''-'' \<or> v ! 18 \<noteq> CHR ''-''
         \<or> v ! 23 \<noteq> CHR ''-''
      then False
      else case hexDecode (replaceAll (CHR ''-'') [] v) of
        None \<Rightarrow> False | Some d \<Rightarrow> length d = 16)"

definition isIPAddress :: "string \<Rightarrow> bool" where
  "isIPAddress v = (parseAddr v \<noteq> None)"

definition dnsRune :: "nat \<Rightarrow> bool" where
  "dnsRune r =
     (\<not> ((r < 97 \<or> r > 122) \<and> (r < 65 \<or> r > 90) \<and> (r < 48 \<or> r > 57) \<and> r \<noteq> 45))"

definition dnsLabel :: "string \<Rightarrow> bool" where
  "dnsLabel l =
     (\<not> (l = [] \<or> length l > 63 \<or> hd l = CHR ''-'' \<or> last l = CHR ''-'')
      \<and> list_all dnsRune (runes l))"

definition validDNSName :: "string \<Rightarrow> bool" where
  "validDNSName value =
     (let v = trimSuffix value ''.'' in
      if v = [] \<or> length v > 253 then False
      else list_all dnsLabel (splitOn (CHR ''.'') v))"

text \<open>The reference reading of a canonical UUID: five groups of hexadecimal digits.\<close>

definition canonicalUUID :: "string \<Rightarrow> bool" where
  "canonicalUUID v =
     (map length (splitOn (CHR ''-'') v) = [8, 4, 4, 4, 12] \<and>
      (\<forall>g \<in> set (splitOn (CHR ''-'') v). \<forall>c \<in> set g. hexVal c \<noteq> None))"

text \<open>The reference reading of a host name: letters, digits and inner hyphens between dots.\<close>

definition hostByte :: "char \<Rightarrow> bool" where
  "hostByte c = (isLowerAZ c \<or> isUpperAZ c \<or> isDigit c \<or> c = CHR ''-'')"

end
