(* ===== verification/Config.thy ===== *)
theory Config
  imports NetAddr Samples
begin

text \<open>
  internal/config: the schema (schema.go), the checks of a file (file_security.go,
  permissions_unix.go), validation (validate.go) and the conversion to the options of
  sing-box (convert.go).

  Go's \<open>int\<close> is \<open>int\<close> (decoding bounds it to 64 bits), a pointer that may be nil is an
  \<open>option\<close>, the two registries filled during validation are association lists passed along.
  Whether a PEM certificate and a PEM key form a pair is decided by crypto/tls: the parameter
  \<open>keyPair\<close>.
\<close>

section \<open>Schema\<close>

definition SchemaVersion :: int where "SchemaVersion = 1"

definition MaxConfigSize :: nat where "MaxConfigSize = 2 ^ 20"

record LogConfig =
  lg_Level :: string

record VLESSRealityConfig =
  vl_Listen :: string
  vl_Port :: int
  vl_UUID :: string
  vl_PrivateKeyPath :: string
  vl_ShortID :: string
  vl_ServerName :: string
  vl_HandshakeServer :: string
  vl_HandshakePort :: int

record Hysteria2Config =
  hy_Listen :: string
  hy_Port :: int
  hy_Password :: string
  hy_CertificatePath :: string
  hy_KeyPath :: string
  hy_UpMbps :: "int option"
  hy_DownMbps :: "int option"

record AnyTLSConfig =
  at_Listen :: string
  at_Port :: int
  at_Password :: string
  at_CertificatePath :: string
  at_KeyPath :: string

record Config =
  c_SchemaVersion :: int
  c_Log :: "LogConfig option"
  c_VLESSReality :: "VLESSRealityConfig option"
  c_Hysteria2 :: "Hysteria2Config option"
  c_AnyTLS :: "AnyTLSConfig option"

definition LogLevel :: "Config \<Rightarrow> string" where
  "LogLevel c =
     (case c_Log c of
        None \<Rightarrow> ''warn''
      | Some l \<Rightarrow> if lg_Level l = [] then ''warn'' else lg_Level l)"

definition fieldError :: "string \<Rightarrow> string \<Rightarrow> string \<Rightarrow> error" where
  "fieldError path reason hint = FieldError path reason hint"

section \<open>Files\<close>

datatype fileKind = fileConfig | filePrivateKey | fileCertificate

abbreviation o004 :: filemode where "o004 \<equiv> 0x4"
abbreviation o002 :: filemode where "o002 \<equiv> 0x2"

definition checkPermissions :: "filemode \<Rightarrow> fileKind \<Rightarrow> unit res" where
  "checkPermissions mode k =
     (if k = filePrivateKey \<and> and mode o004 \<noteq> 0
      then Inl (Errorf (''private key is readable by other users (mode '' @ octal4 mode @ '')''))
      else if k \<noteq> fileCertificate \<and> and mode o022 \<noteq> 0
      then Inl (Errorf (''file is writable by group or other users (mode '' @ octal4 mode @ '')''))
      else if k = fileCertificate \<and> and mode o002 \<noteq> 0
      then Inl (Errorf (''certificate is writable by other users (mode '' @ octal4 mode @ '')''))
      else Inr ())"

definition permissionHint :: "fileKind \<Rightarrow> string" where
  "permissionHint k =
     (if k = fileCertificate then ''use mode 0644 or 0444''
      else ''use mode 0600 or 0400; mode 0440 is allowed for container secrets'')"

definition checkFile :: "string \<Rightarrow> fileKind \<Rightarrow> world \<Rightarrow> unit res \<times> world" where
  "checkFile path k w =
     (case sys_lstat path w of
        (Inl _, w1) \<Rightarrow>
          (Inl (fieldError path ''file does not exist or is a broken link''
                  ''create a readable regular file at this path''), w1)
      | (Inr info, w1) \<Rightarrow>
          (if isSymlink info
           then Inl (fieldError path ''symbolic links are not allowed''
                       ''use a regular file owned by the service account'')
           else if isDir info
           then Inl (fieldError path ''path is a directory'' ''use a regular file'')
           else if \<not> isRegular info
           then Inl (fieldError path (''unsupported file mode '' @ modeText info) ''use a regular file'')
           else (case checkPermissions (perm info) k of
               Inl e \<Rightarrow> Inl (fieldError path (error_text e) (permissionHint k))
             | Inr _ \<Rightarrow> Inr ()), w1))"

section \<open>Registries of ports and credentials\<close>

definition validatePort ::
  "string \<Rightarrow> int \<Rightarrow> int \<Rightarrow> int \<Rightarrow> (int \<times> string) list \<Rightarrow> (int \<times> string) list res" where
  "validatePort path port mn mx ports =
     (if port < mn \<or> port > mx
      then Inl (fieldError path (''must be in range '' @ itoa mn @ ''-'' @ itoa mx)
                  ''choose an unprivileged listening port'')
      else (case map_of ports port of
          Some existing \<Rightarrow>
            Inl (fieldError path (''port '' @ itoa port @ '' conflicts with '' @ existing)
                   ''choose a different port'')
        | None \<Rightarrow> Inr (AList.update port path ports)))"

definition uniqueCredential ::
  "string \<Rightarrow> string \<Rightarrow> (string \<times> string) list \<Rightarrow> (string \<times> string) list res" where
  "uniqueCredential path value credentials =
     (case map_of credentials value of
        Some existing \<Rightarrow>
          Inl (fieldError path (''credential duplicates '' @ existing)
                 ''use a different credential for every protocol'')
      | None \<Rightarrow> Inr (AList.update value path credentials))"

section \<open>Validation\<close>

definition validateListen :: "string \<Rightarrow> string \<Rightarrow> unit res" where
  "validateListen path value =
     (if parseAddr value = None
      then Inl (fieldError path ''must be an IP address literal''
                  ''use an IPv4 or IPv6 address such as 0.0.0.0 or ::'')
      else Inr ())"

definition validateBandwidth :: "string \<Rightarrow> int option \<Rightarrow> unit res" where
  "validateBandwidth path value =
     (case value of
        None \<Rightarrow> Inr ()
      | Some v \<Rightarrow>
          if v < 1 \<or> v > 10000
          then Inl (fieldError path ''must be in range 1-10000''
                      ''remove the field or choose a valid Mbps value'')
          else Inr ())"

text \<open>\<open>tls.LoadX509KeyPair\<close>: both files are read, then the pair is checked.\<close>

definition loadKeyPair ::
  "(string \<Rightarrow> string \<Rightarrow> bool) \<Rightarrow> string \<Rightarrow> string \<Rightarrow> world \<Rightarrow> bool \<times> world" where
  "loadKeyPair keyPair certFile keyFile w =
     (case sys_readFile certFile w of
        (Inl _, w1) \<Rightarrow> (False, w1)
      | (Inr cert, w1) \<Rightarrow>
          (case sys_readFile keyFile w1 of
             (Inl _, w2) \<Rightarrow> (False, w2)
           | (Inr key, w2) \<Rightarrow> (keyPair cert key, w2)))"

definition validateTLSFiles ::
  "(string \<Rightarrow> string \<Rightarrow> bool) \<Rightarrow> string \<Rightarrow> string \<Rightarrow> string \<Rightarrow> world \<Rightarrow> unit res \<times> world" where
  "validateTLSFiles keyPair prefix certificatePath keyPath w =
     (if certificatePath = []
      then (Inl (fieldError (prefix @ ''.certificate_path'') ''is empty''
                   ''provide a local certificate file''), w)
      else if keyPath = []
      then (Inl (fieldError (prefix @ ''.key_path'') ''is empty''
                   ''provide a local TLS private-key file''), w)
      else (case checkFile certificatePath fileCertificate w of
          (Inl e, w1) \<Rightarrow>
            (Inl (fieldError (prefix @ ''.certificate_path'') (error_text e)
                    ''use a readable local certificate file''), w1)
        | (Inr _, w1) \<Rightarrow>
            (case checkFile keyPath filePrivateKey w1 of
               (Inl e, w2) \<Rightarrow>
                 (Inl (fieldError (prefix @ ''.key_path'') (error_text e)
                         ''use a secure readable private-key file''), w2)
             | (Inr _, w2) \<Rightarrow>
                 (case loadKeyPair keyPair certificatePath keyPath w2 of
                    (False, w3) \<Rightarrow>
                      (Inl (fieldError (prefix @ ''.certificate_path'')
                              ''certificate and private key are invalid or do not match''
                              ''provide a matching PEM certificate and key''), w3)
                  | (True, w3) \<Rightarrow> (Inr (), w3)))))"

text \<open>\<open>ecdh.X25519().NewPrivateKey\<close> refuses a key only for its length, which was checked.\<close>

definition readRealityPrivateKey :: "string \<Rightarrow> world \<Rightarrow> string res \<times> world" where
  "readRealityPrivateKey path w =
     (case sys_open path w of
        (Inl _, w1) \<Rightarrow>
          (Inl (fieldError ''vless_reality.private_key_path'' ''cannot open file''
                  ''make it readable by the service user''), w1)
      | (Inr h, w1) \<Rightarrow>
          (case sys_read h w1 of
             (r, w2) \<Rightarrow>
               (case (case r of Inl _ \<Rightarrow> None | Inr c \<Rightarrow> if length (take 4097 c) > 4096 then None else Some c) of
                  None \<Rightarrow>
                    (Inl (fieldError ''vless_reality.private_key_path'' ''cannot read a small key file''
                            ''store one Base64URL X25519 private key''), w2)
                | Some content \<Rightarrow>
                    let encoded = trimSpace content in
                    if (case b64Decode encoded of None \<Rightarrow> True | Some key \<Rightarrow> length key \<noteq> 32)
                    then (Inl (fieldError ''vless_reality.private_key_path''
                                 ''does not contain a 32-byte Base64URL key''
                                 ''generate a valid Reality X25519 private key''), w2)
                    else (Inr encoded, w2))))"

definition validateVLESSReality ::
  "VLESSRealityConfig \<Rightarrow> (int \<times> string) list \<Rightarrow> (string \<times> string) list \<Rightarrow> world \<Rightarrow>
     (string \<times> (int \<times> string) list \<times> (string \<times> string) list) res \<times> world" where
  "validateVLESSReality c ports credentials w =
     (case validateListen ''vless_reality.listen'' (vl_Listen c) of
        Inl e \<Rightarrow> (Inl e, w)
      | Inr _ \<Rightarrow>
     (case validatePort ''vless_reality.port'' (vl_Port c) 1024 65535 ports of
        Inl e \<Rightarrow> (Inl e, w)
      | Inr ports' \<Rightarrow>
          if \<not> validUUID (vl_UUID c)
          then (Inl (fieldError ''vless_reality.uuid'' ''is not a valid canonical UUID''
                       ''use a UUID in 8-4-4-4-12 form''), w)
          else
     (case uniqueCredential ''vless_reality.uuid'' (vl_UUID c) credentials of
        Inl e \<Rightarrow> (Inl e, w)
      | Inr credentials' \<Rightarrow>
          if vl_PrivateKeyPath c = []
          then (Inl (fieldError ''vless_reality.private_key_path'' ''is empty''
                       ''provide a local Reality private key file''), w)
          else
     (case checkFile (vl_PrivateKeyPath c) filePrivateKey w of
        (Inl e, w1) \<Rightarrow>
          (Inl (fieldError ''vless_reality.private_key_path'' (error_text e)
                  ''use a secure readable private-key file''), w1)
      | (Inr _, w1) \<Rightarrow>
     (case readRealityPrivateKey (vl_PrivateKeyPath c) w1 of
        (Inl e, w2) \<Rightarrow> (Inl e, w2)
      | (Inr privateKey, w2) \<Rightarrow>
          if (case hexDecode (vl_ShortID c) of None \<Rightarrow> True
              | Some shortID \<Rightarrow> length shortID \<noteq> 8 \<or> length (vl_ShortID c) \<noteq> 16)
          then (Inl (fieldError ''vless_reality.short_id'' ''must be exactly 16 hexadecimal characters''
                       ''generate an 8-byte short ID''), w2)
          else if \<not> validDNSName (vl_ServerName c) \<or> isIPAddress (vl_ServerName c)
          then (Inl (fieldError ''vless_reality.server_name'' ''is not a valid DNS name''
                       ''use a DNS hostname, not an IP address''), w2)
          else if \<not> validDNSName (vl_HandshakeServer c) \<and> \<not> isIPAddress (vl_HandshakeServer c)
          then (Inl (fieldError ''vless_reality.handshake_server''
                       ''is not a valid DNS name or IP literal'' ''use a hostname or IP address''), w2)
          else if vl_HandshakePort c < 1 \<or> vl_HandshakePort c > 65535
          then (Inl (fieldError ''vless_reality.handshake_port'' ''must be in range 1-65535''
                       ''choose a valid TCP port''), w2)
          else (Inr (privateKey, ports', credentials'), w2))))))"

definition passwordError :: "string \<Rightarrow> error" where
  "passwordError path =
     fieldError path ''must contain at least 16 characters''
       ''generate a cryptographically random password''"

definition validateHysteria2 ::
  "(string \<Rightarrow> string \<Rightarrow> bool) \<Rightarrow> Hysteria2Config \<Rightarrow> (int \<times> string) list \<Rightarrow>
     (string \<times> string) list \<Rightarrow> world \<Rightarrow> ((int \<times> string) list \<times> (string \<times> string) list) res \<times> world" where
  "validateHysteria2 keyPair c ports credentials w =
     (case validateListen ''hysteria2.listen'' (hy_Listen c) of
        Inl e \<Rightarrow> (Inl e, w)
      | Inr _ \<Rightarrow>
     (case validatePort ''hysteria2.port'' (hy_Port c) 1024 65535 ports of
        Inl e \<Rightarrow> (Inl e, w)
      | Inr ports' \<Rightarrow>
          if runeCount (hy_Password c) < 16 then (Inl (passwordError ''hysteria2.password''), w)
          else
     (case uniqueCredential ''hysteria2.password'' (hy_Password c) credentials of
        Inl e \<Rightarrow> (Inl e, w)
      | Inr credentials' \<Rightarrow>
     (case validateBandwidth ''hysteria2.up_mbps'' (hy_UpMbps c) of
        Inl e \<Rightarrow> (Inl e, w)
      | Inr _ \<Rightarrow>
     (case validateBandwidth ''hysteria2.down_mbps'' (hy_DownMbps c) of
        Inl e \<Rightarrow> (Inl e, w)
      | Inr _ \<Rightarrow>
     (case validateTLSFiles keyPair ''hysteria2'' (hy_CertificatePath c) (hy_KeyPath c) w of
        (Inl e, w1) \<Rightarrow> (Inl e, w1)
      | (Inr _, w1) \<Rightarrow> (Inr (ports', credentials'), w1)))))))"

definition validateAnyTLS ::
  "(string \<Rightarrow> string \<Rightarrow> bool) \<Rightarrow> AnyTLSConfig \<Rightarrow> (int \<times> string) list \<Rightarrow>
     (string \<times> string) list \<Rightarrow> world \<Rightarrow> ((int \<times> string) list \<times> (string \<times> string) list) res \<times> world" where
  "validateAnyTLS keyPair c ports credentials w =
     (case validateListen ''anytls.listen'' (at_Listen c) of
        Inl e \<Rightarrow> (Inl e, w)
      | Inr _ \<Rightarrow>
     (case validatePort ''anytls.port'' (at_Port c) 1024 65535 ports of
        Inl e \<Rightarrow> (Inl e, w)
      | Inr ports' \<Rightarrow>
          if runeCount (at_Password c) < 16 then (Inl (passwordError ''anytls.password''), w)
          else
     (case uniqueCredential ''anytls.password'' (at_Password c) credentials of
        Inl e \<Rightarrow> (Inl e, w)
      | Inr credentials' \<Rightarrow>
     (case validateTLSFiles keyPair ''anytls'' (at_CertificatePath c) (at_KeyPath c) w of
        (Inl e, w1) \<Rightarrow> (Inl e, w1)
      | (Inr _, w1) \<Rightarrow> (Inr (ports', credentials'), w1)))))"

record Validated =
  v_Config :: Config
  v_RealityPrivateKey :: string

text \<open>The three protocol sections in the order of \<open>Validate\<close>, with the registries between them.\<close>

definition validateProtocols ::
  "(string \<Rightarrow> string \<Rightarrow> bool) \<Rightarrow> Config \<Rightarrow> world \<Rightarrow> string res \<times> world" where
  "validateProtocols keyPair c w =
     (case (case c_VLESSReality c of
              None \<Rightarrow> (Inr ([], [], []), w)
            | Some v \<Rightarrow> validateVLESSReality v [] [] w) of
        (Inl e, w1) \<Rightarrow> (Inl e, w1)
      | (Inr (privateKey, ports, credentials), w1) \<Rightarrow>
     (case (case c_Hysteria2 c of
              None \<Rightarrow> (Inr (ports, credentials), w1)
            | Some h \<Rightarrow> validateHysteria2 keyPair h ports credentials w1) of
        (Inl e, w2) \<Rightarrow> (Inl e, w2)
      | (Inr (ports2, credentials2), w2) \<Rightarrow>
     (case (case c_AnyTLS c of
              None \<Rightarrow> (Inr (ports2, credentials2), w2)
            | Some a \<Rightarrow> validateAnyTLS keyPair a ports2 credentials2 w2) of
        (Inl e, w3) \<Rightarrow> (Inl e, w3)
      | (Inr _, w3) \<Rightarrow> (Inr privateKey, w3))))"

definition Validate ::
  "(string \<Rightarrow> string \<Rightarrow> bool) \<Rightarrow> Config option \<Rightarrow> world \<Rightarrow> Validated res \<times> world" where
  "Validate keyPair cfg w =
     (case cfg of
        None \<Rightarrow> (Inl (fieldError ''config'' ''is nil'' ''provide a schema_version 1 config''), w)
      | Some c \<Rightarrow>
          if c_SchemaVersion c \<noteq> SchemaVersion
          then (Inl (fieldError ''schema_version'' (''must equal '' @ itoa SchemaVersion)
                       ''set schema_version to 1''), w)
          else if LogLevel c \<noteq> ''warn'' \<and> LogLevel c \<noteq> ''error''
          then (Inl (fieldError ''log.level'' ''must be warn or error''
                       ''set log.level to warn or error''), w)
          else if c_VLESSReality c = None \<and> c_Hysteria2 c = None \<and> c_AnyTLS c = None
          then (Inl (fieldError ''config'' ''at least one protocol is required''
                       ''add vless_reality, hysteria2, or anytls''), w)
          else (case validateProtocols keyPair c w of
              (Inl e, w1) \<Rightarrow> (Inl e, w1)
            | (Inr k, w1) \<Rightarrow> (Inr \<lparr>v_Config = c, v_RealityPrivateKey = k\<rparr>, w1)))"

section \<open>Conversion to sing-box options\<close>

text \<open>The fields of the option structs that convert.go sets; all others stay zero.\<close>

record listenOptions =
  lo_Listen :: ipAddr
  lo_ListenPort :: "16 word"

record realityOptions =
  ro_HandshakeServer :: string
  ro_HandshakePort :: "16 word"
  ro_PrivateKey :: string
  ro_ShortID :: "string list"

record tlsOptions =
  tl_Enabled :: bool
  tl_ServerName :: string
  tl_MinVersion :: string
  tl_CertificatePath :: string
  tl_KeyPath :: string
  tl_Reality :: "realityOptions option"

datatype inboundOptions =
    VLESSInbound listenOptions "(string \<times> string) list" tlsOptions
  | Hysteria2Inbound listenOptions "string list" int int tlsOptions
  | AnyTLSInbound listenOptions "string list" tlsOptions

record inbound =
  in_Tag :: string
  in_Options :: inboundOptions

record boxOptions =
  bo_LogLevel :: string
  bo_LogTimestamp :: bool
  bo_Inbounds :: "inbound list"

definition goUint16 :: "int \<Rightarrow> 16 word" where
  "goUint16 i = word_of_int i"

definition plainTLS :: tlsOptions where
  "plainTLS =
     \<lparr>tl_Enabled = True, tl_ServerName = [], tl_MinVersion = [], tl_CertificatePath = [],
      tl_KeyPath = [], tl_Reality = None\<rparr>"

definition convertVLESS :: "string \<Rightarrow> VLESSRealityConfig \<Rightarrow> inbound option" where
  "convertVLESS privateKey v =
     map_option (\<lambda>addr.
       \<lparr>in_Tag = ''vless-reality'',
        in_Options = VLESSInbound \<lparr>lo_Listen = addr, lo_ListenPort = goUint16 (vl_Port v)\<rparr>
          [(vl_UUID v, ''xtls-rprx-vision'')]
          (plainTLS\<lparr>tl_ServerName := vl_ServerName v,
             tl_Reality := Some \<lparr>ro_HandshakeServer = vl_HandshakeServer v,
               ro_HandshakePort = goUint16 (vl_HandshakePort v),
               ro_PrivateKey = privateKey, ro_ShortID = [vl_ShortID v]\<rparr>\<rparr>)\<rparr>)
       (parseAddr (vl_Listen v))"

definition convertHysteria2 :: "Hysteria2Config \<Rightarrow> inbound option" where
  "convertHysteria2 h =
     map_option (\<lambda>addr.
       \<lparr>in_Tag = ''hysteria2'',
        in_Options = Hysteria2Inbound \<lparr>lo_Listen = addr, lo_ListenPort = goUint16 (hy_Port h)\<rparr>
          [hy_Password h]
          (case hy_UpMbps h of None \<Rightarrow> 0 | Some u \<Rightarrow> u) (case hy_DownMbps h of None \<Rightarrow> 0 | Some d \<Rightarrow> d)
          (plainTLS\<lparr>tl_MinVersion := ''1.3'', tl_CertificatePath := hy_CertificatePath h,
             tl_KeyPath := hy_KeyPath h\<rparr>)\<rparr>)
       (parseAddr (hy_Listen h))"

definition convertAnyTLS :: "AnyTLSConfig \<Rightarrow> inbound option" where
  "convertAnyTLS a =
     map_option (\<lambda>addr.
       \<lparr>in_Tag = ''anytls'',
        in_Options = AnyTLSInbound \<lparr>lo_Listen = addr, lo_ListenPort = goUint16 (at_Port a)\<rparr>
          [at_Password a]
          (plainTLS\<lparr>tl_MinVersion := ''1.3'', tl_CertificatePath := at_CertificatePath a,
             tl_KeyPath := at_KeyPath a\<rparr>)\<rparr>)
       (parseAddr (at_Listen a))"

text \<open>Appending the inbound of a section that is present; \<open>None\<close> is the panic of \<open>MustParseAddr\<close>.\<close>

definition addInbound :: "inbound option option \<Rightarrow> inbound list option \<Rightarrow> inbound list option" where
  "addInbound section acc =
     (case acc of
        None \<Rightarrow> None
      | Some ins \<Rightarrow>
          (case section of None \<Rightarrow> Some ins | Some None \<Rightarrow> None | Some (Some i) \<Rightarrow> Some (ins @ [i])))"

definition Convert :: "Validated \<Rightarrow> boxOptions option" where
  "Convert v =
     (let c = v_Config v in
      map_option (\<lambda>ins. \<lparr>bo_LogLevel = LogLevel c, bo_LogTimestamp = True, bo_Inbounds = ins\<rparr>)
        (addInbound (map_option convertAnyTLS (c_AnyTLS c))
          (addInbound (map_option convertHysteria2 (c_Hysteria2 c))
            (addInbound (map_option (convertVLESS (v_RealityPrivateKey v)) (c_VLESSReality c))
              (Some [])))))"

end
