(* ===== verification/ConfigSpec.thy ===== *)
theory ConfigSpec
  imports Config
begin

text \<open>
  What a validated configuration satisfies: a declarative reading of validate.go and
  file_security.go, and the proof that \<open>Validate\<close> decides it. The two registries of the code
  are two interpretations of one interface.
\<close>

section \<open>The registry interface\<close>

text \<open>
  Claiming a key records it under its path, and is refused for a key that is not admissible
  or was claimed before.
\<close>

locale registry =
  fixes claim :: "string \<Rightarrow> 'k \<Rightarrow> ('k \<times> string) list \<Rightarrow> ('k \<times> string) list res"
    and admissible :: "'k \<Rightarrow> bool"
  assumes claim_ok: "claim path k reg = Inr reg' \<Longrightarrow>
      admissible k \<and> map_of reg k = None \<and> map_of reg' = (map_of reg)(k \<mapsto> path)"
    and claim_total: "admissible k \<Longrightarrow> map_of reg k = None \<Longrightarrow> \<exists>reg'. claim path k reg = Inr reg'"
begin

lemma claim_iff:
  "(\<exists>reg'. claim path k reg = Inr reg') \<longleftrightarrow> admissible k \<and> k \<notin> dom (map_of reg)"
proof
  assume "\<exists>reg'. claim path k reg = Inr reg'"
  then obtain reg' where "claim path k reg = Inr reg'" by blast
  then show "admissible k \<and> k \<notin> dom (map_of reg)" using claim_ok [of path k reg reg'] by auto
qed (use claim_total [of k reg path] in auto)

lemma claim_dom: "claim path k reg = Inr reg' \<Longrightarrow> dom (map_of reg') = insert k (dom (map_of reg))"
  using claim_ok [of path k reg reg'] by simp

text \<open>A sequence of claims, stopping at the first refusal.\<close>

fun claimAll :: "(string \<times> 'k) list \<Rightarrow> ('k \<times> string) list \<Rightarrow> ('k \<times> string) list res" where
  "claimAll [] reg = Inr reg"
| "claimAll ((path, k) # cs) reg =
     (case claim path k reg of Inl e \<Rightarrow> Inl e | Inr reg' \<Rightarrow> claimAll cs reg')"

lemma claimAll_append:
  "claimAll (xs @ ys) reg = (case claimAll xs reg of Inl e \<Rightarrow> Inl e | Inr reg' \<Rightarrow> claimAll ys reg')"
  by (induction xs reg rule: claimAll.induct) (auto split: sum.splits)

lemma claimAll_iff:
  "(\<exists>reg'. claimAll cs reg = Inr reg') \<longleftrightarrow>
     distinct (map snd cs) \<and> (\<forall>k \<in> set (map snd cs). admissible k \<and> k \<notin> dom (map_of reg))"
proof (induction cs reg rule: claimAll.induct)
  case (1 reg)
  then show ?case by simp
next
  case (2 path k cs reg)
  show ?case
  proof (cases "claim path k reg")
    case (Inl e)
    then show ?thesis using claim_iff [of path k reg] by auto
  next
    case (Inr reg')
    have "admissible k" "k \<notin> dom (map_of reg)" "dom (map_of reg') = insert k (dom (map_of reg))"
      using claim_ok [OF Inr] claim_dom [OF Inr] by auto
    then show ?thesis using 2 Inr by auto
  qed
qed

end

definition listenPort :: "int \<Rightarrow> bool" where
  "listenPort p = (1024 \<le> p \<and> p \<le> 65535)"

definition claimPort :: "string \<Rightarrow> int \<Rightarrow> (int \<times> string) list \<Rightarrow> (int \<times> string) list res" where
  "claimPort path p ports = validatePort path p 1024 65535 ports"

interpretation ports: registry claimPort listenPort
  by unfold_locales
    (auto simp: claimPort_def validatePort_def listenPort_def update_conv' split: if_splits option.splits)

interpretation creds: registry uniqueCredential "\<lambda>_. True"
  by unfold_locales (auto simp: uniqueCredential_def update_conv' split: option.splits)

section \<open>The specification\<close>

definition permsOK :: "fileKind \<Rightarrow> filemode \<Rightarrow> bool" where
  "permsOK k m =
     (case k of
        fileConfig \<Rightarrow> and m o022 = 0
      | filePrivateKey \<Rightarrow> and m o022 = 0 \<and> and m o004 = 0
      | fileCertificate \<Rightarrow> and m o002 = 0)"

definition secureFile :: "world \<Rightarrow> string \<Rightarrow> fileKind \<Rightarrow> bool" where
  "secureFile w p k = (\<exists>i. lookup w p = Some i \<and> isRegular i \<and> permsOK k (perm i))"

definition contentOf :: "world \<Rightarrow> string \<Rightarrow> string" where
  "contentOf w p = (case lookup w p of Some i \<Rightarrow> data i | None \<Rightarrow> [])"

text \<open>The private key stored in a file: its trimmed text, when that encodes 32 bytes.\<close>

definition storesKey :: "string \<Rightarrow> string \<Rightarrow> bool" where
  "storesKey content key =
     (length content \<le> 4096 \<and> key = trimSpace content \<and>
      (\<exists>raw. b64Decode key = Some raw \<and> length raw = 32))"

definition vlessOK :: "world \<Rightarrow> VLESSRealityConfig \<Rightarrow> string \<Rightarrow> bool" where
  "vlessOK w c key =
     (parseAddr (vl_Listen c) \<noteq> None \<and> validUUID (vl_UUID c) \<and> vl_PrivateKeyPath c \<noteq> [] \<and>
      secureFile w (vl_PrivateKeyPath c) filePrivateKey \<and>
      storesKey (contentOf w (vl_PrivateKeyPath c)) key \<and>
      length (vl_ShortID c) = 16 \<and> hexDecode (vl_ShortID c) \<noteq> None \<and>
      validDNSName (vl_ServerName c) \<and> \<not> isIPAddress (vl_ServerName c) \<and>
      (validDNSName (vl_HandshakeServer c) \<or> isIPAddress (vl_HandshakeServer c)) \<and>
      1 \<le> vl_HandshakePort c \<and> vl_HandshakePort c \<le> 65535)"

definition tlsOK :: "(string \<Rightarrow> string \<Rightarrow> bool) \<Rightarrow> world \<Rightarrow> string \<Rightarrow> string \<Rightarrow> bool" where
  "tlsOK keyPair w cert key =
     (cert \<noteq> [] \<and> key \<noteq> [] \<and> secureFile w cert fileCertificate \<and> secureFile w key filePrivateKey \<and>
      keyPair (contentOf w cert) (contentOf w key))"

definition bandwidthOK :: "int option \<Rightarrow> bool" where
  "bandwidthOK b = (case b of None \<Rightarrow> True | Some v \<Rightarrow> 1 \<le> v \<and> v \<le> 10000)"

definition hysteria2OK :: "(string \<Rightarrow> string \<Rightarrow> bool) \<Rightarrow> world \<Rightarrow> Hysteria2Config \<Rightarrow> bool" where
  "hysteria2OK keyPair w c =
     (parseAddr (hy_Listen c) \<noteq> None \<and> 16 \<le> runeCount (hy_Password c) \<and>
      bandwidthOK (hy_UpMbps c) \<and> bandwidthOK (hy_DownMbps c) \<and>
      tlsOK keyPair w (hy_CertificatePath c) (hy_KeyPath c))"

definition anytlsOK :: "(string \<Rightarrow> string \<Rightarrow> bool) \<Rightarrow> world \<Rightarrow> AnyTLSConfig \<Rightarrow> bool" where
  "anytlsOK keyPair w c =
     (parseAddr (at_Listen c) \<noteq> None \<and> 16 \<le> runeCount (at_Password c) \<and>
      tlsOK keyPair w (at_CertificatePath c) (at_KeyPath c))"

text \<open>The ports and credentials of the sections that are present, in order.\<close>

definition portClaims :: "Config \<Rightarrow> (string \<times> int) list" where
  "portClaims c =
     (case c_VLESSReality c of None \<Rightarrow> [] | Some v \<Rightarrow> [(''vless_reality.port'', vl_Port v)]) @
     (case c_Hysteria2 c of None \<Rightarrow> [] | Some h \<Rightarrow> [(''hysteria2.port'', hy_Port h)]) @
     (case c_AnyTLS c of None \<Rightarrow> [] | Some a \<Rightarrow> [(''anytls.port'', at_Port a)])"

definition credentialClaims :: "Config \<Rightarrow> (string \<times> string) list" where
  "credentialClaims c =
     (case c_VLESSReality c of None \<Rightarrow> [] | Some v \<Rightarrow> [(''vless_reality.uuid'', vl_UUID v)]) @
     (case c_Hysteria2 c of None \<Rightarrow> [] | Some h \<Rightarrow> [(''hysteria2.password'', hy_Password h)]) @
     (case c_AnyTLS c of None \<Rightarrow> [] | Some a \<Rightarrow> [(''anytls.password'', at_Password a)])"

definition whenSome :: "('a \<Rightarrow> bool) \<Rightarrow> 'a option \<Rightarrow> bool" where
  "whenSome P x = (case x of None \<Rightarrow> True | Some y \<Rightarrow> P y)"

definition vlessPart :: "world \<Rightarrow> Config \<Rightarrow> string \<Rightarrow> bool" where
  "vlessPart w c key =
     (case c_VLESSReality c of None \<Rightarrow> key = [] | Some v \<Rightarrow> vlessOK w v key)"

definition configOK :: "(string \<Rightarrow> string \<Rightarrow> bool) \<Rightarrow> world \<Rightarrow> Config \<Rightarrow> string \<Rightarrow> bool" where
  "configOK keyPair w c key =
     (c_SchemaVersion c = 1 \<and> LogLevel c \<in> {''warn'', ''error''} \<and>
      \<not> (c_VLESSReality c = None \<and> c_Hysteria2 c = None \<and> c_AnyTLS c = None) \<and>
      distinct (map snd (portClaims c)) \<and> (\<forall>p \<in> set (map snd (portClaims c)). listenPort p) \<and>
      distinct (map snd (credentialClaims c)) \<and>
      vlessPart w c key \<and> whenSome (hysteria2OK keyPair w) (c_Hysteria2 c) \<and>
      whenSome (anytlsOK keyPair w) (c_AnyTLS c))"

section \<open>Reading only\<close>

text \<open>Everything validation does leaves the tree alone, so that the conditions stay put.\<close>

definition sameTree :: "world \<Rightarrow> world \<Rightarrow> bool" where
  "sameTree w w' = (sameEnv w w' \<and> tree w' = tree w)"

lemma sameTree_refl [simp]: "sameTree w w"
  by (simp add: sameTree_def)

lemma sameTree_trans [trans]: "sameTree a b \<Longrightarrow> sameTree b c \<Longrightarrow> sameTree a c"
  by (auto simp: sameTree_def intro: sameEnv_trans)

lemma sameTree_lookup: "sameTree w w' \<Longrightarrow> lookup w' p = lookup w p"
  by (auto simp: sameTree_def lookup_def sameEnv_keyOf)

lemma sameTree_ro: "sameEnv w w' \<Longrightarrow> tree w' = tree w \<Longrightarrow> sameTree w w'"
  by (simp add: sameTree_def)

lemma sameTree_quiet: "sameTree w w' \<Longrightarrow> quiet w' = quiet w"
  by (simp add: sameTree_def sameEnv_def quiet_def)

lemma sameTree_secure [simp]: "sameTree w w' \<Longrightarrow> secureFile w' p k = secureFile w p k"
  by (simp add: secureFile_def sameTree_lookup)

lemma sameTree_content [simp]: "sameTree w w' \<Longrightarrow> contentOf w' p = contentOf w p"
  by (simp add: contentOf_def sameTree_lookup)

lemma sameTree_specs:
  assumes "sameTree w w'"
  shows "vlessOK w' v k = vlessOK w v k" "tlsOK kp w' c y = tlsOK kp w c y"
    "hysteria2OK kp w' h = hysteria2OK kp w h" "anytlsOK kp w' a = anytlsOK kp w a"
  using assms by (simp_all add: vlessOK_def tlsOK_def hysteria2OK_def anytlsOK_def)

lemma checkFile_same: "checkFile p k w = (r, w') \<Longrightarrow> sameTree w w'"
  by (auto simp: checkFile_def split: prod.splits sum.splits
      intro: sameTree_ro dest: lstat.env lstat.fs_same)

lemma readFile_same: "sys_readFile p w = (r, w') \<Longrightarrow> sameTree w w'"
  by (rule sameTree_ro [OF readFile.env readFile.fs_same])

lemma loadKeyPair_same:
  assumes "loadKeyPair kp c k w = (r, w')"
  shows "sameTree w w'"
proof -
  obtain r1 w1 where c1: "sys_readFile c w = (r1, w1)" by fastforce
  obtain r2 w2 where c2: "sys_readFile k w1 = (r2, w2)" by fastforce
  have "w' = w1 \<or> w' = w2" using assms c1 c2 by (auto simp: loadKeyPair_def split: sum.splits)
  then show ?thesis using readFile_same [OF c1] sameTree_trans [OF readFile_same [OF c1] readFile_same [OF c2]]
    by auto
qed

lemma readRealityPrivateKey_same:
  assumes "readRealityPrivateKey p w = (r, w')"
  shows "sameTree w w'"
proof -
  obtain r1 w1 where c1: "sys_open p w = (r1, w1)" by fastforce
  obtain r2 w2 where c2: "sys_read (projr r1) w1 = (r2, w2)" by fastforce
  have s1: "sameTree w w1" by (rule sameTree_ro [OF open_ro.env [OF c1] open_ro.fs_same [OF c1]])
  have s2: "sameTree w1 w2" by (rule sameTree_ro [OF read.env [OF c2] read.fs_same [OF c2]])
  have "w' = w1 \<or> w' = w2" using assms c1 c2
    by (auto simp: readRealityPrivateKey_def Let_def split: sum.splits option.splits if_splits)
  then show ?thesis using s1 sameTree_trans [OF s1 s2] by auto
qed

section \<open>The checks of a file\<close>

lemma checkPermissions_iff: "is_ok (checkPermissions m k) = permsOK k m"
  by (cases k) (auto simp: checkPermissions_def permsOK_def)

lemma checkFile_ok:
  assumes "checkFile p k w = (Inr u, w')"
  shows "secureFile w p k"
proof -
  obtain r1 w1 where c: "sys_lstat p w = (r1, w1)" by fastforce
  obtain i where i: "r1 = Inr i" "isRegular i" "is_ok (checkPermissions (perm i) k)"
    using assms c by (auto simp: checkFile_def split: sum.splits if_splits)
  have "lookup w p = Some i" using c i(1) by (auto simp: sys_lstat_def split: option.splits)
  then show ?thesis using i(2,3) by (auto simp: secureFile_def checkPermissions_iff)
qed

lemma checkFile_quiet: "quiet w \<Longrightarrow> secureFile w p k \<Longrightarrow> checkFile p k w = (Inr (), tick w)"
proof -
  assume q: "quiet w" and "secureFile w p k"
  then obtain i where i: "lookup w p = Some i" "isRegular i" "permsOK k (perm i)"
    by (auto simp: secureFile_def)
  moreover have "checkPermissions (perm i) k = Inr ()"
    using checkPermissions_iff [of "perm i" k] i(3) by (cases "checkPermissions (perm i) k") auto
  moreover have "\<not> isSymlink i" "\<not> isDir i" using i(2) by (auto simp: isRegular_def isSymlink_def isDir_def)
  ultimately show ?thesis using q by (simp add: checkFile_def sys_lstat_def)
qed

lemma secure_regular:
  "secureFile w p k \<Longrightarrow> \<exists>i. lookup w p = Some i \<and> isRegular i \<and> \<not> isSymlink i \<and> data i = contentOf w p"
  by (auto simp: secureFile_def contentOf_def isRegular_def isSymlink_def)

lemma loadKeyPair_ok:
  assumes "loadKeyPair kp c k w = (True, w')" "secureFile w c fileCertificate" "secureFile w k filePrivateKey"
  shows "kp (contentOf w c) (contentOf w k)"
proof -
  obtain x y w1 where r: "sys_readFile c w = (Inr x, w1)" "sys_readFile k w1 = (Inr y, w')" "kp x y"
    using assms(1) by (auto simp: loadKeyPair_def split: prod.splits sum.splits)
  have "lookup w1 k = lookup w k" by (rule sameTree_lookup [OF readFile_same [OF r(1)]])
  then show ?thesis
    using r secure_regular [OF assms(2)] secure_regular [OF assms(3)] readFile_file by metis
qed

lemma loadKeyPair_quiet:
  assumes "quiet w" "secureFile w c fileCertificate" "secureFile w k filePrivateKey"
    "kp (contentOf w c) (contentOf w k)"
  shows "\<exists>w'. loadKeyPair kp c k w = (True, w')"
proof -
  obtain i j where "lookup w c = Some i" "isRegular i" "data i = contentOf w c"
    "lookup w k = Some j" "isRegular j" "data j = contentOf w k"
    using secure_regular assms(2,3) by blast
  then show ?thesis using assms(1,4)
    readFile_quiet [of w c i] readFile_quiet [of "tick (tick w)" k j] by (simp add: loadKeyPair_def)
qed

lemma readRealityPrivateKey_ok:
  assumes "readRealityPrivateKey p w = (Inr key, w')" "secureFile w p k"
  shows "storesKey (contentOf w p) key"
proof -
  obtain i where i: "lookup w p = Some i" "\<not> isSymlink i" "data i = contentOf w p"
    using secure_regular [OF assms(2)] by blast
  obtain h c w1 where r: "sys_open p w = (Inr h, w1)" "sys_read h w1 = (Inr c, w')"
    "length c \<le> 4096" "key = trimSpace c" "\<exists>raw. b64Decode key = Some raw \<and> length raw = 32"
    using assms(1)
    by (auto simp: readRealityPrivateKey_def Let_def split: res_splits)
  have "h = p" "lookup w1 p = Some i"
    using open_file [OF r(1) i(1,2)] open_ro.lookup_same [OF r(1)] i(1) by simp_all
  then have "c = contentOf w p" using read_file r(2) i(3) by metis
  then show ?thesis using r(3-5) by (simp add: storesKey_def)
qed

lemma readRealityPrivateKey_quiet:
  assumes "quiet w" "secureFile w p k" "storesKey (contentOf w p) key"
  shows "\<exists>w'. readRealityPrivateKey p w = (Inr key, w')"
proof -
  obtain i where i: "lookup w p = Some i" "isRegular i" "\<not> isSymlink i" "data i = contentOf w p"
    using secure_regular [OF assms(2)] by blast
  then have "sys_read p (tick w) = (Inr (data i), tick (tick w))"
    using assms(1) by (intro read_quiet) (auto simp: isRegular_def isDir_def)
  then show ?thesis using assms(1,3) i open_quiet [OF assms(1) i(1,3)]
    by (auto simp: readRealityPrivateKey_def storesKey_def Let_def)
qed

section \<open>The sections\<close>

lemma validateTLSFiles_same:
  assumes "validateTLSFiles kp pre c k w = (r, w')"
  shows "sameTree w w'"
proof -
  obtain r1 w1 where c1: "checkFile c fileCertificate w = (r1, w1)" by fastforce
  obtain r2 w2 where c2: "checkFile k filePrivateKey w1 = (r2, w2)" by fastforce
  obtain r3 w3 where c3: "loadKeyPair kp c k w2 = (r3, w3)" by fastforce
  note s1 = checkFile_same [OF c1]
  note s2 = sameTree_trans [OF s1 checkFile_same [OF c2]]
  note s3 = sameTree_trans [OF s2 loadKeyPair_same [OF c3]]
  have "w' \<in> {w, w1, w2, w3}" using assms c1 c2 c3
    by (auto simp: validateTLSFiles_def split: if_splits sum.splits bool.splits)
  then show ?thesis using s1 s2 s3 by auto
qed

lemma validateTLSFiles_ok:
  assumes "validateTLSFiles kp pre c k w = (Inr u, w')"
  shows "tlsOK kp w c k"
proof -
  obtain r1 w1 where c1: "checkFile c fileCertificate w = (r1, w1)" by fastforce
  obtain r2 w2 where c2: "checkFile k filePrivateKey w1 = (r2, w2)" by fastforce
  obtain r3 w3 where c3: "loadKeyPair kp c k w2 = (r3, w3)" by fastforce
  have s: "sameTree w w1" "sameTree w w2"
    using checkFile_same [OF c1] sameTree_trans [OF checkFile_same [OF c1] checkFile_same [OF c2]] by auto
  have ok: "c \<noteq> []" "k \<noteq> []" "r1 = Inr ()" "r2 = Inr ()" "r3"
    using assms c1 c2 c3 by (auto simp: validateTLSFiles_def split: if_splits sum.splits bool.splits)
  have f: "secureFile w c fileCertificate" "secureFile w k filePrivateKey"
    using checkFile_ok [OF c1 [unfolded ok(3)]] checkFile_ok [OF c2 [unfolded ok(4)]] s(1) by auto
  have "kp (contentOf w2 c) (contentOf w2 k)"
    by (rule loadKeyPair_ok) (use c3 ok(5) f s(2) in auto)
  then show ?thesis using ok f s(2) by (simp add: tlsOK_def)
qed

lemma validateTLSFiles_quiet:
  assumes "quiet w" "tlsOK kp w c k"
  shows "\<exists>w'. validateTLSFiles kp pre c k w = (Inr (), w')"
proof -
  have t: "sameTree w (tick w)" "sameTree w (tick (tick w))" by (auto intro: sameTree_ro)
  have "checkFile c fileCertificate w = (Inr (), tick w)"
    using checkFile_quiet assms by (simp add: tlsOK_def)
  moreover have "checkFile k filePrivateKey (tick w) = (Inr (), tick (tick w))"
    using checkFile_quiet assms t by (simp add: tlsOK_def)
  moreover obtain w3 where "loadKeyPair kp c k (tick (tick w)) = (True, w3)"
    using loadKeyPair_quiet [of "tick (tick w)" c k kp] assms t by (auto simp: tlsOK_def)
  ultimately show ?thesis using assms(2) by (simp add: validateTLSFiles_def tlsOK_def)
qed

lemma validateListen_iff: "validateListen p v = Inr u \<longleftrightarrow> parseAddr v \<noteq> None"
  by (auto simp: validateListen_def)

lemma validateBandwidth_iff: "validateBandwidth p v = Inr u \<longleftrightarrow> bandwidthOK v"
  by (auto simp: validateBandwidth_def bandwidthOK_def split: option.splits)

lemma validateAnyTLS_cases:
  assumes "validateAnyTLS kp c ps cs w = (r, w')"
  shows "sameTree w w'" and "r = Inr (ps', cs') \<Longrightarrow> anytlsOK kp w c \<and>
    claimPort ''anytls.port'' (at_Port c) ps = Inr ps' \<and>
    uniqueCredential ''anytls.password'' (at_Password c) cs = Inr cs'"
proof -
  obtain r1 w1 where t: "validateTLSFiles kp ''anytls'' (at_CertificatePath c) (at_KeyPath c) w = (r1, w1)"
    by fastforce
  show "sameTree w w'" using assms t validateTLSFiles_same [OF t]
    by (auto simp: validateAnyTLS_def split: sum.splits if_splits)
  show "anytlsOK kp w c \<and> claimPort ''anytls.port'' (at_Port c) ps = Inr ps' \<and>
      uniqueCredential ''anytls.password'' (at_Password c) cs = Inr cs'" if "r = Inr (ps', cs')"
    using assms that t validateTLSFiles_ok
    by (auto simp: validateAnyTLS_def claimPort_def anytlsOK_def validateListen_iff
        split: sum.splits if_splits)
qed

lemma validateHysteria2_cases:
  assumes "validateHysteria2 kp c ps cs w = (r, w')"
  shows "sameTree w w'" and "r = Inr (ps', cs') \<Longrightarrow> hysteria2OK kp w c \<and>
    claimPort ''hysteria2.port'' (hy_Port c) ps = Inr ps' \<and>
    uniqueCredential ''hysteria2.password'' (hy_Password c) cs = Inr cs'"
proof -
  obtain r1 w1 where t: "validateTLSFiles kp ''hysteria2'' (hy_CertificatePath c) (hy_KeyPath c) w = (r1, w1)"
    by fastforce
  show "sameTree w w'" using assms t validateTLSFiles_same [OF t]
    by (auto simp: validateHysteria2_def split: sum.splits if_splits)
  show "hysteria2OK kp w c \<and> claimPort ''hysteria2.port'' (hy_Port c) ps = Inr ps' \<and>
      uniqueCredential ''hysteria2.password'' (hy_Password c) cs = Inr cs'" if "r = Inr (ps', cs')"
    using assms that t validateTLSFiles_ok
    by (auto simp: validateHysteria2_def claimPort_def hysteria2OK_def validateListen_iff
        validateBandwidth_iff split: sum.splits if_splits)
qed

lemma hexDecode_length: "hexDecode s = Some d \<Longrightarrow> length s = 2 * length d"
  by (induction s arbitrary: d rule: hexDecode.induct) (auto split: option.splits)

lemma validateVLESS_cases:
  assumes "validateVLESSReality c ps cs w = (r, w')"
  shows "sameTree w w'" and "r = Inr (key, ps', cs') \<Longrightarrow> vlessOK w c key \<and>
    claimPort ''vless_reality.port'' (vl_Port c) ps = Inr ps' \<and>
    uniqueCredential ''vless_reality.uuid'' (vl_UUID c) cs = Inr cs'"
proof -
  let ?p = "vl_PrivateKeyPath c"
  obtain r1 w1 where c1: "checkFile ?p filePrivateKey w = (r1, w1)" by fastforce
  obtain r2 w2 where c2: "readRealityPrivateKey ?p w1 = (r2, w2)" by fastforce
  have s: "sameTree w w1" "sameTree w w2"
    using checkFile_same [OF c1] sameTree_trans [OF checkFile_same [OF c1] readRealityPrivateKey_same [OF c2]] by auto
  show "sameTree w w'" using assms c1 c2 s
    by (auto simp: validateVLESSReality_def split: sum.splits if_splits)
  assume r: "r = Inr (key, ps', cs')"
  have q: "r1 = Inr ()" "r2 = Inr key"
    using assms r c1 c2 by (auto simp: validateVLESSReality_def split: sum.splits if_splits)
  have f: "secureFile w ?p filePrivateKey" using checkFile_ok c1 q(1) by blast
  have "storesKey (contentOf w ?p) key"
    using readRealityPrivateKey_ok [OF c2 [unfolded q(2)]] f s(1) by auto
  then show "vlessOK w c key \<and> claimPort ''vless_reality.port'' (vl_Port c) ps = Inr ps' \<and>
      uniqueCredential ''vless_reality.uuid'' (vl_UUID c) cs = Inr cs'"
    using assms r c1 c2 q f
    by (auto simp: validateVLESSReality_def claimPort_def vlessOK_def validateListen_iff
        split: sum.splits if_splits option.splits)
qed

text \<open>Without failing calls, a section that meets its conditions is accepted.\<close>

lemma validateAnyTLS_quiet:
  assumes "quiet w" "anytlsOK kp w c" "claimPort ''anytls.port'' (at_Port c) ps = Inr ps'"
    "uniqueCredential ''anytls.password'' (at_Password c) cs = Inr cs'"
  shows "\<exists>w'. validateAnyTLS kp c ps cs w = (Inr (ps', cs'), w')"
proof -
  obtain w1 where "validateTLSFiles kp ''anytls'' (at_CertificatePath c) (at_KeyPath c) w = (Inr (), w1)"
    using validateTLSFiles_quiet [OF assms(1)] assms(2) unfolding anytlsOK_def by blast
  moreover have "validateListen ''anytls.listen'' (at_Listen c) = Inr ()"
    using assms(2) by (auto simp: validateListen_iff anytlsOK_def)
  ultimately show ?thesis using assms(2-4) by (simp add: validateAnyTLS_def claimPort_def anytlsOK_def)
qed

lemma validateHysteria2_quiet:
  assumes "quiet w" "hysteria2OK kp w c" "claimPort ''hysteria2.port'' (hy_Port c) ps = Inr ps'"
    "uniqueCredential ''hysteria2.password'' (hy_Password c) cs = Inr cs'"
  shows "\<exists>w'. validateHysteria2 kp c ps cs w = (Inr (ps', cs'), w')"
proof -
  obtain w1 where "validateTLSFiles kp ''hysteria2'' (hy_CertificatePath c) (hy_KeyPath c) w = (Inr (), w1)"
    using validateTLSFiles_quiet [OF assms(1)] assms(2) unfolding hysteria2OK_def by blast
  moreover have "validateListen ''hysteria2.listen'' (hy_Listen c) = Inr ()"
    "validateBandwidth ''hysteria2.up_mbps'' (hy_UpMbps c) = Inr ()"
    "validateBandwidth ''hysteria2.down_mbps'' (hy_DownMbps c) = Inr ()"
    using assms(2) by (auto simp: validateListen_iff validateBandwidth_iff hysteria2OK_def)
  ultimately show ?thesis using assms(2-4) by (simp add: validateHysteria2_def claimPort_def hysteria2OK_def)
qed

lemma validateVLESS_quiet:
  assumes "quiet w" "vlessOK w c key" "claimPort ''vless_reality.port'' (vl_Port c) ps = Inr ps'"
    "uniqueCredential ''vless_reality.uuid'' (vl_UUID c) cs = Inr cs'"
  shows "\<exists>w'. validateVLESSReality c ps cs w = (Inr (key, ps', cs'), w')"
proof -
  have f: "secureFile w (vl_PrivateKeyPath c) filePrivateKey"
    "storesKey (contentOf w (vl_PrivateKeyPath c)) key" using assms(2) by (simp_all add: vlessOK_def)
  have t: "sameTree w (tick w)" by (auto intro: sameTree_ro)
  note cf = checkFile_quiet [OF assms(1) f(1)]
  obtain w2 where k: "readRealityPrivateKey (vl_PrivateKeyPath c) (tick w) = (Inr key, w2)"
    using readRealityPrivateKey_quiet [of "tick w" "vl_PrivateKeyPath c" filePrivateKey key] assms(1) f t
    by auto
  have l: "validateListen ''vless_reality.listen'' (vl_Listen c) = Inr ()"
    using assms(2) by (auto simp: validateListen_iff vlessOK_def)
  obtain d where "hexDecode (vl_ShortID c) = Some d" "length d = 8" "length (vl_ShortID c) = 16"
    using assms(2) hexDecode_length [of "vl_ShortID c"] by (auto simp: vlessOK_def)
  then show ?thesis using assms(2-4) cf k l
    by (simp add: validateVLESSReality_def claimPort_def vlessOK_def)
qed

section \<open>The whole configuration\<close>

definition portsAfter :: "Config \<Rightarrow> (int \<times> string) list res" where
  "portsAfter c = ports.claimAll (portClaims c) []"

definition credentialsAfter :: "Config \<Rightarrow> (string \<times> string) list res" where
  "credentialsAfter c = creds.claimAll (credentialClaims c) []"

lemma ports_distinct:
  "(\<exists>x. portsAfter c = Inr x) \<longleftrightarrow>
     distinct (map snd (portClaims c)) \<and> (\<forall>p \<in> set (map snd (portClaims c)). listenPort p)"
  unfolding portsAfter_def ports.claimAll_iff by auto

lemma credentials_distinct:
  "(\<exists>x. credentialsAfter c = Inr x) \<longleftrightarrow> distinct (map snd (credentialClaims c))"
  unfolding credentialsAfter_def creds.claimAll_iff by auto

lemma validateProtocols_ok:
  assumes "validateProtocols kp c w = (Inr key, w')"
  shows "sameTree w w'" "vlessPart w c key" "whenSome (hysteria2OK kp w) (c_Hysteria2 c)"
    "whenSome (anytlsOK kp w) (c_AnyTLS c)" "\<exists>x. portsAfter c = Inr x" "\<exists>x. credentialsAfter c = Inr x"
proof -
  obtain r1 w1 where c1: "(case c_VLESSReality c of None \<Rightarrow> (Inr ([], [], []), w)
      | Some v \<Rightarrow> validateVLESSReality v [] [] w) = (r1, w1)" by fastforce
  obtain k p q where r1: "r1 = Inr (k, p, q)"
    using assms c1 by (cases r1) (auto simp: validateProtocols_def)
  obtain r2 w2 where c2: "(case c_Hysteria2 c of None \<Rightarrow> (Inr (p, q), w1)
      | Some h \<Rightarrow> validateHysteria2 kp h p q w1) = (r2, w2)" by fastforce
  obtain p2 q2 where r2: "r2 = Inr (p2, q2)"
    using assms c1 r1 c2 by (cases r2) (auto simp: validateProtocols_def)
  obtain r3 w3 where c3: "(case c_AnyTLS c of None \<Rightarrow> (Inr (p2, q2), w2)
      | Some a \<Rightarrow> validateAnyTLS kp a p2 q2 w2) = (r3, w3)" by fastforce
  obtain p3 q3 where r3: "r3 = Inr (p3, q3)" "w' = w3" "k = key"
    using assms c1 r1 c2 r2 c3 by (cases r3) (auto simp: validateProtocols_def)
  have a1: "sameTree w w1" "vlessPart w c k"
    "ports.claimAll (case c_VLESSReality c of None \<Rightarrow> [] | Some v \<Rightarrow> [(''vless_reality.port'', vl_Port v)]) []
      = Inr p"
    "creds.claimAll (case c_VLESSReality c of None \<Rightarrow> [] | Some v \<Rightarrow> [(''vless_reality.uuid'', vl_UUID v)]) []
      = Inr q"
    using c1 r1 validateVLESS_cases [of _ "[]" "[]" w r1 w1]
    by (auto simp: vlessPart_def split: option.splits)
  have a2: "sameTree w1 w2" "whenSome (hysteria2OK kp w1) (c_Hysteria2 c)"
    "ports.claimAll (case c_Hysteria2 c of None \<Rightarrow> [] | Some h \<Rightarrow> [(''hysteria2.port'', hy_Port h)]) p = Inr p2"
    "creds.claimAll (case c_Hysteria2 c of None \<Rightarrow> [] | Some h \<Rightarrow> [(''hysteria2.password'', hy_Password h)]) q
      = Inr q2"
    using c2 r2 validateHysteria2_cases [of kp _ p q w1 r2 w2]
    by (auto simp: whenSome_def split: option.splits)
  have a3: "sameTree w2 w3" "whenSome (anytlsOK kp w2) (c_AnyTLS c)"
    "ports.claimAll (case c_AnyTLS c of None \<Rightarrow> [] | Some h \<Rightarrow> [(''anytls.port'', at_Port h)]) p2 = Inr p3"
    "creds.claimAll (case c_AnyTLS c of None \<Rightarrow> [] | Some h \<Rightarrow> [(''anytls.password'', at_Password h)]) q2
      = Inr q3"
    using c3 r3(1) validateAnyTLS_cases [of kp _ p2 q2 w2 r3 w3]
    by (auto simp: whenSome_def split: option.splits)
  have s2: "sameTree w w2" using sameTree_trans a1(1) a2(1) by blast
  show "sameTree w w'" using sameTree_trans [OF s2 a3(1)] r3(2) by simp
  show "vlessPart w c key" using a1(2) r3(3) by simp
  show "whenSome (hysteria2OK kp w) (c_Hysteria2 c)"
    using a2(2) sameTree_specs(3) [OF a1(1)] by (simp add: whenSome_def split: option.splits)
  show "whenSome (anytlsOK kp w) (c_AnyTLS c)"
    using a3(2) sameTree_specs(4) [OF s2] by (simp add: whenSome_def split: option.splits)
  show "\<exists>x. portsAfter c = Inr x"
    using a1(3) a2(3) a3(3) by (simp add: portsAfter_def portClaims_def ports.claimAll_append)
  show "\<exists>x. credentialsAfter c = Inr x"
    using a1(4) a2(4) a3(4) by (simp add: credentialsAfter_def credentialClaims_def creds.claimAll_append)
qed

text \<open>The result of one optional section, as the claims it made.\<close>

lemma claimAll_opt:
  "ports.claimAll (case x of None \<Rightarrow> [] | Some v \<Rightarrow> [(n, f v)]) ps = Inr qs \<longleftrightarrow>
     (case x of None \<Rightarrow> qs = ps | Some v \<Rightarrow> claimPort n (f v) ps = Inr qs)"
  "creds.claimAll (case y of None \<Rightarrow> [] | Some v \<Rightarrow> [(m, g v)]) cs = Inr ds \<longleftrightarrow>
     (case y of None \<Rightarrow> ds = cs | Some v \<Rightarrow> uniqueCredential m (g v) cs = Inr ds)"
  by (auto split: option.splits sum.splits)

lemma validateProtocols_quiet:
  assumes q: "quiet w" and ok: "configOK kp w c key"
  shows "\<exists>w'. validateProtocols kp c w = (Inr key, w')"
proof -
  obtain ps cs where pc: "portsAfter c = Inr ps" "credentialsAfter c = Inr cs"
    using ok ports_distinct [of c] credentials_distinct [of c] unfolding configOK_def by blast
  obtain p1 p2 where p: "ports.claimAll (case c_VLESSReality c of None \<Rightarrow> []
        | Some v \<Rightarrow> [(''vless_reality.port'', vl_Port v)]) [] = Inr p1"
      "ports.claimAll (case c_Hysteria2 c of None \<Rightarrow> [] | Some h \<Rightarrow> [(''hysteria2.port'', hy_Port h)]) p1
        = Inr p2"
      "ports.claimAll (case c_AnyTLS c of None \<Rightarrow> [] | Some a \<Rightarrow> [(''anytls.port'', at_Port a)]) p2 = Inr ps"
    using pc(1) unfolding portsAfter_def portClaims_def ports.claimAll_append by (auto split: sum.splits)
  obtain q1 q2 where d: "creds.claimAll (case c_VLESSReality c of None \<Rightarrow> []
        | Some v \<Rightarrow> [(''vless_reality.uuid'', vl_UUID v)]) [] = Inr q1"
      "creds.claimAll (case c_Hysteria2 c of None \<Rightarrow> [] | Some h \<Rightarrow> [(''hysteria2.password'', hy_Password h)]) q1
        = Inr q2"
      "creds.claimAll (case c_AnyTLS c of None \<Rightarrow> [] | Some a \<Rightarrow> [(''anytls.password'', at_Password a)]) q2 = Inr cs"
    using pc(2) unfolding credentialsAfter_def credentialClaims_def creds.claimAll_append
    by (auto split: sum.splits)
  note p = p [unfolded claimAll_opt] and d = d [unfolded claimAll_opt]
  have k: "vlessPart w c key" "whenSome (hysteria2OK kp w) (c_Hysteria2 c)"
    "whenSome (anytlsOK kp w) (c_AnyTLS c)" using ok by (simp_all add: configOK_def)
  obtain w1 where v1: "(case c_VLESSReality c of None \<Rightarrow> (Inr ([], [], []), w)
      | Some v \<Rightarrow> validateVLESSReality v [] [] w) = (Inr (key, p1, q1), w1)" and s1: "sameTree w w1"
  proof (cases "c_VLESSReality c")
    case None
    then show thesis using that k(1) p(1) d(1) by (simp add: vlessPart_def)
  next
    case (Some v)
    then obtain w1 where "validateVLESSReality v [] [] w = (Inr (key, p1, q1), w1)"
      using validateVLESS_quiet [OF q, of v key "[]" p1 "[]" q1] k(1) p(1) d(1) by (auto simp: vlessPart_def)
    then show thesis using that Some validateVLESS_cases(1) by auto
  qed
  have q1: "quiet w1" using q sameTree_quiet [OF s1] by simp
  obtain w2 where v2: "(case c_Hysteria2 c of None \<Rightarrow> (Inr (p1, q1), w1)
      | Some h \<Rightarrow> validateHysteria2 kp h p1 q1 w1) = (Inr (p2, q2), w2)" and s2: "sameTree w1 w2"
  proof (cases "c_Hysteria2 c")
    case None
    then show thesis using that p(2) d(2) by simp
  next
    case (Some h)
    then obtain w2 where "validateHysteria2 kp h p1 q1 w1 = (Inr (p2, q2), w2)"
      using validateHysteria2_quiet [OF q1, of kp h p1 p2 q1 q2] k(2) p(2) d(2) sameTree_specs(3) [OF s1]
      by (auto simp: whenSome_def)
    then show thesis using that Some validateHysteria2_cases(1) by auto
  qed
  have q2: "quiet w2" using q1 sameTree_quiet [OF s2] by simp
  have "\<exists>w3. (case c_AnyTLS c of None \<Rightarrow> (Inr (p2, q2), w2)
      | Some a \<Rightarrow> validateAnyTLS kp a p2 q2 w2) = (Inr (ps, cs), w3)"
    using validateAnyTLS_quiet [OF q2, of kp] k(3) p(3) d(3)
      sameTree_specs(4) [OF sameTree_trans [OF s1 s2]]
    by (auto simp: whenSome_def split: option.splits)
  then show ?thesis using v1 v2 by (auto simp: validateProtocols_def)
qed

end
