(* ===== verification/ConfigDecode.thy ===== *)
theory ConfigDecode
  imports JsonDecode ConfigSpec
begin

text \<open>
  internal/config/decode.go: reading a configuration, with the decoding rules that
  encoding/json derives from the field tags of schema.go, and the document that
  \<open>json.MarshalIndent\<close> writes for a configuration. The text of a syntax or type error of
  encoding/json is the parameter \<open>jsonMsg\<close>.
\<close>

section \<open>Fields of the schema\<close>

definition zeroLog :: LogConfig where "zeroLog = \<lparr>lg_Level = []\<rparr>"

definition zeroVLESS :: VLESSRealityConfig where
  "zeroVLESS =
     \<lparr>vl_Listen = [], vl_Port = 0, vl_UUID = [], vl_PrivateKeyPath = [], vl_ShortID = [],
      vl_ServerName = [], vl_HandshakeServer = [], vl_HandshakePort = 0\<rparr>"

definition zeroHysteria2 :: Hysteria2Config where
  "zeroHysteria2 =
     \<lparr>hy_Listen = [], hy_Port = 0, hy_Password = [], hy_CertificatePath = [], hy_KeyPath = [],
      hy_UpMbps = None, hy_DownMbps = None\<rparr>"

definition zeroAnyTLS :: AnyTLSConfig where
  "zeroAnyTLS =
     \<lparr>at_Listen = [], at_Port = 0, at_Password = [], at_CertificatePath = [], at_KeyPath = []\<rparr>"

definition zeroConfig :: Config where
  "zeroConfig =
     \<lparr>c_SchemaVersion = 0, c_Log = None, c_VLESSReality = None, c_Hysteria2 = None, c_AnyTLS = None\<rparr>"

definition logNames :: "string list" where "logNames = [''level'']"

definition vlessNames :: "string list" where
  "vlessNames = [''listen'', ''port'', ''uuid'', ''private_key_path'', ''short_id'', ''server_name'',
     ''handshake_server'', ''handshake_port'']"

definition hysteria2Names :: "string list" where
  "hysteria2Names = [''listen'', ''port'', ''password'', ''certificate_path'', ''key_path'', ''up_mbps'',
     ''down_mbps'']"

definition anytlsNames :: "string list" where
  "anytlsNames = [''listen'', ''port'', ''password'', ''certificate_path'', ''key_path'']"

definition configNames :: "string list" where
  "configNames = [''schema_version'', ''log'', ''vless_reality'', ''hysteria2'', ''anytls'']"

definition storeLog :: "string \<Rightarrow> json \<Rightarrow> LogConfig \<Rightarrow> LogConfig option" where
  "storeLog n v c =
     (if n = ''level'' then map_option (\<lambda>x. c\<lparr>lg_Level := x\<rparr>) (decodeString v (lg_Level c)) else None)"

definition storeVLESS :: "string \<Rightarrow> json \<Rightarrow> VLESSRealityConfig \<Rightarrow> VLESSRealityConfig option" where
  "storeVLESS n v c =
     (if n = ''listen'' then map_option (\<lambda>x. c\<lparr>vl_Listen := x\<rparr>) (decodeString v (vl_Listen c))
      else if n = ''port'' then map_option (\<lambda>x. c\<lparr>vl_Port := x\<rparr>) (decodeInt v (vl_Port c))
      else if n = ''uuid'' then map_option (\<lambda>x. c\<lparr>vl_UUID := x\<rparr>) (decodeString v (vl_UUID c))
      else if n = ''private_key_path''
        then map_option (\<lambda>x. c\<lparr>vl_PrivateKeyPath := x\<rparr>) (decodeString v (vl_PrivateKeyPath c))
      else if n = ''short_id'' then map_option (\<lambda>x. c\<lparr>vl_ShortID := x\<rparr>) (decodeString v (vl_ShortID c))
      else if n = ''server_name''
        then map_option (\<lambda>x. c\<lparr>vl_ServerName := x\<rparr>) (decodeString v (vl_ServerName c))
      else if n = ''handshake_server''
        then map_option (\<lambda>x. c\<lparr>vl_HandshakeServer := x\<rparr>) (decodeString v (vl_HandshakeServer c))
      else if n = ''handshake_port''
        then map_option (\<lambda>x. c\<lparr>vl_HandshakePort := x\<rparr>) (decodeInt v (vl_HandshakePort c))
      else None)"

definition storeHysteria2 :: "string \<Rightarrow> json \<Rightarrow> Hysteria2Config \<Rightarrow> Hysteria2Config option" where
  "storeHysteria2 n v c =
     (if n = ''listen'' then map_option (\<lambda>x. c\<lparr>hy_Listen := x\<rparr>) (decodeString v (hy_Listen c))
      else if n = ''port'' then map_option (\<lambda>x. c\<lparr>hy_Port := x\<rparr>) (decodeInt v (hy_Port c))
      else if n = ''password'' then map_option (\<lambda>x. c\<lparr>hy_Password := x\<rparr>) (decodeString v (hy_Password c))
      else if n = ''certificate_path''
        then map_option (\<lambda>x. c\<lparr>hy_CertificatePath := x\<rparr>) (decodeString v (hy_CertificatePath c))
      else if n = ''key_path'' then map_option (\<lambda>x. c\<lparr>hy_KeyPath := x\<rparr>) (decodeString v (hy_KeyPath c))
      else if n = ''up_mbps'' then map_option (\<lambda>x. c\<lparr>hy_UpMbps := x\<rparr>) (decodeIntPointer v (hy_UpMbps c))
      else if n = ''down_mbps''
        then map_option (\<lambda>x. c\<lparr>hy_DownMbps := x\<rparr>) (decodeIntPointer v (hy_DownMbps c))
      else None)"

definition storeAnyTLS :: "string \<Rightarrow> json \<Rightarrow> AnyTLSConfig \<Rightarrow> AnyTLSConfig option" where
  "storeAnyTLS n v c =
     (if n = ''listen'' then map_option (\<lambda>x. c\<lparr>at_Listen := x\<rparr>) (decodeString v (at_Listen c))
      else if n = ''port'' then map_option (\<lambda>x. c\<lparr>at_Port := x\<rparr>) (decodeInt v (at_Port c))
      else if n = ''password'' then map_option (\<lambda>x. c\<lparr>at_Password := x\<rparr>) (decodeString v (at_Password c))
      else if n = ''certificate_path''
        then map_option (\<lambda>x. c\<lparr>at_CertificatePath := x\<rparr>) (decodeString v (at_CertificatePath c))
      else if n = ''key_path'' then map_option (\<lambda>x. c\<lparr>at_KeyPath := x\<rparr>) (decodeString v (at_KeyPath c))
      else None)"

definition storeConfig :: "string \<Rightarrow> json \<Rightarrow> Config \<Rightarrow> Config option" where
  "storeConfig n v c =
     (if n = ''schema_version''
        then map_option (\<lambda>x. c\<lparr>c_SchemaVersion := x\<rparr>) (decodeInt v (c_SchemaVersion c))
      else if n = ''log''
        then map_option (\<lambda>x. c\<lparr>c_Log := x\<rparr>) (decodePointer logNames storeLog zeroLog v (c_Log c))
      else if n = ''vless_reality''
        then map_option (\<lambda>x. c\<lparr>c_VLESSReality := x\<rparr>)
               (decodePointer vlessNames storeVLESS zeroVLESS v (c_VLESSReality c))
      else if n = ''hysteria2''
        then map_option (\<lambda>x. c\<lparr>c_Hysteria2 := x\<rparr>)
               (decodePointer hysteria2Names storeHysteria2 zeroHysteria2 v (c_Hysteria2 c))
      else if n = ''anytls''
        then map_option (\<lambda>x. c\<lparr>c_AnyTLS := x\<rparr>)
               (decodePointer anytlsNames storeAnyTLS zeroAnyTLS v (c_AnyTLS c))
      else None)"

section \<open>decode.go\<close>

definition decodeConfig :: "(string \<Rightarrow> string) \<Rightarrow> string \<Rightarrow> Config res" where
  "decodeConfig jsonMsg content =
     (if length content > MaxConfigSize
      then Inl (fieldError ''config'' (''size exceeds '' @ natText MaxConfigSize @ '' bytes'')
                  ''reduce the config to at most 1 MiB'')
      else (case readDocument (decodeStruct configNames storeConfig) zeroConfig content of
          BadDocument \<Rightarrow>
            Inl (fieldError ''config'' (''invalid JSON or unknown field: '' @ jsonMsg content)
                   ''use only fields defined by schema_version 1'')
        | TrailingData \<Rightarrow>
            Inl (fieldError ''config'' ''contains trailing JSON data'' ''keep exactly one JSON object'')
        | Document c \<Rightarrow> Inr c))"

definition Decode :: "(string \<Rightarrow> string) \<Rightarrow> string \<Rightarrow> world \<Rightarrow> Config res \<times> world" where
  "Decode jsonMsg reader w =
     (case sys_read reader w of
        (Inl _, w1) \<Rightarrow>
          (Inl (fieldError ''config'' ''cannot read JSON'' ''make the file readable and try again''), w1)
      | (Inr content, w1) \<Rightarrow> (decodeConfig jsonMsg (take (MaxConfigSize + 1) content), w1))"

definition resolvePath :: "string \<Rightarrow> string \<Rightarrow> string" where
  "resolvePath directory p = (if p \<noteq> [] \<and> \<not> isAbs p then joinPath [directory, p] else p)"

definition resolveRelativePaths :: "Config \<Rightarrow> string \<Rightarrow> Config" where
  "resolveRelativePaths c directory =
     c\<lparr>c_VLESSReality :=
         map_option (\<lambda>v. v\<lparr>vl_PrivateKeyPath := resolvePath directory (vl_PrivateKeyPath v)\<rparr>)
           (c_VLESSReality c),
       c_Hysteria2 :=
         map_option (\<lambda>h. h\<lparr>hy_CertificatePath := resolvePath directory (hy_CertificatePath h),
                          hy_KeyPath := resolvePath directory (hy_KeyPath h)\<rparr>) (c_Hysteria2 c),
       c_AnyTLS :=
         map_option (\<lambda>a. a\<lparr>at_CertificatePath := resolvePath directory (at_CertificatePath a),
                          at_KeyPath := resolvePath directory (at_KeyPath a)\<rparr>) (c_AnyTLS c)\<rparr>"

definition DecodeFile :: "(string \<Rightarrow> string) \<Rightarrow> string \<Rightarrow> world \<Rightarrow> Config res \<times> world" where
  "DecodeFile jsonMsg path w =
     (if path = [] then (Inl (fieldError ''config'' ''path is empty'' ''pass -c CONFIG''), w)
      else (case checkFile path fileConfig w of
          (Inl e, w1) \<Rightarrow> (Inl e, w1)
        | (Inr _, w1) \<Rightarrow>
      (case sys_open path w1 of
          (Inl _, w2) \<Rightarrow>
            (Inl (fieldError ''config'' ''cannot open file'' ''make it readable by the service user''), w2)
        | (Inr reader, w2) \<Rightarrow>
      (case Decode jsonMsg reader w2 of
          (Inl e, w3) \<Rightarrow> (Inl e, w3)
        | (Inr result, w3) \<Rightarrow>
      (case sys_abs path w3 of
          (Inl _, w4) \<Rightarrow>
            (Inl (fieldError ''config'' ''cannot resolve path'' ''use a valid local config path''), w4)
        | (Inr absolutePath, w4) \<Rightarrow>
            (Inr (resolveRelativePaths result (dirName absolutePath)), w4))))))"

section \<open>json.MarshalIndent of a configuration\<close>

definition logJson :: "LogConfig \<Rightarrow> json" where
  "logJson l = JObj (jsonField ''level'' (jsonString (lg_Level l)))"

definition vlessJson :: "VLESSRealityConfig \<Rightarrow> json" where
  "vlessJson v = JObj
     (jsonField ''listen'' (jsonString (vl_Listen v)) @ jsonField ''port'' (jsonInt (vl_Port v)) @
      jsonField ''uuid'' (jsonString (vl_UUID v)) @
      jsonField ''private_key_path'' (jsonString (vl_PrivateKeyPath v)) @
      jsonField ''short_id'' (jsonString (vl_ShortID v)) @
      jsonField ''server_name'' (jsonString (vl_ServerName v)) @
      jsonField ''handshake_server'' (jsonString (vl_HandshakeServer v)) @
      jsonField ''handshake_port'' (jsonInt (vl_HandshakePort v)))"

definition hysteria2Json :: "Hysteria2Config \<Rightarrow> json" where
  "hysteria2Json h = JObj
     (jsonField ''listen'' (jsonString (hy_Listen h)) @ jsonField ''port'' (jsonInt (hy_Port h)) @
      jsonField ''password'' (jsonString (hy_Password h)) @
      jsonField ''certificate_path'' (jsonString (hy_CertificatePath h)) @
      jsonField ''key_path'' (jsonString (hy_KeyPath h)) @
      omitNil ''up_mbps'' jsonInt (hy_UpMbps h) @ omitNil ''down_mbps'' jsonInt (hy_DownMbps h))"

definition anytlsJson :: "AnyTLSConfig \<Rightarrow> json" where
  "anytlsJson a = JObj
     (jsonField ''listen'' (jsonString (at_Listen a)) @ jsonField ''port'' (jsonInt (at_Port a)) @
      jsonField ''password'' (jsonString (at_Password a)) @
      jsonField ''certificate_path'' (jsonString (at_CertificatePath a)) @
      jsonField ''key_path'' (jsonString (at_KeyPath a)))"

definition configJson :: "Config \<Rightarrow> json" where
  "configJson c = JObj
     (jsonField ''schema_version'' (jsonInt (c_SchemaVersion c)) @
      omitNil ''log'' logJson (c_Log c) @ omitNil ''vless_reality'' vlessJson (c_VLESSReality c) @
      omitNil ''hysteria2'' hysteria2Json (c_Hysteria2 c) @ omitNil ''anytls'' anytlsJson (c_AnyTLS c))"

definition configText :: "Config \<Rightarrow> string" where
  "configText c = pretty 0 (configJson c) @ nl"

section \<open>The round trip\<close>

text \<open>ASCII texts and 64-bit numbers, the values that survive the text form unchanged.\<close>

definition portable :: "Config \<Rightarrow> bool" where
  "portable c =
     (int64 (c_SchemaVersion c) \<and>
      whenSome (\<lambda>l. ascii (lg_Level l)) (c_Log c) \<and>
      whenSome (\<lambda>v. list_all ascii [vl_Listen v, vl_UUID v, vl_PrivateKeyPath v, vl_ShortID v,
          vl_ServerName v, vl_HandshakeServer v] \<and> int64 (vl_Port v) \<and> int64 (vl_HandshakePort v))
        (c_VLESSReality c) \<and>
      whenSome (\<lambda>h. list_all ascii [hy_Listen h, hy_Password h, hy_CertificatePath h, hy_KeyPath h] \<and>
          int64 (hy_Port h) \<and> whenSome int64 (hy_UpMbps h) \<and> whenSome int64 (hy_DownMbps h))
        (c_Hysteria2 c) \<and>
      whenSome (\<lambda>a. list_all ascii [at_Listen a, at_Password a, at_CertificatePath a, at_KeyPath a] \<and>
          int64 (at_Port a)) (c_AnyTLS c))"

lemma decodeIntPointer_json [simp]: "int64 i \<Longrightarrow> decodeIntPointer (jsonInt i) cur = Some (Some i)"
  by (simp add: decodeIntPointer_def jsonInt_def atoi_itoa)

lemma names_ascii [simp]:
  "list_all ascii logNames" "list_all ascii vlessNames" "list_all ascii hysteria2Names"
  "list_all ascii anytlsNames" "list_all ascii configNames"
  by code_simp+

lemma member_field:
  "n \<in> set names \<Longrightarrow> list_all ascii names \<Longrightarrow>
     decodeMembers names store (jsonField n v @ ms) acc =
       (case store n v acc of None \<Rightarrow> None | Some a \<Rightarrow> decodeMembers names store ms a)"
  by (simp add: decodeMembers_append decodeMembers_field list_all_iff split: option.splits)

lemma member_omit:
  "n \<in> set names \<Longrightarrow> list_all ascii names \<Longrightarrow>
     decodeMembers names store (omitNil n f x @ ms) acc =
       (case x of None \<Rightarrow> decodeMembers names store ms acc
        | Some y \<Rightarrow> (case store n (f y) acc of None \<Rightarrow> None | Some a \<Rightarrow> decodeMembers names store ms a))"
  by (simp add: decodeMembers_append decodeMembers_omitNil list_all_iff split: option.splits)

lemma field_names [simp]:
  "''level'' \<in> set logNames"
  "''listen'' \<in> set vlessNames" "''port'' \<in> set vlessNames" "''uuid'' \<in> set vlessNames"
  "''private_key_path'' \<in> set vlessNames" "''short_id'' \<in> set vlessNames"
  "''server_name'' \<in> set vlessNames" "''handshake_server'' \<in> set vlessNames"
  "''handshake_port'' \<in> set vlessNames"
  "''listen'' \<in> set hysteria2Names" "''port'' \<in> set hysteria2Names" "''password'' \<in> set hysteria2Names"
  "''certificate_path'' \<in> set hysteria2Names" "''key_path'' \<in> set hysteria2Names"
  "''up_mbps'' \<in> set hysteria2Names" "''down_mbps'' \<in> set hysteria2Names"
  "''listen'' \<in> set anytlsNames" "''port'' \<in> set anytlsNames" "''password'' \<in> set anytlsNames"
  "''certificate_path'' \<in> set anytlsNames" "''key_path'' \<in> set anytlsNames"
  "''schema_version'' \<in> set configNames" "''log'' \<in> set configNames"
  "''vless_reality'' \<in> set configNames" "''hysteria2'' \<in> set configNames" "''anytls'' \<in> set configNames"
  by (simp_all add: logNames_def vlessNames_def hysteria2Names_def anytlsNames_def configNames_def)

lemma store_vless:
  "storeVLESS ''listen'' v c = map_option (\<lambda>x. c\<lparr>vl_Listen := x\<rparr>) (decodeString v (vl_Listen c))"
  "storeVLESS ''port'' v c = map_option (\<lambda>x. c\<lparr>vl_Port := x\<rparr>) (decodeInt v (vl_Port c))"
  "storeVLESS ''uuid'' v c = map_option (\<lambda>x. c\<lparr>vl_UUID := x\<rparr>) (decodeString v (vl_UUID c))"
  "storeVLESS ''private_key_path'' v c = map_option (\<lambda>x. c\<lparr>vl_PrivateKeyPath := x\<rparr>) (decodeString v (vl_PrivateKeyPath c))"
  "storeVLESS ''short_id'' v c = map_option (\<lambda>x. c\<lparr>vl_ShortID := x\<rparr>) (decodeString v (vl_ShortID c))"
  "storeVLESS ''server_name'' v c = map_option (\<lambda>x. c\<lparr>vl_ServerName := x\<rparr>) (decodeString v (vl_ServerName c))"
  "storeVLESS ''handshake_server'' v c = map_option (\<lambda>x. c\<lparr>vl_HandshakeServer := x\<rparr>) (decodeString v (vl_HandshakeServer c))"
  "storeVLESS ''handshake_port'' v c = map_option (\<lambda>x. c\<lparr>vl_HandshakePort := x\<rparr>) (decodeInt v (vl_HandshakePort c))"
  by (simp_all add: storeVLESS_def)

lemma store_hysteria2:
  "storeHysteria2 ''listen'' v c = map_option (\<lambda>x. c\<lparr>hy_Listen := x\<rparr>) (decodeString v (hy_Listen c))"
  "storeHysteria2 ''port'' v c = map_option (\<lambda>x. c\<lparr>hy_Port := x\<rparr>) (decodeInt v (hy_Port c))"
  "storeHysteria2 ''password'' v c = map_option (\<lambda>x. c\<lparr>hy_Password := x\<rparr>) (decodeString v (hy_Password c))"
  "storeHysteria2 ''certificate_path'' v c = map_option (\<lambda>x. c\<lparr>hy_CertificatePath := x\<rparr>) (decodeString v (hy_CertificatePath c))"
  "storeHysteria2 ''key_path'' v c = map_option (\<lambda>x. c\<lparr>hy_KeyPath := x\<rparr>) (decodeString v (hy_KeyPath c))"
  "storeHysteria2 ''up_mbps'' v c = map_option (\<lambda>x. c\<lparr>hy_UpMbps := x\<rparr>) (decodeIntPointer v (hy_UpMbps c))"
  "storeHysteria2 ''down_mbps'' v c = map_option (\<lambda>x. c\<lparr>hy_DownMbps := x\<rparr>) (decodeIntPointer v (hy_DownMbps c))"
  by (simp_all add: storeHysteria2_def)

lemma store_anytls:
  "storeAnyTLS ''listen'' v c = map_option (\<lambda>x. c\<lparr>at_Listen := x\<rparr>) (decodeString v (at_Listen c))"
  "storeAnyTLS ''port'' v c = map_option (\<lambda>x. c\<lparr>at_Port := x\<rparr>) (decodeInt v (at_Port c))"
  "storeAnyTLS ''password'' v c = map_option (\<lambda>x. c\<lparr>at_Password := x\<rparr>) (decodeString v (at_Password c))"
  "storeAnyTLS ''certificate_path'' v c = map_option (\<lambda>x. c\<lparr>at_CertificatePath := x\<rparr>) (decodeString v (at_CertificatePath c))"
  "storeAnyTLS ''key_path'' v c = map_option (\<lambda>x. c\<lparr>at_KeyPath := x\<rparr>) (decodeString v (at_KeyPath c))"
  by (simp_all add: storeAnyTLS_def)

lemma store_config:
  "storeConfig ''schema_version'' v c = map_option (\<lambda>x. c\<lparr>c_SchemaVersion := x\<rparr>) (decodeInt v (c_SchemaVersion c))"
  "storeConfig ''log'' v c = map_option (\<lambda>x. c\<lparr>c_Log := x\<rparr>) (decodePointer logNames storeLog zeroLog v (c_Log c))"
  "storeConfig ''vless_reality'' v c = map_option (\<lambda>x. c\<lparr>c_VLESSReality := x\<rparr>)
     (decodePointer vlessNames storeVLESS zeroVLESS v (c_VLESSReality c))"
  "storeConfig ''hysteria2'' v c = map_option (\<lambda>x. c\<lparr>c_Hysteria2 := x\<rparr>)
     (decodePointer hysteria2Names storeHysteria2 zeroHysteria2 v (c_Hysteria2 c))"
  "storeConfig ''anytls'' v c = map_option (\<lambda>x. c\<lparr>c_AnyTLS := x\<rparr>)
     (decodePointer anytlsNames storeAnyTLS zeroAnyTLS v (c_AnyTLS c))"
  by (simp_all add: storeConfig_def)

lemmas member_rules = member_field member_omit
  member_field [where ms = "[]", simplified] member_omit [where ms = "[]", simplified]

lemma log_roundtrip:
  "ascii (lg_Level l) \<Longrightarrow> decodePointer logNames storeLog zeroLog (logJson l) None = Some (Some l)"
  by (simp add: decodePointer_def logJson_def member_rules storeLog_def zeroLog_def)

lemma vless_roundtrip:
  assumes "list_all ascii [vl_Listen v, vl_UUID v, vl_PrivateKeyPath v, vl_ShortID v,
          vl_ServerName v, vl_HandshakeServer v]" "int64 (vl_Port v)" "int64 (vl_HandshakePort v)"
  shows "decodePointer vlessNames storeVLESS zeroVLESS (vlessJson v) None = Some (Some v)"
  using assms by (simp add: decodePointer_def vlessJson_def member_rules store_vless zeroVLESS_def)

lemma hysteria2_roundtrip:
  assumes "list_all ascii [hy_Listen h, hy_Password h, hy_CertificatePath h, hy_KeyPath h]"
    "int64 (hy_Port h)" "whenSome int64 (hy_UpMbps h)" "whenSome int64 (hy_DownMbps h)"
  shows "decodePointer hysteria2Names storeHysteria2 zeroHysteria2 (hysteria2Json h) None = Some (Some h)"
  using assms
  by (cases "hy_UpMbps h"; cases "hy_DownMbps h")
    (simp_all add: decodePointer_def hysteria2Json_def member_rules store_hysteria2 zeroHysteria2_def
      whenSome_def)

lemma anytls_roundtrip:
  assumes "list_all ascii [at_Listen a, at_Password a, at_CertificatePath a, at_KeyPath a]" "int64 (at_Port a)"
  shows "decodePointer anytlsNames storeAnyTLS zeroAnyTLS (anytlsJson a) None = Some (Some a)"
  using assms by (simp add: decodePointer_def anytlsJson_def member_rules store_anytls zeroAnyTLS_def)

lemma config_members:
  assumes "portable c"
  shows "decodeStruct configNames storeConfig (configJson c) zeroConfig = Some c"
proof -
  have p: "int64 (c_SchemaVersion c)" using assms by (simp add: portable_def)
  have l: "decodePointer logNames storeLog zeroLog (logJson x) None = Some (Some x)" if "c_Log c = Some x" for x
    using assms that log_roundtrip by (simp add: portable_def whenSome_def)
  have v: "decodePointer vlessNames storeVLESS zeroVLESS (vlessJson x) None = Some (Some x)"
    if "c_VLESSReality c = Some x" for x
    using assms that vless_roundtrip [of x] by (simp add: portable_def whenSome_def)
  have h: "decodePointer hysteria2Names storeHysteria2 zeroHysteria2 (hysteria2Json x) None = Some (Some x)"
    if "c_Hysteria2 c = Some x" for x
    using assms that hysteria2_roundtrip [of x] by (simp add: portable_def whenSome_def)
  have a: "decodePointer anytlsNames storeAnyTLS zeroAnyTLS (anytlsJson x) None = Some (Some x)"
    if "c_AnyTLS c = Some x" for x
    using assms that anytls_roundtrip [of x] by (simp add: portable_def whenSome_def)
  show ?thesis using l v h a p
    by (cases c; cases "c_Log c"; cases "c_VLESSReality c"; cases "c_Hysteria2 c"; cases "c_AnyTLS c")
      (simp_all add: decodeStruct_def configJson_def member_rules store_config zeroConfig_def)
qed

end
