(* ===== verification/ConfigProps.thy ===== *)
theory ConfigProps
  imports ConfigSpec
begin

text \<open>
  The properties of internal/config: \<open>Validate\<close> decides the declarative conditions of
  \<open>ConfigSpec\<close>, and \<open>Convert\<close> turns a validated configuration into inbounds that listen on
  the configured addresses and ports with the configured credentials.
\<close>

section \<open>UUIDs\<close>

lemma hexVal_dash: "hexVal (CHR ''-'') = None"
  by (simp add: hexVal_def isDigit_def byte_def)

lemma hexDecode_chars: "hexDecode s = Some d \<Longrightarrow> c \<in> set s \<Longrightarrow> hexVal c \<noteq> None"
  by (induction s arbitrary: d rule: hexDecode.induct) (auto split: option.splits)

lemma hexDecode_total:
  "length s = 2 * n \<Longrightarrow> (\<And>c. c \<in> set s \<Longrightarrow> hexVal c \<noteq> None) \<Longrightarrow> \<exists>d. hexDecode s = Some d \<and> length d = n"
proof (induction s arbitrary: n rule: hexDecode.induct)
  case (3 a b s)
  obtain m where m: "n = Suc m" "length s = 2 * m" using "3.prems"(1) by (cases n) auto
  obtain x y where xy: "hexVal a = Some x" "hexVal b = Some y"
    using "3.prems"(2) [of a] "3.prems"(2) [of b] by auto
  have "\<exists>d. hexDecode s = Some d \<and> length d = m"
    by (rule "3.IH" [OF _ _ _ m(2)]) (use xy "3.prems"(2) in auto)
  then show ?case using xy m(1) by auto
qed auto

lemma replaceAll_drop: "replaceAll c [] s = filter (\<lambda>x. x \<noteq> c) s"
  by (induction s) (auto simp: replaceAll_def)

lemma filter_absent: "c \<notin> set s \<Longrightarrow> filter (\<lambda>x. x \<noteq> c) s = s"
  by (induction s) auto

lemma filter_full: "length (filter P s) = length s \<Longrightarrow> x \<in> set s \<Longrightarrow> P x"
  using length_filter_less [of x s P] by auto

text \<open>Text of the given length cut into a part before a position and the rest.\<close>

lemma nth_cut: "i < length s \<Longrightarrow> s = take i s @ s ! i # drop (Suc i) s"
  by (simp add: id_take_nth_drop)

lemma splitOn_take:
  assumes "i < length s" "s ! i = c" "c \<notin> set (take i s)"
  shows "splitOn c s = take i s # splitOn c (drop (Suc i) s)"
proof -
  have "splitOn c (take i s @ c # drop (Suc i) s) = take i s # splitOn c (drop (Suc i) s)"
    using assms(3) by (simp add: splitOn_append splitOn_none)
  then show ?thesis using nth_cut [OF assms(1)] assms(2) by simp
qed

lemma uuid_dashes:
  assumes "length v = 36" "v ! 8 = d" "v ! 13 = d" "v ! 18 = d" "v ! 23 = d"
    "length (filter (\<lambda>c. c \<noteq> d) v) = 32"
  shows "\<exists>a b c e f. v = a @ d # b @ d # c @ d # e @ d # f \<and> map length [a, b, c, e, f] = [8, 4, 4, 4, 12]
    \<and> d \<notin> set (a @ b @ c @ e @ f)"
proof -
  let ?a = "take 8 v" and ?b = "take 4 (drop 9 v)" and ?c = "take 4 (drop 14 v)"
    and ?e = "take 4 (drop 19 v)" and ?f = "drop 24 v"
  have "v = ?a @ d # drop 9 v" using nth_cut [of 8 v] assms by simp
  moreover have "drop 9 v = ?b @ d # drop 14 v" using nth_cut [of 4 "drop 9 v"] assms by simp
  moreover have "drop 14 v = ?c @ d # drop 19 v" using nth_cut [of 4 "drop 14 v"] assms by simp
  moreover have "drop 19 v = ?e @ d # drop 24 v" using nth_cut [of 4 "drop 19 v"] assms by simp
  ultimately have v: "v = ?a @ d # ?b @ d # ?c @ d # ?e @ d # ?f" by simp
  have l: "map length [?a, ?b, ?c, ?e, ?f] = [8, 4, 4, 4, 12]" using assms(1) by simp
  have "length (filter (\<lambda>c. c \<noteq> d) (?a @ ?b @ ?c @ ?e @ ?f)) = 32"
    using assms(6) by (subst (asm) v) simp
  moreover have "length (?a @ ?b @ ?c @ ?e @ ?f) = 32" using assms(1) by simp
  ultimately have "\<forall>x \<in> set (?a @ ?b @ ?c @ ?e @ ?f). x \<noteq> d"
    using filter_full [of "\<lambda>c. c \<noteq> d" "?a @ ?b @ ?c @ ?e @ ?f"] by metis
  then have "d \<notin> set (?a @ ?b @ ?c @ ?e @ ?f)" by blast
  then show ?thesis using v l by (intro exI conjI)
qed

lemma validUUID_splits:
  assumes "validUUID v"
  shows "canonicalUUID v"
proof -
  let ?d = "CHR ''-''"
  obtain raw where h: "hexDecode (filter (\<lambda>x. x \<noteq> ?d) v) = Some raw" "length raw = 16"
    using assms by (auto simp: validUUID_def replaceAll_drop split: if_splits option.splits)
  have "length (filter (\<lambda>x. x \<noteq> ?d) v) = 32" using hexDecode_length [OF h(1)] h(2) by simp
  then obtain a b c e f where v: "v = a @ ?d # b @ ?d # c @ ?d # e @ ?d # f"
    "map length [a, b, c, e, f] = [8, 4, 4, 4, 12]" "?d \<notin> set (a @ b @ c @ e @ f)"
    using uuid_dashes [of v ?d] assms by (auto simp: validUUID_def split: if_splits)
  have s: "splitOn ?d v = [a, b, c, e, f]" using v(3) unfolding v(1)
    by (simp add: splitOn_append splitOn_none)
  have "hexVal x \<noteq> None" if "x \<in> set a \<union> set b \<union> set c \<union> set e \<union> set f" for x
    by (rule hexDecode_chars [OF h(1)]) (use that v(1,3) in auto)
  then show ?thesis using v(2) by (simp add: canonicalUUID_def s)
qed

lemma canonicalUUID_valid:
  assumes "canonicalUUID v"
  shows "validUUID v"
proof -
  let ?d = "CHR ''-''"
  obtain a b c e f where s: "splitOn ?d v = [a, b, c, e, f]"
    "length a = 8" "length b = 4" "length c = 4" "length e = 4" "length f = 12"
    using assms unfolding canonicalUUID_def by (auto simp: map_eq_Cons_conv)
  have v: "v = a @ ?d # b @ ?d # c @ ?d # e @ ?d # f" using joinWith_splitOn [of ?d v] s(1) by simp
  have hx: "hexVal x \<noteq> None" if "x \<in> set (a @ b @ c @ e @ f)" for x
    using assms that unfolding canonicalUUID_def s(1) by auto
  then have "?d \<notin> set (a @ b @ c @ e @ f)" using hexVal_dash by metis
  then have fl: "filter (\<lambda>x. x \<noteq> ?d) v = a @ b @ c @ e @ f" unfolding v
    by (simp add: filter_absent)
  obtain raw where "hexDecode (a @ b @ c @ e @ f) = Some raw" "length raw = 16"
    using hexDecode_total [of "a @ b @ c @ e @ f" 16] hx s by auto
  moreover have "length v = 36" "v ! 8 = ?d" "v ! 13 = ?d" "v ! 18 = ?d" "v ! 23 = ?d"
    using s by (simp_all add: v nth_append)
  ultimately show ?thesis by (simp add: validUUID_def replaceAll_drop fl)
qed

section \<open>Host names\<close>

lemma mod_window: "k * m \<le> a \<Longrightarrow> a < k * m + m \<Longrightarrow> a mod m = a - k * (m :: nat)"
proof -
  assume "k * m \<le> a" "a < k * m + m"
  then obtain r where "a = r + k * m" "r < m" by (metis add.commute le_Suc_ex add_less_cancel_left)
  then show ?thesis by simp
qed

lemma rune2_high: "194 \<le> a \<Longrightarrow> a < 224 \<Longrightarrow> 122 < a mod 32 * 64 + (b :: nat)" for a :: nat
proof -
  assume "194 \<le> a" "a < 224"
  then have "2 \<le> a mod 32" using mod_window [of 6 32 a] by simp
  then show ?thesis by linarith
qed

lemma rune3_high:
  "224 \<le> a \<Longrightarrow> a < 240 \<Longrightarrow> (a = 224 \<longrightarrow> 160 \<le> b) \<Longrightarrow> isCont b \<Longrightarrow>
     122 < a mod 16 * 4096 + b mod 64 * 64 + (c :: nat)" for a b :: nat
proof (cases "a = 224")
  case True
  assume "a = 224 \<longrightarrow> 160 \<le> b" "isCont b"
  then have "32 \<le> b mod 64" using True mod_window [of 2 64 b] by (simp add: isCont_def)
  then show ?thesis by linarith
next
  case False
  assume "224 \<le> a" "a < 240"
  then have "1 \<le> a mod 16" using False mod_window [of 14 16 a] by simp
  then show ?thesis by linarith
qed

lemma rune4_high:
  "240 \<le> a \<Longrightarrow> a < 245 \<Longrightarrow> (a = 240 \<longrightarrow> 144 \<le> b) \<Longrightarrow> isCont b \<Longrightarrow>
     122 < a mod 8 * 262144 + b mod 64 * 4096 + c + (d :: nat)" for a b c :: nat
proof (cases "a = 240")
  case True
  assume "a = 240 \<longrightarrow> 144 \<le> b" "isCont b"
  then have "16 \<le> b mod 64" using True mod_window [of 2 64 b] by (simp add: isCont_def)
  then show ?thesis by linarith
next
  case False
  assume "240 \<le> a" "a < 245"
  then have "1 \<le> a mod 8" using False mod_window [of 30 8 a] by simp
  then show ?thesis by linarith
qed

lemma decodeRune_high: "128 \<le> byte x \<Longrightarrow> 122 < fst (decodeRune (x # xs))"
  by (simp add: decodeRune_def Let_def byteAt_def [of _ 0] rune2_high rune3_high rune4_high)

lemma decodeRune_ascii: "byte x < 128 \<Longrightarrow> decodeRune (x # xs) = (byte x, 1)"
  by (simp add: decodeRune_def Let_def byteAt_def)

lemma hostByte_ascii: "hostByte x \<Longrightarrow> byte x < 128"
  by (auto simp: hostByte_def isLowerAZ_def isUpperAZ_def isDigit_def byte_def)

lemma dnsRune_byte: "dnsRune (byte x) = hostByte x"
proof -
  have "byte x = 45 \<longleftrightarrow> x = CHR ''-''" using byte_inj [of x "CHR ''-''"] by (simp add: byte_def)
  then show ?thesis by (auto simp: dnsRune_def hostByte_def isLowerAZ_def isUpperAZ_def isDigit_def)
qed

lemma runes_host: "list_all dnsRune (runes s) = list_all hostByte s"
proof (induction s rule: runes.induct)
  case 1
  then show ?case by simp
next
  case (2 x xs)
  show ?case
  proof (cases "byte x < 128")
    case True
    then show ?thesis using 2 decodeRune_ascii [OF True, of xs] dnsRune_byte [of x] by simp
  next
    case False
    then have "\<not> dnsRune (fst (decodeRune (x # xs)))" using decodeRune_high [of x xs]
      by (auto simp: dnsRune_def)
    moreover have "\<not> hostByte x" using False hostByte_ascii by blast
    ultimately show ?thesis by (simp add: case_prod_beta)
  qed
qed

section \<open>Inbounds\<close>

text \<open>What an inbound listens on, and the credential it accepts.\<close>

definition listenOf :: "inbound \<Rightarrow> ipAddr \<times> int" where
  "listenOf i =
     (let l = (case in_Options i of VLESSInbound l _ _ \<Rightarrow> l | Hysteria2Inbound l _ _ _ _ \<Rightarrow> l
                                  | AnyTLSInbound l _ _ \<Rightarrow> l)
      in (lo_Listen l, uint (lo_ListenPort l)))"

definition credentialsOf :: "inbound \<Rightarrow> string list" where
  "credentialsOf i =
     (case in_Options i of VLESSInbound _ us _ \<Rightarrow> map fst us | Hysteria2Inbound _ ps _ _ _ \<Rightarrow> ps
                         | AnyTLSInbound _ ps _ \<Rightarrow> ps)"

definition tlsOf :: "inbound \<Rightarrow> tlsOptions" where
  "tlsOf i =
     (case in_Options i of VLESSInbound _ _ t \<Rightarrow> t | Hysteria2Inbound _ _ _ _ t \<Rightarrow> t
                         | AnyTLSInbound _ _ t \<Rightarrow> t)"

text \<open>The listen addresses of the sections that are present, in order.\<close>

definition listenClaims :: "Config \<Rightarrow> string list" where
  "listenClaims c =
     (case c_VLESSReality c of None \<Rightarrow> [] | Some v \<Rightarrow> [vl_Listen v]) @
     (case c_Hysteria2 c of None \<Rightarrow> [] | Some h \<Rightarrow> [hy_Listen h]) @
     (case c_AnyTLS c of None \<Rightarrow> [] | Some a \<Rightarrow> [at_Listen a])"

text \<open>An inbound that serves one claimed address, port and credential over TLS.\<close>

definition serves :: "inbound \<Rightarrow> string \<Rightarrow> int \<Rightarrow> string \<Rightarrow> bool" where
  "serves i addr port cred =
     (parseAddr addr = Some (fst (listenOf i)) \<and> snd (listenOf i) = port \<and>
      credentialsOf i = [cred] \<and> tl_Enabled (tlsOf i))"

lemma uint_port: "listenPort p \<Longrightarrow> uint (goUint16 p) = p"
  by (simp add: listenPort_def goUint16_def uint_word_of_int_eq take_bit_eq_mod)

lemma convert_serves:
  "convertVLESS k v = Some i \<Longrightarrow> listenPort (vl_Port v) \<Longrightarrow> serves i (vl_Listen v) (vl_Port v) (vl_UUID v)"
  "convertHysteria2 h = Some i \<Longrightarrow> listenPort (hy_Port h) \<Longrightarrow> serves i (hy_Listen h) (hy_Port h) (hy_Password h)"
  "convertAnyTLS a = Some i \<Longrightarrow> listenPort (at_Port a) \<Longrightarrow> serves i (at_Listen a) (at_Port a) (at_Password a)"
  by (auto simp: convertVLESS_def convertHysteria2_def convertAnyTLS_def serves_def listenOf_def
      credentialsOf_def tlsOf_def plainTLS_def uint_port)

lemma convert_some:
  "parseAddr (vl_Listen v) \<noteq> None \<Longrightarrow> \<exists>i. convertVLESS k v = Some i"
  "parseAddr (hy_Listen h) \<noteq> None \<Longrightarrow> \<exists>i. convertHysteria2 h = Some i"
  "parseAddr (at_Listen a) \<noteq> None \<Longrightarrow> \<exists>i. convertAnyTLS a = Some i"
  by (auto simp: convertVLESS_def convertHysteria2_def convertAnyTLS_def)

definition inboundsServe :: "Config \<Rightarrow> inbound list \<Rightarrow> bool" where
  "inboundsServe c ins =
     (length ins = length (portClaims c) \<and>
      list_all (\<lambda>(i, addr, port, cred). serves i addr port cred)
        (zip ins (zip (listenClaims c)
           (zip (map snd (portClaims c)) (map snd (credentialClaims c))))))"

lemma Convert_serves:
  assumes ok: "configOK kp w (v_Config v) k"
  shows "\<exists>opts. Convert v = Some opts \<and> bo_LogLevel opts = LogLevel (v_Config v) \<and>
    inboundsServe (v_Config v) (bo_Inbounds opts)"
proof -
  let ?c = "v_Config v"
  have p: "listenPort x" if "x \<in> set (map snd (portClaims ?c))" for x
    using ok that unfolding configOK_def by blast
  have a: "vl_Listen x \<in> {y. parseAddr y \<noteq> None} \<and> listenPort (vl_Port x)" if "c_VLESSReality ?c = Some x" for x
    using ok p that by (auto simp: configOK_def vlessPart_def vlessOK_def portClaims_def)
  have b: "hy_Listen x \<in> {y. parseAddr y \<noteq> None} \<and> listenPort (hy_Port x)" if "c_Hysteria2 ?c = Some x" for x
    using ok p that by (auto simp: configOK_def whenSome_def hysteria2OK_def portClaims_def)
  have d: "at_Listen x \<in> {y. parseAddr y \<noteq> None} \<and> listenPort (at_Port x)" if "c_AnyTLS ?c = Some x" for x
    using ok p that by (auto simp: configOK_def whenSome_def anytlsOK_def portClaims_def)
  have va: "\<exists>i. convertVLESS (v_RealityPrivateKey v) x = Some i \<and> serves i (vl_Listen x) (vl_Port x) (vl_UUID x)"
    if "c_VLESSReality ?c = Some x" for x using a [OF that] convert_some(1) convert_serves(1) by blast
  have vb: "\<exists>i. convertHysteria2 x = Some i \<and> serves i (hy_Listen x) (hy_Port x) (hy_Password x)"
    if "c_Hysteria2 ?c = Some x" for x using b [OF that] convert_some(2) convert_serves(2) by blast
  have vd: "\<exists>i. convertAnyTLS x = Some i \<and> serves i (at_Listen x) (at_Port x) (at_Password x)"
    if "c_AnyTLS ?c = Some x" for x using d [OF that] convert_some(3) convert_serves(3) by blast
  show ?thesis using va vb vd
    by (cases "c_VLESSReality ?c"; cases "c_Hysteria2 ?c"; cases "c_AnyTLS ?c")
      (fastforce simp: Convert_def Let_def addInbound_def inboundsServe_def listenClaims_def
        portClaims_def credentialClaims_def)+
qed

lemma Validate_accepted:
  assumes "Validate keyPair (Some c) w = (Inr v, w')"
  shows "v_Config v = c" "configOK keyPair w c (v_RealityPrivateKey v)" "sameTree w w'"
proof -
  have g: "c_SchemaVersion c = 1" "LogLevel c = ''warn'' \<or> LogLevel c = ''error''"
    "\<not> (c_VLESSReality c = None \<and> c_Hysteria2 c = None \<and> c_AnyTLS c = None)"
    "validateProtocols keyPair c w = (Inr (v_RealityPrivateKey v), w')" "v_Config v = c"
    using assms by (auto simp: Validate_def SchemaVersion_def split: if_splits prod.splits sum.splits)
  note p = validateProtocols_ok [OF g(4)]
  show "v_Config v = c" "configOK keyPair w c (v_RealityPrivateKey v)" "sameTree w w'"
    using g p ports_distinct [of c] credentials_distinct [of c] unfolding configOK_def by blast+
qed

section \<open>Samples\<close>

definition sampleKey :: string where
  "sampleKey = replicate 43 (CHR ''A'')"

definition configTree :: "string \<Rightarrow> inode option" where
  "configTree = [''/'' \<mapsto> dirNode o755 0, ''/k'' \<mapsto> fileNode o600 0 (sampleKey @ nl),
     ''/tls.crt'' \<mapsto> fileNode o644 0 ''cert'', ''/tls.key'' \<mapsto> fileNode o600 0 ''key'']"

definition samplePair :: "string \<Rightarrow> string \<Rightarrow> bool" where
  "samplePair cert key = (cert = ''cert'' \<and> key = ''key'')"

definition sampleConfig :: Config where
  "sampleConfig =
     \<lparr>c_SchemaVersion = 1, c_Log = None,
      c_VLESSReality = Some \<lparr>vl_Listen = ''::'', vl_Port = 8443,
        vl_UUID = ''12345678-9abc-4def-8123-456789abcdef'', vl_PrivateKeyPath = ''/k'',
        vl_ShortID = ''0123456789abcdef'', vl_ServerName = ''www.example.com'',
        vl_HandshakeServer = ''www.example.com'', vl_HandshakePort = 443\<rparr>,
      c_Hysteria2 = None,
      c_AnyTLS = Some \<lparr>at_Listen = ''0.0.0.0'', at_Port = 9443, at_Password = ''0123456789abcdef'',
        at_CertificatePath = ''/tls.crt'', at_KeyPath = ''/tls.key''\<rparr>\<rparr>"

lemma sample_validates: "is_ok (fst (Validate samplePair (Some sampleConfig) (sampleWorld configTree)))"
  by code_simp

section \<open>The properties\<close>

text \<open>
  Claim C5. A configuration that \<open>Validate\<close> accepts meets every declared condition: schema
  version 1, log level warn or error, at least one protocol, pairwise different ports in
  1024-65535 and pairwise different credentials, IP listen addresses, canonical UUID, long
  passwords, bandwidths in range, secure regular key and certificate files, matching key
  pairs, and the Reality key it returns is the 32-byte key stored in the file. No file
  changes.
\<close>

theorem Validate_sound:
  assumes "Validate keyPair (Some c) w = (Inr v, w')"
  shows "v_Config v = c \<and> configOK keyPair w c (v_RealityPrivateKey v) \<and> sameTree w w'"
  using Validate_accepted [OF assms] by blast

lemma Validate_sound_witness:
  "\<exists>v w'. Validate samplePair (Some sampleConfig) (sampleWorld configTree) = (Inr v, w') \<and>
     configOK samplePair (sampleWorld configTree) sampleConfig (v_RealityPrivateKey v)"
proof -
  obtain v w' where "Validate samplePair (Some sampleConfig) (sampleWorld configTree) = (Inr v, w')"
    using sample_validates by (metis is_ok_iff prod.collapse)
  then show ?thesis using Validate_sound by blast
qed

lemma Validate_quiet:
  assumes "quiet w" "configOK keyPair w c key"
  shows "\<exists>w'. Validate keyPair (Some c) w = (Inr \<lparr>v_Config = c, v_RealityPrivateKey = key\<rparr>, w')"
proof -
  obtain w' where "validateProtocols keyPair c w = (Inr key, w')"
    using validateProtocols_quiet [OF assms] by blast
  then show ?thesis using assms(2) by (auto simp: Validate_def configOK_def SchemaVersion_def)
qed

text \<open>
  Claim C6. Conversely, \<open>Validate\<close> accepts every configuration that meets the conditions
  when no file system call fails, and returns the stored Reality key: with C5, \<open>Validate\<close>
  decides exactly the declared conditions.
\<close>

theorem Validate_complete:
  assumes "quiet w" "configOK keyPair w c key"
  shows "\<exists>w'. Validate keyPair (Some c) w = (Inr \<lparr>v_Config = c, v_RealityPrivateKey = key\<rparr>, w')"
  by (rule Validate_quiet [OF assms])

lemma Validate_complete_witness:
  "\<exists>key w'. Validate samplePair (Some sampleConfig) (sampleWorld configTree)
     = (Inr \<lparr>v_Config = sampleConfig, v_RealityPrivateKey = key\<rparr>, w')"
proof -
  obtain v w' where run: "Validate samplePair (Some sampleConfig) (sampleWorld configTree) = (Inr v, w')"
    using sample_validates by (metis is_ok_iff prod.collapse)
  have "configOK samplePair (sampleWorld configTree) sampleConfig (v_RealityPrivateKey v)"
    by (rule Validate_accepted [OF run])
  moreover have "quiet (sampleWorld configTree)" by (simp add: quiet_def sampleWorld_def)
  ultimately show ?thesis using Validate_complete by blast
qed

text \<open>
  Claim C7. \<open>Convert\<close> does not panic on a configuration that \<open>Validate\<close> accepted, and its
  inbounds are, in order, one per protocol section, each listening on the configured address
  and port (no 16-bit truncation), with TLS enabled and the configured credential as the only
  user.
\<close>

theorem Convert_faithful:
  assumes "Validate keyPair (Some c) w = (Inr v, w')"
  shows "\<exists>opts. Convert v = Some opts \<and> bo_LogLevel opts = LogLevel c \<and>
    inboundsServe c (bo_Inbounds opts)"
  using Validate_accepted [OF assms] Convert_serves by metis

lemma Convert_faithful_witness:
  "\<exists>v w' opts. Validate samplePair (Some sampleConfig) (sampleWorld configTree) = (Inr v, w') \<and>
     Convert v = Some opts \<and> inboundsServe sampleConfig (bo_Inbounds opts)"
proof -
  obtain v w' where "Validate samplePair (Some sampleConfig) (sampleWorld configTree) = (Inr v, w')"
    using sample_validates by (metis is_ok_iff prod.collapse)
  then show ?thesis using Convert_faithful by blast
qed

text \<open>
  Claim C8. \<open>validUUID\<close> accepts exactly the canonical form: five groups of 8, 4, 4, 4 and 12
  hexadecimal digits separated by hyphens.
\<close>

theorem validUUID_canonical: "validUUID v = canonicalUUID v"
  using validUUID_splits canonicalUUID_valid by blast

text \<open>
  Claim C9. \<open>validDNSName\<close> accepts exactly the names of at most 253 bytes (one final dot
  aside) whose labels between dots have 1 to 63 bytes, all of them letters, digits or hyphens,
  and neither start nor end with a hyphen.
\<close>

theorem validDNSName_labels:
  "validDNSName value \<longleftrightarrow>
     (trimSuffix value ''.'' \<noteq> [] \<and> length (trimSuffix value ''.'') \<le> 253 \<and>
      list_all (\<lambda>l. l \<noteq> [] \<and> length l \<le> 63 \<and> list_all hostByte l \<and> hd l \<noteq> CHR ''-'' \<and> last l \<noteq> CHR ''-'')
        (splitOn (CHR ''.'') (trimSuffix value ''.'')))"
proof -
  have "dnsLabel = (\<lambda>l. l \<noteq> [] \<and> length l \<le> 63 \<and> list_all hostByte l \<and> hd l \<noteq> CHR ''-'' \<and> last l \<noteq> CHR ''-'')"
    by (auto simp: dnsLabel_def runes_host fun_eq_iff)
  then show ?thesis by (auto simp: validDNSName_def Let_def)
qed

end
