(* ===== verification/ConfigFile.thy ===== *)
theory ConfigFile
  imports ConfigDecode ConfigProps
begin

text \<open>
  The properties of internal/config/decode.go: what is accepted, where the paths of an accepted
  configuration point, and the round trip with \<open>json.MarshalIndent\<close>.
\<close>

section \<open>The document of a configuration\<close>

lemma jsonOK_field: "ascii n \<Longrightarrow> jsonOK v \<Longrightarrow> jsonOK (JObj (jsonField n v))"
  by (rule jsonOK_fields(3))

lemma jsonOK_omit: "ascii n \<Longrightarrow> (\<And>y. x = Some y \<Longrightarrow> jsonOK (f y)) \<Longrightarrow> jsonOK (JObj (omitNil n f x))"
  by (rule jsonOK_fields(5))

lemma fields_ascii: "list_all ascii names \<Longrightarrow> n \<in> set names \<Longrightarrow> ascii n"
  by (simp add: list_all_iff)

lemmas name_ascii =
  fields_ascii [OF names_ascii(1)] fields_ascii [OF names_ascii(2)] fields_ascii [OF names_ascii(3)]
  fields_ascii [OF names_ascii(4)] fields_ascii [OF names_ascii(5)]

lemma configJson_OK:
  assumes "portable c"
  shows "jsonOK (configJson c)"
proof -
  note p = assms [unfolded portable_def whenSome_def]
  have l: "jsonOK (logJson x)" if "c_Log c = Some x" for x
    using p that unfolding logJson_def
    by (intro jsonOK_field name_ascii(1)) simp_all
  have v: "jsonOK (vlessJson x)" if "c_VLESSReality c = Some x" for x
    using p that unfolding vlessJson_def jsonOK_fields(2)
    by (intro conjI jsonOK_field name_ascii(2)) simp_all
  have h: "jsonOK (hysteria2Json x)" if "c_Hysteria2 c = Some x" for x
    using p that unfolding hysteria2Json_def jsonOK_fields(2)
    by (intro conjI jsonOK_field jsonOK_omit name_ascii(3)) simp_all
  have a: "jsonOK (anytlsJson x)" if "c_AnyTLS c = Some x" for x
    using p that unfolding anytlsJson_def jsonOK_fields(2)
    by (intro conjI jsonOK_field name_ascii(4)) simp_all
  show ?thesis unfolding configJson_def jsonOK_fields(2)
    by (intro conjI jsonOK_field jsonOK_omit name_ascii(5) l v h a) simp_all
qed

lemma decode_configText:
  assumes "portable c" "length (configText c) \<le> MaxConfigSize"
  shows "decodeConfig jsonMsg (configText c) = Inr c"
  using assms readDocument_pretty [of "configJson c" "decodeStruct configNames storeConfig" zeroConfig c]
    configJson_OK [of c] config_members [of c]
  by (simp add: decodeConfig_def configText_def)

section \<open>Accepted documents\<close>

text \<open>The members of an object carry known names, and so do those of its sections.\<close>

definition known :: "string list \<Rightarrow> json \<Rightarrow> bool" where
  "known names j =
     (case j of JNull \<Rightarrow> True
      | JObj ms \<Rightarrow> (\<forall>(raw, v) \<in> set ms. matchField names (unquote raw) \<noteq> None)
      | _ \<Rightarrow> False)"

definition sectionNames :: "string \<Rightarrow> string list" where
  "sectionNames n =
     (if n = ''log'' then logNames else if n = ''vless_reality'' then vlessNames
      else if n = ''hysteria2'' then hysteria2Names else anytlsNames)"

definition inSchema :: "json \<Rightarrow> bool" where
  "inSchema j =
     (known configNames j \<and>
      (case j of
         JObj ms \<Rightarrow>
           (\<forall>(raw, v) \<in> set ms. \<forall>n. matchField configNames (unquote raw) = Some n \<longrightarrow>
              n \<noteq> ''schema_version'' \<longrightarrow> known (sectionNames n) v)
       | _ \<Rightarrow> True))"

lemma decodeMembers_stored:
  "decodeMembers names store ms acc = Some x \<Longrightarrow> (raw, v) \<in> set ms \<Longrightarrow> matchField names (unquote raw) = Some n \<Longrightarrow>
     \<exists>a b. store n v a = Some b"
proof (induction ms arbitrary: acc)
  case (Cons m ms)
  show ?case
  proof (cases "m = (raw, v)")
    case True
    then show ?thesis using Cons.prems by (auto split: option.splits)
  next
    case False
    then show ?thesis using Cons by (cases m) (auto split: option.splits)
  qed
qed simp

lemma decodePointer_known: "decodePointer names store zero v cur = Some y \<Longrightarrow> known names v"
  by (auto simp: decodePointer_def known_def dest: decodeMembers_known split: json.splits)

lemma storeConfig_section:
  assumes "storeConfig n v a = Some b" "n \<noteq> ''schema_version''"
  shows "known (sectionNames n) v"
  using assms by (auto simp: storeConfig_def sectionNames_def split: if_splits intro: decodePointer_known)

lemma accepted_inSchema:
  assumes "decodeStruct configNames storeConfig j zeroConfig = Some c"
  shows "inSchema j"
proof (cases j)
  case (JObj ms)
  have d: "decodeMembers configNames storeConfig ms zeroConfig = Some c"
    using assms JObj by (simp add: decodeStruct_def)
  show ?thesis using decodeMembers_known [OF d] decodeMembers_stored [OF d] storeConfig_section
    unfolding JObj inSchema_def known_def by (fastforce simp: known_def)
qed (use assms in \<open>simp_all add: decodeStruct_def inSchema_def known_def\<close>)

section \<open>Reading a file\<close>

definition keyPaths :: "Config \<Rightarrow> string list" where
  "keyPaths c =
     (case c_VLESSReality c of None \<Rightarrow> [] | Some v \<Rightarrow> [vl_PrivateKeyPath v]) @
     (case c_Hysteria2 c of None \<Rightarrow> [] | Some h \<Rightarrow> [hy_CertificatePath h, hy_KeyPath h]) @
     (case c_AnyTLS c of None \<Rightarrow> [] | Some a \<Rightarrow> [at_CertificatePath a, at_KeyPath a])"

lemma keyPaths_resolved: "keyPaths (resolveRelativePaths c d) = map (resolvePath d) (keyPaths c)"
  by (simp add: keyPaths_def resolveRelativePaths_def split: option.splits)

lemma resolvePath_abs: "isAbs d \<Longrightarrow> resolvePath d p = [] \<or> isAbs (resolvePath d p)"
proof -
  assume d: "isAbs d"
  then have "d \<noteq> []" by auto
  then show ?thesis using d by (simp add: resolvePath_def joinPath2 isAbs_append)
qed

lemma isAbs_dirName: "isAbs p \<Longrightarrow> isAbs (dirName p)"
proof -
  assume "isAbs p"
  then obtain q where p: "p = slash # q" using isAbs_iff by blast
  have "dropWhile (\<lambda>c. c \<noteq> slash) (rev q @ [slash]) = dropWhile (\<lambda>c. c \<noteq> slash) (rev q) @ [slash] \<or>
      dropWhile (\<lambda>c. c \<noteq> slash) (rev q @ [slash]) = [slash]"
    by (induction "rev q") (auto simp: dropWhile_append)
  then show ?thesis by (auto simp: dirName_def uptoSlash_def p)
qed

lemma Decode_result:
  assumes "Decode jsonMsg h w = (Inr c, w')"
  shows "sameTree w w' \<and> (\<exists>content. sys_read h w = (Inr content, w') \<and>
    length content \<le> MaxConfigSize \<and> decodeConfig jsonMsg content = Inr c)"
proof -
  obtain r w1 where r: "sys_read h w = (r, w1)" by fastforce
  then obtain content where c: "r = Inr content" "w' = w1"
    "decodeConfig jsonMsg (take (MaxConfigSize + 1) content) = Inr c"
    using assms by (auto simp: Decode_def split: sum.splits)
  have "length (take (MaxConfigSize + 1) content) \<le> MaxConfigSize"
    using c(3) by (auto simp: decodeConfig_def split: if_splits)
  then have "length content \<le> MaxConfigSize" by simp
  moreover have "sameTree w w1" by (rule sameTree_ro [OF read.env [OF r] read.fs_same [OF r]])
  ultimately show ?thesis using r c by auto
qed

lemma DecodeFile_accepts:
  assumes "DecodeFile jsonMsg path w = (Inr c, w')"
  shows "sameTree w w' \<and> secureFile w path fileConfig \<and>
    (\<exists>c0. decodeConfig jsonMsg (contentOf w path) = Inr c0 \<and>
      c = resolveRelativePaths c0 (dirName (keyOf w path)))"
proof -
  obtain r1 w1 where s1: "checkFile path fileConfig w = (r1, w1)" by fastforce
  obtain r2 w2 where s2: "sys_open path w1 = (r2, w2)" by fastforce
  obtain u h where ok: "path \<noteq> []" "r1 = Inr u" "r2 = Inr h"
    using assms s1 s2 by (auto simp: DecodeFile_def split: if_splits sum.splits)
  obtain r3 w3 where s3: "Decode jsonMsg h w2 = (r3, w3)" by fastforce
  obtain r4 w4 where s4: "sys_abs path w3 = (r4, w4)" by fastforce
  obtain c0 q where ok2: "r3 = Inr c0" "r4 = Inr q" "c = resolveRelativePaths c0 (dirName q)" "w' = w4"
    using assms s1 s2 s3 s4 ok by (auto simp: DecodeFile_def split: sum.splits)
  note a1 = checkFile_same [OF s1]
  note a2 = sameTree_ro [OF open_ro.env [OF s2] open_ro.fs_same [OF s2]]
  obtain content where d: "sameTree w2 w3" "sys_read h w2 = (Inr content, w3)"
    "decodeConfig jsonMsg content = Inr c0"
    using Decode_result s3 ok2(1) by blast
  note a4 = sameTree_ro [OF abs_ro.env [OF s4] abs_ro.fs_same [OF s4]]
  note b2 = sameTree_trans [OF a1 a2] note b3 = sameTree_trans [OF b2 d(1)]
  have sec: "secureFile w path fileConfig" using checkFile_ok s1 ok(2) by blast
  then obtain i where i: "lookup w path = Some i" "\<not> isSymlink i" "data i = contentOf w path"
    using secure_regular by blast
  have l1: "lookup w1 path = Some i" "lookup w2 path = Some i"
    using sameTree_lookup [OF a1] sameTree_lookup [OF b2] i(1) by simp_all
  have "h = path" using open_file s2 ok(3) l1(1) i(2) by blast
  then have "content = contentOf w path" using read_file [OF _ l1(2)] d(2) i(3) by auto
  moreover have "q = keyOf w path" using sys_abs_result [of path w3 q w4] s4 ok2(2) b3
    by (simp add: keyOf_def sameTree_def sameEnv_def)
  ultimately show ?thesis using sec sameTree_trans [OF b3 a4] d(3) ok2(3,4) by auto
qed

section \<open>The properties\<close>

text \<open>
  Claim C12. An accepted configuration text has at most 1 MiB and is one JSON value with
  nothing but white space around it, every member of which, also inside the sections, is a
  field of the schema.
\<close>

theorem Decode_strict:
  assumes "decodeConfig jsonMsg content = Inr c"
  shows "length content \<le> 1048576 \<and> (\<exists>j. parseJson content = Some j \<and> inSchema j)"
proof -
  have l: "length content \<le> MaxConfigSize" using assms by (auto simp: decodeConfig_def split: if_splits)
  have "readDocument (decodeStruct configNames storeConfig) zeroConfig content = Document c"
    using assms by (auto simp: decodeConfig_def split: if_splits document.splits)
  then show ?thesis using l accepted_inSchema by (auto simp: readDocument_iff MaxConfigSize_def)
qed

lemma Decode_strict_witness:
  "\<exists>c j. decodeConfig (\<lambda>_. []) (configText sampleConfig) = Inr c \<and>
     parseJson (configText sampleConfig) = Some j \<and> inSchema j"
proof -
  have "decodeConfig (\<lambda>_. []) (configText sampleConfig) = Inr sampleConfig"
    by (rule decode_configText; code_simp)
  then show ?thesis using Decode_strict by blast
qed

text \<open>
  Claim C13. \<open>DecodeFile\<close> accepts only a regular file, not a symbolic link, that neither group
  nor others may write, changes nothing, and returns what \<open>Decode\<close> makes of the file's content
  with every key and certificate path made absolute against the directory of the file (an
  empty path stays empty).
\<close>

theorem DecodeFile_secure:
  assumes "DecodeFile jsonMsg path w = (Inr c, w')" "isAbs (cwd w)"
  shows "sameTree w w' \<and> secureFile w path fileConfig \<and>
    (\<exists>c0. decodeConfig jsonMsg (contentOf w path) = Inr c0 \<and>
      c = resolveRelativePaths c0 (dirName (keyOf w path))) \<and>
    (\<forall>p \<in> set (keyPaths c). p = [] \<or> isAbs p)"
proof -
  have d: "isAbs (dirName (keyOf w path))"
    using assms(2) by (simp add: isAbs_dirName keyOf_def isAbs_absPath)
  obtain c0 where "c = resolveRelativePaths c0 (dirName (keyOf w path))"
    using DecodeFile_accepts [OF assms(1)] by blast
  then have "\<forall>p \<in> set (keyPaths c). p = [] \<or> isAbs p"
    using resolvePath_abs [OF d] by (auto simp: keyPaths_resolved)
  then show ?thesis using DecodeFile_accepts [OF assms(1)] by blast
qed

definition relativeConfig :: Config where
  "relativeConfig = sampleConfig\<lparr>c_VLESSReality :=
     map_option (\<lambda>v. v\<lparr>vl_PrivateKeyPath := ''k''\<rparr>) (c_VLESSReality sampleConfig)\<rparr>"

definition configWorld :: world where
  "configWorld = sampleWorld [''/'' \<mapsto> dirNode o755 0, ''/etc'' \<mapsto> dirNode o755 0,
     ''/etc/config.json'' \<mapsto> fileNode o600 0 (configText relativeConfig)]"

lemma DecodeFile_secure_witness:
  "\<exists>c w'. DecodeFile (\<lambda>_. []) ''/etc/config.json'' configWorld = (Inr c, w') \<and>
     keyPaths c = [''/etc/k'', ''/tls.crt'', ''/tls.key''] \<and> (\<forall>p \<in> set (keyPaths c). p = [] \<or> isAbs p)"
proof -
  have "map_sum (\<lambda>_. ()) keyPaths (fst (DecodeFile (\<lambda>_. []) ''/etc/config.json'' configWorld)) =
      Inr [''/etc/k'', ''/tls.crt'', ''/tls.key'']" by code_simp
  then obtain c w' where run: "DecodeFile (\<lambda>_. []) ''/etc/config.json'' configWorld = (Inr c, w')"
    "keyPaths c = [''/etc/k'', ''/tls.crt'', ''/tls.key'']"
    by (cases "DecodeFile (\<lambda>_. []) ''/etc/config.json'' configWorld"; cases "fst (DecodeFile (\<lambda>_. []) ''/etc/config.json'' configWorld)") auto
  have "isAbs (cwd configWorld)" by code_simp
  then show ?thesis using DecodeFile_secure [OF run(1)] run by blast
qed

text \<open>
  Claim C14. Decoding undoes \<open>json.MarshalIndent\<close>: the text written for a configuration of ASCII
  strings and 64-bit numbers, of at most 1 MiB, is read back as the same configuration.
\<close>

theorem config_roundtrip:
  assumes "portable c" "length (configText c) \<le> MaxConfigSize"
  shows "decodeConfig jsonMsg (configText c) = Inr c"
  by (rule decode_configText [OF assms])

lemma config_roundtrip_witness: "decodeConfig (\<lambda>_. []) (configText sampleConfig) = Inr sampleConfig"
  by (rule config_roundtrip; code_simp)

end
