(* ===== verification/GoTime.thy ===== *)
theory GoTime
  imports GoOS
begin

text \<open>
  The timestamps of the state files: \<open>time.Time\<close> as \<open>encoding/json\<close> writes it (RFC 3339 with
  nanoseconds, trailing zeros dropped) and reads it back.

  Not modelled: the lenient variants of RFC 3339 that the reader also accepts (one-digit hours,
  a comma before the fraction), which the program never writes.
\<close>

section \<open>Printing\<close>

definition two :: "nat \<Rightarrow> string" where
  "two n = [digitChar (n div 10 mod 10), digitChar (n mod 10)]"

definition four :: "nat \<Rightarrow> string" where
  "four n = two (n div 100) @ two (n mod 100)"

definition nine :: "nat \<Rightarrow> string" where
  "nine n = map (\<lambda>i. digitChar (n div 10 ^ i mod 10)) [8, 7, 6, 5, 4, 3, 2, 1, 0]"

definition trimZeros :: "string \<Rightarrow> string" where
  "trimZeros s = rev (dropWhile (\<lambda>c. c = CHR ''0'') (rev s))"

definition fracText :: "nat \<Rightarrow> string" where
  "fracText n = (if n = 0 then [] else CHR ''.'' # trimZeros (nine n))"

definition zoneText :: "int \<Rightarrow> string" where
  "zoneText off =
     (if off = 0 then ''Z''
      else (if off < 0 then CHR ''-'' else CHR ''+'')
        # two (nat \<bar>off\<bar> div 60) @ '':'' @ two (nat \<bar>off\<bar> mod 60))"

definition timeText :: "gotime \<Rightarrow> string" where
  "timeText t =
     four (t_year t) @ ''-'' @ two (t_month t) @ ''-'' @ two (t_day t) @ ''T'' @ two (t_hour t) @ '':''
       @ two (t_minute t) @ '':'' @ two (t_second t) @ fracText (t_nano t) @ zoneText (t_offset t)"

text \<open>\<open>MarshalJSON\<close> refuses a year beyond 9999.\<close>

definition marshalTime :: "gotime \<Rightarrow> string option" where
  "marshalTime t = (if t_year t \<le> 9999 then Some (timeText t) else None)"

section \<open>Reading\<close>

definition isLeap :: "nat \<Rightarrow> bool" where
  "isLeap y = (y mod 4 = 0 \<and> (y mod 100 \<noteq> 0 \<or> y mod 400 = 0))"

definition daysIn :: "nat \<Rightarrow> nat \<Rightarrow> nat" where
  "daysIn m y =
     (if m = 2 then (if isLeap y then 29 else 28)
      else if m \<in> {4, 6, 9, 11} then 30 else 31)"

definition decimal :: "string \<Rightarrow> nat option" where
  "decimal s = (if list_all isDigit s then digitsVal 10 0 s else None)"

text \<open>A number of exactly \<open>k\<close> digits within bounds at the head of the text, and the rest.\<close>

definition takeNum :: "nat \<Rightarrow> nat \<Rightarrow> nat \<Rightarrow> string \<Rightarrow> (nat \<times> string) option" where
  "takeNum k lo hi s =
     (if length s < k then None
      else case decimal (take k s) of
        None \<Rightarrow> None
      | Some n \<Rightarrow> if lo \<le> n \<and> n \<le> hi then Some (n, drop k s) else None)"

definition takeChar :: "char \<Rightarrow> string \<Rightarrow> string option" where
  "takeChar c s = (case s of [] \<Rightarrow> None | x # t \<Rightarrow> if x = c then Some t else None)"

definition takeFrac :: "string \<Rightarrow> nat \<times> string" where
  "takeFrac s =
     (let ds = takeWhile isDigit (tl s) in
      if hasPrefix s ''.'' \<and> ds \<noteq> []
      then (the (digitsVal 10 0 (take 9 (ds @ replicate 9 (CHR ''0'')))), drop (1 + length ds) s)
      else (0, s))"

definition takeZone :: "string \<Rightarrow> int option" where
  "takeZone s =
     (if s = ''Z'' then Some 0
      else if length s \<noteq> 6 \<or> hd s \<notin> {CHR ''+'', CHR ''-''} then None
      else case takeNum 2 0 23 (tl s) of
        None \<Rightarrow> None
      | Some (h, s1) \<Rightarrow>
          (case takeChar (CHR '':'') s1 of
             None \<Rightarrow> None
           | Some s2 \<Rightarrow>
               (case takeNum 2 0 59 s2 of
                  None \<Rightarrow> None
                | Some (m, s3) \<Rightarrow>
                    let off = int (60 * h + m) in Some (if hd s = CHR ''-'' then - off else off))))"

text \<open>A number and the separator after it.\<close>

definition takePart :: "nat \<Rightarrow> nat \<Rightarrow> nat \<Rightarrow> char \<Rightarrow> string \<Rightarrow> (nat \<times> string) option" where
  "takePart k lo hi c s =
     (case takeNum k lo hi s of
        None \<Rightarrow> None
      | Some (n, r) \<Rightarrow> map_option (\<lambda>r'. (n, r')) (takeChar c r))"

definition parseTime :: "string \<Rightarrow> gotime option" where
  "parseTime s =
     (case takePart 4 0 9999 (CHR ''-'') s of None \<Rightarrow> None | Some (y, s1) \<Rightarrow>
     (case takePart 2 1 12 (CHR ''-'') s1 of None \<Rightarrow> None | Some (mo, s2) \<Rightarrow>
     (case takePart 2 1 (daysIn mo y) (CHR ''T'') s2 of None \<Rightarrow> None | Some (d, s3) \<Rightarrow>
     (case takePart 2 0 23 (CHR '':'') s3 of None \<Rightarrow> None | Some (h, s4) \<Rightarrow>
     (case takePart 2 0 59 (CHR '':'') s4 of None \<Rightarrow> None | Some (mi, s5) \<Rightarrow>
     (case takeNum 2 0 59 s5 of None \<Rightarrow> None | Some (sec, s6) \<Rightarrow>
        (let (ns, s7) = takeFrac s6 in
         case takeZone s7 of
           None \<Rightarrow> None
         | Some off \<Rightarrow>
             Some \<lparr>t_year = y, t_month = mo, t_day = d, t_hour = h, t_minute = mi, t_second = sec,
                  t_nano = ns, t_offset = off\<rparr>)))))))"

section \<open>The reader undoes the printer\<close>

definition timeOK :: "gotime \<Rightarrow> bool" where
  "timeOK t =
     (t_year t \<le> 9999 \<and> 1 \<le> t_month t \<and> t_month t \<le> 12 \<and> 1 \<le> t_day t \<and>
      t_day t \<le> daysIn (t_month t) (t_year t) \<and> t_hour t \<le> 23 \<and> t_minute t \<le> 59 \<and>
      t_second t \<le> 59 \<and> t_nano t < 10 ^ 9 \<and> \<bar>t_offset t\<bar> < 24 * 60)"

lemma digit_range: "\<forall>i \<in> set [0..<10]. isDigit (digitChar i) \<and> digitVal 10 (digitChar i) = Some i"
  by code_simp

lemma digit_char [simp]: "i < 10 \<Longrightarrow> isDigit (digitChar i)" "i < 10 \<Longrightarrow> digitVal 10 (digitChar i) = Some i"
  using digit_range by simp_all

lemma digitsVal_append:
  "digitsVal b acc (xs @ ys) = (case digitsVal b acc xs of None \<Rightarrow> None | Some a \<Rightarrow> digitsVal b a ys)"
  by (induction xs arbitrary: acc) (auto split: option.splits)

lemma length_num [simp]: "length (two n) = 2" "length (four n) = 4" "length (nine n) = 9"
  by (simp_all add: two_def four_def nine_def)

lemma digits_num: "list_all isDigit (two n)" "list_all isDigit (four n)" "list_all isDigit (nine n)"
  by (simp_all add: two_def four_def nine_def)

lemma two_val: "n < 100 \<Longrightarrow> digitsVal 10 acc (two n) = Some (acc * 100 + n)"
  using div_mult_mod_eq [of n 10] by (simp add: two_def less_mult_imp_div_less)

lemma four_val:
  assumes "n \<le> 9999"
  shows "digitsVal 10 0 (four n) = Some n"
proof -
  have "n div 100 < 100" using assms by (simp add: less_mult_imp_div_less)
  then show ?thesis using div_mult_mod_eq [of n 100] by (simp add: four_def digitsVal_append two_val)
qed

lemma decimals_val:
  "digitsVal 10 acc (map (\<lambda>i. digitChar (n div 10 ^ i mod 10)) (rev [0..<k])) = Some (acc * 10 ^ k + n mod 10 ^ k)"
proof (induction k arbitrary: acc)
  case 0
  then show ?case by simp
next
  case (Suc k)
  have p: "(10 :: nat) ^ Suc k = 10 ^ k * 10" by simp
  have "n mod 10 ^ Suc k = 10 ^ k * (n div 10 ^ k mod 10) + n mod 10 ^ k"
    unfolding p by (rule mod_mult2_eq)
  then show ?case using Suc by (simp add: algebra_simps)
qed

lemma nine_val: "n < 10 ^ 9 \<Longrightarrow> digitsVal 10 0 (nine n) = Some n"
proof -
  have "nine n = map (\<lambda>i. digitChar (n div 10 ^ i mod 10)) (rev [0..<9])"
    by (simp add: nine_def upt_rec)
  then show "n < 10 ^ 9 \<Longrightarrow> ?thesis" using decimals_val [of 0 n 9] by simp
qed

lemma take_prefix: "length d = k \<Longrightarrow> take k (d @ r) = d" "length d = k \<Longrightarrow> drop k (d @ r) = r"
  by simp_all

lemma takeNum_read:
  assumes "length d = k" "list_all isDigit d" "digitsVal 10 0 d = Some n" "lo \<le> n" "n \<le> hi"
  shows "takeNum k lo hi (d @ r) = Some (n, r)"
  using assms by (simp add: takeNum_def decimal_def)

lemma two_num: "n < 100 \<Longrightarrow> lo \<le> n \<Longrightarrow> n \<le> hi \<Longrightarrow> takeNum 2 lo hi (two n @ r) = Some (n, r)"
  by (rule takeNum_read) (simp_all add: digits_num two_val)

lemma two_part: "n < 100 \<Longrightarrow> lo \<le> n \<Longrightarrow> n \<le> hi \<Longrightarrow> takePart 2 lo hi c (two n @ c # r) = Some (n, r)"
  by (simp add: takePart_def two_num takeChar_def)

lemma four_part: "n \<le> 9999 \<Longrightarrow> takePart 4 0 9999 c (four n @ c # r) = Some (n, r)"
  using takeNum_read [of "four n" 4 n 0 9999 "c # r"]
  by (simp add: takePart_def takeChar_def digits_num four_val)

lemma zone_parts:
  assumes "h \<le> 23" "m \<le> 59" "c \<in> {CHR ''+'', CHR ''-''}"
  shows "takeZone (c # two h @ CHR '':'' # two m) =
    Some (if c = CHR ''-'' then - int (60 * h + m) else int (60 * h + m))"
proof -
  have "takeNum 2 0 23 (two h @ CHR '':'' # two m) = Some (h, CHR '':'' # two m)"
    by (rule two_num) (use assms(1) in auto)
  moreover have "takeNum 2 0 59 (two m) = Some (m, [])" using two_num [of m 0 59 "[]"] assms(2) by simp
  ultimately show ?thesis using assms(3) by (auto simp: takeZone_def takeChar_def)
qed

lemma zone_read: "\<bar>off\<bar> < 24 * 60 \<Longrightarrow> takeZone (zoneText off) = Some off"
proof (cases "off = 0")
  case True
  then show ?thesis by (simp add: zoneText_def takeZone_def)
next
  case False
  assume a: "\<bar>off\<bar> < 24 * 60"
  let ?n = "nat \<bar>off\<bar>" and ?c = "if off < 0 then CHR ''-'' else CHR ''+''"
  have "?n div 60 \<le> 23" "?n mod 60 \<le> 59"
    using a by (simp_all add: less_Suc_eq_le [symmetric] less_mult_imp_div_less)
  then have "takeZone (?c # two (?n div 60) @ CHR '':'' # two (?n mod 60)) =
      Some (if ?c = CHR ''-'' then - int (60 * (?n div 60) + ?n mod 60) else int (60 * (?n div 60) + ?n mod 60))"
    by (rule zone_parts) simp
  also have "\<dots> = Some off" by (simp only: mult_div_mod_eq) simp
  finally show ?thesis using False by (simp only: zoneText_def) simp
qed

lemma trimZeros_pad: "take (length s) (trimZeros s @ replicate (length s) (CHR ''0'')) = s"
proof -
  let ?z = "takeWhile (\<lambda>c. c = CHR ''0'') (rev s)"
  have z: "?z = replicate (length ?z) (CHR ''0'')"
    by (rule replicate_length_same [symmetric]) (auto dest: set_takeWhileD)
  have s: "s = trimZeros s @ ?z"
  proof -
    have "s = rev (?z @ dropWhile (\<lambda>c. c = CHR ''0'') (rev s))" by simp
    then have "s = trimZeros s @ rev ?z" by (simp only: rev_append trimZeros_def)
    moreover have "rev ?z = ?z" by (subst (1 2) z) simp
    ultimately show ?thesis by simp
  qed
  have l: "length s = length (trimZeros s) + length ?z" by (metis s length_append)
  have "take (length s) (trimZeros s @ replicate (length s) (CHR ''0''))
      = trimZeros s @ replicate (length ?z) (CHR ''0'')"
    using l by (simp add: min_def)
  then show ?thesis using s z by metis
qed

lemma trimZeros_digits: "list_all isDigit s \<Longrightarrow> list_all isDigit (trimZeros s)"
  unfolding trimZeros_def list_all_iff by (metis set_dropWhileD set_rev)

lemma zone_start: "\<not> isDigit (hd (zoneText off)) \<and> zoneText off \<noteq> [] \<and> hd (zoneText off) \<noteq> CHR ''.''"
  by (simp add: zoneText_def isDigit_def byte_def)

lemma trimZeros_nonzero:
  assumes "n < 10 ^ 9" "0 < n"
  shows "trimZeros (nine n) \<noteq> []"
proof
  assume "trimZeros (nine n) = []"
  then have "nine n = replicate 9 (CHR ''0'')" using trimZeros_pad [of "nine n"] by simp
  moreover have "digitsVal 10 0 (replicate 9 (CHR ''0'')) = Some 0" by code_simp
  ultimately show False using nine_val [OF assms(1)] assms(2) by simp
qed

lemma frac_read:
  assumes "n < 10 ^ 9"
  shows "takeFrac (fracText n @ zoneText off) = (n, zoneText off)"
proof (cases "n = 0")
  case True
  have "\<not> hasPrefix (zoneText off) ''.''" using zone_start [of off]
    by (cases "zoneText off") (auto simp: hasPrefix_def)
  then show ?thesis using True by (simp add: fracText_def takeFrac_def Let_def)
next
  case False
  let ?t = "trimZeros (nine n)"
  have d: "list_all isDigit ?t" "?t \<noteq> []"
    using trimZeros_digits [OF digits_num(3)] trimZeros_nonzero [OF assms] False by auto
  have "takeWhile isDigit (zoneText off) = []" using zone_start [of off] by (cases "zoneText off") auto
  then have tw: "takeWhile isDigit (?t @ zoneText off) = ?t"
    using d(1) by (simp add: takeWhile_append2 list_all_iff)
  have "digitsVal 10 0 (take 9 (?t @ replicate 9 (CHR ''0''))) = Some n"
    using trimZeros_pad [of "nine n"] nine_val [OF assms] by simp
  then show ?thesis using False d(2) tw by (simp add: fracText_def takeFrac_def Let_def hasPrefix_def)
qed

lemma daysIn_le: "daysIn m y \<le> 31"
  by (simp add: daysIn_def)

lemma parse_time: "timeOK t \<Longrightarrow> parseTime (timeText t) = Some t"
proof -
  assume ok: "timeOK t"
  have d: "t_day t < 100" using ok daysIn_le [of "t_month t" "t_year t"] by (auto simp: timeOK_def)
  show ?thesis using ok d
    by (simp add: timeOK_def timeText_def parseTime_def four_part two_part two_num frac_read zone_read)
qed

end
