(* ===== verification/TunePlan.thy ===== *)
theory TunePlan
  imports GoOS
begin

text \<open>
  internal/tune/types.go and plan.go: the profile of the host, the plan derived from it, and
  the bandwidth-delay product on 64-bit machine integers.
\<close>

section \<open>Types\<close>

definition KeyDefaultQdisc :: string where "KeyDefaultQdisc = ''net.core.default_qdisc''"
definition KeyCongestionControl :: string where
  "KeyCongestionControl = ''net.ipv4.tcp_congestion_control''"
definition KeyAvailableCC :: string where
  "KeyAvailableCC = ''net.ipv4.tcp_available_congestion_control''"
definition KeyMTUProbing :: string where "KeyMTUProbing = ''net.ipv4.tcp_mtu_probing''"
definition KeySlowStartAfterIdle :: string where
  "KeySlowStartAfterIdle = ''net.ipv4.tcp_slow_start_after_idle''"

definition managedKeys :: "string list" where
  "managedKeys = [KeyDefaultQdisc, KeyCongestionControl, KeyMTUProbing, KeySlowStartAfterIdle]"

record WorkloadProfile =
  wl_Reality :: bool
  wl_AnyTLS :: bool
  wl_Hysteria2 :: bool

definition TCPEnabled :: "WorkloadProfile \<Rightarrow> bool" where
  "TCPEnabled w = (wl_Reality w \<or> wl_AnyTLS w)"

record CapabilityProfile =
  cp_Root :: bool
  cp_NetAdmin :: bool
  cp_SysctlWritable :: "(string \<times> bool) list"

type_synonym uint64 = "64 word"

record EnvironmentProfile =
  ev_Distribution :: string
  ev_Kernel :: string
  ev_Architecture :: string
  ev_Virtualization :: string
  ev_VisibleMemoryBytes :: uint64
  ev_CgroupMemoryLimit :: uint64
  ev_EffectiveMemoryBytes :: uint64
  ev_LogicalCPUs :: int
  ev_EffectiveCPUs :: int
  ev_Interface :: string
  ev_MTU :: int
  ev_MemoryPolicy :: string

record Profile =
  pf_Environment :: EnvironmentProfile
  pf_Capabilities :: CapabilityProfile
  pf_Workload :: WorkloadProfile
  pf_Sysctls :: strmap
  pf_AvailableCC :: "string list"
  pf_FQAvailable :: bool
  pf_Warnings :: "string list"

datatype Action = ActionKeep | ActionSet | ActionSkip | ActionUnsupported | ActionManual

fun actionText :: "Action \<Rightarrow> string" where
  "actionText ActionKeep = ''KEEP''"
| "actionText ActionSet = ''SET''"
| "actionText ActionSkip = ''SKIP''"
| "actionText ActionUnsupported = ''UNSUPPORTED''"
| "actionText ActionManual = ''MANUAL''"

datatype Confidence = ConfidenceHigh | ConfidenceMedium | ConfidenceLow

record TuneAction =
  ta_Key :: string
  ta_CurrentValue :: string
  ta_ProposedValue :: string
  ta_Action :: Action
  ta_Reason :: string
  ta_Risk :: string
  ta_Capability :: string
  ta_Confidence :: Confidence

record Inputs =
  in_BandwidthMbps :: uint64
  in_RTTMillis :: uint64

record Plan =
  pl_Profile :: Profile
  pl_Inputs :: Inputs
  pl_BDPBytes :: uint64
  pl_Actions :: "TuneAction list"

section \<open>The plan\<close>

definition sysctl :: "Profile \<Rightarrow> string \<Rightarrow> string" where
  "sysctl profile key = mget (pf_Sysctls profile) key"

definition sysctlIsWritable :: "Profile \<Rightarrow> string \<Rightarrow> bool" where
  "sysctlIsWritable profile key =
     (map_of (cp_SysctlWritable (pf_Capabilities profile)) key = Some True)"

definition mkAction ::
  "string \<Rightarrow> string \<Rightarrow> string \<Rightarrow> Action \<Rightarrow> string \<Rightarrow> string \<Rightarrow> string \<Rightarrow> Confidence \<Rightarrow> TuneAction" where
  "mkAction key current proposed action reason risk capability confidence =
     \<lparr>ta_Key = key, ta_CurrentValue = current, ta_ProposedValue = proposed, ta_Action = action,
      ta_Reason = reason, ta_Risk = risk, ta_Capability = capability, ta_Confidence = confidence\<rparr>"

definition unsupported :: "string \<Rightarrow> string \<Rightarrow> string \<Rightarrow> string \<Rightarrow> TuneAction" where
  "unsupported key current proposed reason =
     mkAction key current proposed ActionUnsupported reason ''none'' ''unavailable'' ConfidenceHigh"

definition planQdisc :: "Profile \<Rightarrow> TuneAction" where
  "planQdisc profile =
     (let current = sysctl profile KeyDefaultQdisc in
      if current = ''fq''
      then mkAction KeyDefaultQdisc current ''fq'' ActionKeep ''fq is already the default qdisc'' ''low''
             '''' ConfidenceHigh
      else if current = ''''
      then unsupported KeyDefaultQdisc current ''fq'' ''the sysctl is unavailable''
      else if current \<noteq> ''pfifo_fast'' \<and> current \<noteq> ''fq_codel''
      then mkAction KeyDefaultQdisc current current ActionKeep
             ''an existing non-generic qdisc is preserved as an administrator or provider choice''
             ''overriding an intentional qdisc is unsafe'' '''' ConfidenceHigh
      else if \<not> pf_FQAvailable profile
      then mkAction KeyDefaultQdisc current ''fq'' ActionManual
             ''fq support could not be proven without loading a kernel module''
             ''kernel may reject fq'' ''fq availability unknown'' ConfidenceLow
      else if \<not> sysctlIsWritable profile KeyDefaultQdisc
      then unsupported KeyDefaultQdisc current ''fq'' ''the current namespace cannot write this sysctl''
      else mkAction KeyDefaultQdisc current ''fq'' ActionSet
             ''fq provides per-flow pacing for future default qdiscs; the live interface is not replaced''
             ''low; an existing live qdisc remains unchanged'' ''fq present and sysctl writable''
             ConfidenceHigh)"

definition planCongestionControl :: "Profile \<Rightarrow> TuneAction" where
  "planCongestionControl profile =
     (let current = sysctl profile KeyCongestionControl in
      if current = ''bbr''
      then mkAction KeyCongestionControl current ''bbr'' ActionKeep ''BBR is already selected'' ''low''
             '''' ConfidenceHigh
      else if ''bbr'' \<notin> set (pf_AvailableCC profile)
      then mkAction KeyCongestionControl current ''bbr'' ActionSkip
             ''BBR is not registered in tcp_available_congestion_control; no module or kernel change is attempted''
             ''none'' ''bbr unavailable'' ConfidenceHigh
      else if current = ''''
      then unsupported KeyCongestionControl current ''bbr'' ''the sysctl is unavailable''
      else if current \<noteq> ''cubic'' \<and> current \<noteq> ''reno''
      then mkAction KeyCongestionControl current current ActionKeep
             ''an existing non-generic congestion control is preserved as an administrator or provider choice''
             ''overriding an intentional algorithm is unsafe'' '''' ConfidenceHigh
      else if \<not> sysctlIsWritable profile KeyCongestionControl
      then unsupported KeyCongestionControl current ''bbr''
             ''the current namespace cannot write this sysctl''
      else mkAction KeyCongestionControl current ''bbr'' ActionSet
             ''BBR is already registered by the running kernel'' ''low''
             ''bbr advertised and sysctl writable'' ConfidenceHigh)"

definition planMTUProbing :: "Profile \<Rightarrow> TuneAction" where
  "planMTUProbing profile =
     (let current = sysctl profile KeyMTUProbing in
      if current = ''1'' \<or> current = ''2''
      then mkAction KeyMTUProbing current current ActionKeep
             ''TCP MTU probing is already enabled; the existing mode is preserved'' ''low'' ''''
             ConfidenceHigh
      else if current = ''''
      then unsupported KeyMTUProbing current ''1'' ''the sysctl is unavailable''
      else if \<not> sysctlIsWritable profile KeyMTUProbing
      then unsupported KeyMTUProbing current ''1'' ''the current namespace cannot write this sysctl''
      else mkAction KeyMTUProbing current ''1'' ActionSet
             ''mode 1 activates TCP PLPMTUD only after an ICMP black hole is detected'' ''low''
             ''sysctl writable'' ConfidenceHigh)"

definition planSlowStart :: "Profile \<Rightarrow> TuneAction" where
  "planSlowStart profile =
     mkAction KeySlowStartAfterIdle (sysctl profile KeySlowStartAfterIdle) '''' ActionKeep
       ''conservative policy keeps the kernel or administrator choice''
       ''changing idle restart can create bursts'' '''' ConfidenceHigh"

definition skipAction :: "Profile \<Rightarrow> string \<Rightarrow> TuneAction" where
  "skipAction profile key =
     mkAction key (sysctl profile key) '''' ActionSkip
       ''no TCP proxy protocol is enabled; Hysteria2 remains UDP/QUIC observation-only'' ''none'' ''''
       ConfidenceHigh"

definition bdpBytes :: "Inputs \<Rightarrow> uint64 option" where
  "bdpBytes inputs =
     (if in_BandwidthMbps inputs > 0 \<and> in_RTTMillis inputs > 0
      then if in_BandwidthMbps inputs > (- 1) div in_RTTMillis inputs div 125 then None
           else Some (in_BandwidthMbps inputs * in_RTTMillis inputs * 125)
      else Some 0)"

definition planActions :: "Profile \<Rightarrow> TuneAction list" where
  "planActions profile =
     (if \<not> TCPEnabled (pf_Workload profile) then map (skipAction profile) managedKeys
      else [planQdisc profile, planCongestionControl profile, planMTUProbing profile,
            planSlowStart profile])"

definition BuildPlan :: "Profile \<Rightarrow> Inputs \<Rightarrow> Plan res" where
  "BuildPlan profile inputs =
     (case bdpBytes inputs of
        None \<Rightarrow> Inl (Errorf ''bandwidth and RTT produce an overflowing BDP'')
      | Some bdp \<Rightarrow>
          Inr \<lparr>pl_Profile = profile, pl_Inputs = inputs, pl_BDPBytes = bdp,
               pl_Actions = planActions profile\<rparr>)"

definition memoryPolicy :: "uint64 \<Rightarrow> string" where
  "memoryPolicy bytes =
     (let mib = 1024 * 1024 in
      if bytes = 0 then ''unknown''
      else if bytes \<le> 128 * mib then ''ultra-low-memory''
      else if bytes \<le> 256 * mib then ''low-memory''
      else if bytes \<le> 512 * mib then ''conservative''
      else ''proxy-small'')"

section \<open>Facts about the plan\<close>

lemmas key_defs =
  KeyDefaultQdisc_def KeyCongestionControl_def KeyMTUProbing_def KeySlowStartAfterIdle_def
  KeyAvailableCC_def

lemma managedKeys_distinct: "distinct managedKeys"
  by (simp add: managedKeys_def key_defs)

lemma mkAction_sel [simp]:
  "ta_Key (mkAction k c v a r x y z) = k" "ta_CurrentValue (mkAction k c v a r x y z) = c"
  "ta_ProposedValue (mkAction k c v a r x y z) = v" "ta_Action (mkAction k c v a r x y z) = a"
  "ta_Confidence (mkAction k c v a r x y z) = z"
  by (simp_all add: mkAction_def)

lemma unsupported_sel [simp]:
  "ta_Key (unsupported k c v r) = k" "ta_CurrentValue (unsupported k c v r) = c"
  "ta_Action (unsupported k c v r) = ActionUnsupported"
  by (simp_all add: unsupported_def)

lemma planner_keys [simp]:
  "ta_Key (planQdisc p) = KeyDefaultQdisc" "ta_Key (planCongestionControl p) = KeyCongestionControl"
  "ta_Key (planMTUProbing p) = KeyMTUProbing" "ta_Key (planSlowStart p) = KeySlowStartAfterIdle"
  "ta_Key (skipAction p k) = k"
  by (simp_all add: planQdisc_def planCongestionControl_def planMTUProbing_def planSlowStart_def
      skipAction_def Let_def)

lemma planner_currents [simp]:
  "ta_CurrentValue (planQdisc p) = sysctl p KeyDefaultQdisc"
  "ta_CurrentValue (planCongestionControl p) = sysctl p KeyCongestionControl"
  "ta_CurrentValue (planMTUProbing p) = sysctl p KeyMTUProbing"
  "ta_CurrentValue (planSlowStart p) = sysctl p KeySlowStartAfterIdle"
  "ta_CurrentValue (skipAction p k) = sysctl p k"
  by (simp_all add: planQdisc_def planCongestionControl_def planMTUProbing_def planSlowStart_def
      skipAction_def Let_def)

lemma plan_keys: "map ta_Key (planActions p) = managedKeys"
  by (simp add: planActions_def managedKeys_def)

lemma plan_currents: "a \<in> set (planActions p) \<Longrightarrow> ta_CurrentValue a = sysctl p (ta_Key a)"
  by (auto simp: planActions_def managedKeys_def split: if_splits)

text \<open>The values a \<open>SET\<close> action proposes, and what it proves about the host.\<close>

definition safeChange :: "Profile \<Rightarrow> string \<Rightarrow> string \<Rightarrow> bool" where
  "safeChange p key value =
     (TCPEnabled (pf_Workload p) \<and> sysctlIsWritable p key \<and> value \<noteq> sysctl p key \<and>
      ((key = KeyDefaultQdisc \<and> value = ''fq'' \<and> pf_FQAvailable p \<and>
          sysctl p key \<in> {''pfifo_fast'', ''fq_codel''}) \<or>
       (key = KeyCongestionControl \<and> value = ''bbr'' \<and> ''bbr'' \<in> set (pf_AvailableCC p) \<and>
          sysctl p key \<in> {''cubic'', ''reno''}) \<or>
       (key = KeyMTUProbing \<and> value = ''1'' \<and> sysctl p key \<notin> {[], ''1'', ''2''})))"

lemma planner_sets:
  "ta_Action (planQdisc p) = ActionSet \<longleftrightarrow>
     sysctl p KeyDefaultQdisc \<in> {''pfifo_fast'', ''fq_codel''} \<and> pf_FQAvailable p \<and>
     sysctlIsWritable p KeyDefaultQdisc"
  "ta_Action (planCongestionControl p) = ActionSet \<longleftrightarrow>
     sysctl p KeyCongestionControl \<in> {''cubic'', ''reno''} \<and> ''bbr'' \<in> set (pf_AvailableCC p) \<and>
     sysctlIsWritable p KeyCongestionControl"
  "ta_Action (planMTUProbing p) = ActionSet \<longleftrightarrow>
     sysctl p KeyMTUProbing \<notin> {[], ''1'', ''2''} \<and> sysctlIsWritable p KeyMTUProbing"
  "ta_Action (planSlowStart p) \<noteq> ActionSet" "ta_Action (skipAction p k) \<noteq> ActionSet"
  by (auto simp: planQdisc_def planCongestionControl_def planMTUProbing_def planSlowStart_def
      skipAction_def Let_def)

lemma planner_values:
  "ta_Action (planQdisc p) = ActionSet \<Longrightarrow>
     ta_ProposedValue (planQdisc p) = ''fq'' \<and> ta_Confidence (planQdisc p) = ConfidenceHigh"
  "ta_Action (planCongestionControl p) = ActionSet \<Longrightarrow>
     ta_ProposedValue (planCongestionControl p) = ''bbr'' \<and>
     ta_Confidence (planCongestionControl p) = ConfidenceHigh"
  "ta_Action (planMTUProbing p) = ActionSet \<Longrightarrow>
     ta_ProposedValue (planMTUProbing p) = ''1'' \<and> ta_Confidence (planMTUProbing p) = ConfidenceHigh"
  by (auto simp: planQdisc_def planCongestionControl_def planMTUProbing_def Let_def split: if_splits)

lemma set_safe:
  assumes "a \<in> set (planActions p)" "ta_Action a = ActionSet"
  shows "safeChange p (ta_Key a) (ta_ProposedValue a) \<and> ta_Confidence a = ConfidenceHigh"
proof -
  have t: "TCPEnabled (pf_Workload p)" using assms planner_sets(5)
    by (auto simp: planActions_def split: if_splits)
  then have "a \<in> {planQdisc p, planCongestionControl p, planMTUProbing p, planSlowStart p}"
    using assms(1) by (simp add: planActions_def)
  then consider "a = planQdisc p" | "a = planCongestionControl p" | "a = planMTUProbing p"
    using assms(2) planner_sets(4) by blast
  then show ?thesis
  proof cases
    case 1
    then show ?thesis using t assms(2) planner_sets(1) [of p] planner_values(1) [of p]
      unfolding safeChange_def by force
  next
    case 2
    then show ?thesis using t assms(2) planner_sets(2) [of p] planner_values(2) [of p]
      unfolding safeChange_def by force
  next
    case 3
    then show ?thesis using t assms(2) planner_sets(3) [of p] planner_values(3) [of p]
      unfolding safeChange_def by force
  qed
qed

section \<open>Bandwidth-delay product\<close>

lemma bdp_limit:
  fixes b r :: uint64
  assumes "0 < r"
  shows "(- 1) div r div 125 < b \<longleftrightarrow> 2 ^ 64 \<le> unat b * unat r * 125"
proof -
  have r: "0 < unat r" using assms by (simp add: word_less_nat_alt)
  have m: "unat (- 1 :: uint64) = 2 ^ 64 - 1" by (simp add: unat_eq_nat_uint uint_word_ariths)
  have "(- 1) div r div 125 < b \<longleftrightarrow> (2 ^ 64 - 1) div unat r div 125 < unat b"
    by (simp only: word_less_nat_alt unat_div m) simp
  also have "\<dots> \<longleftrightarrow> (2 ^ 64 - 1) div (unat r * 125) < unat b" by (simp only: div_mult2_eq)
  also have "\<dots> \<longleftrightarrow> 2 ^ 64 - 1 < unat b * (unat r * 125)"
    using r by (subst div_less_iff_less_mult) simp_all
  finally show ?thesis by (simp add: algebra_simps) linarith
qed

lemma bdpBytes_cases:
  "case bdpBytes i of
     None \<Rightarrow> 2 ^ 64 \<le> unat (in_BandwidthMbps i) * unat (in_RTTMillis i) * 125
   | Some n \<Rightarrow> unat n = unat (in_BandwidthMbps i) * unat (in_RTTMillis i) * 125"
proof (cases "in_BandwidthMbps i > 0 \<and> in_RTTMillis i > 0")
  case False
  then show ?thesis by (auto simp: bdpBytes_def word_less_nat_alt)
next
  case True
  let ?b = "in_BandwidthMbps i" and ?r = "in_RTTMillis i"
  show ?thesis
  proof (cases "2 ^ 64 \<le> unat ?b * unat ?r * 125")
    case big: True
    then show ?thesis using True bdp_limit [of ?r ?b] by (simp add: bdpBytes_def)
  next
    case small: False
    have b1: "unat ?b * unat ?r < 2 ^ 64" using small by linarith
    have "unat (?b * ?r) = unat ?b * unat ?r" using b1 unat_mult_lem [of ?b ?r] by simp
    moreover have "unat (?b * ?r) * unat (125 :: uint64) < 2 ^ 64" using small calculation by simp
    ultimately have "unat (?b * ?r * 125) = unat ?b * unat ?r * 125"
      using unat_mult_lem [of "?b * ?r" 125] by simp
    then show ?thesis using True small bdp_limit [of ?r ?b] by (simp add: bdpBytes_def)
  qed
qed

section \<open>The properties\<close>

text \<open>
  Claim C10. \<open>BuildPlan\<close> reports the bandwidth-delay product in bytes as the exact product of
  bandwidth, round-trip time and 125, and refuses exactly the inputs for which that product
  does not fit in 64 bits: the machine multiplication never wraps around.
\<close>

theorem BuildPlan_bdp_exact:
  "case BuildPlan profile inputs of
     Inl _ \<Rightarrow> 2 ^ 64 \<le> unat (in_BandwidthMbps inputs) * unat (in_RTTMillis inputs) * 125
   | Inr plan \<Rightarrow>
       unat (pl_BDPBytes plan) = unat (in_BandwidthMbps inputs) * unat (in_RTTMillis inputs) * 125"
  using bdpBytes_cases [of inputs] by (auto simp: BuildPlan_def split: option.splits)

text \<open>
  Claim C11. A plan has one action per managed sysctl, in order, each about the observed
  value. An action is \<open>SET\<close> only for a host with a TCP protocol, a writable sysctl and a
  generic current value: fq when it is available, bbr when the kernel advertises it, MTU
  probing 1; a host without TCP protocol gets only \<open>SKIP\<close>.
\<close>

theorem BuildPlan_conservative:
  assumes "BuildPlan profile inputs = Inr plan"
  shows "map ta_Key (pl_Actions plan) = managedKeys \<and>
    (\<forall>a \<in> set (pl_Actions plan). ta_CurrentValue a = sysctl profile (ta_Key a) \<and>
       (ta_Action a = ActionSet \<longrightarrow> safeChange profile (ta_Key a) (ta_ProposedValue a)) \<and>
       (\<not> TCPEnabled (pf_Workload profile) \<longrightarrow> ta_Action a = ActionSkip))"
proof -
  have p: "pl_Actions plan = planActions profile" using assms by (auto simp: BuildPlan_def split: option.splits)
  have "ta_Action a = ActionSkip" if "\<not> TCPEnabled (pf_Workload profile)" "a \<in> set (planActions profile)" for a
    using that by (auto simp: planActions_def skipAction_def)
  then show ?thesis unfolding p using plan_keys plan_currents set_safe by blast
qed

definition sampleProfile :: Profile where
  "sampleProfile =
     \<lparr>pf_Environment = \<lparr>ev_Distribution = ''d'', ev_Kernel = ''6.1'', ev_Architecture = ''amd64'',
        ev_Virtualization = ''kvm'', ev_VisibleMemoryBytes = 0, ev_CgroupMemoryLimit = 0,
        ev_EffectiveMemoryBytes = 0, ev_LogicalCPUs = 1, ev_EffectiveCPUs = 1, ev_Interface = ''eth0'',
        ev_MTU = 1500, ev_MemoryPolicy = ''unknown''\<rparr>,
      pf_Capabilities = \<lparr>cp_Root = True, cp_NetAdmin = True,
        cp_SysctlWritable = map (\<lambda>k. (k, True)) managedKeys\<rparr>,
      pf_Workload = \<lparr>wl_Reality = True, wl_AnyTLS = False, wl_Hysteria2 = False\<rparr>,
      pf_Sysctls = [(KeyDefaultQdisc, ''pfifo_fast''), (KeyCongestionControl, ''cubic''),
        (KeyMTUProbing, ''0''), (KeySlowStartAfterIdle, ''1'')],
      pf_AvailableCC = [''cubic'', ''bbr''], pf_FQAvailable = True, pf_Warnings = []\<rparr>"

definition sampleInputs :: Inputs where
  "sampleInputs = \<lparr>in_BandwidthMbps = 500, in_RTTMillis = 80\<rparr>"

lemma BuildPlan_conservative_witness:
  "\<exists>plan. BuildPlan sampleProfile sampleInputs = Inr plan \<and>
     map ta_Key (pl_Actions plan) = managedKeys \<and>
     map ta_Action (pl_Actions plan) = [ActionSet, ActionSet, ActionSet, ActionKeep]"
proof -
  have "is_ok (BuildPlan sampleProfile sampleInputs)" by code_simp
  then obtain plan where p: "BuildPlan sampleProfile sampleInputs = Inr plan" by (auto simp: is_ok_iff)
  have "map ta_Action (planActions sampleProfile) = [ActionSet, ActionSet, ActionSet, ActionKeep]"
    by code_simp
  moreover have "pl_Actions plan = planActions sampleProfile"
    using p by (auto simp: BuildPlan_def split: option.splits)
  ultimately show ?thesis using p BuildPlan_conservative [OF p] by auto
qed

end
