(* ===== verification/TuneDetect.thy ===== *)
theory TuneDetect
  imports TunePlan ConfigDecode
begin

text \<open>
  internal/tune/detect.go and root_linux.go: the manager of the tuning state and the survey of
  the host, as calls on the explicit world.

  What the Go runtime and libraries outside src/ answer is the parameter \<open>goLib\<close>: the text of
  an encoding/json error, the SHA-256 function, the architecture and the number of CPUs. The
  operating system is Linux (root_linux.go), so the warning for other systems is dead.
\<close>

section \<open>The manager\<close>

record goLib =
  gl_jsonMsg :: "string \<Rightarrow> string"
  gl_sha256 :: "string \<Rightarrow> string"
  gl_GOARCH :: string
  gl_NumCPU :: int

record Options =
  op_ConfigPath :: string
  op_StateDirectory :: string
  op_SysctlFile :: string
  op_RootDirectory :: string
  op_ProcDirectory :: string
  op_SysDirectory :: string
  op_ProgramVersion :: string

definition DefaultConfigPath :: string where
  "DefaultConfigPath = ''/etc/mini-singbox/config.json''"
definition DefaultStateDirectory :: string where
  "DefaultStateDirectory = ''/var/lib/mini-singbox/tune''"
definition DefaultSysctlFile :: string where
  "DefaultSysctlFile = ''/etc/sysctl.d/90-mini-singbox-tune.conf''"

text \<open>The function fields of \<open>Manager\<close> act on the world like the functions they hold.\<close>

record Manager =
  mg_options :: Options
  mg_now :: "world \<Rightarrow> gotime \<times> world"
  mg_isRoot :: "world \<Rightarrow> bool"
  mg_stateOwner :: "inode \<Rightarrow> bool"
  mg_persist :: "string \<Rightarrow> world \<Rightarrow> unit res \<times> world"

text \<open>root_linux.go.\<close>

definition processIsRoot :: "world \<Rightarrow> bool" where
  "processIsRoot w = (euid w = 0)"

definition fileOwnedByRoot :: "inode \<Rightarrow> bool" where
  "fileOwnedByRoot info = (uid info = 0)"

definition stateDirectoryModeSecure :: "inode \<Rightarrow> bool" where
  "stateDirectoryModeSecure info = (and (perm info) o077 = 0)"

definition persistenceDirectoryModeSecure :: "inode \<Rightarrow> bool" where
  "persistenceDirectoryModeSecure info = (and (perm info) o022 = 0)"

definition orElse :: "string \<Rightarrow> string \<Rightarrow> string" where
  "orElse s d = (if s = [] then d else s)"

text \<open>The defaults that \<open>New\<close> fills in.\<close>

definition withDefaults :: "Options \<Rightarrow> Options" where
  "withDefaults o1 =
     (let root = orElse (op_RootDirectory o1) ''/'' in
      o1\<lparr>op_ConfigPath := orElse (op_ConfigPath o1) DefaultConfigPath,
        op_StateDirectory := orElse (op_StateDirectory o1) DefaultStateDirectory,
        op_SysctlFile := orElse (op_SysctlFile o1) DefaultSysctlFile,
        op_RootDirectory := root,
        op_ProcDirectory := orElse (op_ProcDirectory o1) (joinPath [root, ''proc'']),
        op_SysDirectory := orElse (op_SysDirectory o1) (joinPath [root, ''sys''])\<rparr>)"

section \<open>Small readers\<close>

definition readTrimmed :: "string \<Rightarrow> world \<Rightarrow> string \<times> world" where
  "readTrimmed path w =
     (case sys_readFile path w of
        (Inl _, w1) \<Rightarrow> ([], w1)
      | (Inr content, w1) \<Rightarrow> (trimSpace content, w1))"

text \<open>\<open>content, _ := os.ReadFile(path)\<close>.\<close>

definition readOrEmpty :: "string \<Rightarrow> world \<Rightarrow> string \<times> world" where
  "readOrEmpty path w =
     (case sys_readFile path w of (Inl _, w1) \<Rightarrow> ([], w1) | (Inr content, w1) \<Rightarrow> (content, w1))"

definition pathExists :: "string \<Rightarrow> world \<Rightarrow> bool \<times> world" where
  "pathExists path w = (case sys_stat path w of (r, w1) \<Rightarrow> (is_ok r, w1))"

definition rootPath :: "Manager \<Rightarrow> string \<Rightarrow> string" where
  "rootPath m relative = joinPath [op_RootDirectory (mg_options m), relative]"

definition procPath :: "Manager \<Rightarrow> string \<Rightarrow> string" where
  "procPath m relative = joinPath [op_ProcDirectory (mg_options m), relative]"

definition sysPath :: "Manager \<Rightarrow> string \<Rightarrow> string" where
  "sysPath m relative = joinPath [op_SysDirectory (mg_options m), relative]"

definition sysctlPath :: "Manager \<Rightarrow> string \<Rightarrow> string" where
  "sysctlPath m key =
     joinPath [op_ProcDirectory (mg_options m), ''sys'', replaceAll (CHR ''.'') ''/'' key]"

definition readSysctl :: "Manager \<Rightarrow> string \<Rightarrow> world \<Rightarrow> string \<times> world" where
  "readSysctl m key w = readTrimmed (sysctlPath m key) w"

definition sysctlWritable :: "Manager \<Rightarrow> string \<Rightarrow> world \<Rightarrow> bool \<times> world" where
  "sysctlWritable m key w =
     (case sys_openWrite (sysctlPath m key) False w of
        (Inl _, w1) \<Rightarrow> (False, w1)
      | (Inr h, w1) \<Rightarrow> (case sys_flush ''close'' h w1 of (r, w2) \<Rightarrow> (is_ok r, w2)))"

text \<open>\<open>strings.Split(content, "\n")\<close>.\<close>

definition textLines :: "string \<Rightarrow> string list" where
  "textLines content = splitOn (CHR 0x0A) content"

text \<open>
  The tokens of a \<open>bufio.Scanner\<close>: the last line only when it is not empty, carriage returns
  before the newline dropped, and nothing from the first line that fills the 64 KiB buffer.
\<close>

definition dropCR :: "string \<Rightarrow> string" where
  "dropCR l = trimSuffix l [CHR 0x0D]"

definition scannerLines :: "string \<Rightarrow> string list" where
  "scannerLines content =
     (let ls = textLines content; ls' = (if last ls = [] then butlast ls else ls) in
      map dropCR (takeWhile (\<lambda>l. length l < 65536) ls'))"

text \<open>\<open>strings.SplitN(s, sep, n)\<close>.\<close>

fun splitN :: "nat \<Rightarrow> char \<Rightarrow> string \<Rightarrow> string list" where
  "splitN 0 c s = []"
| "splitN (Suc 0) c s = [s]"
| "splitN (Suc (Suc n)) c s =
     (case cutAt c s of None \<Rightarrow> [s] | Some (a, b) \<Rightarrow> a # splitN (Suc n) c b)"

text \<open>The value next to an ignored error: range errors give the nearest number.\<close>

definition atoiValue :: "string \<Rightarrow> int" where
  "atoiValue s =
     (let neg = hasPrefix s ''-''; ds = (if neg \<or> hasPrefix s ''+'' then tl s else s) in
      case digitsVal 10 0 ds of
        None \<Rightarrow> 0
      | Some n \<Rightarrow> max (- (2 ^ 63)) (min (2 ^ 63 - 1) (if neg then - int n else int n)))"

definition parseUintValue :: "nat \<Rightarrow> string \<Rightarrow> nat" where
  "parseUintValue base s =
     (case digitsVal base 0 s of None \<Rightarrow> 0 | Some n \<Rightarrow> min n (2 ^ 64 - 1))"

text \<open>Arithmetic on Go's 64-bit \<open>int\<close>.\<close>

definition goInt :: "int \<Rightarrow> int" where
  "goInt i = sint (word_of_int i :: 64 word)"

section \<open>Distribution and virtualization\<close>

definition parseRelease :: "string list \<Rightarrow> strmap" where
  "parseRelease ls =
     fold (\<lambda>l m. case cutAt (CHR ''='') l of
         None \<Rightarrow> m
       | Some (k, v) \<Rightarrow> mset_key k (trimChars v [CHR 0x22, CHR 0x27]) m) ls []"

definition distribution :: "Manager \<Rightarrow> world \<Rightarrow> string \<times> world" where
  "distribution m w =
     (case sys_readFile (rootPath m ''etc/os-release'') w of
        (Inl _, w1) \<Rightarrow> (''unknown'', w1)
      | (Inr content, w1) \<Rightarrow>
          (let vals = parseRelease (textLines content) in
           if mget vals ''PRETTY_NAME'' \<noteq> [] then (mget vals ''PRETTY_NAME'', w1)
           else if mget vals ''ID'' \<noteq> [] then (mget vals ''ID'', w1)
           else (''unknown'', w1)))"

definition containerNames :: "string list" where
  "containerNames = [''docker'', ''podman'', ''containerd'', ''lxc'', ''openvz'']"

definition hypervisors :: "string list" where
  "hypervisors = [''kvm'', ''qemu'', ''vmware'', ''virtualbox'', ''hyper-v'']"

text \<open>The last step of \<open>virtualization\<close>: the DMI strings.\<close>

definition dmiVirtualization :: "Manager \<Rightarrow> world \<Rightarrow> string \<times> world" where
  "dmiVirtualization m w =
     (case readTrimmed (sysPath m ''class/dmi/id/product_name'') w of
        (product, w1) \<Rightarrow>
      (case readTrimmed (sysPath m ''class/dmi/id/sys_vendor'') w1 of
        (vendor, w2) \<Rightarrow>
          (let dmi = toLower (product @ '' '' @ vendor) in
           case find (containsStr dmi) hypervisors of
             Some name \<Rightarrow> (name, w2)
           | None \<Rightarrow> if dmi \<noteq> [] then (''bare-metal-or-unknown'', w2) else (''unknown'', w2))))"

text \<open>The middle step: the cgroup files, then /proc/vz.\<close>

definition cgroupVirtualization :: "Manager \<Rightarrow> world \<Rightarrow> string \<times> world" where
  "cgroupVirtualization m w =
     (case readTrimmed (procPath m ''1/cgroup'') w of
        (one, w1) \<Rightarrow>
      (case readTrimmed (procPath m ''self/cgroup'') w1 of
        (self, w2) \<Rightarrow>
          (let cgroups = toLower (one @ nl @ self) in
           case find (containsStr cgroups) containerNames of
             Some name \<Rightarrow> (name, w2)
           | None \<Rightarrow>
               if containsStr cgroups ''kubepods'' then (''kubernetes'', w2)
               else (case pathExists (procPath m ''vz'') w2 of
                   (True, w3) \<Rightarrow> (''openvz'', w3)
                 | (False, w3) \<Rightarrow> dmiVirtualization m w3))))"

definition virtualization :: "Manager \<Rightarrow> world \<Rightarrow> string \<times> world" where
  "virtualization m w =
     (case readTrimmed (rootPath m ''run/systemd/container'') w of
        (container, w1) \<Rightarrow>
          if container \<noteq> [] then (container, w1)
          else (case pathExists (rootPath m ''.dockerenv'') w1 of
              (True, w2) \<Rightarrow> (''docker'', w2)
            | (False, w2) \<Rightarrow>
                (case pathExists (rootPath m ''run/.containerenv'') w2 of
                   (True, w3) \<Rightarrow> (''podman'', w3)
                 | (False, w3) \<Rightarrow> cgroupVirtualization m w3)))"

section \<open>Memory\<close>

definition memTotal :: "string \<Rightarrow> uint64 option" where
  "memTotal line =
     (case GoStrings.fields line of
        f0 # f1 # _ \<Rightarrow>
          if f0 = ''MemTotal:'' then
            (case parseUint 10 f1 of
               Some v \<Rightarrow> if v \<le> (2 ^ 64 - 1) div 1024 then Some (of_nat v * 1024) else None
             | None \<Rightarrow> None)
          else None
      | _ \<Rightarrow> None)"

fun firstSome :: "('a \<Rightarrow> 'b option) \<Rightarrow> 'a list \<Rightarrow> 'b option" where
  "firstSome f [] = None"
| "firstSome f (x # xs) = (case f x of Some y \<Rightarrow> Some y | None \<Rightarrow> firstSome f xs)"

definition visibleMemory :: "Manager \<Rightarrow> world \<Rightarrow> uint64 \<times> world" where
  "visibleMemory m w =
     (case sys_open (procPath m ''meminfo'') w of
        (Inl _, w1) \<Rightarrow> (0, w1)
      | (Inr h, w1) \<Rightarrow>
          (case sys_read h w1 of
             (Inl _, w2) \<Rightarrow> (0, w2)
           | (Inr content, w2) \<Rightarrow>
               (case firstSome memTotal (scannerLines content) of
                  None \<Rightarrow> (0, w2) | Some v \<Rightarrow> (v, w2))))"

definition cleanCgroupPath :: "string \<Rightarrow> string" where
  "cleanCgroupPath value = trimPrefix (clean (slash # value)) ''/''"

text \<open>
  The loop of \<open>cgroupLimitPaths\<close> from the directory \<open>current\<close> upwards. The measure drops because
  the parent of a path is shorter, the path itself, or the dot.
\<close>

function limitPathsFrom :: "string \<Rightarrow> string \<Rightarrow> string \<Rightarrow> string list" where
  "limitPathsFrom base filename current =
     (let path = joinPath [current, filename]; parent = dirName current in
      if current = base then [path]
      else if parent = current \<or> \<not> hasPrefix (parent @ ''/'') (base @ ''/'') then [path]
      else path # limitPathsFrom base filename parent)"
  by pat_completeness auto

lemma dirName_dot: "dirName ''.'' = ''.''"
  by (simp add: dirName_def uptoSlash_def slash_def clean_def)

termination limitPathsFrom
proof (relation "measure (\<lambda>(base, filename, c). if c = ''.'' then 0 else Suc (length c))", goal_cases)
  case (2 base filename current path parent)
  have "current \<noteq> ''.''" using 2 dirName_dot by metis
  then show ?case using 2 dirName_shorter [of current] by auto
qed simp

declare limitPathsFrom.simps [simp del]

definition cgroupLimitPaths :: "string \<Rightarrow> string \<Rightarrow> string \<Rightarrow> string list" where
  "cgroupLimitPaths base relative filename =
     limitPathsFrom base filename (joinPath [base, relative])"

definition lineCandidates :: "Manager \<Rightarrow> string \<Rightarrow> string list" where
  "lineCandidates m line =
     (case splitN 3 (CHR '':'') line of
        [p0, p1, p2] \<Rightarrow>
          (let relative = cleanCgroupPath p2 in
           (if p0 = ''0'' \<and> p1 = []
            then cgroupLimitPaths (sysPath m ''fs/cgroup'') relative ''memory.max'' else []) @
           (if ''memory'' \<in> set (splitOn (CHR '','') p1)
            then cgroupLimitPaths (sysPath m ''fs/cgroup/memory'') relative ''memory.limit_in_bytes'' @
                 cgroupLimitPaths (sysPath m ''fs/cgroup'') relative ''memory.limit_in_bytes''
            else []))
      | _ \<Rightarrow> [])"

definition memoryCandidates :: "Manager \<Rightarrow> string \<Rightarrow> string list" where
  "memoryCandidates m content =
     concat (map (lineCandidates m) (textLines content)) @
     [sysPath m ''fs/cgroup/memory.max'', sysPath m ''fs/cgroup/memory/memory.limit_in_bytes'']"

text \<open>A limit file's text counts when it is a number below 2^60 and below the visible memory.\<close>

definition usableLimit :: "uint64 \<Rightarrow> string \<Rightarrow> uint64 option" where
  "usableLimit visible value =
     (if value = [] \<or> value = ''max'' then None
      else case parseUint 10 value of
        None \<Rightarrow> None
      | Some limit \<Rightarrow>
          if limit = 0 \<or> limit \<ge> 2 ^ 60 then None
          else if visible > 0 \<and> of_nat limit \<ge> visible then None
          else Some (of_nat limit))"

fun smallestLimit :: "uint64 \<Rightarrow> string list \<Rightarrow> uint64 \<Rightarrow> world \<Rightarrow> uint64 \<times> world" where
  "smallestLimit visible [] smallest w = (smallest, w)"
| "smallestLimit visible (path # paths) smallest w =
     (case readTrimmed path w of
        (value, w1) \<Rightarrow>
          (case usableLimit visible value of
             None \<Rightarrow> smallestLimit visible paths smallest w1
           | Some limit \<Rightarrow>
               smallestLimit visible paths
                 (if smallest = 0 \<or> limit < smallest then limit else smallest) w1))"

definition cgroupMemoryLimit :: "Manager \<Rightarrow> uint64 \<Rightarrow> world \<Rightarrow> uint64 \<times> world" where
  "cgroupMemoryLimit m visible w =
     (case readOrEmpty (procPath m ''self/cgroup'') w of
        (content, w1) \<Rightarrow> smallestLimit visible (memoryCandidates m content) 0 w1)"

section \<open>Processors, interface, capabilities\<close>

text \<open>The number of CPUs of one element of a CPU list, before the 64-bit sum.\<close>

definition cpuRange :: "string \<Rightarrow> int option" where
  "cpuRange part =
     (let bounds = splitN 2 (CHR ''-'') (trimSpace part) in
      case atoi (hd bounds) of
        None \<Rightarrow> None
      | Some start \<Rightarrow>
          if length bounds = 2 then
            (case atoi (bounds ! 1) of
               None \<Rightarrow> None
             | Some end1 \<Rightarrow> if end1 < start then None else Some (end1 - start + 1))
          else Some 1)"

fun cpuSum :: "string list \<Rightarrow> int \<Rightarrow> int" where
  "cpuSum [] count = count"
| "cpuSum (part # parts) count =
     (case cpuRange part of None \<Rightarrow> 0 | Some n \<Rightarrow> cpuSum parts (goInt (count + n)))"

definition cpuListCount :: "string \<Rightarrow> int" where
  "cpuListCount value = cpuSum (splitOn (CHR '','') value) 0"

definition limitCPUs :: "string \<Rightarrow> int \<Rightarrow> int" where
  "limitCPUs line effective =
     (if hasPrefix line ''Cpus_allowed_list:'' then
        (let count = cpuListCount (trimSpace (trimPrefix line ''Cpus_allowed_list:'')) in
         if count > 0 \<and> count < effective then count else effective)
      else effective)"

definition effectiveCPUs :: "Manager \<Rightarrow> int \<Rightarrow> world \<Rightarrow> int \<times> world" where
  "effectiveCPUs m logical w =
     (case readOrEmpty (procPath m ''self/status'') w of
        (status, w1) \<Rightarrow>
          (let effective = fold limitCPUs (textLines status) logical in
           (if effective < 1 then 1 else effective, w1)))"

definition ipv4Route :: "string \<Rightarrow> string option" where
  "ipv4Route line =
     (case GoStrings.fields line of
        f0 # f1 # f2 # f3 # _ \<Rightarrow>
          if f1 = ''00000000'' \<and> odd (parseUintValue 16 f3) then Some f0 else None
      | _ \<Rightarrow> None)"

definition ipv6Route :: "string \<Rightarrow> string option" where
  "ipv6Route line =
     (let fs = GoStrings.fields line in
      if length fs \<ge> 10 \<and> fs ! 0 = replicate 32 (CHR ''0'') \<and> fs ! 1 = ''00'' then Some (last fs)
      else None)"

definition defaultInterface :: "Manager \<Rightarrow> world \<Rightarrow> string \<times> world" where
  "defaultInterface m w =
     (case readOrEmpty (procPath m ''net/route'') w of
        (route, w1) \<Rightarrow>
          (case firstSome ipv4Route (textLines route) of
             Some i \<Rightarrow> (i, w1)
           | None \<Rightarrow>
               (case readOrEmpty (procPath m ''net/ipv6_route'') w1 of
                  (route6, w2) \<Rightarrow>
                    (case firstSome ipv6Route (textLines route6) of
                       Some i \<Rightarrow> (i, w2) | None \<Rightarrow> ([], w2)))))"

definition capEff :: "nat \<Rightarrow> string \<Rightarrow> bool option" where
  "capEff n line =
     (if hasPrefix line ''CapEff:'' then
        Some (case parseUint 16 (trimSpace (trimPrefix line ''CapEff:'')) of
            None \<Rightarrow> False | Some v \<Rightarrow> odd (v div 2 ^ n))
      else None)"

definition hasCapability :: "Manager \<Rightarrow> nat \<Rightarrow> world \<Rightarrow> bool \<times> world" where
  "hasCapability m n w =
     (case readOrEmpty (procPath m ''self/status'') w of
        (content, w1) \<Rightarrow>
          (case firstSome (capEff n) (textLines content) of Some b \<Rightarrow> (b, w1) | None \<Rightarrow> (False, w1)))"

definition fqAvailable :: "Manager \<Rightarrow> string \<Rightarrow> string \<Rightarrow> world \<Rightarrow> bool \<times> world" where
  "fqAvailable m kernelRelease current w =
     (if current = ''fq'' then (True, w)
      else (case pathExists (sysPath m ''module/sch_fq'') w of
          (True, w1) \<Rightarrow> (True, w1)
        | (False, w1) \<Rightarrow>
            (case readOrEmpty (procPath m ''modules'') w1 of
               (modules, w2) \<Rightarrow>
                 if list_ex (\<lambda>l. hasPrefix l ''sch_fq '') (textLines modules) then (True, w2)
                 else (case readOrEmpty (rootPath m (joinPath [''boot'', ''config-'' @ kernelRelease])) w2 of
                     (config, w3) \<Rightarrow> (containsStr config ''CONFIG_NET_SCH_FQ=y'', w3)))))"

section \<open>The survey\<close>

fun readSysctls :: "Manager \<Rightarrow> string list \<Rightarrow> strmap \<Rightarrow> world \<Rightarrow> strmap \<times> world" where
  "readSysctls m [] acc w = (acc, w)"
| "readSysctls m (k # ks) acc w =
     (case readSysctl m k w of (v, w1) \<Rightarrow> readSysctls m ks (mset_key k v acc) w1)"

fun probeWritable ::
  "Manager \<Rightarrow> bool \<Rightarrow> string list \<Rightarrow> (string \<times> bool) list \<Rightarrow> world \<Rightarrow> (string \<times> bool) list \<times> world" where
  "probeWritable m root [] acc w = (acc, w)"
| "probeWritable m root (k # ks) acc w =
     (case (if root then sysctlWritable m k w else (False, w)) of
        (b, w1) \<Rightarrow> probeWritable m root ks (AList.update k b acc) w1)"

text \<open>The effective memory: the visible one, unless a cgroup sets a smaller one.\<close>

definition effectiveMemory :: "uint64 \<Rightarrow> uint64 \<Rightarrow> uint64" where
  "effectiveMemory visible limit =
     (if limit > 0 \<and> (visible = 0 \<or> limit < visible) then limit else visible)"

definition detectEnvironment :: "goLib \<Rightarrow> Manager \<Rightarrow> world \<Rightarrow> EnvironmentProfile \<times> world" where
  "detectEnvironment g m w =
     (case distribution m w of (distro, w1) \<Rightarrow>
     (case readTrimmed (procPath m ''sys/kernel/osrelease'') w1 of (release, w2) \<Rightarrow>
     (case virtualization m w2 of (virt, w3) \<Rightarrow>
     (case visibleMemory m w3 of (visible, w4) \<Rightarrow>
     (case cgroupMemoryLimit m visible w4 of (limit, w5) \<Rightarrow>
     (case effectiveCPUs m (gl_NumCPU g) w5 of (cpus, w6) \<Rightarrow>
     (case defaultInterface m w6 of (iface, w7) \<Rightarrow>
     (case (if iface = [] then ([], w7)
            else readTrimmed (joinPath [op_SysDirectory (mg_options m), ''class/net'', iface, ''mtu'']) w7) of
        (mtu, w8) \<Rightarrow>
          (\<lparr>ev_Distribution = distro, ev_Kernel = release, ev_Architecture = gl_GOARCH g,
            ev_Virtualization = virt, ev_VisibleMemoryBytes = visible, ev_CgroupMemoryLimit = limit,
            ev_EffectiveMemoryBytes = effectiveMemory visible limit, ev_LogicalCPUs = gl_NumCPU g,
            ev_EffectiveCPUs = cpus, ev_Interface = iface,
            ev_MTU = (if iface = [] then 0 else atoiValue mtu),
            ev_MemoryPolicy = memoryPolicy (effectiveMemory visible limit)\<rparr>, w8)))))))))"

definition workloadOf :: "Config \<Rightarrow> WorkloadProfile" where
  "workloadOf c =
     \<lparr>wl_Reality = c_VLESSReality c \<noteq> None, wl_AnyTLS = c_AnyTLS c \<noteq> None,
      wl_Hysteria2 = c_Hysteria2 c \<noteq> None\<rparr>"

definition warningsOf :: "EnvironmentProfile \<Rightarrow> string list" where
  "warningsOf e =
     (if ev_EffectiveMemoryBytes e = 0
      then [''effective RAM could not be detected; buffer tuning remains disabled''] else []) @
     (if ev_Interface e = [] then [''default outbound interface is unknown''] else [])"

definition Detect :: "goLib \<Rightarrow> Manager \<Rightarrow> world \<Rightarrow> Profile res \<times> world" where
  "Detect g m w =
     (case DecodeFile (gl_jsonMsg g) (op_ConfigPath (mg_options m)) w of
        (Inl e, w1) \<Rightarrow> (Inl (Wrap ''tune: cannot read workload: '' e []), w1)
      | (Inr localConfig, w1) \<Rightarrow>
     (let root = mg_isRoot m w1 in
      case detectEnvironment g m w1 of (environment, w2) \<Rightarrow>
     (case readSysctls m (managedKeys @ [KeyAvailableCC]) [] w2 of (sysctls, w3) \<Rightarrow>
     (case hasCapability m 12 w3 of (netAdmin, w4) \<Rightarrow>
     (case probeWritable m root managedKeys [] w4 of (writable, w5) \<Rightarrow>
     (case fqAvailable m (ev_Kernel environment) (mget sysctls KeyDefaultQdisc) w5 of
        (fq, w6) \<Rightarrow>
          (Inr \<lparr>pf_Environment = environment,
               pf_Capabilities = \<lparr>cp_Root = root, cp_NetAdmin = netAdmin, cp_SysctlWritable = writable\<rparr>,
               pf_Workload = workloadOf localConfig, pf_Sysctls = sysctls,
               pf_AvailableCC = GoStrings.fields (mget sysctls KeyAvailableCC), pf_FQAvailable = fq,
               pf_Warnings = warningsOf environment\<rparr>, w6)))))))"

end
