(* ===== verification/TuneState.thy ===== *)
theory TuneState
  imports TuneDetect GoTime
begin

text \<open>
  internal/tune/manager.go, the stored state: the two state files and their JSON form, the
  checks of the state directory, and the reading and writing of files.

  A function that returns a value and an error returns a sum here: the value that accompanies
  an error is not used by any caller.
\<close>

section \<open>State\<close>

definition stateSchema :: int where "stateSchema = 1"

record baselineState =
  bs_Schema :: int
  bs_CreatedAt :: gotime
  bs_ProgramVersion :: string
  bs_Kernel :: string
  bs_Interface :: string
  bs_Values :: strmap

record activeState =
  as_Schema :: int
  as_Phase :: string
  as_UpdatedAt :: gotime
  as_Values :: strmap
  as_SysctlFileHash :: string

definition zeroTime :: gotime where
  "zeroTime = \<lparr>t_year = 1, t_month = 1, t_day = 1, t_hour = 0, t_minute = 0, t_second = 0,
     t_nano = 0, t_offset = 0\<rparr>"

definition zeroBaseline :: baselineState where
  "zeroBaseline = \<lparr>bs_Schema = 0, bs_CreatedAt = zeroTime, bs_ProgramVersion = [], bs_Kernel = [],
     bs_Interface = [], bs_Values = []\<rparr>"

definition zeroActive :: activeState where
  "zeroActive = \<lparr>as_Schema = 0, as_Phase = [], as_UpdatedAt = zeroTime, as_Values = [],
     as_SysctlFileHash = []\<rparr>"

text \<open>\<open>Time.UnmarshalJSON\<close> sees the raw literal.\<close>

definition decodeTime :: "json \<Rightarrow> gotime \<Rightarrow> gotime option" where
  "decodeTime j cur = (case j of JNull \<Rightarrow> Some cur | JStr raw \<Rightarrow> parseTime raw | _ \<Rightarrow> None)"

definition baselineNames :: "string list" where
  "baselineNames = [''schema'', ''created_at'', ''program_version'', ''kernel'', ''interface'', ''values'']"

definition activeNames :: "string list" where
  "activeNames = [''schema'', ''phase'', ''updated_at'', ''values'', ''sysctl_file_sha256'']"

definition storeBaseline :: "string \<Rightarrow> json \<Rightarrow> baselineState \<Rightarrow> baselineState option" where
  "storeBaseline n v s =
     (if n = ''schema'' then map_option (\<lambda>x. s\<lparr>bs_Schema := x\<rparr>) (decodeInt v (bs_Schema s))
      else if n = ''created_at''
        then map_option (\<lambda>x. s\<lparr>bs_CreatedAt := x\<rparr>) (decodeTime v (bs_CreatedAt s))
      else if n = ''program_version''
        then map_option (\<lambda>x. s\<lparr>bs_ProgramVersion := x\<rparr>) (decodeString v (bs_ProgramVersion s))
      else if n = ''kernel'' then map_option (\<lambda>x. s\<lparr>bs_Kernel := x\<rparr>) (decodeString v (bs_Kernel s))
      else if n = ''interface''
        then map_option (\<lambda>x. s\<lparr>bs_Interface := x\<rparr>) (decodeString v (bs_Interface s))
      else if n = ''values'' then map_option (\<lambda>x. s\<lparr>bs_Values := x\<rparr>) (decodeMap v (bs_Values s))
      else None)"

definition storeActive :: "string \<Rightarrow> json \<Rightarrow> activeState \<Rightarrow> activeState option" where
  "storeActive n v s =
     (if n = ''schema'' then map_option (\<lambda>x. s\<lparr>as_Schema := x\<rparr>) (decodeInt v (as_Schema s))
      else if n = ''phase'' then map_option (\<lambda>x. s\<lparr>as_Phase := x\<rparr>) (decodeString v (as_Phase s))
      else if n = ''updated_at''
        then map_option (\<lambda>x. s\<lparr>as_UpdatedAt := x\<rparr>) (decodeTime v (as_UpdatedAt s))
      else if n = ''values'' then map_option (\<lambda>x. s\<lparr>as_Values := x\<rparr>) (decodeMap v (as_Values s))
      else if n = ''sysctl_file_sha256''
        then map_option (\<lambda>x. s\<lparr>as_SysctlFileHash := x\<rparr>) (decodeString v (as_SysctlFileHash s))
      else None)"

definition baselineJson :: "baselineState \<Rightarrow> json" where
  "baselineJson s = JObj
     (jsonField ''schema'' (jsonInt (bs_Schema s)) @
      jsonField ''created_at'' (JStr (timeText (bs_CreatedAt s))) @
      jsonField ''program_version'' (jsonString (bs_ProgramVersion s)) @
      jsonField ''kernel'' (jsonString (bs_Kernel s)) @
      omitEmptyString ''interface'' (bs_Interface s) @
      jsonField ''values'' (jsonMap (bs_Values s)))"

definition activeJson :: "activeState \<Rightarrow> json" where
  "activeJson s = JObj
     (jsonField ''schema'' (jsonInt (as_Schema s)) @
      jsonField ''phase'' (jsonString (as_Phase s)) @
      jsonField ''updated_at'' (JStr (timeText (as_UpdatedAt s))) @
      jsonField ''values'' (jsonMap (as_Values s)) @
      jsonField ''sysctl_file_sha256'' (jsonString (as_SysctlFileHash s)))"

text \<open>\<open>json.MarshalIndent\<close> and the newline after it; it fails only for the year of a time.\<close>

definition marshalWith :: "gotime \<Rightarrow> json \<Rightarrow> string res" where
  "marshalWith t j =
     (case marshalTime t of
        None \<Rightarrow> Inl (Errorf (''json: error calling MarshalJSON for type time.Time: '' @
                  ''Time.MarshalJSON: year outside of range [0,9999]''))
      | Some _ \<Rightarrow> Inr (pretty 0 j @ nl))"

definition baselineText :: "baselineState \<Rightarrow> string res" where
  "baselineText s = marshalWith (bs_CreatedAt s) (baselineJson s)"

definition activeText :: "activeState \<Rightarrow> string res" where
  "activeText s = marshalWith (as_UpdatedAt s) (activeJson s)"

section \<open>Files\<close>

text \<open>\<open>info.Mode()&os.ModeSymlink != 0 || !info.Mode().IsRegular()\<close>.\<close>

definition unsafeFile :: "inode \<Rightarrow> bool" where
  "unsafeFile info = (isSymlink info \<or> \<not> isRegular info)"

definition unsafeDirectory :: "inode \<Rightarrow> bool" where
  "unsafeDirectory info = (isSymlink info \<or> \<not> isDir info)"

definition readLimitedFile :: "string \<Rightarrow> nat \<Rightarrow> world \<Rightarrow> string res \<times> world" where
  "readLimitedFile path limit w =
     (case sys_open path w of
        (Inl e, w1) \<Rightarrow> (Inl e, w1)
      | (Inr h, w1) \<Rightarrow>
          (case sys_read h w1 of
             (Inl e, w2) \<Rightarrow> (Inl e, w2)
           | (Inr all, w2) \<Rightarrow>
               (let content = take (limit + 1) all in
                if length content > limit
                then (Inl (Errorf (''file exceeds '' @ natText limit @ '' bytes'')), w2)
                else (Inr content, w2))))"

definition stateLimit :: nat where "stateLimit = 2 ^ 20"

text \<open>The result is \<open>None\<close> when the file does not exist.\<close>

definition readJSONFile ::
  "goLib \<Rightarrow> string list \<Rightarrow> (string \<Rightarrow> json \<Rightarrow> 'a \<Rightarrow> 'a option) \<Rightarrow> 'a \<Rightarrow> string \<Rightarrow> world \<Rightarrow> 'a option res \<times> world" where
  "readJSONFile g names store zero path w =
     (case sys_lstat path w of
        (Inl e, w1) \<Rightarrow> (if is_not_exist e then Inr None else Inl e, w1)
      | (Inr info, w1) \<Rightarrow>
          if unsafeFile info then (Inl (Errorf (''unsafe state file: '' @ path)), w1)
          else (case readLimitedFile path stateLimit w1 of
              (Inl e, w2) \<Rightarrow> (Inl e, w2)
            | (Inr content, w2) \<Rightarrow>
                (case readDocument (decodeStruct names store) zero content of
                   BadDocument \<Rightarrow>
                     (Inl (Wrap (''decode '' @ path @ '': '') (Errorf (gl_jsonMsg g content)) []), w2)
                 | TrailingData \<Rightarrow> (Inl (Errorf (''decode '' @ path @ '': trailing data'')), w2)
                 | Document x \<Rightarrow> (Inr (Some x), w2))))"

text \<open>Write, sync and close an open file; the first error is the result.\<close>

definition fillFile :: "string \<Rightarrow> string \<Rightarrow> world \<Rightarrow> unit res \<times> world" where
  "fillFile h content w =
     (case (case sys_write h content w of
              (Inl e, w1) \<Rightarrow> (Inl e, w1)
            | (Inr _, w1) \<Rightarrow> sys_flush ''sync'' h w1) of
        (r, w2) \<Rightarrow>
          (case sys_flush ''close'' h w2 of
             (c, w3) \<Rightarrow> (case r of Inl e \<Rightarrow> (Inl e, w3) | Inr _ \<Rightarrow> (c, w3))))"

definition writeNew :: "string \<Rightarrow> string \<Rightarrow> filemode \<Rightarrow> world \<Rightarrow> unit res \<times> world" where
  "writeNew path content mode w =
     (case sys_createExcl path mode w of
        (Inl e, w1) \<Rightarrow> (Inl e, w1)
      | (Inr _, w1) \<Rightarrow> fillFile path content w1)"

definition writeJSONNew :: "string \<Rightarrow> string res \<Rightarrow> filemode \<Rightarrow> world \<Rightarrow> unit res \<times> world" where
  "writeJSONNew path marshalled mode w =
     (case marshalled of Inl e \<Rightarrow> (Inl e, w) | Inr content \<Rightarrow> writeNew path content mode w)"

definition temporaryName :: "string \<Rightarrow> world \<Rightarrow> string" where
  "temporaryName path w = path @ ''.tmp.'' @ natText (pid w)"

definition atomicWrite :: "string \<Rightarrow> string \<Rightarrow> filemode \<Rightarrow> world \<Rightarrow> unit res \<times> world" where
  "atomicWrite path content mode w =
     (let temporary = temporaryName path w in
      case sys_createExcl temporary mode w of
        (Inl e, w1) \<Rightarrow> (Inl e, w1)
      | (Inr _, w1) \<Rightarrow>
          (case (case fillFile temporary content w1 of
                   (Inl e, w2) \<Rightarrow> (Inl e, w2)
                 | (Inr _, w2) \<Rightarrow> sys_rename temporary path w2) of
             (Inl e, w3) \<Rightarrow> (case sys_remove temporary w3 of (_, w4) \<Rightarrow> (Inl e, w4))
           | (Inr _, w3) \<Rightarrow> (Inr (), w3)))"

definition writeJSONAtomic :: "string \<Rightarrow> string res \<Rightarrow> filemode \<Rightarrow> world \<Rightarrow> unit res \<times> world" where
  "writeJSONAtomic path marshalled mode w =
     (case marshalled of Inl e \<Rightarrow> (Inl e, w) | Inr content \<Rightarrow> atomicWrite path content mode w)"

text \<open>Whether a path exists, and whether it is then unsafe.\<close>

definition pathState :: "string \<Rightarrow> world \<Rightarrow> (bool \<times> bool) res \<times> world" where
  "pathState path w =
     (case sys_lstat path w of
        (Inl e, w1) \<Rightarrow> (if is_not_exist e then Inr (False, False) else Inl e, w1)
      | (Inr info, w1) \<Rightarrow> (Inr (True, unsafeFile info), w1))"

section \<open>The state directory\<close>

definition stateDir :: "Manager \<Rightarrow> string" where
  "stateDir m = op_StateDirectory (mg_options m)"

definition ensureStateDirectory :: "Manager \<Rightarrow> world \<Rightarrow> unit res \<times> world" where
  "ensureStateDirectory m w =
     (case sys_mkdirAll (stateDir m) o700 w of
        (Inl e, w1) \<Rightarrow> (Inl (Wrap ''create tuning state directory: '' e []), w1)
      | (Inr _, w1) \<Rightarrow>
          (case sys_lstat (stateDir m) w1 of
             (Inl e, w2) \<Rightarrow> (Inl e, w2)
           | (Inr info, w2) \<Rightarrow>
               if unsafeDirectory info
               then (Inl (Errorf (''unsafe tuning state directory: '' @ stateDir m)), w2)
               else if \<not> mg_stateOwner m info
               then (Inl (Errorf (''tuning state directory is not owned by root: '' @ stateDir m)), w2)
               else sys_chmod (stateDir m) o700 w2))"

definition checkStateDirectory :: "Manager \<Rightarrow> world \<Rightarrow> unit res \<times> world" where
  "checkStateDirectory m w =
     (case sys_lstat (stateDir m) w of
        (Inl e, w1) \<Rightarrow> (if is_not_exist e then Inr () else Inl e, w1)
      | (Inr info, w1) \<Rightarrow>
          (if unsafeDirectory info \<or> \<not> stateDirectoryModeSecure info
           then Inl (Errorf (''unsafe tuning state directory: '' @ stateDir m))
           else if \<not> mg_stateOwner m info
           then Inl (Errorf (''tuning state directory is not owned by root: '' @ stateDir m))
           else Inr (), w1))"

definition baselinePath :: "Manager \<Rightarrow> string" where
  "baselinePath m = joinPath [stateDir m, ''baseline.json'']"

definition activePath :: "Manager \<Rightarrow> string" where
  "activePath m = joinPath [stateDir m, ''active.json'']"

text \<open>
  Go visits a map in no fixed order; which of several bad entries the error names is the only
  thing that depends on it. The model takes the order of the list.
\<close>

fun validateStateValues :: "strmap \<Rightarrow> unit res" where
  "validateStateValues [] = Inr ()"
| "validateStateValues ((key, value) # vs) =
     (if key \<notin> set managedKeys then Inl (Errorf (''unmanaged key '' @ goQuote key))
      else if value = [] \<or> containsAny value [CHR 0x0D, CHR 0x0A, CHR 0x00]
      then Inl (Errorf (''unsafe value for '' @ key))
      else validateStateValues vs)"

definition checkBaseline :: "baselineState \<Rightarrow> unit res" where
  "checkBaseline s =
     (if bs_Schema s \<noteq> stateSchema \<or> bs_Values s = []
      then Inl (Errorf ''invalid tuning baseline schema or values'')
      else case validateStateValues (bs_Values s) of
        Inl e \<Rightarrow> Inl (Wrap ''invalid tuning baseline: '' e [])
      | Inr _ \<Rightarrow> Inr ())"

definition checkActive :: "activeState \<Rightarrow> unit res" where
  "checkActive s =
     (if as_Schema s \<noteq> stateSchema \<or> as_Values s = [] \<or> as_SysctlFileHash s = []
      then Inl (Errorf ''invalid active tuning state'')
      else case validateStateValues (as_Values s) of
        Inl e \<Rightarrow> Inl (Wrap ''invalid active tuning state: '' e [])
      | Inr _ \<Rightarrow>
          if length (as_SysctlFileHash s) \<noteq> 64 then Inl (Errorf ''invalid active tuning state hash'')
          else if hexDecode (as_SysctlFileHash s) = None
          then Inl (Errorf ''invalid active tuning state hash'')
          else Inr ())"

text \<open>The common shape of \<open>loadBaseline\<close> and \<open>loadActive\<close>.\<close>

definition loadState ::
  "goLib \<Rightarrow> Manager \<Rightarrow> string list \<Rightarrow> (string \<Rightarrow> json \<Rightarrow> 'a \<Rightarrow> 'a option) \<Rightarrow> 'a \<Rightarrow> ('a \<Rightarrow> unit res) \<Rightarrow>
     string \<Rightarrow> world \<Rightarrow> 'a option res \<times> world" where
  "loadState g m names store zero check path w =
     (case checkStateDirectory m w of
        (Inl e, w1) \<Rightarrow> (Inl e, w1)
      | (Inr _, w1) \<Rightarrow>
          (case readJSONFile g names store zero path w1 of
             (Inl e, w2) \<Rightarrow> (Inl e, w2)
           | (Inr None, w2) \<Rightarrow> (Inr None, w2)
           | (Inr (Some s), w2) \<Rightarrow>
               (case check s of Inl e \<Rightarrow> (Inl e, w2) | Inr _ \<Rightarrow> (Inr (Some s), w2))))"

definition loadBaseline :: "goLib \<Rightarrow> Manager \<Rightarrow> world \<Rightarrow> baselineState option res \<times> world" where
  "loadBaseline g m =
     loadState g m baselineNames storeBaseline zeroBaseline checkBaseline (baselinePath m)"

definition loadActive :: "goLib \<Rightarrow> Manager \<Rightarrow> world \<Rightarrow> activeState option res \<times> world" where
  "loadActive g m = loadState g m activeNames storeActive zeroActive checkActive (activePath m)"

section \<open>The managed file\<close>

definition sysctlFile :: "Manager \<Rightarrow> string" where
  "sysctlFile m = op_SysctlFile (mg_options m)"

definition contentHash :: "goLib \<Rightarrow> string \<Rightarrow> string" where
  "contentHash g content = hexEncode (gl_sha256 g content)"

definition managedHeader :: string where
  "managedHeader =
     ''# Managed by mini-singbox tune. Do not edit; use mini-singbox tune rollback.'' @ nl"

definition managedSysctlContent :: "strmap \<Rightarrow> string" where
  "managedSysctlContent vals =
     managedHeader @
     concat (map (\<lambda>key. case map_of vals key of
         None \<Rightarrow> [] | Some value \<Rightarrow> key @ '' = '' @ value @ nl) managedKeys)"

definition writeManagedFile :: "Manager \<Rightarrow> string \<Rightarrow> world \<Rightarrow> unit res \<times> world" where
  "writeManagedFile m content w =
     (let parent = dirName (sysctlFile m) in
      case sys_mkdirAll parent o755 w of
        (Inl e, w1) \<Rightarrow> (Inl e, w1)
      | (Inr _, w1) \<Rightarrow>
          (case sys_lstat parent w1 of
             (Inl e, w2) \<Rightarrow> (Inl e, w2)
           | (Inr parentInfo, w2) \<Rightarrow>
               if unsafeDirectory parentInfo
               then (Inl (Errorf (''unsafe managed sysctl directory: '' @ parent)), w2)
               else if \<not> mg_stateOwner m parentInfo \<or> \<not> persistenceDirectoryModeSecure parentInfo
               then (Inl (Errorf (''managed sysctl directory is not root-owned and protected from group/world writes: ''
                       @ parent)), w2)
               else (case sys_lstat (sysctlFile m) w2 of
                   (Inl e, w3) \<Rightarrow>
                     if is_not_exist e then atomicWrite (sysctlFile m) content o644 w3 else (Inl e, w3)
                 | (Inr info, w3) \<Rightarrow>
                     if unsafeFile info
                     then (Inl (Errorf (''unsafe managed sysctl path: '' @ sysctlFile m)), w3)
                     else atomicWrite (sysctlFile m) content o644 w3)))"

definition removeManagedFile :: "goLib \<Rightarrow> Manager \<Rightarrow> string \<Rightarrow> world \<Rightarrow> unit res \<times> world" where
  "removeManagedFile g m expectedHash w =
     (case sys_lstat (sysctlFile m) w of
        (Inl e, w1) \<Rightarrow> (if is_not_exist e then Inr () else Inl e, w1)
      | (Inr info, w1) \<Rightarrow>
          if unsafeFile info
          then (Inl (Errorf ''refusing to remove unsafe managed sysctl path''), w1)
          else (case readLimitedFile (sysctlFile m) stateLimit w1 of
              (Inl e, w2) \<Rightarrow> (Inl e, w2)
            | (Inr content, w2) \<Rightarrow>
                if contentHash g content \<noteq> expectedHash
                then (Inl (Errorf ''refusing to remove externally changed managed sysctl file''), w2)
                else sys_remove (sysctlFile m) w2))"

text \<open>\<open>New\<close>: the default functions, with \<open>persist\<close> bound to the manager itself.\<close>

definition New :: "Options \<Rightarrow> Manager" where
  "New o1 =
     (let m = \<lparr>mg_options = withDefaults o1, mg_now = sys_now, mg_isRoot = processIsRoot,
            mg_stateOwner = fileOwnedByRoot, mg_persist = (\<lambda>_ w. (Inr (), w))\<rparr>
      in m\<lparr>mg_persist := writeManagedFile m\<rparr>)"

end
