(* ===== verification/TuneManager.thy ===== *)
theory TuneManager
  imports TuneState
begin

text \<open>
  internal/tune/manager.go, the operations: \<open>Plan\<close>, \<open>Apply\<close> with its recovery, \<open>Verify\<close> and
  \<open>Rollback\<close>.
\<close>

section \<open>Writing one sysctl\<close>

definition writeSysctl :: "Manager \<Rightarrow> string \<Rightarrow> string \<Rightarrow> world \<Rightarrow> unit res \<times> world" where
  "writeSysctl m key value w =
     (let path = sysctlPath m key in
      case sys_lstat path w of
        (Inl e, w1) \<Rightarrow> (Inl e, w1)
      | (Inr info, w1) \<Rightarrow>
          if unsafeFile info then (Inl (Errorf (''unsafe sysctl path '' @ path)), w1)
          else (case sys_openWrite path True w1 of
              (Inl e, w2) \<Rightarrow> (Inl e, w2)
            | (Inr h, w2) \<Rightarrow>
                (case sys_write h value w2 of
                   (r, w3) \<Rightarrow>
                     (case sys_flush ''close'' h w3 of
                        (c, w4) \<Rightarrow> (case r of Inl e \<Rightarrow> (Inl e, w4) | Inr _ \<Rightarrow> (c, w4))))))"

section \<open>Verify\<close>

record VerifyResult =
  vr_Managed :: bool
  vr_Phase :: string
  vr_Drift :: "string list"

fun driftOf :: "Manager \<Rightarrow> strmap \<Rightarrow> string list \<Rightarrow> world \<Rightarrow> string list \<times> world" where
  "driftOf m vals [] w = ([], w)"
| "driftOf m vals (key # keys) w =
     (case readSysctl m key w of
        (actual, w1) \<Rightarrow>
          (case driftOf m vals keys w1 of
             (drift, w2) \<Rightarrow>
               ((if actual \<noteq> mget vals key
                 then [key @ '': current='' @ goQuote actual @ '' managed='' @ goQuote (mget vals key)]
                 else []) @ drift, w2)))"

definition verifyActive :: "goLib \<Rightarrow> Manager \<Rightarrow> activeState \<Rightarrow> world \<Rightarrow> VerifyResult res \<times> world" where
  "verifyActive g m active w =
     (case driftOf m (as_Values active) (sortedKeysOf (as_Values active)) w of
        (values_drift, w1) \<Rightarrow>
          (let drift = (if as_Phase active \<noteq> ''active''
                 then [''an incomplete tune apply transaction is recorded''] else []) @ values_drift;
               result = (\<lambda>more. \<lparr>vr_Managed = True, vr_Phase = as_Phase active, vr_Drift = drift @ more\<rparr>)
           in case sys_lstat (sysctlFile m) w1 of
                (Inl e, w2) \<Rightarrow>
                  if is_not_exist e then (Inr (result [''managed sysctl file is missing'']), w2)
                  else (Inl (Wrap ''inspect managed sysctl file: '' e []), w2)
              | (Inr info, w2) \<Rightarrow>
                  if unsafeFile info
                  then (Inr (result [''managed sysctl path is not a regular file'']), w2)
                  else (case readLimitedFile (sysctlFile m) stateLimit w2 of
                      (Inl e, w3) \<Rightarrow> (Inl (Wrap ''read managed sysctl file: '' e []), w3)
                    | (Inr content, w3) \<Rightarrow>
                        (Inr (result (if contentHash g content \<noteq> as_SysctlFileHash active
                             then [''managed sysctl file content changed outside mini-singbox''] else [])), w3))))"

definition noVerification :: VerifyResult where
  "noVerification = \<lparr>vr_Managed = False, vr_Phase = [], vr_Drift = []\<rparr>"

definition Verify :: "goLib \<Rightarrow> Manager \<Rightarrow> world \<Rightarrow> VerifyResult res \<times> world" where
  "Verify g m w =
     (case loadActive g m w of
        (Inl e, w1) \<Rightarrow> (Inl e, w1)
      | (Inr None, w1) \<Rightarrow> (Inr noVerification, w1)
      | (Inr (Some active), w1) \<Rightarrow> verifyActive g m active w1)"

section \<open>Plan and Apply\<close>

definition makePlan :: "goLib \<Rightarrow> Manager \<Rightarrow> Inputs \<Rightarrow> world \<Rightarrow> Plan res \<times> world" where
  "makePlan g m inputs w =
     (case Detect g m w of
        (Inl e, w1) \<Rightarrow> (Inl e, w1)
      | (Inr profile, w1) \<Rightarrow> (BuildPlan profile inputs, w1))"

record ApplyResult =
  ar_Plan :: Plan
  ar_Changed :: "string list"
  ar_DryRun :: bool

definition requestedOf :: "TuneAction list \<Rightarrow> strmap" where
  "requestedOf actions =
     fold (\<lambda>a m. if ta_Action a = ActionSet \<and> ta_Confidence a = ConfidenceHigh
                 then mset_key (ta_Key a) (ta_ProposedValue a) m else m) actions []"

definition containers :: "string list" where
  "containers = [''docker'', ''podman'', ''containerd'', ''kubernetes'', ''lxc'', ''openvz'']"

definition driftError :: error where
  "driftError = Errorf (''managed tuning has drift; run 'mini-singbox tune status' '' @
     ''and rollback before reapplying'')"

text \<open>The checks of a plan against tuning that is active already; it changes nothing.\<close>

definition reapply ::
  "goLib \<Rightarrow> Manager \<Rightarrow> activeState \<Rightarrow> strmap \<Rightarrow> ApplyResult \<Rightarrow> world \<Rightarrow> ApplyResult res \<times> world" where
  "reapply g m active requested result w =
     (case verifyActive g m active w of
        (Inl e, w1) \<Rightarrow> (Inl e, w1)
      | (Inr verification, w1) \<Rightarrow>
          if vr_Drift verification \<noteq> [] then (Inl driftError, w1)
          else (case find (\<lambda>(k, v). mget (as_Values active) k \<noteq> v) requested of
              Some (k, _) \<Rightarrow>
                (Inl (Errorf (''tuning plan changed for '' @ k @ ''; rollback before applying a new plan'')), w1)
            | None \<Rightarrow> (Inr result, w1)))"

text \<open>The baseline values: the observed values that are not empty.\<close>

definition baselineValues :: "strmap \<Rightarrow> strmap" where
  "baselineValues sysctls =
     fold (\<lambda>key m. if mget sysctls key \<noteq> [] then mset_key key (mget sysctls key) m else m)
       managedKeys []"

definition freeSysctlFile :: "Manager \<Rightarrow> string \<Rightarrow> string \<Rightarrow> world \<Rightarrow> unit res \<times> world" where
  "freeSysctlFile m prefix suffix w =
     (case pathState (sysctlFile m) w of
        (Inl e, w1) \<Rightarrow> (Inl e, w1)
      | (Inr (exists, unsafe), w1) \<Rightarrow>
          if exists \<or> unsafe then (Inl (Errorf (prefix @ sysctlFile m @ suffix)), w1) else (Inr (), w1))"

definition establishBaseline :: "Manager \<Rightarrow> Profile \<Rightarrow> world \<Rightarrow> baselineState res \<times> world" where
  "establishBaseline m profile w =
     (case freeSysctlFile m ''cannot safely establish pre-tune baseline: '' '' already exists'' w of
        (Inl e, w1) \<Rightarrow> (Inl e, w1)
      | (Inr _, w1) \<Rightarrow>
          (case mg_now m w1 of
             (t, w2) \<Rightarrow>
               (let baseline = \<lparr>bs_Schema = stateSchema, bs_CreatedAt = t,
                      bs_ProgramVersion = op_ProgramVersion (mg_options m),
                      bs_Kernel = ev_Kernel (pf_Environment profile),
                      bs_Interface = ev_Interface (pf_Environment profile),
                      bs_Values = baselineValues (pf_Sysctls profile)\<rparr>
                in case writeJSONNew (baselinePath m) (baselineText baseline) o600 w2 of
                     (Inl e, w3) \<Rightarrow> (Inl (Wrap ''create immutable tuning baseline: '' e []), w3)
                   | (Inr _, w3) \<Rightarrow> (Inr baseline, w3))))"

fun checkCurrent :: "Manager \<Rightarrow> strmap \<Rightarrow> world \<Rightarrow> unit res \<times> world" where
  "checkCurrent m [] w = (Inr (), w)"
| "checkCurrent m ((key, original) # vs) w =
     (case readSysctl m key w of
        (current, w1) \<Rightarrow>
          if current \<noteq> original
          then (Inl (Errorf (''cannot reuse incomplete baseline: '' @ key @ '' is '' @ goQuote current @
                  '', expected '' @ goQuote original)), w1)
          else checkCurrent m vs w1)"

definition reuseBaseline :: "Manager \<Rightarrow> baselineState \<Rightarrow> world \<Rightarrow> baselineState res \<times> world" where
  "reuseBaseline m baseline w =
     (case freeSysctlFile m ''cannot reuse incomplete baseline while ''
             '' exists without active ownership state'' w of
        (Inl e, w1) \<Rightarrow> (Inl e, w1)
      | (Inr _, w1) \<Rightarrow>
          (case checkCurrent m (bs_Values baseline) w1 of
             (Inl e, w2) \<Rightarrow> (Inl e, w2)
           | (Inr _, w2) \<Rightarrow> (Inr baseline, w2)))"

text \<open>
  Writing the requested values in the order of the managed keys, each read back. The result
  holds the keys recorded as changed, and the error that ended the loop if any.
\<close>

fun applyKeys ::
  "Manager \<Rightarrow> strmap \<Rightarrow> string list \<Rightarrow> string list \<Rightarrow> world \<Rightarrow> (error option \<times> string list) \<times> world" where
  "applyKeys m requested [] changed w = ((None, changed), w)"
| "applyKeys m requested (key # keys) changed w =
     (case map_of requested key of
        None \<Rightarrow> applyKeys m requested keys changed w
      | Some value \<Rightarrow>
          (case writeSysctl m key value w of
             (Inl e, w1) \<Rightarrow> ((Some (Wrap (''apply '' @ key @ ''='' @ value @ '': '') e []), changed), w1)
           | (Inr _, w1) \<Rightarrow>
               (case readSysctl m key w1 of
                  (actual, w2) \<Rightarrow>
                    if actual \<noteq> value
                    then ((Some (Errorf (''verify '' @ key @ '': read '' @ goQuote actual @ '' after writing '' @
                              goQuote value)), changed @ [key]), w2)
                    else applyKeys m requested keys (changed @ [key]) w2)))"

text \<open>From the first sysctl write to the commit of the state file.\<close>

definition transaction ::
  "Manager \<Rightarrow> activeState \<Rightarrow> string \<Rightarrow> world \<Rightarrow> (error option \<times> string list) \<times> world" where
  "transaction m active content w =
     (case applyKeys m (as_Values active) managedKeys [] w of
        ((Some e, changed), w1) \<Rightarrow> ((Some e, changed), w1)
      | ((None, changed), w1) \<Rightarrow>
          (case mg_persist m content w1 of
             (Inl e, w2) \<Rightarrow> ((Some (Wrap ''persist tuning: '' e []), changed), w2)
           | (Inr _, w2) \<Rightarrow>
               (case mg_now m w2 of
                  (t, w3) \<Rightarrow>
                    (case writeJSONAtomic (activePath m)
                            (activeText (active\<lparr>as_Phase := ''active'', as_UpdatedAt := t\<rparr>)) o600 w3 of
                       (Inl e, w4) \<Rightarrow> ((Some (Wrap ''commit tuning state: '' e []), changed), w4)
                     | (Inr _, w4) \<Rightarrow> ((None, changed), w4)))))"

text \<open>
  \<open>recoverApply\<close>: the loop over the changed keys, last first, then the managed file. The result
  is the list of failures.
\<close>

fun restoreKeys ::
  "Manager \<Rightarrow> strmap \<Rightarrow> strmap \<Rightarrow> string list \<Rightarrow> world \<Rightarrow> string list \<times> world" where
  "restoreKeys m originals managed [] w = ([], w)"
| "restoreKeys m originals managed (key # keys) w =
     (case readSysctl m key w of
        (current, w1) \<Rightarrow>
          (case (if current \<noteq> mget managed key then ([key @ '': value drifted during recovery''], w1)
                 else (case writeSysctl m key (mget originals key) w1 of
                     (Inl e, w2) \<Rightarrow> ([key @ '': '' @ error_text e], w2)
                   | (Inr _, w2) \<Rightarrow> ([], w2))) of
             (failure, w3) \<Rightarrow>
               (case restoreKeys m originals managed keys w3 of
                  (failures, w4) \<Rightarrow> (failure @ failures, w4))))"

definition recoverFile :: "goLib \<Rightarrow> Manager \<Rightarrow> string \<Rightarrow> world \<Rightarrow> string list \<times> world" where
  "recoverFile g m hash w =
     (case pathState (sysctlFile m) w of
        (Inl e, w1) \<Rightarrow> ([''inspect managed sysctl file: '' @ error_text e], w1)
      | (Inr (exists, unsafe), w1) \<Rightarrow>
          if \<not> exists then ([], w1)
          else if unsafe then ([''managed sysctl path became unsafe''], w1)
          else (case readLimitedFile (sysctlFile m) stateLimit w1 of
              (Inl e, w2) \<Rightarrow> ([''read managed sysctl file: '' @ error_text e], w2)
            | (Inr content, w2) \<Rightarrow>
                if contentHash g content \<noteq> hash
                then ([''managed sysctl file changed during recovery''], w2)
                else (case sys_remove (sysctlFile m) w2 of
                    (Inl e, w3) \<Rightarrow> ([''remove managed sysctl file: '' @ error_text e], w3)
                  | (Inr _, w3) \<Rightarrow> ([], w3))))"

definition recoverApply ::
  "goLib \<Rightarrow> Manager \<Rightarrow> baselineState \<Rightarrow> activeState \<Rightarrow> string list \<Rightarrow> world \<Rightarrow> unit res \<times> world" where
  "recoverApply g m baseline active changed w =
     (case restoreKeys m (bs_Values baseline) (as_Values active) (rev changed) w of
        (failures1, w1) \<Rightarrow>
          (case recoverFile g m (as_SysctlFileHash active) w1 of
             (failures2, w2) \<Rightarrow>
               if failures1 @ failures2 = []
               then (case sys_remove (activePath m) w2 of (_, w3) \<Rightarrow> (Inr (), w3))
               else (Inl (Errorf (joinWith ''; '' (failures1 @ failures2))), w2)))"

text \<open>The part of \<open>Apply\<close> that changes the system, with the deferred recovery at its end.\<close>

definition runTransaction ::
  "goLib \<Rightarrow> Manager \<Rightarrow> baselineState \<Rightarrow> strmap \<Rightarrow> ApplyResult \<Rightarrow> world \<Rightarrow> ApplyResult res \<times> world" where
  "runTransaction g m baseline requested result w =
     (let content = managedSysctlContent requested in
      case mg_now m w of
        (t, w1) \<Rightarrow>
          (let active = \<lparr>as_Schema = stateSchema, as_Phase = ''applying'', as_UpdatedAt = t,
                 as_Values = requested, as_SysctlFileHash = contentHash g content\<rparr>
           in case writeJSONAtomic (activePath m) (activeText active) o600 w1 of
                (Inl e, w2) \<Rightarrow> (Inl (Wrap ''record tuning transaction: '' e []), w2)
              | (Inr _, w2) \<Rightarrow>
                  (case transaction m active content w2 of
                     ((None, changed), w3) \<Rightarrow> (Inr (result\<lparr>ar_Changed := changed\<rparr>), w3)
                   | ((Some e, changed), w3) \<Rightarrow>
                       (case recoverApply g m baseline active changed w3 of
                          (Inr _, w4) \<Rightarrow> (Inl e, w4)
                        | (Inl re, w4) \<Rightarrow>
                            (Inl (Wrap [] e (''; automatic recovery also failed: '' @ error_text re)), w4)))))"

definition applyRoot ::
  "goLib \<Rightarrow> Manager \<Rightarrow> Plan \<Rightarrow> strmap \<Rightarrow> ApplyResult \<Rightarrow> world \<Rightarrow> ApplyResult res \<times> world" where
  "applyRoot g m plan requested result w =
     (case ensureStateDirectory m w of
        (Inl e, w1) \<Rightarrow> (Inl e, w1)
      | (Inr _, w1) \<Rightarrow>
     (case loadBaseline g m w1 of
        (Inl e, w2) \<Rightarrow> (Inl e, w2)
      | (Inr stored, w2) \<Rightarrow>
     (case loadActive g m w2 of
        (Inl e, w3) \<Rightarrow> (Inl e, w3)
      | (Inr (Some active), w3) \<Rightarrow> reapply g m active requested result w3
      | (Inr None, w3) \<Rightarrow>
     (case (case stored of
              None \<Rightarrow> establishBaseline m (pl_Profile plan) w3
            | Some baseline \<Rightarrow> reuseBaseline m baseline w3) of
        (Inl e, w4) \<Rightarrow> (Inl e, w4)
      | (Inr baseline, w4) \<Rightarrow> runTransaction g m baseline requested result w4))))"

definition Apply ::
  "goLib \<Rightarrow> Manager \<Rightarrow> Inputs \<Rightarrow> bool \<Rightarrow> world \<Rightarrow> ApplyResult res \<times> world" where
  "Apply g m inputs dryRun w =
     (case makePlan g m inputs w of
        (Inl e, w1) \<Rightarrow> (Inl e, w1)
      | (Inr plan, w1) \<Rightarrow>
          (let requested = requestedOf (pl_Actions plan);
               result = \<lparr>ar_Plan = plan, ar_Changed = [], ar_DryRun = dryRun\<rparr>;
               virt = ev_Virtualization (pf_Environment (pl_Profile plan))
           in if dryRun then (Inr result, w1)
              else if virt \<in> set containers
              then (Inl (Errorf (''tune apply is disabled inside '' @ virt @
                      '' containers; tune the host instead'')), w1)
              else if requested = []
              then (case Verify g m w1 of
                  (Inl e, w2) \<Rightarrow> (Inl e, w2)
                | (Inr verification, w2) \<Rightarrow>
                    if vr_Drift verification \<noteq> [] then (Inl driftError, w2) else (Inr result, w2))
              else if \<not> cp_Root (pf_Capabilities (pl_Profile plan))
              then (Inl (Errorf ''tune apply requires root''), w1)
              else applyRoot g m plan requested result w1))"

section \<open>Rollback\<close>

text \<open>One key of the loop: the key if it was restored, or the reason why it was not.\<close>

definition rollbackKey ::
  "Manager \<Rightarrow> strmap \<Rightarrow> strmap \<Rightarrow> string \<Rightarrow> world \<Rightarrow> (string list \<times> string list) \<times> world" where
  "rollbackKey m originals managed key w =
     (case map_of originals key of
        None \<Rightarrow> (([], [key @ '': baseline value missing'']), w)
      | Some original \<Rightarrow>
          (case readSysctl m key w of
             (current, w1) \<Rightarrow>
               if current = original then (([], []), w1)
               else if current \<noteq> mget managed key
               then (([], [key @ '': current='' @ goQuote current @ '' is not managed='' @
                           goQuote (mget managed key)]), w1)
               else (case writeSysctl m key original w1 of
                   (Inl e, w2) \<Rightarrow> (([], [key @ '': restore failed: '' @ error_text e]), w2)
                 | (Inr _, w2) \<Rightarrow>
                     (case readSysctl m key w2 of
                        (actual, w3) \<Rightarrow>
                          if actual \<noteq> original
                          then (([], [key @ '': restore verification read '' @ goQuote actual]), w3)
                          else (([key], []), w3)))))"

text \<open>
  The loop over the managed keys in sorted order: the restored keys and the reasons why others
  were not.
\<close>

fun rollbackKeys ::
  "Manager \<Rightarrow> strmap \<Rightarrow> strmap \<Rightarrow> string list \<Rightarrow> world \<Rightarrow> (string list \<times> string list) \<times> world" where
  "rollbackKeys m originals managed [] w = (([], []), w)"
| "rollbackKeys m originals managed (key # keys) w =
     (case rollbackKey m originals managed key w of
        ((restored1, drift1), w1) \<Rightarrow>
          (case rollbackKeys m originals managed keys w1 of
             ((restored2, drift2), w2) \<Rightarrow> ((restored1 @ restored2, drift1 @ drift2), w2)))"

text \<open>\<open>t.UTC().UnixNano()\<close>.\<close>

definition daysBefore :: "nat \<Rightarrow> nat \<Rightarrow> int" where
  "daysBefore y mo =
     (let p = int y - 1 in
      365 * p + p div 4 - p div 100 + p div 400 +
      int (sum_list (map (\<lambda>i. daysIn i y) [1..<mo])) - 719162)"

definition unixNano :: "gotime \<Rightarrow> int" where
  "unixNano t =
     (let days = daysBefore (t_year t) (t_month t) + int (t_day t) - 1;
          secs = ((days * 24 + int (t_hour t)) * 60 + int (t_minute t) - t_offset t) * 60 + int (t_second t)
      in goInt (secs * 1000000000 + int (t_nano t)))"

definition archiveName :: "gotime \<Rightarrow> string" where
  "archiveName t = ''baseline-'' @ itoa (unixNano t) @ ''.json''"

text \<open>The end of a rollback without drift: the active state goes, the baseline is archived.\<close>

definition finishRollback :: "Manager \<Rightarrow> world \<Rightarrow> error option \<times> world" where
  "finishRollback m w =
     (case sys_remove (activePath m) w of
        (r, w1) \<Rightarrow>
          (case (case r of Inl e \<Rightarrow> if is_not_exist e then None else Some e | Inr _ \<Rightarrow> None) of
             Some e \<Rightarrow> (Some (Wrap ''remove active tuning state: '' e []), w1)
           | None \<Rightarrow>
               (case mg_now m w1 of
                  (t, w2) \<Rightarrow>
                    (case sys_rename (baselinePath m) (joinPath [stateDir m, archiveName t]) w2 of
                       (Inl e, w3) \<Rightarrow> (Some (Wrap ''archive restored tuning baseline: '' e []), w3)
                     | (Inr _, w3) \<Rightarrow> (None, w3)))))"

definition Rollback :: "goLib \<Rightarrow> Manager \<Rightarrow> world \<Rightarrow> (string list \<times> error option) \<times> world" where
  "Rollback g m w =
     (case loadActive g m w of
        (Inl e, w1) \<Rightarrow> (([], Some e), w1)
      | (Inr None, w1) \<Rightarrow> (([], None), w1)
      | (Inr (Some active), w1) \<Rightarrow>
          if \<not> mg_isRoot m w1 then (([], Some (Errorf ''tune rollback requires root'')), w1)
          else (case loadBaseline g m w1 of
              (Inl e, w2) \<Rightarrow> (([], Some e), w2)
            | (Inr None, w2) \<Rightarrow>
                (([], Some (Errorf ''cannot rollback: immutable baseline is missing'')), w2)
            | (Inr (Some baseline), w2) \<Rightarrow>
                (case rollbackKeys m (bs_Values baseline) (as_Values active)
                        (sortedKeysOf (as_Values active)) w2 of
                   ((restored, drift1), w3) \<Rightarrow>
                     (case removeManagedFile g m (as_SysctlFileHash active) w3 of
                        (r, w4) \<Rightarrow>
                          (let drift = drift1 @ (case r of Inl e \<Rightarrow> [error_text e] | Inr _ \<Rightarrow> []) in
                           if drift \<noteq> []
                           then ((restored, Some (Errorf (''rollback stopped to protect external changes: '' @
                                     joinWith ''; '' drift))), w4)
                           else (case finishRollback m w4 of (e, w5) \<Rightarrow> ((restored, e), w5)))))))"

end
