(* ===== verification/ReadOnly.thy ===== *)
theory ReadOnly
  imports GoOS
begin

text \<open>
  Composition rules for operations that only read the tree: an operation built from such calls
  by sequencing and case distinction is such a call itself, for every schedule of failures.
  The rules follow the shape of the code, so that \<open>intro ro_intros\<close> proves them.
\<close>

named_theorems ro_intros \<open>operations that change no file\<close>

lemma ro_call_env: "ro_call f \<Longrightarrow> f w = (r, w') \<Longrightarrow> sameEnv w w'"
  by (rule fs_call.env [OF ro_call.axioms(1)])

lemma ro_return [ro_intros]: "ro_call (\<lambda>w. (x, w))"
  by (rule ro_callI) auto

lemma ro_get [ro_intros]: "ro_call (\<lambda>w. (f w, w))"
  by (rule ro_callI) auto

lemma ro_bind [ro_intros]:
  assumes "ro_call f" "\<And>a. ro_call (g a)"
  shows "ro_call (\<lambda>w. case f w of (a, w1) \<Rightarrow> g a w1)"
proof (rule ro_callI)
  fix w r w'
  assume run: "(case f w of (a, w1) \<Rightarrow> g a w1) = (r, w')"
  obtain a w1 where f: "f w = (a, w1)" by fastforce
  have g: "g a w1 = (r, w')" using run f by simp
  show "sameEnv w w'" using ro_call_env [OF assms(1) f] ro_call_env [OF assms(2) g]
    by (rule sameEnv_trans)
  show "tree w' = tree w" using ro_call.fs_same [OF assms(1) f] ro_call.fs_same [OF assms(2) g] by simp
qed

lemma ro_if [ro_intros]:
  "ro_call f \<Longrightarrow> ro_call g \<Longrightarrow> ro_call (\<lambda>w. if b then f w else g w)"
  by (cases b) auto

lemma ro_bool [ro_intros]:
  "ro_call f \<Longrightarrow> ro_call g \<Longrightarrow> ro_call (\<lambda>w. case b of True \<Rightarrow> f w | False \<Rightarrow> g w)"
  by (cases b) auto

lemma ro_option [ro_intros]:
  "ro_call f \<Longrightarrow> (\<And>a. ro_call (g a)) \<Longrightarrow> ro_call (\<lambda>w. case x of None \<Rightarrow> f w | Some a \<Rightarrow> g a w)"
  by (cases x) auto

lemma ro_sum [ro_intros]:
  "(\<And>e. ro_call (f e)) \<Longrightarrow> (\<And>a. ro_call (g a)) \<Longrightarrow>
     ro_call (\<lambda>w. case x of Inl e \<Rightarrow> f e w | Inr a \<Rightarrow> g a w)"
  by (cases x) auto

lemma ro_prod [ro_intros]:
  "(\<And>a b. ro_call (g a b)) \<Longrightarrow> ro_call (\<lambda>w. case x of (a, b) \<Rightarrow> g a b w)"
  by (cases x) auto

lemmas ro_calls [ro_intros] =
  lstat.ro_call_axioms stat.ro_call_axioms open_ro.ro_call_axioms read.ro_call_axioms
  readFile.ro_call_axioms flush.ro_call_axioms rand.ro_call_axioms now.ro_call_axioms
  abs_ro.ro_call_axioms

text \<open>Opening for writing without truncation, as a probe.\<close>

lemma ro_openProbe [ro_intros]: "ro_call (sys_openWrite p False)"
  by (rule ro_callI)
    (auto simp: sys_openWrite_def simp del: resolve.simps split: option.splits prod.splits sum.splits if_splits)

lemma ro_ext: "(\<And>w. f w = g w) \<Longrightarrow> ro_call g \<Longrightarrow> ro_call f"
  by (simp add: ext [of f g])

text \<open>Asking the world a question that is no call.\<close>

lemma ro_query: "(\<And>b. ro_call (f b)) \<Longrightarrow> ro_call (\<lambda>w. f (q w) w)"
  using ro_bind [of "\<lambda>w. (q w, w)" f] ro_get [of q] by simp

end
