(* ===== verification/TuneSurvey.thy ===== *)
theory TuneSurvey
  imports TuneDetect ReadOnly ConfigProps
begin

text \<open>
  The properties of internal/tune/detect.go: the survey changes nothing, its numbers stay
  within their bounds, and the cgroup limits it looks up are those of the process's own cgroup
  and its ancestors.
\<close>

section \<open>The survey only reads\<close>

lemma ro_readers [ro_intros]:
  "ro_call (readTrimmed p)" "ro_call (readOrEmpty p)" "ro_call (pathExists p)"
  unfolding readTrimmed_def readOrEmpty_def pathExists_def by (intro ro_intros)+

lemma ro_sysctls [ro_intros]: "ro_call (readSysctl m k)" "ro_call (sysctlWritable m k)"
  unfolding readSysctl_def sysctlWritable_def by (intro ro_intros)+

lemma ro_smallestLimit [ro_intros]: "ro_call (smallestLimit visible paths s)"
proof (induction paths arbitrary: s)
  case Nil
  show ?case by (rule ro_ext [OF smallestLimit.simps(1)]) (intro ro_intros)
next
  case (Cons p ps)
  show ?case by (rule ro_ext [OF smallestLimit.simps(2)]) (intro ro_intros Cons.IH)
qed

lemma ro_readSysctls [ro_intros]: "ro_call (readSysctls m ks acc)"
proof (induction ks arbitrary: acc)
  case Nil
  show ?case by (rule ro_ext [OF readSysctls.simps(1)]) (intro ro_intros)
next
  case (Cons k ks)
  show ?case by (rule ro_ext [OF readSysctls.simps(2)]) (intro ro_intros Cons.IH)
qed

lemma ro_probeWritable [ro_intros]: "ro_call (probeWritable m root ks acc)"
proof (induction ks arbitrary: acc)
  case Nil
  show ?case by (rule ro_ext [OF probeWritable.simps(1)]) (intro ro_intros)
next
  case (Cons k ks)
  show ?case by (rule ro_ext [OF probeWritable.simps(2)]) (intro ro_intros Cons.IH)
qed

lemma ro_probes [ro_intros]:
  "ro_call (distribution m)" "ro_call (virtualization m)" "ro_call (visibleMemory m)"
  "ro_call (cgroupMemoryLimit m v)" "ro_call (effectiveCPUs m n)" "ro_call (defaultInterface m)"
  "ro_call (hasCapability m i)" "ro_call (fqAvailable m r c)"
  unfolding distribution_def virtualization_def cgroupVirtualization_def dmiVirtualization_def
    visibleMemory_def cgroupMemoryLimit_def effectiveCPUs_def defaultInterface_def hasCapability_def
    fqAvailable_def Let_def
  by (intro ro_intros)+

lemma ro_DecodeFile [ro_intros]: "ro_call (DecodeFile jsonMsg path)"
  unfolding DecodeFile_def Decode_def checkFile_def by (intro ro_intros)

lemma ro_environment [ro_intros]: "ro_call (detectEnvironment g m)"
  unfolding detectEnvironment_def by (intro ro_intros)

lemma ro_Detect [ro_intros]: "ro_call (Detect g m)"
  unfolding Detect_def Let_def
  by (intro ro_intros ro_query [where q = "mg_isRoot m"])

section \<open>Bounds\<close>

lemma limitCPUs_range:
  "1 \<le> e \<Longrightarrow> 1 \<le> limitCPUs l e \<and> limitCPUs l e \<le> e" "limitCPUs l e \<le> e" "e < 1 \<Longrightarrow> limitCPUs l e = e"
  by (auto simp: limitCPUs_def Let_def)

lemma limitCPUs_fold:
  "fold limitCPUs ls e \<le> e"
proof (induction ls arbitrary: e)
  case (Cons l ls)
  show ?case using Cons.IH [of "limitCPUs l e"] limitCPUs_range(2) [of l e] by simp
qed simp

lemma effectiveCPUs_range:
  "effectiveCPUs m logical w = (n, w') \<Longrightarrow> 1 \<le> n \<and> n \<le> max 1 logical"
  using limitCPUs_fold [of "textLines c" logical for c]
  by (auto simp: effectiveCPUs_def Let_def split: prod.splits if_splits) (metis le_max_iff_disj)

lemma usableLimit_range:
  "usableLimit visible v = Some l \<Longrightarrow> 0 < l \<and> (visible = 0 \<or> l < visible) \<and> unat l < 2 ^ 60"
proof -
  assume u: "usableLimit visible v = Some l"
  then obtain n where n: "l = of_nat n" "n \<noteq> 0" "n < 2 ^ 60" "\<not> (visible > 0 \<and> l \<ge> visible)"
    by (auto simp: usableLimit_def split: if_splits option.splits)
  have "unat l = n" using n(1,3) by (simp add: unat_of_nat)
  then show ?thesis using n by (auto simp: word_greater_zero_iff word_gt_0)
qed

lemma smallestLimit_range:
  assumes "smallestLimit visible ps s w = (r, w')" "s = 0 \<or> visible = 0 \<or> s < visible"
  shows "r = 0 \<or> visible = 0 \<or> r < visible"
  using assms
proof (induction visible ps s w rule: smallestLimit.induct)
  case (2 visible p ps s w)
  obtain v w1 where v: "readTrimmed p w = (v, w1)" by fastforce
  show ?case
  proof (cases "usableLimit visible v")
    case None
    then show ?thesis using 2 v by simp
  next
    case (Some l)
    then show ?thesis using "2.IH"(2) [OF v [symmetric] Some] "2.prems" v usableLimit_range [OF Some]
      by (auto split: if_splits)
  qed
qed simp

lemma cgroupMemoryLimit_range:
  "cgroupMemoryLimit m visible w = (r, w') \<Longrightarrow> r = 0 \<or> visible = 0 \<or> r < visible"
  using smallestLimit_range by (auto simp: cgroupMemoryLimit_def split: prod.splits)

section \<open>What a reader sees\<close>

text \<open>The trimmed text of a file when nothing fails, empty when it cannot be read.\<close>

definition textAt :: "world \<Rightarrow> string \<Rightarrow> string" where
  "textAt w p =
     (case resolve 41 w p of
        Inl _ \<Rightarrow> [] | Inr (q, i) \<Rightarrow> if isDir i then [] else trimSpace (data i))"

lemma resolve_lookup: "resolve n w p = Inr (q, i) \<Longrightarrow> lookup w q = Some i"
  by (induction n w p rule: resolve.induct) (auto split: option.splits node_kind.splits)

lemma resolve_same: "sameTree w w' \<Longrightarrow> resolve n w' p = resolve n w p"
proof (induction n w p rule: resolve.induct)
  case (2 n w p)
  then show ?case by (auto simp: sameTree_lookup split: option.splits node_kind.splits)
qed simp

lemma sameTree_textAt: "sameTree w w' \<Longrightarrow> textAt w' p = textAt w p"
  by (simp add: textAt_def resolve_same del: resolve.simps)

lemma readTrimmed_sees:
  assumes "readTrimmed p w = (v, w')"
  shows "v = [] \<or> v = textAt w p" "sameTree w w'"
proof -
  show "sameTree w w'"
    by (rule sameTree_ro [OF ro_call_env [OF ro_readers(1) assms] ro_call.fs_same [OF ro_readers(1) assms]])
  have "sys_read q w1 = (Inr c, w2) \<Longrightarrow> lookup w1 q = Some i \<Longrightarrow> c = data i \<and> \<not> isDir i" for q w1 c w2 i
    by (auto simp: sys_read_def split: option.splits if_splits)
  then show "v = [] \<or> v = textAt w p" using assms
    by (auto simp: readTrimmed_def sys_readFile_def sys_open_def textAt_def simp del: resolve.simps
        dest: resolve_lookup split: res_splits)
qed

lemma readTrimmed_quiet:
  assumes "quiet w"
  shows "\<exists>w'. readTrimmed p w = (textAt w p, w') \<and> sameTree w w'"
proof -
  have trim: "trimSpace [] = []" by code_simp
  have "fst (readTrimmed p w) = textAt w p"
  proof (cases "resolve 41 w p")
    case (Inl e)
    then show ?thesis using assms
      by (simp add: readTrimmed_def sys_readFile_def sys_open_def textAt_def del: resolve.simps)
  next
    case (Inr y)
    then obtain q i where y: "resolve 41 w p = Inr (q, i)" "lookup w q = Some i"
      using resolve_lookup [of 41 w p] by (cases y) auto
    then show ?thesis using assms
      by (simp add: readTrimmed_def sys_readFile_def sys_open_def sys_read_def textAt_def del: resolve.simps)
  qed
  then show ?thesis using readTrimmed_sees(2) [of p w "fst (readTrimmed p w)" "snd (readTrimmed p w)"]
    by (metis prod.collapse)
qed

text \<open>The limits a list of files sets, and the smallest of them.\<close>

definition limitsIn :: "world \<Rightarrow> uint64 \<Rightarrow> string list \<Rightarrow> uint64 set" where
  "limitsIn w visible paths = {l. \<exists>p \<in> set paths. usableLimit visible (textAt w p) = Some l}"

lemma limitsIn_simps:
  "limitsIn w v [] = {}"
  "limitsIn w v (p # ps) = (case usableLimit v (textAt w p) of None \<Rightarrow> {} | Some l \<Rightarrow> {l}) \<union> limitsIn w v ps"
  by (auto simp: limitsIn_def split: option.splits)

lemma limitsIn_finite: "finite (limitsIn w v ps)"
  by (induction ps) (auto simp: limitsIn_simps split: option.splits)

lemma limitsIn_pos: "l \<in> limitsIn w v ps \<Longrightarrow> l \<noteq> 0"
  using usableLimit_range by (auto simp: limitsIn_def)

definition leastLimit :: "uint64 set \<Rightarrow> uint64" where
  "leastLimit L = (if L = {} then 0 else Min L)"

lemma leastLimit_insert:
  assumes "finite L" "0 \<notin> L" "l \<noteq> 0"
  shows "leastLimit (insert l L) = (if leastLimit L = 0 \<or> l < leastLimit L then l else leastLimit L)"
proof (cases "L = {}")
  case False
  then have "Min L \<noteq> 0" using assms(1,2) Min_in by metis
  then show ?thesis using False assms(1)
    by (auto simp: leastLimit_def min_def simp del: Min_le_iff Min_less_iff Min_ge_iff Min_gr_iff)
qed (simp add: leastLimit_def)

lemma smallestLimit_least:
  assumes "quiet w" "finite A" "0 \<notin> A"
  shows "\<exists>w'. smallestLimit visible ps (leastLimit A) w = (leastLimit (A \<union> limitsIn w visible ps), w')"
  using assms
proof (induction ps arbitrary: A w)
  case Nil
  then show ?case by (simp add: limitsIn_simps)
next
  case (Cons p ps)
  obtain w1 where r: "readTrimmed p w = (textAt w p, w1)" "sameTree w w1"
    using readTrimmed_quiet [OF Cons.prems(1)] by blast
  have q: "quiet w1" using sameTree_quiet [OF r(2)] Cons.prems(1) by simp
  have L: "limitsIn w1 visible ps = limitsIn w visible ps"
    using sameTree_textAt [OF r(2)] by (simp add: limitsIn_def)
  show ?case
  proof (cases "usableLimit visible (textAt w p)")
    case None
    then show ?thesis using Cons.IH [OF q Cons.prems(2,3)] r(1) L by (simp add: limitsIn_simps)
  next
    case (Some l)
    have l: "l \<noteq> 0" using usableLimit_range [OF Some] by auto
    have "(if leastLimit A = 0 \<or> l < leastLimit A then l else leastLimit A) = leastLimit (insert l A)"
      using leastLimit_insert [OF Cons.prems(2,3) l] by simp
    then show ?thesis using Cons.IH [OF q, of "insert l A"] Cons.prems(2,3) l r(1) L Some
      by (simp add: limitsIn_simps insert_commute)
  qed
qed

section \<open>The directories of a cgroup\<close>

text \<open>The components of a cgroup path after cleaning; none of them leads upwards.\<close>

definition cgroupParts :: "string \<Rightarrow> string list" where
  "cgroupParts value = rev (stackOf (slash # value))"

lemma rooted_step:
  assumes "dots \<notin> set st" "dots = ''..''"
  shows "dots \<notin> set (cleanStep True c st)"
proof -
  have "set (cleanStep True c st) \<subseteq> set st \<or> c \<noteq> dots \<and> cleanStep True c st = c # st"
    using assms by (cases st) (simp_all add: cleanStep_def subset_insertI)
  then show ?thesis using assms(1) by auto
qed

lemma rooted_no_dotdot:
  "dots = ''..'' \<Longrightarrow> dots \<notin> set st \<Longrightarrow> dots \<notin> set (fold (cleanStep True) cs st)"
proof (induction cs arbitrary: st)
  case (Cons c cs)
  show ?case using Cons.IH [OF Cons.prems(1)] rooted_step [OF Cons.prems(2,1)] by simp
qed simp

lemma cgroupParts_simple: "c \<in> set (cgroupParts value) \<Longrightarrow> simpleName c"
proof -
  assume c: "c \<in> set (cgroupParts value)"
  have "''..'' \<notin> set (stackOf (slash # value))"
    by (simp only: stackOf_def isAbs_Cons) (rule rooted_no_dotdot; simp)
  then have "c \<noteq> ''..''" using c unfolding cgroupParts_def set_rev by blast
  then show ?thesis using c stackOf_normal [of c "slash # value"]
    unfolding cgroupParts_def set_rev simpleName_def normalComp_def by blast
qed

lemma cleanCgroupPath_parts: "cleanCgroupPath value = joinWith ''/'' (cgroupParts value)"
  by (simp add: cleanCgroupPath_def clean_stackOf cgroupParts_def trimPrefix_def hasPrefix_def)
    (simp add: slash_def)

lemma child_clean: "isAbs k \<Longrightarrow> clean k = k \<Longrightarrow> simpleName n \<Longrightarrow> child k n = clean (k @ slash # n)"
  by (simp add: clean_abs_child)

definition below :: "string \<Rightarrow> string list \<Rightarrow> string" where
  "below base cs = foldl child base cs"

lemma below_facts:
  assumes "isAbs base" "clean base = base" "list_all simpleName cs"
  shows "isAbs (below base cs)" "clean (below base cs) = below base cs"
    "stackOf (below base cs) = rev cs @ stackOf base"
proof -
  have "isAbs (below base cs) \<and> clean (below base cs) = below base cs \<and>
      stackOf (below base cs) = rev cs @ stackOf base" using assms(3)
  proof (induction cs rule: rev_induct)
    case Nil
    then show ?case using assms by (simp add: below_def)
  next
    case (snoc c cs)
    let ?k = "below base cs"
    have k: "isAbs ?k" "clean ?k = ?k" "stackOf ?k = rev cs @ stackOf base" "simpleName c"
      using snoc by simp_all
    have ne: "?k \<noteq> []" using k(1) by auto
    have e: "below base (cs @ [c]) = clean (?k @ slash # c)"
      using child_clean [OF k(1,2,4)] by (simp add: below_def)
    show ?case unfolding e stackOf_clean using k ne
      by (simp add: stackOf_join isAbs_append)
  qed
  then show "isAbs (below base cs)" "clean (below base cs) = below base cs"
    "stackOf (below base cs) = rev cs @ stackOf base" by auto
qed

lemma join_below:
  assumes "isAbs base" "clean base = base" "list_all simpleName cs"
  shows "joinPath [base, joinWith ''/'' cs] = below base cs"
proof -
  have ne: "base \<noteq> []" using assms(1) by auto
  have st: "fold (cleanStep True) cs st = rev cs @ st" for st
    using assms(3) by (induction cs arbitrary: st) (simp_all add: cleanStep_simple)
  have "fold (cleanStep True) (splitOn slash (joinWith ''/'' cs)) st = rev cs @ st" for st
  proof (cases "cs = []")
    case True
    then show ?thesis by (simp add: cleanStep_def)
  next
    case False
    then have "splitOn slash (joinWith ''/'' cs) = cs"
      by (rule splitOn_join) (use assms(3) in \<open>auto simp: list_all_iff simpleName_def\<close>)
    then show ?thesis using st by simp
  qed
  then have "stackOf (base @ slash # joinWith ''/'' cs) = rev cs @ stackOf base"
    using assms(1) ne by (simp add: stackOf_def splitOn_append isAbs_append)
  then have "clean (base @ slash # joinWith ''/'' cs) = clean (below base cs)"
    using below_facts [OF assms] assms(1) ne
    by (intro clean_cong_stack) (auto simp: isAbs_append)
  then show ?thesis using below_facts(2) [OF assms] ne by (simp add: joinPath2)
qed

lemma below_text:
  assumes "isAbs base" "base \<noteq> ''/''"
  shows "below base cs = base @ concat (map (\<lambda>c. slash # c) cs)"
proof (induction cs rule: rev_induct)
  case (snoc c cs)
  obtain x y where "base = x # y # tl (tl base)"
    using assms by (cases base; cases "tl base") (auto simp: isAbs_iff slash_def)
  then have "below base cs \<noteq> ''/''" unfolding snoc.IH by (metis append_Cons list.inject not_Cons_self2 list.distinct(1))
  then show ?case using snoc.IH by (simp add: below_def child_def)
qed (simp add: below_def)

lemma below_up:
  assumes base: "isAbs base" "clean base = base" "base \<noteq> ''/''" and cs: "list_all simpleName cs"
  shows "limitPathsFrom base filename (below base cs) =
    map (\<lambda>n. joinPath [below base (take n cs), filename]) (rev [0..<Suc (length cs)])"
  using cs
proof (induction cs rule: rev_induct)
  case Nil
  then show ?case by (subst limitPathsFrom.simps) (simp add: below_def)
next
  case (snoc c cs)
  have k: "isAbs (below base cs)" "clean (below base cs) = below base cs"
    using below_facts [OF base(1,2), of cs] snoc.prems by simp_all
  have up: "dirName (below base (cs @ [c])) = below base cs"
    using dirName_child [OF k] snoc.prems by (simp add: below_def)
  have ne: "below base (cs @ [c]) \<noteq> base" "below base cs \<noteq> below base (cs @ [c])"
    unfolding below_text [OF base(1,3)] by auto
  have "hasPrefix (below base cs @ ''/'') (base @ ''/'')"
    unfolding below_text [OF base(1,3)] by (cases cs) (auto simp: hasPrefix_def slash_def)
  then have "limitPathsFrom base filename (below base (cs @ [c])) =
      joinPath [below base (cs @ [c]), filename] # limitPathsFrom base filename (below base cs)"
    using ne up by (subst limitPathsFrom.simps) simp
  then show ?case using snoc by simp
qed

section \<open>A dead branch\<close>

lemma toLower_nonempty: "s \<noteq> [] \<Longrightarrow> toLower s \<noteq> []"
  by (induction s rule: toLower.induct) auto

text \<open>
  The DMI text always holds the blank between vendor and product, so the last \<open>return\<close> of
  \<open>virtualization\<close>, "unknown", is never reached: a host without DMI data is called
  "bare-metal-or-unknown".
\<close>

lemma dmi_never_unknown: "fst (dmiVirtualization m w) \<noteq> ''unknown''"
proof -
  obtain a w1 where a: "readTrimmed (sysPath m ''class/dmi/id/product_name'') w = (a, w1)" by fastforce
  obtain b w2 where b: "readTrimmed (sysPath m ''class/dmi/id/sys_vendor'') w1 = (b, w2)" by fastforce
  have n: "toLower (a @ '' '' @ b) \<noteq> []" by (rule toLower_nonempty) simp
  have h: "''unknown'' \<notin> set hypervisors" by code_simp
  show ?thesis
  proof (cases "find (containsStr (toLower (a @ '' '' @ b))) hypervisors")
    case None
    then show ?thesis using a b n by (simp add: dmiVirtualization_def Let_def)
  next
    case (Some name)
    then have "name \<noteq> ''unknown''" using h find_Some_iff [of _ hypervisors name] by (metis nth_mem)
    then show ?thesis using a b Some by (simp add: dmiVirtualization_def Let_def)
  qed
qed

section \<open>The properties\<close>

lemma probeWritable_root:
  "probeWritable m False ks acc w = (r, w') \<Longrightarrow> Some True \<notin> range (map_of acc) \<Longrightarrow> map_of r k \<noteq> Some True"
proof (induction m False ks acc w arbitrary: k rule: probeWritable.induct)
  case (1 m acc w)
  then show ?case by (metis Pair_inject probeWritable.simps(1) rangeI)
next
  case (2 m k1 ks acc w)
  have "Some True \<notin> range (map_of (AList.update k1 False acc))"
    using "2.prems"(2) by (auto simp: update_conv' image_iff split: if_splits)
  then show ?case using "2.hyps" [of False w] "2.prems"(1) by simp
qed

lemma Detect_steps:
  assumes "Detect g m w = (Inr p, w')"
  obtains c w1 w2 w3 w4 w5 where
    "DecodeFile (gl_jsonMsg g) (op_ConfigPath (mg_options m)) w = (Inr c, w1)"
    "detectEnvironment g m w1 = (pf_Environment p, w2)"
    "readSysctls m (managedKeys @ [KeyAvailableCC]) [] w2 = (pf_Sysctls p, w3)"
    "hasCapability m 12 w3 = (cp_NetAdmin (pf_Capabilities p), w4)"
    "probeWritable m (mg_isRoot m w1) managedKeys [] w4 = (cp_SysctlWritable (pf_Capabilities p), w5)"
    "fqAvailable m (ev_Kernel (pf_Environment p)) (mget (pf_Sysctls p) KeyDefaultQdisc) w5 = (pf_FQAvailable p, w')"
    "pf_Workload p = workloadOf c" "cp_Root (pf_Capabilities p) = mg_isRoot m w1"
proof -
  obtain r w1 where 1: "DecodeFile (gl_jsonMsg g) (op_ConfigPath (mg_options m)) w = (r, w1)" by fastforce
  obtain e w2 where 2: "detectEnvironment g m w1 = (e, w2)" by fastforce
  obtain s w3 where 3: "readSysctls m (managedKeys @ [KeyAvailableCC]) [] w2 = (s, w3)" by fastforce
  obtain n w4 where 4: "hasCapability m 12 w3 = (n, w4)" by fastforce
  obtain b w5 where 5: "probeWritable m (mg_isRoot m w1) managedKeys [] w4 = (b, w5)" by fastforce
  obtain f w6 where 6: "fqAvailable m (ev_Kernel e) (mget s KeyDefaultQdisc) w5 = (f, w6)" by fastforce
  obtain c where c: "r = Inr c" using assms 1 by (cases r) (auto simp: Detect_def)
  show thesis
    by (rule that [of c w1 w2 w3 w4 w5])
      (use assms 1 2 3 4 5 6 c in \<open>auto simp: Detect_def Let_def\<close>)
qed

lemma environment_bounds:
  assumes "detectEnvironment g m w = (e, w')"
  shows "1 \<le> ev_EffectiveCPUs e \<and> ev_EffectiveCPUs e \<le> max 1 (ev_LogicalCPUs e)"
    "ev_CgroupMemoryLimit e = 0 \<or> ev_VisibleMemoryBytes e = 0 \<or>
       ev_CgroupMemoryLimit e < ev_VisibleMemoryBytes e"
    "ev_EffectiveMemoryBytes e = effectiveMemory (ev_VisibleMemoryBytes e) (ev_CgroupMemoryLimit e)"
  using assms by (auto simp: detectEnvironment_def split: prod.splits
      dest: effectiveCPUs_range cgroupMemoryLimit_range)

text \<open>
  Claim C15. The survey writes nothing: whatever \<open>Detect\<close> returns and whichever calls fail, the
  tree of the host is unchanged. A profile it returns reports exactly the protocols of the
  decoded configuration, calls a sysctl writable only for root, and keeps the number of
  effective CPUs between 1 and the logical ones and the cgroup limit below the visible memory.
\<close>

theorem Detect_survey:
  assumes "Detect g m w = (r, w')"
  shows "tree w' = tree w \<and> (\<forall>p. r = Inr p \<longrightarrow>
    (\<exists>c w1. DecodeFile (gl_jsonMsg g) (op_ConfigPath (mg_options m)) w = (Inr c, w1) \<and>
       pf_Workload p = workloadOf c) \<and>
    (\<forall>k. sysctlIsWritable p k \<longrightarrow> cp_Root (pf_Capabilities p)) \<and>
    1 \<le> ev_EffectiveCPUs (pf_Environment p) \<and>
    ev_EffectiveCPUs (pf_Environment p) \<le> max 1 (ev_LogicalCPUs (pf_Environment p)) \<and>
    (ev_CgroupMemoryLimit (pf_Environment p) = 0 \<or> ev_VisibleMemoryBytes (pf_Environment p) = 0 \<or>
     ev_CgroupMemoryLimit (pf_Environment p) < ev_VisibleMemoryBytes (pf_Environment p)))"
proof -
  have t: "tree w' = tree w" by (rule ro_call.fs_same [OF ro_Detect assms])
  have "(\<exists>c w1. DecodeFile (gl_jsonMsg g) (op_ConfigPath (mg_options m)) w = (Inr c, w1) \<and>
       pf_Workload p = workloadOf c) \<and>
    (\<forall>k. sysctlIsWritable p k \<longrightarrow> cp_Root (pf_Capabilities p)) \<and>
    1 \<le> ev_EffectiveCPUs (pf_Environment p) \<and>
    ev_EffectiveCPUs (pf_Environment p) \<le> max 1 (ev_LogicalCPUs (pf_Environment p)) \<and>
    (ev_CgroupMemoryLimit (pf_Environment p) = 0 \<or> ev_VisibleMemoryBytes (pf_Environment p) = 0 \<or>
     ev_CgroupMemoryLimit (pf_Environment p) < ev_VisibleMemoryBytes (pf_Environment p))"
    if "r = Inr p" for p
  proof -
    have run: "Detect g m w = (Inr p, w')" using assms that by simp
    obtain c w1 w2 w3 w4 w5 where d:
      "DecodeFile (gl_jsonMsg g) (op_ConfigPath (mg_options m)) w = (Inr c, w1)"
      "detectEnvironment g m w1 = (pf_Environment p, w2)"
      "probeWritable m (mg_isRoot m w1) managedKeys [] w4 = (cp_SysctlWritable (pf_Capabilities p), w5)"
      "pf_Workload p = workloadOf c" "cp_Root (pf_Capabilities p) = mg_isRoot m w1"
      using Detect_steps [OF run] by metis
    have "\<not> sysctlIsWritable p k" if "\<not> cp_Root (pf_Capabilities p)" for k
      using that d(3,5) probeWritable_root [of m managedKeys "[]" w4 _ w5 k]
      by (simp add: sysctlIsWritable_def)
    then show ?thesis using d environment_bounds(1,2) [OF d(2)] by blast
  qed
  then show ?thesis using t by blast
qed

text \<open>
  A host: the configuration of the samples, generic sysctl values, the fq module loaded. The
  kernel stores what is written to a sysctl with a newline.
\<close>

definition sampleLib :: goLib where
  "sampleLib = \<lparr>gl_jsonMsg = (\<lambda>_. []), gl_sha256 = (\<lambda>_. replicate 32 (CHR ''h'')),
     gl_GOARCH = ''amd64'', gl_NumCPU = 2\<rparr>"

definition sampleOptions :: Options where
  "sampleOptions = withDefaults \<lparr>op_ConfigPath = ''/c'', op_StateDirectory = ''/s'',
     op_SysctlFile = ''/d/f'', op_RootDirectory = [], op_ProcDirectory = ''/p'', op_SysDirectory = ''/y'',
     op_ProgramVersion = ''1''\<rparr>"

definition hostTree :: "string \<Rightarrow> inode option" where
  "hostTree = [''/'' \<mapsto> dirNode o755 0, ''/d'' \<mapsto> dirNode o755 0,
     ''/c'' \<mapsto> fileNode o600 0 (configText sampleConfig),
     ''/p/self/cgroup'' \<mapsto> fileNode o644 0 ''0::/a'',
     ''/y/fs/cgroup/a/memory.max'' \<mapsto> fileNode o644 0 ''4096'',
     ''/p/meminfo'' \<mapsto> fileNode o644 0 ''MemTotal: 8 kB'',
     ''/p/sys/net/core/default_qdisc'' \<mapsto> fileNode o644 0 (''pfifo_fast'' @ nl),
     ''/p/sys/net/ipv4/tcp_congestion_control'' \<mapsto> fileNode o644 0 (''bbr'' @ nl),
     ''/p/sys/net/ipv4/tcp_mtu_probing'' \<mapsto> fileNode o644 0 (''0'' @ nl),
     ''/p/sys/net/ipv4/tcp_slow_start_after_idle'' \<mapsto> fileNode o644 0 (''1'' @ nl),
     ''/y/module/sch_fq'' \<mapsto> dirNode o755 0]"

definition hostWorld :: world where
  "hostWorld = (sampleWorld hostTree)\<lparr>kernel :=
     (\<lambda>k. if hasPrefix k ''/p/sys/'' then Some (\<lambda>old new. new @ nl) else None)\<rparr>"

definition probeManager :: Manager where
  "probeManager = \<lparr>mg_options = sampleOptions, mg_now = sys_now, mg_isRoot = processIsRoot,
     mg_stateOwner = fileOwnedByRoot, mg_persist = (\<lambda>_ w. (Inr (), w))\<rparr>"

lemma host_detected:
  "map_sum (\<lambda>_. ()) (\<lambda>p. (pf_Sysctls p, pf_FQAvailable p,
       map (\<lambda>k. sysctlIsWritable p k) managedKeys, ev_CgroupMemoryLimit (pf_Environment p)))
     (fst (Detect sampleLib probeManager hostWorld)) =
   Inr ([(KeyDefaultQdisc, ''pfifo_fast''), (KeyCongestionControl, ''bbr''), (KeyMTUProbing, ''0''),
         (KeySlowStartAfterIdle, ''1''), (KeyAvailableCC, [])], True, [True, True, True, True], 4096)"
  by code_simp

lemma Detect_survey_witness:
  "\<exists>p w'. Detect sampleLib probeManager hostWorld = (Inr p, w') \<and> tree w' = tree hostWorld \<and>
     sysctlIsWritable p KeyDefaultQdisc \<and> cp_Root (pf_Capabilities p)"
proof -
  obtain r w' where run: "Detect sampleLib probeManager hostWorld = (r, w')" by fastforce
  obtain p where p: "r = Inr p" "sysctlIsWritable p KeyDefaultQdisc"
    using host_detected unfolding run by (cases r) (auto simp: managedKeys_def)
  show ?thesis using Detect_survey [OF run] run p by blast
qed

text \<open>
  Claim C16. The loop of \<open>cgroupLimitPaths\<close> ends, and for every cgroup path the process may be
  in, whatever dots and slashes it holds, the limit files looked up are those of that cgroup
  and of each of its ancestors up to the mount point, in this order, and no other.
\<close>

theorem cgroupLimitPaths_ancestors:
  assumes "isAbs base" "clean base = base" "base \<noteq> ''/''"
  shows "cgroupLimitPaths base (cleanCgroupPath value) filename =
    map (\<lambda>n. joinPath [base @ concat (map (\<lambda>c. slash # c) (take n (cgroupParts value))), filename])
      (rev [0..<Suc (length (cgroupParts value))])"
proof -
  have s: "list_all simpleName (cgroupParts value)" using cgroupParts_simple by (simp add: list_all_iff)
  show ?thesis using below_up [OF assms s, of filename] below_text [OF assms(1,3)]
    by (simp add: cgroupLimitPaths_def cleanCgroupPath_parts join_below [OF assms(1,2) s])
qed

lemma cgroupLimitPaths_ancestors_witness:
  "cgroupLimitPaths ''/sys/fs/cgroup'' (cleanCgroupPath ''/a/../b/./c'') ''memory.max'' =
     [''/sys/fs/cgroup/b/c/memory.max'', ''/sys/fs/cgroup/b/memory.max'', ''/sys/fs/cgroup/memory.max'']"
proof -
  have e: "map (\<lambda>n. joinPath [''/sys/fs/cgroup'' @ concat (map (\<lambda>c. slash # c) (take n (cgroupParts ''/a/../b/./c''))), ''memory.max''])
      (rev [0..<Suc (length (cgroupParts ''/a/../b/./c''))]) =
     [''/sys/fs/cgroup/b/c/memory.max'', ''/sys/fs/cgroup/b/memory.max'', ''/sys/fs/cgroup/memory.max'']"
    by code_simp
  have "isAbs ''/sys/fs/cgroup''" "clean ''/sys/fs/cgroup'' = ''/sys/fs/cgroup''" by code_simp+
  then show ?thesis using cgroupLimitPaths_ancestors [of "''/sys/fs/cgroup''" "''/a/../b/./c''" "''memory.max''"] e
    by simp
qed

text \<open>
  Claim C17. When no call fails, the cgroup memory limit of the survey is the smallest of the
  usable limits in the candidate files, and 0 when there is none: a limit counts when it is a
  positive number below 2^60 and below the visible memory.
\<close>

theorem cgroupMemoryLimit_smallest:
  assumes "quiet w" "readOrEmpty (procPath m ''self/cgroup'') w = (content, w1)"
  shows "fst (cgroupMemoryLimit m visible w) =
    leastLimit (limitsIn w visible (memoryCandidates m content))"
proof -
  have s: "sameTree w w1"
    by (rule sameTree_ro [OF ro_call_env [OF ro_readers(2) assms(2)] ro_call.fs_same [OF ro_readers(2) assms(2)]])
  have "limitsIn w1 visible ps = limitsIn w visible ps" for ps
    using sameTree_textAt [OF s] by (simp add: limitsIn_def)
  moreover have "\<exists>w2. smallestLimit visible (memoryCandidates m content) 0 w1 =
      (leastLimit (limitsIn w1 visible (memoryCandidates m content)), w2)"
    using smallestLimit_least [of w1 "{}" visible "memoryCandidates m content"] sameTree_quiet [OF s] assms(1)
    by (simp add: leastLimit_def [of "{}"])
  ultimately show ?thesis using assms(2) by (auto simp: cgroupMemoryLimit_def)
qed

lemma cgroupMemoryLimit_smallest_witness:
  "fst (cgroupMemoryLimit probeManager 8192 hostWorld) =
     leastLimit (limitsIn hostWorld 8192 (memoryCandidates probeManager ''0::/a''))"
proof -
  have "quiet hostWorld" by (simp add: quiet_def hostWorld_def sampleWorld_def)
  moreover have "fst (readOrEmpty (procPath probeManager ''self/cgroup'') hostWorld) = ''0::/a''" by code_simp
  ultimately show ?thesis using cgroupMemoryLimit_smallest [of hostWorld probeManager] by (metis prod.collapse)
qed

end
