(* ===== verification/TuneFrame.thy ===== *)
theory TuneFrame
  imports TuneManager TuneSurvey
begin

text \<open>
  What the operations of the tuning manager may touch. \<open>touches w0 S f\<close>: in every world of the
  same environment as \<open>w0\<close>, the operation \<open>f\<close> keeps the environment and changes the tree at most
  at the keys in \<open>S\<close>. The rules follow the shape of the code.
\<close>

section \<open>Footprints\<close>

definition touches :: "world \<Rightarrow> string set \<Rightarrow> (world \<Rightarrow> 'r \<times> world) \<Rightarrow> bool" where
  "touches w0 S f =
     (\<forall>w r w'. sameEnv w0 w \<longrightarrow> f w = (r, w') \<longrightarrow>
        sameEnv w0 w' \<and> (\<forall>k. k \<notin> S \<longrightarrow> tree w' k = tree w k))"

named_theorems touch_intros \<open>footprints of operations\<close>

lemma touchesD:
  "touches w0 S f \<Longrightarrow> sameEnv w0 w \<Longrightarrow> f w = (r, w') \<Longrightarrow>
     sameEnv w0 w' \<and> (\<forall>k. k \<notin> S \<longrightarrow> tree w' k = tree w k)"
  by (auto simp: touches_def)

lemma touches_env: "touches w0 S f \<Longrightarrow> sameEnv w0 w \<Longrightarrow> f w = (r, w') \<Longrightarrow> sameEnv w0 w'"
  by (auto simp: touches_def)

lemma touches_frame:
  "touches w0 S f \<Longrightarrow> sameEnv w0 w \<Longrightarrow> f w = (r, w') \<Longrightarrow> k \<notin> S \<Longrightarrow> tree w' k = tree w k"
  by (auto simp: touches_def)

lemma touches_mono: "touches w0 S f \<Longrightarrow> S \<subseteq> T \<Longrightarrow> touches w0 T f"
  unfolding touches_def by blast

lemma touches_ro: "ro_call f \<Longrightarrow> touches w0 S f"
  unfolding touches_def
  by (intro allI impI conjI) (blast intro: sameEnv_trans ro_call_env, simp add: ro_call.fs_same)

lemma touches_return [touch_intros]: "touches w0 S (\<lambda>w. (x, w))"
  by (rule touches_ro) (rule ro_return)

lemma touches_bind [touch_intros]:
  assumes "touches w0 S f" "\<And>a. touches w0 S (g a)"
  shows "touches w0 S (\<lambda>w. case f w of (a, w1) \<Rightarrow> g a w1)"
  unfolding touches_def
proof (intro allI impI)
  fix w r w'
  assume e: "sameEnv w0 w" and run: "(case f w of (a, w1) \<Rightarrow> g a w1) = (r, w')"
  obtain a w1 where f: "f w = (a, w1)" by fastforce
  have g: "g a w1 = (r, w')" using run f by simp
  note 1 = touchesD [OF assms(1) e f]
  have "sameEnv w0 w1" using 1 by blast
  then show "sameEnv w0 w' \<and> (\<forall>k. k \<notin> S \<longrightarrow> tree w' k = tree w k)"
    using touchesD [OF assms(2) _ g] 1 by simp
qed

lemma touches_if [touch_intros]:
  "touches w0 S f \<Longrightarrow> touches w0 S g \<Longrightarrow> touches w0 S (\<lambda>w. if b then f w else g w)"
  by (cases b) auto

lemma touches_option [touch_intros]:
  "touches w0 S f \<Longrightarrow> (\<And>a. touches w0 S (g a)) \<Longrightarrow>
     touches w0 S (\<lambda>w. case x of None \<Rightarrow> f w | Some a \<Rightarrow> g a w)"
  by (cases x) auto

lemma touches_sum [touch_intros]:
  "(\<And>e. touches w0 S (f e)) \<Longrightarrow> (\<And>a. touches w0 S (g a)) \<Longrightarrow>
     touches w0 S (\<lambda>w. case x of Inl e \<Rightarrow> f e w | Inr a \<Rightarrow> g a w)"
  by (cases x) auto

lemma touches_prod [touch_intros]:
  "(\<And>a b. touches w0 S (g a b)) \<Longrightarrow> touches w0 S (\<lambda>w. case x of (a, b) \<Rightarrow> g a b w)"
  by (cases x) auto

lemma touches_ext: "(\<And>w. f w = g w) \<Longrightarrow> touches w0 S g \<Longrightarrow> touches w0 S f"
  by (simp add: ext [of f g])

text \<open>Asking the world something the environment alone answers.\<close>

lemma touches_query:
  "(\<And>w. sameEnv w0 w \<Longrightarrow> q w = c) \<Longrightarrow> touches w0 S (f c) \<Longrightarrow> touches w0 S (\<lambda>w. f (q w) w)"
  unfolding touches_def by metis

subsection \<open>Calls\<close>

lemma touches_fs:
  assumes "fs_call f foot" "\<And>w. sameEnv w0 w \<Longrightarrow> foot w \<subseteq> S"
  shows "touches w0 S f"
  unfolding touches_def
proof (intro allI impI conjI)
  fix w r w' assume e: "sameEnv w0 w" and f: "f w = (r, w')"
  show "sameEnv w0 w'" by (rule sameEnv_trans [OF e fs_call.env [OF assms(1) f]])
  show "tree w' k = tree w k" if "k \<notin> S" for k
    using fs_call.frame [OF assms(1) f, of k] assms(2) [OF e] that by blast
qed

lemma touches_createExcl [touch_intros]: "keyOf w0 p \<in> S \<Longrightarrow> touches w0 S (sys_createExcl p m)"
  by (rule touches_fs [OF createExcl.fs_call_axioms]) (simp add: sameEnv_keyOf)

lemma touches_write [touch_intros]: "keyOf w0 p \<in> S \<Longrightarrow> touches w0 S (sys_write p t)"
  by (rule touches_fs [OF writeTo.fs_call_axioms]) (simp add: sameEnv_keyOf)

lemma touches_remove [touch_intros]: "keyOf w0 p \<in> S \<Longrightarrow> touches w0 S (sys_remove p)"
  by (rule touches_fs [OF remove.fs_call_axioms]) (simp add: sameEnv_keyOf)

lemma touches_rename [touch_intros]:
  "keyOf w0 p \<in> S \<Longrightarrow> keyOf w0 q \<in> S \<Longrightarrow> touches w0 S (sys_rename p q)"
  by (rule touches_fs [OF rename.fs_call_axioms]) (simp add: sameEnv_keyOf)

lemma touches_mkdirAll [touch_intros]:
  "set (ancestors (keyOf w0 p)) \<subseteq> S \<Longrightarrow> touches w0 S (sys_mkdirAll p m)"
  by (rule touches_fs [OF mkdirAll.fs_call_axioms]) (auto simp: sameEnv_keyOf)

lemma touches_flush [touch_intros]: "touches w0 S (sys_flush q p)"
  by (rule touches_ro [OF flush.ro_call_axioms])

lemma touches_lstat [touch_intros]: "touches w0 S (sys_lstat p)"
  by (rule touches_ro [OF lstat.ro_call_axioms])

lemma touches_now [touch_intros]: "touches w0 S sys_now"
  by (rule touches_ro [OF now.ro_call_axioms])

section \<open>Operations that only read\<close>

lemma ro_document [ro_intros]:
  "ro_call f \<Longrightarrow> ro_call g \<Longrightarrow> (\<And>x. ro_call (h x)) \<Longrightarrow>
     ro_call (\<lambda>w. case d of BadDocument \<Rightarrow> f w | TrailingData \<Rightarrow> g w | Document x \<Rightarrow> h x w)"
  by (cases d) auto

lemma ro_readLimited [ro_intros]: "ro_call (readLimitedFile p n)"
  unfolding readLimitedFile_def Let_def by (intro ro_intros)

lemma ro_readJSON [ro_intros]: "ro_call (readJSONFile g names store zero p)"
  unfolding readJSONFile_def by (intro ro_intros)

lemma ro_pathState [ro_intros]: "ro_call (pathState p)"
  unfolding pathState_def by (intro ro_intros)

lemma ro_checkStateDirectory [ro_intros]: "ro_call (checkStateDirectory m)"
  unfolding checkStateDirectory_def by (intro ro_intros)

lemma ro_loadState [ro_intros]: "ro_call (loadState g m names store zero check p)"
  unfolding loadState_def by (intro ro_intros)

lemma ro_load [ro_intros]: "ro_call (loadBaseline g m)" "ro_call (loadActive g m)"
  unfolding loadBaseline_def loadActive_def by (intro ro_intros)+

lemma ro_driftOf [ro_intros]: "ro_call (driftOf m vals keys)"
proof (induction keys)
  case Nil
  show ?case by (rule ro_ext [OF driftOf.simps(1)]) (intro ro_intros)
next
  case (Cons k ks)
  show ?case by (rule ro_ext [OF driftOf.simps(2)]) (intro ro_intros Cons.IH)
qed

lemma ro_verifyActive [ro_intros]: "ro_call (verifyActive g m active)"
  unfolding verifyActive_def Let_def by (intro ro_intros)

lemma ro_Verify [ro_intros]: "ro_call (Verify g m)"
  unfolding Verify_def by (intro ro_intros)

lemma ro_makePlan [ro_intros]: "ro_call (makePlan g m inputs)"
  unfolding makePlan_def by (intro ro_intros)

lemma ro_reapply [ro_intros]: "ro_call (reapply g m active requested result)"
  unfolding reapply_def by (intro ro_intros)

lemma ro_freeSysctlFile [ro_intros]: "ro_call (freeSysctlFile m a b)"
  unfolding freeSysctlFile_def by (intro ro_intros)

lemma ro_checkCurrent [ro_intros]: "ro_call (checkCurrent m vals)"
proof (induction vals)
  case Nil
  show ?case by (rule ro_ext [OF checkCurrent.simps(1)]) (intro ro_intros)
next
  case (Cons kv vs)
  obtain k v where kv: "kv = (k, v)" by fastforce
  show ?case unfolding kv by (rule ro_ext [OF checkCurrent.simps(2)]) (intro ro_intros Cons.IH)
qed

lemma ro_reuseBaseline [ro_intros]: "ro_call (reuseBaseline m b)"
  unfolding reuseBaseline_def by (intro ro_intros)

lemma ro_same: "ro_call f \<Longrightarrow> f w = (r, w') \<Longrightarrow> sameTree w w'"
  by (rule sameTree_ro [OF ro_call_env ro_call.fs_same])

section \<open>Operations that write\<close>

lemma touches_readers [touch_intros]:
  "touches w0 S (readLimitedFile p n)" "touches w0 S (pathState p)" "touches w0 S (readSysctl m k)"
  "touches w0 S (loadBaseline g m)" "touches w0 S (loadActive g m)" "touches w0 S (makePlan g m i)"
  "touches w0 S (Verify g m)" "touches w0 S (reapply g m a rq rs)" "touches w0 S (reuseBaseline m b)"
  "touches w0 S (freeSysctlFile m x y)"
  by (rule touches_ro, intro ro_intros)+

lemma touches_fillFile [touch_intros]: "keyOf w0 p \<in> S \<Longrightarrow> touches w0 S (fillFile p t)"
  unfolding fillFile_def by (intro touch_intros)

lemma touches_writeNew [touch_intros]: "keyOf w0 p \<in> S \<Longrightarrow> touches w0 S (writeNew p t m)"
  unfolding writeNew_def by (intro touch_intros)

lemma touches_writeJSONNew [touch_intros]: "keyOf w0 p \<in> S \<Longrightarrow> touches w0 S (writeJSONNew p t m)"
  unfolding writeJSONNew_def by (intro touch_intros)

text \<open>The temporary file of an atomic write.\<close>

definition temporaryKey :: "world \<Rightarrow> string \<Rightarrow> string" where
  "temporaryKey w p = keyOf w (temporaryName p w)"

lemma sameEnv_temporary: "sameEnv w0 w \<Longrightarrow> temporaryName p w = temporaryName p w0"
  by (simp add: temporaryName_def sameEnv_def)

lemma touches_atomicWrite [touch_intros]:
  assumes "keyOf w0 p \<in> S" "temporaryKey w0 p \<in> S"
  shows "touches w0 S (atomicWrite p t m)"
proof -
  have t: "keyOf w0 (temporaryName p w0) \<in> S" using assms(2) by (simp add: temporaryKey_def)
  show ?thesis unfolding atomicWrite_def Let_def
    by (rule touches_query [where q = "temporaryName p" and c = "temporaryName p w0"])
      (simp add: sameEnv_temporary, intro touch_intros assms t)
qed

lemma touches_writeJSONAtomic [touch_intros]:
  "keyOf w0 p \<in> S \<Longrightarrow> temporaryKey w0 p \<in> S \<Longrightarrow> touches w0 S (writeJSONAtomic p t m)"
  unfolding writeJSONAtomic_def by (intro touch_intros)

end
