(* ===== verification/TuneEffects.thy ===== *)
theory TuneEffects
  imports TuneFrame
begin

text \<open>
  What the writing operations of the tuning manager leave behind: one sysctl, one state file,
  one atomically replaced file.
\<close>

section \<open>One sysctl\<close>

text \<open>
  The text of a sysctl after a completed write: a plain file is truncated first, a kernel file
  answers with its own function.
\<close>

definition written :: "world \<Rightarrow> string \<Rightarrow> inode \<Rightarrow> string \<Rightarrow> inode" where
  "written w p i value =
     (case kernel w (keyOf w p) of
        None \<Rightarrow> i\<lparr>data := value\<rparr> | Some f \<Rightarrow> i\<lparr>data := f (data i) value\<rparr>)"

lemma lookup_putNode: "p \<noteq> [] \<Longrightarrow> lookup (putNode p i w) p = i"
  by (simp add: lookup_def)

lemma lookup_key: "p \<noteq> [] \<Longrightarrow> lookup w p = tree w (keyOf w p)"
  by (simp add: lookup_def)

lemma lookup_nonempty: "lookup w p = Some i \<Longrightarrow> p \<noteq> []"
  by (auto simp: lookup_def)

lemma lstat_result:
  "sys_lstat p w = (Inr i, w') \<Longrightarrow> lookup w p = Some i \<and> sameTree w w'"
  "sys_lstat p w = (Inl e, w') \<Longrightarrow> sameTree w w' \<and> (is_not_exist e \<longrightarrow> lookup w p = None)"
proof -
  assume r: "sys_lstat p w = (Inr i, w')"
  show "lookup w p = Some i \<and> sameTree w w'"
    using r ro_same [OF lstat.ro_call_axioms r] by (auto simp: sys_lstat_def split: option.splits)
next
  assume r: "sys_lstat p w = (Inl e, w')"
  show "sameTree w w' \<and> (is_not_exist e \<longrightarrow> lookup w p = None)"
    using r ro_same [OF lstat.ro_call_axioms r] by (auto simp: sys_lstat_def split: option.splits)
qed

lemma openWrite_regular:
  assumes "sys_openWrite p True w = (r, w')" "lookup w p = Some i" "\<not> isSymlink i"
  shows "sameEnv w w'" "k \<noteq> keyOf w p \<Longrightarrow> tree w' k = tree w k"
    "r = Inr h \<Longrightarrow> h = p \<and>
       lookup w' p = Some (if kernel w (keyOf w p) = None then i\<lparr>data := []\<rparr> else i)"
    "r = Inl e \<Longrightarrow> lookup w' p = Some i"
proof -
  have rs: "resolve 41 w p = Inr (p, i)" using resolve_nolink [OF assms(2,3), of 40] by simp
  have k: "resolvedKeys w p = {keyOf w p}" by (rule resolvedKeys_nolink [OF assms(2,3)])
  show "sameEnv w w'" by (rule openWrite.env [OF assms(1)])
  show "k \<noteq> keyOf w p \<Longrightarrow> tree w' k = tree w k" using openWrite.frame [OF assms(1), of k] k by simp
  show "r = Inr h \<Longrightarrow> h = p \<and>
       lookup w' p = Some (if kernel w (keyOf w p) = None then i\<lparr>data := []\<rparr> else i)"
    using assms(1,2) rs lookup_nonempty [OF assms(2)]
    by (auto simp: sys_openWrite_def lookup_putNode simp del: resolve.simps split: option.splits if_splits)
  show "r = Inl e \<Longrightarrow> lookup w' p = Some i"
    using assms(1,2) rs by (auto simp: sys_openWrite_def simp del: resolve.simps split: option.splits if_splits)
qed

lemma write_result:
  assumes "sys_write p t w = (r, w')" "lookup w p = Some i"
  shows "r = Inr u \<Longrightarrow> lookup w' p =
      Some (case kernel w (keyOf w p) of None \<Rightarrow> i\<lparr>data := data i @ t\<rparr> | Some f \<Rightarrow> i\<lparr>data := f (data i) t\<rparr>)"
    "r = Inl e \<Longrightarrow> kernel w (keyOf w p) \<noteq> None \<Longrightarrow> lookup w' p = Some i"
  using assms lookup_nonempty [OF assms(2)]
  by (auto simp: sys_write_def lookup_putNode split: option.splits prod.splits)

lemma flush_result: "sys_flush q p w = (r, w') \<Longrightarrow> sameTree w w' \<and> (r = Inl e \<longrightarrow> (\<exists>k. e = OsError q p (Fault k)))"
proof -
  assume r: "sys_flush q p w = (r, w')"
  show ?thesis using r ro_same [OF flush.ro_call_axioms r] by (auto simp: sys_flush_def split: option.splits)
qed

text \<open>
  A completed write stores the value in a regular file. A failed one on a kernel file changes
  nothing, unless closing the file is what failed: then the value is stored.
\<close>

definition closeFailure :: "error \<Rightarrow> bool" where
  "closeFailure e = (case e of OsError q _ _ \<Rightarrow> q = ''close'' | _ \<Rightarrow> False)"

lemma writeSysctl_result:
  assumes "writeSysctl m key value w = (r, w')"
  defines "p \<equiv> sysctlPath m key"
  shows "sameEnv w w'" "k \<noteq> keyOf w p \<Longrightarrow> tree w' k = tree w k"
    "r = Inr u \<Longrightarrow> \<exists>i. lookup w p = Some i \<and> isRegular i \<and> lookup w' p = Some (written w p i value)"
    "r = Inl e \<Longrightarrow> kernel w (keyOf w p) \<noteq> None \<Longrightarrow> lookup w' p = lookup w p \<or>
       closeFailure e \<and> (\<exists>i. lookup w p = Some i \<and> isRegular i \<and> lookup w' p = Some (written w p i value))"
proof -
  obtain r1 w1 where s1: "sys_lstat p w = (r1, w1)" by fastforce
  have main: "sameEnv w w' \<and> (\<forall>k. k \<noteq> keyOf w p \<longrightarrow> tree w' k = tree w k) \<and>
    (r = Inr () \<longrightarrow> (\<exists>i. lookup w p = Some i \<and> isRegular i \<and> lookup w' p = Some (written w p i value))) \<and>
    (\<forall>e. r = Inl e \<longrightarrow> kernel w (keyOf w p) \<noteq> None \<longrightarrow> lookup w' p = lookup w p \<or>
       closeFailure e \<and> (\<exists>i. lookup w p = Some i \<and> isRegular i \<and> lookup w' p = Some (written w p i value)))"
  proof (cases "\<exists>i. r1 = Inr i \<and> \<not> unsafeFile i")
    case False
    then have "w' = w1" "\<exists>e. r = Inl e" using assms(1) s1
      by (auto simp: writeSysctl_def Let_def p_def split: sum.splits if_splits)
    then show ?thesis using sameTree_lookup ro_same [OF lstat.ro_call_axioms s1]
      by (auto simp: sameTree_def)
  next
    case True
    then obtain i where i: "r1 = Inr i" "isRegular i" "\<not> isSymlink i" by (auto simp: unsafeFile_def)
    note l1 = lstat_result(1) [OF s1 [unfolded i(1)]]
    have lw1: "lookup w1 p = Some i" "sameEnv w w1" "tree w1 = tree w"
      using l1 sameTree_lookup [of w w1] by (auto simp: sameTree_def)
    have e1: "keyOf w1 p = keyOf w p" "kernel w1 = kernel w"
      using lw1(2) by (simp_all add: sameEnv_keyOf) (simp add: sameEnv_def)
    obtain r2 w2 where s2: "sys_openWrite p True w1 = (r2, w2)" by fastforce
    note o2 = openWrite_regular [OF s2 lw1(1) i(3)]
    show ?thesis
    proof (cases r2)
      case (Inl e)
      then have "w' = w2" "r = Inl e" using assms(1) s1 s2 i
        by (auto simp: writeSysctl_def Let_def p_def unsafeFile_def)
      then show ?thesis using o2(1,2,4) Inl lw1 l1 e1 sameEnv_trans [OF lw1(2) o2(1)] by auto
    next
      case (Inr h)
      have h: "h = p" using o2(3) [OF Inr] by simp
      obtain r3 w3 where s3: "sys_write p value w2 = (r3, w3)" by fastforce
      obtain r4 w4 where s4: "sys_flush ''close'' p w3 = (r4, w4)" by fastforce
      have fin: "w' = w4" "r = (case r3 of Inl e \<Rightarrow> Inl e | Inr _ \<Rightarrow> r4)"
        using assms(1) s1 s2 s3 s4 i Inr h
        by (auto simp: writeSysctl_def Let_def p_def unsafeFile_def split: sum.splits)
      define j where "j = (if kernel w (keyOf w p) = None then i\<lparr>data := []\<rparr> else i)"
      have j: "lookup w2 p = Some j" using o2(3) [OF Inr] e1 by (simp add: j_def)
      have e2: "sameEnv w w2" by (rule sameEnv_trans [OF lw1(2) o2(1)])
      have k2: "keyOf w2 p = keyOf w p" "kernel w2 = kernel w"
        using e2 by (simp_all add: sameEnv_keyOf) (simp add: sameEnv_def)
      have e3: "sameEnv w2 w3" by (rule writeTo.env [OF s3])
      have f3: "tree w3 k = tree w2 k" if "k \<noteq> keyOf w p" for k
        using writeTo.frame [OF s3] that k2 by simp
      have s34: "sameTree w3 w4" using flush_result [OF s4] by blast
      have env: "sameEnv w w'" unfolding fin(1)
        using sameEnv_trans [OF sameEnv_trans [OF e2 e3]] s34 by (simp add: sameTree_def)
      have frame: "tree w' k = tree w k" if "k \<noteq> keyOf w p" for k
        using f3 [OF that] o2(2) [of k] that e1 lw1(3) s34 fin(1) by (simp add: sameTree_def)
      have ok: "lookup w' p = Some (written w p i value)" if "r3 = Inr ()"
        using write_result(1) [OF s3 j that] sameTree_lookup [OF s34] k2 fin(1)
        by (auto simp: written_def j_def split: option.splits)
      have bad: "lookup w' p = Some i" if "r3 = Inl e" "kernel w (keyOf w p) \<noteq> None" for e
        using write_result(2) [OF s3 j that(1)] that(2) k2 sameTree_lookup [OF s34] fin(1) by (simp add: j_def)
      show ?thesis
      proof (cases r3)
        case (Inl e)
        then show ?thesis using env frame bad fin(2) l1 by auto
      next
        case (Inr u)
        have "closeFailure e" if "r4 = Inl e" for e
          using flush_result [OF s4, of e] that by (auto simp: closeFailure_def)
        then show ?thesis using env frame ok fin(2) l1 i(2) Inr by auto
      qed
    qed
  qed
  then show "sameEnv w w'" "k \<noteq> keyOf w p \<Longrightarrow> tree w' k = tree w k"
    "r = Inr u \<Longrightarrow> \<exists>i. lookup w p = Some i \<and> isRegular i \<and> lookup w' p = Some (written w p i value)"
    "r = Inl e \<Longrightarrow> kernel w (keyOf w p) \<noteq> None \<Longrightarrow> lookup w' p = lookup w p \<or>
       closeFailure e \<and> (\<exists>i. lookup w p = Some i \<and> isRegular i \<and> lookup w' p = Some (written w p i value))"
    by auto
qed

lemma touches_writeSysctl [touch_intros]:
  "keyOf w0 (sysctlPath m key) \<in> S \<Longrightarrow> touches w0 S (writeSysctl m key value)"
proof -
  assume s: "keyOf w0 (sysctlPath m key) \<in> S"
  show ?thesis unfolding touches_def
  proof (intro allI impI)
    fix w r w' assume e: "sameEnv w0 w" and run: "writeSysctl m key value w = (r, w')"
    note wr = writeSysctl_result(1,2) [OF run]
    have "keyOf w (sysctlPath m key) = keyOf w0 (sysctlPath m key)" using e by (rule sameEnv_keyOf)
    then show "sameEnv w0 w' \<and> (\<forall>k. k \<notin> S \<longrightarrow> tree w' k = tree w k)"
      using wr s sameEnv_trans [OF e] by metis
  qed
qed

section \<open>Atomic replacement\<close>

lemma createExcl_result:
  assumes "sys_createExcl p m w = (Inr u, w')"
  shows "lookup w p = None" "p \<noteq> []"
    "lookup w' p = Some \<lparr>kind = RegularFile, perm = and m (not (umask w)), uid = euid w, data = []\<rparr>"
  using assms by (auto simp: sys_createExcl_def lookup_putNode split: option.splits if_splits)

lemma createExcl_failed: "sys_createExcl p m w = (Inl e, w') \<Longrightarrow> tree w' = tree w"
  by (auto simp: sys_createExcl_def split: option.splits if_splits prod.splits)

definition newFile :: "world \<Rightarrow> filemode \<Rightarrow> string \<Rightarrow> inode" where
  "newFile w m content =
     \<lparr>kind = RegularFile, perm = and m (not (umask w)), uid = euid w, data = content\<rparr>"

lemma fillFile_result:
  assumes "fillFile p t w = (Inr u, w')" "lookup w p = Some i" "kernel w (keyOf w p) = None"
  shows "lookup w' p = Some (i\<lparr>data := data i @ t\<rparr>)"
proof -
  obtain r1 w1 where s1: "sys_write p t w = (r1, w1)" by fastforce
  have ok: "r1 = Inr ()" using assms(1) s1 by (cases r1) (auto simp: fillFile_def split: prod.splits)
  obtain r2 w2 where s2: "sys_flush ''sync'' p w1 = (r2, w2)" by fastforce
  obtain r3 w3 where s3: "sys_flush ''close'' p w2 = (r3, w3)" by fastforce
  have w3: "w' = w3" using assms(1) s1 ok s2 s3 by (auto simp: fillFile_def split: sum.splits)
  have "sameTree w1 w3" using flush_result [OF s2] flush_result [OF s3] sameTree_trans by blast
  then show ?thesis unfolding w3 using write_result(1) [OF s1 assms(2) ok] assms(3) sameTree_lookup by simp
qed

text \<open>
  An atomic write that succeeds has put a new regular file with the content in place and left
  no temporary file; one that fails has left the target as it was.
\<close>

lemma atomicWrite_failed:
  assumes "atomicWrite p t m w = (Inl e, w')" "temporaryKey w p \<noteq> keyOf w p"
  shows "tree w' (keyOf w p) = tree w (keyOf w p)"
proof -
  let ?t = "temporaryName p w"
  have tk: "keyOf w ?t \<noteq> keyOf w p" using assms(2) by (simp add: temporaryKey_def)
  obtain r1 w1 where s1: "sys_createExcl ?t m w = (r1, w1)" by fastforce
  have env1: "sameEnv w w1" and f1: "tree w1 (keyOf w p) = tree w (keyOf w p)"
    using createExcl.env [OF s1] createExcl.frame [OF s1, of "keyOf w p"] tk by auto
  show ?thesis
  proof (cases r1)
    case (Inl e1)
    then show ?thesis using assms(1) s1 f1 by (auto simp: atomicWrite_def Let_def)
  next
    case (Inr u)
    obtain r2 w2 where s2: "fillFile ?t t w1 = (r2, w2)" by fastforce
    have fill: "sameEnv w w2 \<and> tree w2 (keyOf w p) = tree w1 (keyOf w p)"
      using touchesD [OF touches_fillFile [of w ?t "{keyOf w ?t}"] env1 s2] tk by auto
    obtain r3 w3 where s3: "(case r2 of Inl e \<Rightarrow> (Inl e, w2) | Inr _ \<Rightarrow> sys_rename ?t p w2) = (r3, w3)" by fastforce
    obtain r4 w4 where s4: "sys_remove ?t w3 = (r4, w4)" by fastforce
    have e3: "\<exists>e. r3 = Inl e" "w' = w4" using assms(1) s1 Inr s2 s3 s4
      by (auto simp: atomicWrite_def Let_def split: sum.splits)
    have t3: "tree w3 = tree w2 \<and> sameEnv w2 w3"
    proof (cases r2)
      case (Inl e)
      then show ?thesis using s3 by auto
    next
      case (Inr u)
      then have "sys_rename ?t p w2 = (r3, w3)" using s3 by simp
      then show ?thesis using e3(1) rename.env by (auto simp: sys_rename_def split: option.splits prod.splits if_splits)
    qed
    have "keyOf w3 ?t = keyOf w ?t" using fill t3 sameEnv_trans sameEnv_keyOf by metis
    then have "tree w4 (keyOf w p) = tree w3 (keyOf w p)" using remove.frame [OF s4, of "keyOf w p"] tk by simp
    then show ?thesis using e3(2) t3 fill f1 by simp
  qed
qed

lemma atomicWrite_done:
  assumes "atomicWrite p t m w = (Inr u, w')" "temporaryKey w p \<noteq> keyOf w p"
    "kernel w (temporaryKey w p) = None"
  shows "lookup w' p = Some (newFile w m t)" "tree w' (temporaryKey w p) = None"
proof -
  let ?t = "temporaryName p w"
  have tk: "keyOf w ?t \<noteq> keyOf w p" using assms(2) by (simp add: temporaryKey_def)
  obtain r1 w1 where s1: "sys_createExcl ?t m w = (r1, w1)" by fastforce
  obtain u1 where r1: "r1 = Inr u1" using assms(1) s1 by (cases r1) (auto simp: atomicWrite_def Let_def)
  obtain r2 w2 where s2: "fillFile ?t t w1 = (r2, w2)" by fastforce
  obtain u2 where r2: "r2 = Inr u2"
    using assms(1) s1 r1 s2 by (cases r2) (auto simp: atomicWrite_def Let_def split: prod.splits)
  obtain r3 w3 where s3: "sys_rename ?t p w2 = (r3, w3)" by fastforce
  have r3: "r3 = Inr ()" "w' = w3" using assms(1) s1 r1 s2 r2 s3
    by (cases r3; auto simp: atomicWrite_def Let_def split: prod.splits)+
  have env1: "sameEnv w w1" by (rule createExcl.env [OF s1])
  have k1: "kernel w1 (keyOf w1 ?t) = None" using assms(3) env1
    by (simp add: temporaryKey_def sameEnv_keyOf) (simp add: sameEnv_def)
  note c = createExcl_result [OF s1 [unfolded r1]]
  have l2: "lookup w2 ?t = Some (newFile w m t)"
    using fillFile_result [OF s2 [unfolded r2] c(3) k1] by (simp add: newFile_def)
  have env2: "sameEnv w w2" using touches_env [OF touches_fillFile [of w ?t "{keyOf w ?t}"] env1 s2] by simp
  have k2: "keyOf w2 ?t = keyOf w ?t" "keyOf w2 p = keyOf w p" using env2 sameEnv_keyOf by auto
  have p: "p \<noteq> []" using s3 r3(1) l2 by (auto simp: sys_rename_def split: option.splits if_splits)
  have t3: "tree w3 = (tree w2)(keyOf w ?t := None, keyOf w p \<mapsto> newFile w m t)"
    using s3 r3(1) l2 k2 by (auto simp: sys_rename_def fun_upd_twist split: option.splits if_splits)
  have "keyOf w3 p = keyOf w p" using sameEnv_keyOf [OF sameEnv_trans [OF env2 rename.env [OF s3]]] .
  then show "lookup w' p = Some (newFile w m t)" using t3 p r3(2) by (simp add: lookup_def)
  show "tree w' (temporaryKey w p) = None" using t3 tk r3(2) by (simp add: temporaryKey_def)
qed

section \<open>New files\<close>

lemma writeNew_done:
  assumes "writeNew p t m w = (Inr u, w')" "kernel w (keyOf w p) = None"
  shows "lookup w p = None" "lookup w' p = Some (newFile w m t)"
proof -
  obtain r1 w1 where s1: "sys_createExcl p m w = (r1, w1)" by fastforce
  obtain u1 where r1: "r1 = Inr u1" using assms(1) s1 by (cases r1) (auto simp: writeNew_def)
  have s2: "fillFile p t w1 = (Inr u, w')" using assms(1) s1 r1 by (simp add: writeNew_def)
  have env1: "sameEnv w w1" by (rule createExcl.env [OF s1])
  have k1: "kernel w1 (keyOf w1 p) = None" using assms(2) env1
    by (simp add: sameEnv_keyOf) (simp add: sameEnv_def)
  note c = createExcl_result [OF s1 [unfolded r1]]
  show "lookup w p = None" by (rule c(1))
  show "lookup w' p = Some (newFile w m t)" using fillFile_result [OF s2 c(3) k1] by (simp add: newFile_def)
qed

lemma createExcl_existing:
  assumes "lookup w p \<noteq> None"
  shows "\<exists>e. sys_createExcl p m w = (Inl e, tick w)"
proof -
  obtain i where "lookup w p = Some i" "p \<noteq> []" using assms lookup_nonempty by blast
  then show ?thesis by (auto simp: sys_createExcl_def split: option.splits)
qed

lemma writeNew_existing: "lookup w p \<noteq> None \<Longrightarrow> \<exists>e. writeNew p t m w = (Inl e, tick w)"
  using createExcl_existing [of w p m] by (auto simp: writeNew_def)

section \<open>Values of sysctls\<close>

text \<open>A sysctl is a regular file whose trimmed text is its value.\<close>

definition holds :: "Manager \<Rightarrow> world \<Rightarrow> string \<Rightarrow> string \<Rightarrow> bool" where
  "holds m w key v =
     (\<exists>i. lookup w (sysctlPath m key) = Some i \<and> isRegular i \<and> trimSpace (data i) = v)"

definition sysctlKey :: "Manager \<Rightarrow> world \<Rightarrow> string \<Rightarrow> string" where
  "sysctlKey m w key = keyOf w (sysctlPath m key)"

lemma holds_textAt: "holds m w key v \<Longrightarrow> textAt w (sysctlPath m key) = v"
proof -
  assume "holds m w key v"
  then obtain i where i: "lookup w (sysctlPath m key) = Some i" "isRegular i" "trimSpace (data i) = v"
    by (auto simp: holds_def)
  then have "resolve 41 w (sysctlPath m key) = Inr (sysctlPath m key, i)"
    using resolve_nolink [of w "sysctlPath m key" i 40] by (simp add: isRegular_def isSymlink_def)
  then show ?thesis using i by (simp add: textAt_def isRegular_def isDir_def del: resolve.simps)
qed

lemma holds_unique: "holds m w key v \<Longrightarrow> holds m w key v' \<Longrightarrow> v = v'"
  using holds_textAt by metis

lemma holds_frame:
  "sameEnv w w' \<Longrightarrow> tree w' (sysctlKey m w key) = tree w (sysctlKey m w key) \<Longrightarrow> holds m w' key v = holds m w key v"
  by (simp add: holds_def lookup_def sysctlKey_def sameEnv_keyOf)

lemma holds_same: "sameTree w w' \<Longrightarrow> holds m w' key v = holds m w key v"
  by (rule holds_frame) (auto simp: sameTree_def)

lemma readSysctl_sees:
  assumes "readSysctl m key w = (v, w')"
  shows "sameTree w w'" "v = [] \<or> v = textAt w (sysctlPath m key)"
  using readTrimmed_sees assms by (auto simp: readSysctl_def)

lemma readSysctl_holds:
  assumes "readSysctl m key w = (v, w')" "v \<noteq> []" "lookup w (sysctlPath m key) = Some i" "isRegular i"
  shows "holds m w key v"
proof -
  have "holds m w key (trimSpace (data i))" using assms(3,4) by (auto simp: holds_def)
  then show ?thesis using readSysctl_sees(2) [OF assms(1)] assms(2) holds_textAt by metis
qed

subsection \<open>The kernel stores what is written\<close>

text \<open>
  The documented behaviour of the sysctl files the theorems rely on: a write that is accepted
  makes the trimmed text of the file the trimmed text written.
\<close>

definition storesValues :: "Manager \<Rightarrow> world \<Rightarrow> bool" where
  "storesValues m w =
     (\<forall>key \<in> set managedKeys. \<exists>f. kernel w (sysctlKey m w key) = Some f \<and>
        (\<forall>old new. trimSpace (f old new) = trimSpace new))"

lemma storesValues_env: "sameEnv w w' \<Longrightarrow> storesValues m w' = storesValues m w"
  by (simp add: storesValues_def sysctlKey_def sameEnv_keyOf) (simp add: sameEnv_def)

lemma written_holds:
  assumes "storesValues m w" "key \<in> set managedKeys" "isRegular i" "trimSpace value = value"
    "lookup w' (sysctlPath m key) = Some (written w (sysctlPath m key) i value)"
  shows "holds m w' key value"
proof -
  obtain f where "kernel w (sysctlKey m w key) = Some f" "trimSpace (f (data i) value) = value"
    using assms(1,2,4) by (auto simp: storesValues_def)
  then show ?thesis using assms(3,5) by (auto simp: holds_def written_def sysctlKey_def isRegular_def)
qed

subsection \<open>Trimming twice\<close>

lemma trimLeftWith_fix: "trimLeftWith E s = [] \<or> spaceLen E (trimLeftWith E s) = 0"
proof (induction E s rule: trimLeftWith.induct)
  case (1 E s)
  show ?case
  proof (cases "spaceLen E s = 0 \<or> s = []")
    case True
    then show ?thesis by (subst (1 2) trimLeftWith.simps) auto
  next
    case False
    then show ?thesis using 1 by (subst (1 2) trimLeftWith.simps) auto
  qed
qed

lemma trimLeftWith_stop: "s = [] \<or> spaceLen E s = 0 \<Longrightarrow> trimLeftWith E s = s"
  by (subst trimLeftWith.simps) auto

lemma trimLeftWith_suffix: "\<exists>p. s = p @ trimLeftWith E s"
proof (induction E s rule: trimLeftWith.induct)
  case (1 E s)
  show ?case
  proof (cases "spaceLen E s = 0 \<or> s = []")
    case True
    then show ?thesis by (subst trimLeftWith.simps) auto
  next
    case False
    then obtain p where "drop (spaceLen E s) s = p @ trimLeftWith E (drop (spaceLen E s) s)" using 1 by auto
    then have "s = (take (spaceLen E s) s @ p) @ trimLeftWith E (drop (spaceLen E s) s)"
      by (metis append_assoc append_take_drop_id)
    moreover have "trimLeftWith E s = trimLeftWith E (drop (spaceLen E s) s)"
      using False by (subst trimLeftWith.simps) auto
    ultimately show ?thesis by metis
  qed
qed

lemma spaceLen_prefix:
  assumes "spaceLen E (t @ r) = 0" "\<forall>e \<in> set E. e \<noteq> []"
  shows "spaceLen E t = 0"
proof -
  have "find (hasPrefix (t @ r)) E = None"
  proof (cases "find (hasPrefix (t @ r)) E")
    case (Some e)
    then have "e \<in> set E" by (auto simp: find_Some_iff)
    then show ?thesis using assms Some by (simp add: spaceLen_def)
  qed simp
  then have "\<not> hasPrefix (t @ r) e" if "e \<in> set E" for e
    using that by (auto simp: find_None_iff)
  then have "\<not> hasPrefix t e" if "e \<in> set E" for e
    using that by (fastforce simp: hasPrefix_def)
  then have "find (hasPrefix t) E = None" by (auto simp: find_None_iff)
  then show ?thesis by (simp add: spaceLen_def)
qed

lemma spaces_nonempty: "\<forall>e \<in> set spaceEncodings. e \<noteq> []"
  by (simp add: spaceEncodings_def)

lemma trimSpace_idem: "trimSpace (trimSpace s) = trimSpace s"
proof -
  let ?E = spaceEncodings and ?R = "map rev spaceEncodings"
  let ?u = "trimLeftWith ?E s"
  let ?t = "trimSpace s"
  have t: "rev ?t = trimLeftWith ?R (rev ?u)" by (simp add: trimSpace_def)
  obtain p where "rev ?u = p @ rev ?t" using trimLeftWith_suffix [of "rev ?u" ?R] t by auto
  then have u: "?u = ?t @ rev p" by (metis rev_append rev_rev_ident)
  have "?t = [] \<or> spaceLen ?E ?t = 0"
    using trimLeftWith_fix [of ?E s] spaceLen_prefix [OF _ spaces_nonempty] u by (metis Nil_is_append_conv)
  then have "trimLeftWith ?E ?t = ?t" by (rule trimLeftWith_stop)
  moreover have "trimLeftWith ?R (rev ?t) = rev ?t"
    using trimLeftWith_fix [of ?R "rev ?u"] trimLeftWith_stop [of "rev ?t" ?R] t by auto
  ultimately show ?thesis by (simp add: trimSpace_def [of ?t])
qed

end
