(* ===== verification/TuneFootprint.thy ===== *)
theory TuneFootprint
  imports TuneEffects
begin

text \<open>
  The interface of a tuning manager, the layout of the paths it works on, and the footprints of
  \<open>Apply\<close>, its recovery and \<open>Rollback\<close>.
\<close>

section \<open>Paths\<close>

definition stateKeys :: "Manager \<Rightarrow> world \<Rightarrow> string list" where
  "stateKeys m w = [keyOf w (baselinePath m), keyOf w (activePath m), temporaryKey w (activePath m)]"

definition fileKeys :: "Manager \<Rightarrow> world \<Rightarrow> string list" where
  "fileKeys m w = [keyOf w (sysctlFile m), temporaryKey w (sysctlFile m)]"

definition stateDirKeys :: "Manager \<Rightarrow> world \<Rightarrow> string list" where
  "stateDirKeys m w = keyOf w (stateDir m) # ancestors (keyOf w (stateDir m))"

definition fileDirKeys :: "Manager \<Rightarrow> world \<Rightarrow> string list" where
  "fileDirKeys m w = ancestors (keyOf w (dirName (sysctlFile m)))"

definition sysctlKeys :: "Manager \<Rightarrow> world \<Rightarrow> string list" where
  "sysctlKeys m w = map (sysctlKey m w) managedKeys"

text \<open>
  The paths of the manager are distinct: no sysctl, state file, persisted file or temporary file
  is another one or one of the directories made for them, only sysctls are kernel files, and the
  persisted file is not below the state directory.
\<close>

definition layout :: "Manager \<Rightarrow> world \<Rightarrow> bool" where
  "layout m w =
     (let paths = stateKeys m w @ fileKeys m w @ sysctlKeys m w in
      distinct paths \<and> list_all (\<lambda>k. k \<notin> set paths) (stateDirKeys m w @ fileDirKeys m w) \<and>
      list_all (\<lambda>k. kernel w k = None) (stateKeys m w @ fileKeys m w) \<and>
      keyOf w (stateDir m) \<notin> set (fileDirKeys m w))"

lemma key_env:
  assumes "sameEnv w w'"
  shows "sysctlKey m w' key = sysctlKey m w key" "stateKeys m w' = stateKeys m w"
    "fileKeys m w' = fileKeys m w" "stateDirKeys m w' = stateDirKeys m w"
    "fileDirKeys m w' = fileDirKeys m w" "sysctlKeys m w' = sysctlKeys m w"
    "temporaryKey w' p = temporaryKey w p"
proof -
  note k = sameEnv_keyOf [OF assms]
  have t: "temporaryKey w' p = temporaryKey w p" for p
    using sameEnv_temporary [OF assms, of p] by (simp add: temporaryKey_def k)
  show "temporaryKey w' p = temporaryKey w p" by (rule t)
  show s: "sysctlKey m w' key = sysctlKey m w key" for key by (simp add: sysctlKey_def k)
  then have "sysctlKey m w' = sysctlKey m w" by (rule ext)
  then show "sysctlKeys m w' = sysctlKeys m w" by (simp add: sysctlKeys_def)
  show "stateKeys m w' = stateKeys m w" "fileKeys m w' = fileKeys m w"
    "stateDirKeys m w' = stateDirKeys m w" "fileDirKeys m w' = fileDirKeys m w"
    by (simp_all add: stateKeys_def fileKeys_def stateDirKeys_def fileDirKeys_def k t)
qed

lemma layout_env: "sameEnv w w' \<Longrightarrow> layout m w' = layout m w"
  by (simp add: layout_def key_env sameEnv_keyOf) (simp add: sameEnv_def)

lemma sysctlKeys_inj:
  "layout m w \<Longrightarrow> a \<in> set managedKeys \<Longrightarrow> b \<in> set managedKeys \<Longrightarrow>
     sysctlKey m w a = sysctlKey m w b \<Longrightarrow> a = b"
  by (auto simp: layout_def Let_def sysctlKeys_def distinct_map inj_on_def)

lemma layout_files:
  assumes "layout m w"
  shows "set (stateKeys m w) \<inter> set (fileKeys m w) = {}"
    "set (stateKeys m w) \<inter> set (sysctlKeys m w) = {}" "set (fileKeys m w) \<inter> set (sysctlKeys m w) = {}"
    "distinct (stateKeys m w)" "distinct (fileKeys m w)"
    "k \<in> set (stateKeys m w) \<union> set (fileKeys m w) \<Longrightarrow> kernel w k = None"
    "k \<in> set (stateDirKeys m w) \<union> set (fileDirKeys m w) \<Longrightarrow>
       k \<notin> set (stateKeys m w) \<union> set (fileKeys m w) \<union> set (sysctlKeys m w)"
    "keyOf w (stateDir m) \<notin> set (fileDirKeys m w)"
  using assms by (auto simp: layout_def Let_def list_all_iff)

lemma sysctlKey_mem: "key \<in> set managedKeys \<Longrightarrow> sysctlKey m w key \<in> set (sysctlKeys m w)"
  by (simp add: sysctlKeys_def)

section \<open>The interface\<close>

text \<open>
  What a manager asks of the functions it is built with: the clock changes nothing, the
  persisting function replaces the managed file atomically or leaves it alone, and the owner of
  a directory is not read off its permissions.
\<close>

locale tuning =
  fixes m :: Manager
  assumes now: "ro_call (mg_now m)"
    and persist: "touches w0 (set (fileDirKeys m w0 @ fileKeys m w0)) (mg_persist m content)"
    and persist_done: "layout m w \<Longrightarrow> mg_persist m content w = (Inr u, w') \<Longrightarrow>
          lookup w' (sysctlFile m) = Some (newFile w o644 content)"
    and persist_failed: "layout m w \<Longrightarrow> mg_persist m content w = (Inl e, w') \<Longrightarrow>
          tree w' (keyOf w (sysctlFile m)) = tree w (keyOf w (sysctlFile m))"
    and owner: "mg_stateOwner m (i\<lparr>perm := mode\<rparr>) = mg_stateOwner m i"

lemma touches_writeManagedFile [touch_intros]:
  "touches w0 (set (fileDirKeys m w0 @ fileKeys m w0)) (writeManagedFile m content)"
proof -
  have a: "set (ancestors (keyOf w0 (dirName (sysctlFile m)))) \<subseteq> set (fileDirKeys m w0 @ fileKeys m w0)"
    "keyOf w0 (sysctlFile m) \<in> set (fileDirKeys m w0 @ fileKeys m w0)"
    "temporaryKey w0 (sysctlFile m) \<in> set (fileDirKeys m w0 @ fileKeys m w0)"
    by (auto simp: fileDirKeys_def fileKeys_def)
  show ?thesis unfolding writeManagedFile_def Let_def by (intro touch_intros a)
qed

text \<open>A managed file is written by its atomic write alone.\<close>

lemma writeManagedFile_steps:
  assumes "writeManagedFile m content w = (r, w')" "layout m w"
  obtains w1 where "sameEnv w w1" "tree w1 (keyOf w (sysctlFile m)) = tree w (keyOf w (sysctlFile m))"
    "(\<exists>e. r = Inl e) \<and> w' = w1 \<or> atomicWrite (sysctlFile m) content o644 w1 = (r, w')"
proof -
  let ?d = "dirName (sysctlFile m)" and ?k = "keyOf w (sysctlFile m)"
  have k: "?k \<notin> set (ancestors (keyOf w ?d))"
    using layout_files(7) [OF assms(2), of ?k] by (auto simp: fileDirKeys_def fileKeys_def)
  obtain r1 w1 where s1: "sys_mkdirAll ?d o755 w = (r1, w1)" by fastforce
  have 1: "sameEnv w w1" "tree w1 ?k = tree w ?k"
    using mkdirAll.env [OF s1] mkdirAll.frame [OF s1] k by auto
  obtain r2 w2 where s2: "sys_lstat ?d w1 = (r2, w2)" by fastforce
  have 2: "sameEnv w w2" "tree w2 ?k = tree w ?k"
    using sameEnv_trans [OF 1(1) lstat.env [OF s2]] lstat.fs_same [OF s2] 1(2) by simp_all
  obtain r3 w3 where s3: "sys_lstat (sysctlFile m) w2 = (r3, w3)" by fastforce
  have 3: "sameEnv w w3" "tree w3 ?k = tree w ?k"
    using sameEnv_trans [OF 2(1) lstat.env [OF s3]] lstat.fs_same [OF s3] 2(2) by simp_all
  have "(\<exists>e. r = Inl e) \<and> w' = w1 \<or> (\<exists>e. r = Inl e) \<and> w' = w2 \<or> (\<exists>e. r = Inl e) \<and> w' = w3 \<or>
      atomicWrite (sysctlFile m) content o644 w3 = (r, w')"
    using assms(1) s1 s2 s3 by (auto simp: writeManagedFile_def Let_def split: sum.splits if_splits)
  then show thesis using that 1 2 3 by blast
qed

lemma writeManagedFile_result:
  assumes "writeManagedFile m content w = (r, w')" "layout m w"
  shows "r = Inr u \<Longrightarrow> lookup w' (sysctlFile m) = Some (newFile w o644 content)"
    "r = Inl e \<Longrightarrow> tree w' (keyOf w (sysctlFile m)) = tree w (keyOf w (sysctlFile m))"
proof -
  obtain w1 where w1: "sameEnv w w1" "tree w1 (keyOf w (sysctlFile m)) = tree w (keyOf w (sysctlFile m))"
    "(\<exists>e. r = Inl e) \<and> w' = w1 \<or> atomicWrite (sysctlFile m) content o644 w1 = (r, w')"
    using writeManagedFile_steps [OF assms] by blast
  have l1: "layout m w1" using assms(2) layout_env [OF w1(1)] by simp
  have t: "temporaryKey w1 (sysctlFile m) \<noteq> keyOf w1 (sysctlFile m)"
    "kernel w1 (temporaryKey w1 (sysctlFile m)) = None"
    using layout_files(5,6) [OF l1] by (auto simp: fileKeys_def)
  have n: "newFile w1 o644 content = newFile w o644 content" using w1(1) by (simp add: newFile_def sameEnv_def)
  show "lookup w' (sysctlFile m) = Some (newFile w o644 content)" if "r = Inr u"
    using w1(3) that atomicWrite_done(1) [OF _ t] n by auto
  show "tree w' (keyOf w (sysctlFile m)) = tree w (keyOf w (sysctlFile m))" if "r = Inl e"
    using w1 that atomicWrite_failed [OF _ t(1)] sameEnv_keyOf [OF w1(1)] by auto
qed

text \<open>The manager of the program keeps the contract.\<close>

lemma New_sel [simp]:
  "mg_options (New o1) = withDefaults o1" "mg_now (New o1) = sys_now" "mg_isRoot (New o1) = processIsRoot"
  "mg_stateOwner (New o1) = fileOwnedByRoot"
  by (simp_all add: New_def Let_def)

lemma writeManagedFile_options:
  assumes "mg_options m' = mg_options m" "mg_stateOwner m' = mg_stateOwner m"
  shows "writeManagedFile m' = writeManagedFile m"
proof -
  have "sysctlFile m' = sysctlFile m" by (simp add: sysctlFile_def assms)
  then show ?thesis by (intro ext) (simp only: writeManagedFile_def assms)
qed

lemma New_persist: "mg_persist (New o1) = writeManagedFile (New o1)"
proof -
  define m where "m = \<lparr>mg_options = withDefaults o1, mg_now = sys_now, mg_isRoot = processIsRoot,
    mg_stateOwner = fileOwnedByRoot, mg_persist = (\<lambda>_ w. (Inr (), w))\<rparr>"
  have n: "New o1 = m\<lparr>mg_persist := writeManagedFile m\<rparr>" by (simp add: New_def m_def)
  show ?thesis unfolding n by (simp add: writeManagedFile_options [of "m\<lparr>mg_persist := writeManagedFile m\<rparr>" m])
qed

interpretation program: tuning "New o1" for o1
proof (rule tuning.intro, goal_cases)
  case 1
  show ?case by (simp add: now.ro_call_axioms)
next
  case (2 w0 content)
  show ?case unfolding New_persist by (rule touches_writeManagedFile)
next
  case (3 w content u w')
  then show ?case using writeManagedFile_result(1) unfolding New_persist by blast
next
  case (4 w content e w')
  then show ?case using writeManagedFile_result(2) unfolding New_persist by blast
next
  case (5 i mode)
  show ?case by (simp add: fileOwnedByRoot_def)
qed


section \<open>Footprints\<close>

lemma touches_bind_result:
  assumes "touches w0 S f" "\<And>w a w1. f w = (a, w1) \<Longrightarrow> P a" "\<And>a. P a \<Longrightarrow> touches w0 S (g a)"
  shows "touches w0 S (\<lambda>w. case f w of (a, w1) \<Rightarrow> g a w1)"
  unfolding touches_def
proof (intro allI impI)
  fix w r w'
  assume e: "sameEnv w0 w" and run: "(case f w of (a, w1) \<Rightarrow> g a w1) = (r, w')"
  obtain a w1 where f: "f w = (a, w1)" by fastforce
  have g: "g a w1 = (r, w')" using run f by simp
  note 1 = touchesD [OF assms(1) e f]
  show "sameEnv w0 w' \<and> (\<forall>k. k \<notin> S \<longrightarrow> tree w' k = tree w k)"
    using touchesD [OF assms(3) [OF assms(2) [OF f]] _ g] 1 by simp
qed

text \<open>\<open>MkdirAll\<close>, the checks, and \<open>Chmod\<close> on what the check found.\<close>

lemma chmod_frame:
  assumes "sys_chmod p mode w = (r, w')" "lookup w p = Some i" "\<not> isSymlink i" "k \<noteq> keyOf w p"
  shows "tree w' k = tree w k"
  using chmod.frame [OF assms(1), of k] resolvedKeys_nolink [OF assms(2,3)] assms(4) by simp

lemma touches_ensureStateDirectory [touch_intros]:
  assumes "set (stateDirKeys m w0) \<subseteq> S"
  shows "touches w0 S (ensureStateDirectory m)"
proof -
  let ?d = "stateDir m"
  have s: "set (ancestors (keyOf w0 ?d)) \<subseteq> S" "keyOf w0 ?d \<in> S" using assms by (auto simp: stateDirKeys_def)
  have c: "touches w0 S (\<lambda>w. case sys_lstat ?d w of
        (Inl e, w2) \<Rightarrow> (Inl e, w2)
      | (Inr info, w2) \<Rightarrow>
          if unsafeDirectory info
          then (Inl (Errorf (''unsafe tuning state directory: '' @ ?d)), w2)
          else if \<not> mg_stateOwner m info
          then (Inl (Errorf (''tuning state directory is not owned by root: '' @ ?d)), w2)
          else sys_chmod ?d o700 w2)" (is "touches w0 S ?f")
    unfolding touches_def
  proof (intro allI impI)
    fix w r w' assume e: "sameEnv w0 w" and run: "?f w = (r, w')"
    obtain r2 w2 where s2: "sys_lstat ?d w = (r2, w2)" by fastforce
    have 2: "sameEnv w0 w2" "tree w2 = tree w" "keyOf w2 ?d = keyOf w0 ?d"
      using sameEnv_trans [OF e lstat.env [OF s2]] lstat.fs_same [OF s2] sameEnv_keyOf by auto
    show "sameEnv w0 w' \<and> (\<forall>k. k \<notin> S \<longrightarrow> tree w' k = tree w k)"
    proof (cases "w' = w2")
      case True
      then show ?thesis using 2 by simp
    next
      case False
      then obtain i where i: "r2 = Inr i" "\<not> unsafeDirectory i" "sys_chmod ?d o700 w2 = (r, w')"
        using run s2 by (auto split: sum.splits if_splits)
      have l: "lookup w2 ?d = Some i" "\<not> isSymlink i"
        using lstat_result(1) [OF s2 [unfolded i(1)]] sameTree_lookup i(2) by (auto simp: unsafeDirectory_def)
      show ?thesis using chmod_frame [OF i(3) l] 2 s(2) sameEnv_trans [OF 2(1) chmod.env [OF i(3)]] by metis
    qed
  qed
  show ?thesis unfolding ensureStateDirectory_def by (intro touch_intros s c)
qed

lemma touches_applyKeys:
  "(\<And>key. key \<in> set keys \<Longrightarrow> map_of requested key \<noteq> None \<Longrightarrow> sysctlKey m w0 key \<in> S) \<Longrightarrow>
     touches w0 S (applyKeys m requested keys changed)"
proof (induction keys arbitrary: changed)
  case Nil
  show ?case by (rule touches_ext [OF applyKeys.simps(1)]) (intro touch_intros)
next
  case (Cons k ks)
  have IH: "touches w0 S (applyKeys m requested ks c)" for c using Cons by simp
  show ?case
  proof (cases "map_of requested k")
    case None
    show ?thesis by (rule touches_ext [where g = "applyKeys m requested ks changed"]) (simp_all add: None IH)
  next
    case (Some v)
    then have s: "keyOf w0 (sysctlPath m k) \<in> S" using Cons.prems [of k] by (simp add: sysctlKey_def)
    show ?thesis by (rule touches_ext [OF applyKeys.simps(2)]) (simp only: Some option.case, intro touch_intros IH s)
  qed
qed

text \<open>The changed keys are requested ones.\<close>

lemma applyKeys_changed:
  "applyKeys m requested keys changed w = ((e, changed'), w') \<Longrightarrow>
     set changed \<subseteq> set changed' \<and>
     set changed' \<subseteq> set changed \<union> {k \<in> set keys. map_of requested k \<noteq> None}"
proof (induction keys arbitrary: changed w)
  case (Cons k ks)
  show ?case
  proof (cases "map_of requested k")
    case None
    then show ?thesis using Cons.IH [of changed w] Cons.prems by auto
  next
    case (Some v)
    obtain r1 w1 where s1: "writeSysctl m k v w = (r1, w1)" by fastforce
    obtain a w2 where s2: "readSysctl m k w1 = (a, w2)" by fastforce
    show ?thesis using Cons.IH [of "changed @ [k]" w2] Cons.prems s1 s2 Some
      by (cases r1) (auto split: if_splits)
  qed
qed simp

lemma touches_restoreKeys:
  "(\<And>key. key \<in> set keys \<Longrightarrow> sysctlKey m w0 key \<in> S) \<Longrightarrow>
     touches w0 S (restoreKeys m originals managed keys)"
proof (induction keys)
  case Nil
  show ?case by (rule touches_ext [OF restoreKeys.simps(1)]) (intro touch_intros)
next
  case (Cons k ks)
  then have s: "keyOf w0 (sysctlPath m k) \<in> S" by (simp add: sysctlKey_def)
  have IH: "touches w0 S (restoreKeys m originals managed ks)" using Cons by simp
  show ?case by (rule touches_ext [OF restoreKeys.simps(2)]) (intro touch_intros IH s)
qed

lemma touches_rollbackKey:
  "sysctlKey m w0 key \<in> S \<Longrightarrow> touches w0 S (rollbackKey m originals managed key)"
  unfolding rollbackKey_def sysctlKey_def by (intro touch_intros)

lemma touches_rollbackKeys:
  "(\<And>key. key \<in> set keys \<Longrightarrow> sysctlKey m w0 key \<in> S) \<Longrightarrow>
     touches w0 S (rollbackKeys m originals managed keys)"
proof (induction keys)
  case Nil
  show ?case by (rule touches_ext [OF rollbackKeys.simps(1)]) (intro touch_intros)
next
  case (Cons k ks)
  have IH: "touches w0 S (rollbackKeys m originals managed ks)" using Cons by simp
  have k: "touches w0 S (rollbackKey m originals managed k)" by (rule touches_rollbackKey) (simp add: Cons.prems)
  show ?case by (rule touches_ext [OF rollbackKeys.simps(2)]) (intro touch_intros IH k)
qed

lemma touches_recoverFile [touch_intros]:
  "keyOf w0 (sysctlFile m) \<in> S \<Longrightarrow> touches w0 S (recoverFile g m hash)"
  unfolding recoverFile_def by (intro touch_intros)

lemma touches_removeManagedFile [touch_intros]:
  "keyOf w0 (sysctlFile m) \<in> S \<Longrightarrow> touches w0 S (removeManagedFile g m hash)"
  unfolding removeManagedFile_def by (intro touch_intros)

lemma touches_recoverApply:
  assumes "\<And>key. key \<in> set changed \<Longrightarrow> sysctlKey m w0 key \<in> S"
    "keyOf w0 (sysctlFile m) \<in> S" "keyOf w0 (activePath m) \<in> S"
  shows "touches w0 S (recoverApply g m baseline active changed)"
proof -
  have r: "touches w0 S (restoreKeys m a b (rev changed))" for a b
    by (rule touches_restoreKeys) (simp add: assms(1))
  show ?thesis unfolding recoverApply_def by (intro touch_intros r assms)
qed

end
