(* ===== verification/TuneRuns.thy ===== *)
theory TuneRuns
  imports TuneManager TuneSurvey
begin

text \<open>
  A lean host for concrete runs of the tuning manager: a configuration with one TCP protocol and
  one sysctl that can be tuned. The kernel stores what is written to it with a newline.
\<close>

definition leanTree :: "string \<Rightarrow> inode option" where
  "leanTree = [''/'' \<mapsto> dirNode o755 0, ''/d'' \<mapsto> dirNode o755 0,
     ''/c'' \<mapsto> fileNode o600 0 (''{'' @ goQuote ''anytls'' @ '':{}}''),
     ''/p/sys/net/ipv4/tcp_mtu_probing'' \<mapsto> fileNode o644 0 (''0'' @ nl)]"

definition leanWorld :: world where
  "leanWorld = (sampleWorld leanTree)\<lparr>kernel :=
     (\<lambda>k. if hasPrefix k ''/p/sys/'' then Some (\<lambda>old new. new @ nl) else None)\<rparr>"

definition sampleManager :: Manager where "sampleManager = New sampleOptions"

text \<open>
  What a run leaves: the text of the sysctl, which files of the manager exist, and whether the
  state files are small.
\<close>

definition observed :: "world \<Rightarrow> string option \<times> bool list \<times> bool" where
  "observed w = (map_option data (tree w ''/p/sys/net/ipv4/tcp_mtu_probing''),
     map (\<lambda>k. tree w k \<noteq> None) [''/d/f'', ''/s/active.json'', ''/s/baseline.json''],
     list_all (\<lambda>k. case tree w k of None \<Rightarrow> True | Some i \<Rightarrow> length (data i) < 1000)
       [''/s/active.json'', ''/s/baseline.json''])"

lemma lean_applied:
  "(case Apply sampleLib sampleManager sampleInputs False leanWorld of (r, w1) \<Rightarrow>
     (map_sum (\<lambda>_. ()) ar_Changed r, observed w1)) =
   (Inr [KeyMTUProbing], (Some (''1'' @ nl), [True, True, True], True))"
  by code_simp

text \<open>The directory of the managed file cannot be made: the run fails and is undone.\<close>

lemma lean_failed:
  "(case Apply sampleLib sampleManager sampleInputs False (failing 60 leanWorld) of (r, w1) \<Rightarrow>
     (map_sum id (\<lambda>_. ()) r, observed w1)) =
   (Inl (Wrap ''persist tuning: '' (OsError ''mkdir'' ''/d'' (Fault EIO)) []),
    (Some (''0'' @ nl), [False, False, True], True))"
  by code_simp

text \<open>
  Closing the sysctl reports a failure although the kernel took the value: the value stays
  changed, the recovery does not see it, and nothing records it any more.
\<close>

lemma close_failure_keeps_value:
  "(case Apply sampleLib sampleManager sampleInputs False (failing 57 leanWorld) of (r, w1) \<Rightarrow>
     (map_sum id (\<lambda>_. ()) r, observed w1)) =
   (Inl (Wrap (''apply '' @ KeyMTUProbing @ ''=1: '')
          (OsError ''close'' ''/p/sys/net/ipv4/tcp_mtu_probing'' (Fault EIO)) []),
    (Some (''1'' @ nl), [False, False, True], True))"
  by code_simp

text \<open>
  A kernel that stores another value than the one written: the read-back fails, and the recovery
  takes the value for an external change and leaves it.
\<close>

definition clampingWorld :: world where
  "clampingWorld = leanWorld\<lparr>kernel :=
     (\<lambda>k. if hasPrefix k ''/p/sys/'' then Some (\<lambda>old new. ''2'' @ nl) else None)\<rparr>"

lemma read_back_failure_keeps_value:
  "(case Apply sampleLib sampleManager sampleInputs False clampingWorld of (r, w1) \<Rightarrow> (is_ok r, observed w1)) =
   (False, (Some (''2'' @ nl), [False, True, True], True))"
  by code_simp

text \<open>The completed run, as a statement about \<open>Apply\<close>.\<close>

lemma lean_run:
  "\<exists>res w'. Apply sampleLib (New sampleOptions) sampleInputs False leanWorld = (Inr res, w') \<and>
     ar_Changed res = [KeyMTUProbing] \<and> observed w' = (Some (''1'' @ nl), [True, True, True], True)"
proof -
  obtain r w' where run: "Apply sampleLib (New sampleOptions) sampleInputs False leanWorld = (r, w')" by fastforce
  then show ?thesis using lean_applied unfolding sampleManager_def by (cases r) auto
qed

lemma lean_changed:
  assumes "observed w' = (Some (''1'' @ nl), bs)"
  shows "tree w' \<noteq> tree leanWorld"
proof -
  have "map_option data (tree leanWorld ''/p/sys/net/ipv4/tcp_mtu_probing'') = Some (''0'' @ nl)" by code_simp
  moreover have "map_option data (tree w' ''/p/sys/net/ipv4/tcp_mtu_probing'') = Some (''1'' @ nl)"
    using assms by (simp add: observed_def)
  ultimately show ?thesis by auto
qed

end
