(* ===== verification/TuneGuard.thy ===== *)
theory TuneGuard
  imports TuneFootprint TuneRuns
begin

text \<open>
  When \<open>Apply\<close> and \<open>Rollback\<close> change anything, and what they may change: the guards of the
  code and its footprint.
\<close>

section \<open>Apply\<close>

text \<open>
  The keys a run with the given requested values may touch: in the transaction, and in the
  preparation before it.
\<close>

definition transactionFoot :: "Manager \<Rightarrow> strmap \<Rightarrow> world \<Rightarrow> string set" where
  "transactionFoot m requested w =
     {keyOf w (activePath m), temporaryKey w (activePath m)} \<union> set (fileDirKeys m w @ fileKeys m w) \<union>
     sysctlKey m w ` {k \<in> set managedKeys. map_of requested k \<noteq> None}"

definition applyFoot :: "Manager \<Rightarrow> strmap \<Rightarrow> world \<Rightarrow> string set" where
  "applyFoot m requested w =
     insert (keyOf w (baselinePath m)) (set (stateDirKeys m w)) \<union> transactionFoot m requested w"

lemma transactionFoot_mem:
  "set (fileDirKeys m w @ fileKeys m w) \<subseteq> transactionFoot m rq w"
  "keyOf w (activePath m) \<in> transactionFoot m rq w" "temporaryKey w (activePath m) \<in> transactionFoot m rq w"
  "keyOf w (sysctlFile m) \<in> transactionFoot m rq w"
  "k \<in> set managedKeys \<Longrightarrow> map_of rq k \<noteq> None \<Longrightarrow> sysctlKey m w k \<in> transactionFoot m rq w"
  by (auto simp: transactionFoot_def fileKeys_def)

lemma applyFoot_mem:
  "set (stateDirKeys m w) \<subseteq> applyFoot m rq w" "keyOf w (baselinePath m) \<in> applyFoot m rq w"
  "transactionFoot m rq w \<subseteq> applyFoot m rq w"
  by (auto simp: applyFoot_def)

lemma foot_env: "sameEnv w w' \<Longrightarrow> transactionFoot m rq w' = transactionFoot m rq w"
  by (simp add: transactionFoot_def key_env sameEnv_keyOf)

lemma transactionFoot_avoids:
  assumes "layout m w"
  shows "keyOf w (baselinePath m) \<notin> transactionFoot m rq w"
    "key \<in> set managedKeys \<Longrightarrow> map_of rq key = None \<Longrightarrow> sysctlKey m w key \<notin> transactionFoot m rq w"
proof -
  have d: "keyOf w (baselinePath m) \<notin> set (fileDirKeys m w)" "keyOf w (baselinePath m) \<notin> set (fileKeys m w)"
    "keyOf w (baselinePath m) \<notin> set (sysctlKeys m w)"
    using layout_files(1,2,7) [OF assms] by (auto simp: stateKeys_def)
  then show "keyOf w (baselinePath m) \<notin> transactionFoot m rq w"
    using layout_files(4) [OF assms] by (auto simp: transactionFoot_def stateKeys_def sysctlKeys_def)
  show "sysctlKey m w key \<notin> transactionFoot m rq w" if "key \<in> set managedKeys" "map_of rq key = None"
    using layout_files(2,3,7) [OF assms] sysctlKey_mem [OF that(1), of m w] that sysctlKeys_inj [OF assms]
    by (fastforce simp: transactionFoot_def stateKeys_def)
qed

context tuning begin

lemma touches_clock [touch_intros]: "touches w0 S (mg_now m)"
  by (rule touches_ro [OF now])

lemma touches_persist: "set (fileDirKeys m w0 @ fileKeys m w0) \<subseteq> S \<Longrightarrow> touches w0 S (mg_persist m content)"
  by (rule touches_mono [OF persist])

lemma touches_transaction:
  "touches w0 (transactionFoot m (as_Values active) w0) (transaction m active content)"
  unfolding transaction_def
  by (intro touch_intros touches_applyKeys touches_persist transactionFoot_mem)

lemma transaction_changed:
  assumes "transaction m active content w = ((e, changed), w')" "k \<in> set changed"
  shows "k \<in> set managedKeys" "map_of (as_Values active) k \<noteq> None"
proof -
  obtain e1 c1 w1 where s1: "applyKeys m (as_Values active) managedKeys [] w = ((e1, c1), w1)"
    by (metis prod.collapse)
  have "changed = c1" using assms(1) s1
    by (cases e1) (auto simp: transaction_def split: prod.splits sum.splits)
  then show "k \<in> set managedKeys" "map_of (as_Values active) k \<noteq> None"
    using applyKeys_changed [OF s1] assms(2) by auto
qed

lemma touches_runTransaction:
  "touches w0 (transactionFoot m requested w0) (runTransaction g m baseline requested result)"
proof -
  let ?S = "transactionFoot m requested w0"
  have tr: "touches w0 ?S (\<lambda>w. case transaction m active content w of
      ((None, changed), w3) \<Rightarrow> (Inr (result\<lparr>ar_Changed := changed\<rparr>), w3)
    | ((Some e, changed), w3) \<Rightarrow>
        (case recoverApply g m baseline active changed w3 of
           (Inr _, w4) \<Rightarrow> (Inl e, w4)
         | (Inl re, w4) \<Rightarrow>
             (Inl (Wrap [] e (''; automatic recovery also failed: '' @ error_text re)), w4)))"
    if a: "as_Values active = requested" for active content
  proof -
    have r: "touches w0 ?S (recoverApply g m baseline active changed)"
      if "\<forall>k \<in> set changed. k \<in> set managedKeys \<and> map_of requested k \<noteq> None" for changed
      using that by (intro touches_recoverApply transactionFoot_mem) auto
    show ?thesis
      by (rule touches_bind_result [where P = "\<lambda>(e, changed). \<forall>k \<in> set changed. k \<in> set managedKeys \<and> map_of requested k \<noteq> None"])
        (use touches_transaction [of w0 active] a in simp, use transaction_changed a in fastforce,
         auto split: option.splits intro!: touch_intros r)
  qed
  show ?thesis unfolding runTransaction_def Let_def
    by (intro touch_intros tr transactionFoot_mem) simp
qed

lemma touches_establishBaseline:
  "touches w0 (applyFoot m rq w0) (establishBaseline m profile)"
  unfolding establishBaseline_def Let_def by (intro touch_intros applyFoot_mem)

lemma touches_applyRoot:
  "touches w0 (applyFoot m requested w0) (applyRoot g m plan requested result)"
  unfolding applyRoot_def
  by (intro touch_intros touches_establishBaseline applyFoot_mem
      touches_mono [OF touches_runTransaction applyFoot_mem(3)])

text \<open>A baseline that exists is never written: it is only created, exclusively.\<close>

lemma establishBaseline_existing:
  assumes "establishBaseline m profile w = (r, w')" "lookup w (baselinePath m) \<noteq> None"
  shows "tree w' = tree w"
proof -
  obtain r1 w1 where s1: "freeSysctlFile m ''cannot safely establish pre-tune baseline: '' '' already exists'' w = (r1, w1)"
    by fastforce
  obtain t w2 where s2: "mg_now m w1 = (t, w2)" by fastforce
  have 1: "sameTree w w1" by (rule ro_same [OF ro_freeSysctlFile s1])
  have 2: "sameTree w w2" by (rule sameTree_trans [OF 1 ro_same [OF now s2]])
  have "lookup w2 (baselinePath m) \<noteq> None" using assms(2) sameTree_lookup [OF 2] by simp
  then have "tree w3 = tree w2" if "writeJSONNew (baselinePath m) b o600 w2 = (q, w3)" for b q w3
    using that writeNew_existing [of w2 "baselinePath m" _ o600]
    by (cases b) (auto simp: writeJSONNew_def dest: spec, metis fs_tick prod.inject)
  then show ?thesis using assms(1) s1 s2 1 2
    by (auto simp: establishBaseline_def Let_def sameTree_def split: sum.splits prod.splits)
qed

text \<open>The state directory after it was ensured.\<close>

definition stateDirReady :: "world \<Rightarrow> bool" where
  "stateDirReady w = (\<exists>i. lookup w (stateDir m) = Some i \<and> isDir i \<and> stateDirectoryModeSecure i \<and>
     mg_stateOwner m i)"

lemma ensureStateDirectory_ready:
  assumes "ensureStateDirectory m w = (Inr u, w')"
  shows "stateDirReady w'"
proof -
  let ?d = "stateDir m"
  obtain w1 w2 i where s: "sys_lstat ?d w1 = (Inr i, w2)" "\<not> unsafeDirectory i" "mg_stateOwner m i"
    "sys_chmod ?d o700 w2 = (Inr (), w')"
    using assms by (auto simp: ensureStateDirectory_def split: prod.splits sum.splits if_splits)
  have l: "lookup w2 ?d = Some i" "\<not> isSymlink i" "isDir i"
    using lstat_result(1) [OF s(1)] sameTree_lookup s(2) by (auto simp: unsafeDirectory_def)
  have "w' = tick (putNode ?d (Some (i\<lparr>perm := o700\<rparr>)) w2)"
    using s(4) resolve_nolink [OF l(1,2), of 40]
    by (auto simp: sys_chmod_def simp del: resolve.simps split: option.splits)
  then have "lookup w' ?d = Some (i\<lparr>perm := o700\<rparr>)" using lookup_putNode lookup_nonempty [OF l(1)] by simp
  moreover have "stateDirectoryModeSecure (i\<lparr>perm := o700\<rparr>)" by (simp add: stateDirectoryModeSecure_def)
  ultimately show ?thesis using l(3) s(3) owner by (auto simp: stateDirReady_def isDir_def)
qed

lemma stateDirReady_same: "sameTree w w' \<Longrightarrow> stateDirReady w' = stateDirReady w"
  by (simp add: stateDirReady_def sameTree_lookup)

lemma loadState_none:
  assumes "loadState g m names store zero check p w = (Inr None, w')"
  shows "lookup w p = None"
proof -
  obtain w1 e w2 where s: "checkStateDirectory m w = (Inr (), w1)" "sys_lstat p w1 = (Inl e, w2)" "is_not_exist e"
    using assms by (auto simp: loadState_def readJSONFile_def
        split: res_splits document.splits)
  have "sameTree w w1" using ro_same [OF ro_checkStateDirectory s(1)] .
  then show ?thesis using lstat_result(2) [OF s(2)] s(3) sameTree_lookup by simp
qed

lemma loadState_some:
  assumes "loadState g m names store zero check p w = (Inr (Some x), w')"
  shows "lookup w p \<noteq> None"
proof -
  obtain w1 i w2 where s: "checkStateDirectory m w = (Inr (), w1)" "sys_lstat p w1 = (Inr i, w2)"
    using assms by (auto simp: loadState_def readJSONFile_def
        split: res_splits document.splits)
  have "sameTree w w1" using ro_same [OF ro_checkStateDirectory s(1)] .
  then show ?thesis using lstat_result(1) [OF s(2)] sameTree_lookup by force
qed

text \<open>
  How a run as root goes: it stops after the state directory, or while the baseline is made, or
  it runs the transaction.
\<close>

lemma applyRoot_cases:
  assumes "applyRoot g m plan requested result w = (r, w')"
  shows "\<exists>w2. sameEnv w w2 \<and> (\<forall>k. k \<notin> set (stateDirKeys m w) \<longrightarrow> tree w2 k = tree w k) \<and>
    (tree w' = tree w2 \<and> sameEnv w2 w' \<and> (r = Inr result \<or> (\<exists>e. r = Inl e)) \<or>
     lookup w2 (baselinePath m) = None \<and>
       (\<exists>e. establishBaseline m (pl_Profile plan) w2 = (Inl e, w') \<and> r = Inl e) \<or>
     stateDirReady w2 \<and> (\<exists>baseline w3.
       (lookup w2 (baselinePath m) = None \<and>
          establishBaseline m (pl_Profile plan) w2 = (Inr baseline, w3) \<or>
        lookup w2 (baselinePath m) \<noteq> None \<and> reuseBaseline m baseline w2 = (Inr baseline, w3)) \<and>
       runTransaction g m baseline requested result w3 = (r, w')))"
proof -
  obtain r1 w1 where s1: "ensureStateDirectory m w = (r1, w1)" by fastforce
  have 1: "sameEnv w w1 \<and> (\<forall>k. k \<notin> set (stateDirKeys m w) \<longrightarrow> tree w1 k = tree w k)"
    using touchesD [OF touches_ensureStateDirectory [of m w "set (stateDirKeys m w)"] _ s1] by simp
  show ?thesis
  proof (cases r1)
    case (Inl e)
    then show ?thesis using assms s1 1 by (auto simp: applyRoot_def)
  next
    case (Inr u)
    have ready: "stateDirReady w1" by (rule ensureStateDirectory_ready [OF s1 [unfolded Inr]])
    obtain r2 w2 where s2: "loadBaseline g m w1 = (r2, w2)" by fastforce
    have 2: "sameTree w1 w2" by (rule ro_same [OF ro_load(1) s2])
    obtain r3 w3 where s3: "loadActive g m w2 = (r3, w3)" by fastforce
    have 3: "sameTree w1 w3" by (rule sameTree_trans [OF 2 ro_same [OF ro_load(2) s3]])
    have env: "sameEnv w w2" "sameEnv w w3" "tree w2 = tree w1" "tree w3 = tree w1"
      using 1 2 3 sameEnv_trans by (auto simp: sameTree_def)
    consider (stop) e where "r = Inl e" "w' = w2 \<or> w' = w3"
      | (active) a where "reapply g m a requested result w3 = (r, w')"
      | (fresh) "r2 = Inr None" "(case establishBaseline m (pl_Profile plan) w3 of
            (Inl e, w4) \<Rightarrow> (Inl e, w4) | (Inr b, w4) \<Rightarrow> runTransaction g m b requested result w4) = (r, w')"
      | (reuse) b where "r2 = Inr (Some b)" "(case reuseBaseline m b w3 of
            (Inl e, w4) \<Rightarrow> (Inl e, w4) | (Inr b, w4) \<Rightarrow> runTransaction g m b requested result w4) = (r, w')"
    proof (cases r2)
      case (Inl e)
      then have "r = Inl e" "w' = w2" using assms s1 \<open>r1 = Inr u\<close> s2 by (simp_all add: applyRoot_def)
      then show thesis using stop by blast
    next
      case (Inr stored)
      note r2 = this
      have step: "(case loadActive g m w2 of
          (Inl e, w3) \<Rightarrow> (Inl e, w3)
        | (Inr (Some active), w3) \<Rightarrow> reapply g m active requested result w3
        | (Inr None, w3) \<Rightarrow>
            (case (case stored of None \<Rightarrow> establishBaseline m (pl_Profile plan) w3
                | Some baseline \<Rightarrow> reuseBaseline m baseline w3) of
               (Inl e, w4) \<Rightarrow> (Inl e, w4)
             | (Inr baseline, w4) \<Rightarrow> runTransaction g m baseline requested result w4)) = (r, w')"
        using assms s1 \<open>r1 = Inr u\<close> s2 Inr by (simp only: applyRoot_def prod.case sum.case)
      show thesis
      proof (cases r3)
        case (Inl e)
        then have "r = Inl e" "w' = w3" using step s3 by simp_all
        then show thesis using stop by blast
      next
        case (Inr act)
        show thesis
        proof (cases act)
          case None
          then show thesis using step s3 Inr r2 fresh reuse by (cases stored) simp_all
        next
          case (Some a)
          then show thesis using step s3 Inr active by simp
        qed
      qed
    qed
    moreover have halt: ?thesis if "sameTree w1 w'" "r = Inr result \<or> (\<exists>e. r = Inl e)"
      by (rule exI [of _ w1]) (use 1 that in \<open>simp add: sameTree_def\<close>)
    ultimately show ?thesis
    proof cases
      case stop
      then show ?thesis using halt 2 3 by blast
    next
      case (active a)
      have "sameTree w3 w'" by (rule ro_same [OF ro_reapply active])
      moreover have "r = Inr result \<or> (\<exists>e. r = Inl e)"
        using active by (auto simp: reapply_def split: res_splits)
      ultimately show ?thesis using halt sameTree_trans [OF 3] by blast
    next
      case fresh
      have n: "lookup w3 (baselinePath m) = None"
        using loadState_none s2 fresh(1) sameTree_lookup [OF 3] by (auto simp: loadBaseline_def)
      obtain r4 w4 where s4: "establishBaseline m (pl_Profile plan) w3 = (r4, w4)" by fastforce
      show ?thesis
      proof (cases r4)
        case (Inl e)
        then show ?thesis using fresh(2) s4 n env 1 by (intro exI [of _ w3]) auto
      next
        case (Inr b)
        then show ?thesis using fresh(2) s4 n env 1 stateDirReady_same [OF 3] ready by (intro exI [of _ w3]) auto
      qed
    next
      case (reuse b)
      have n: "lookup w3 (baselinePath m) \<noteq> None"
        using loadState_some s2 reuse(1) sameTree_lookup [OF 3] by (auto simp: loadBaseline_def)
      obtain r4 w4 where s4: "reuseBaseline m b w3 = (r4, w4)" by fastforce
      have 4: "sameTree w3 w4" by (rule ro_same [OF ro_reuseBaseline s4])
      show ?thesis
      proof (cases r4)
        case (Inl e)
        then have "r = Inl e" "w' = w4" using reuse s4 by auto
        then show ?thesis using halt sameTree_trans [OF 3 4] by blast
      next
        case (Inr b1)
        then have "b1 = b" using s4 by (auto simp: reuseBaseline_def split: prod.splits sum.splits)
        then show ?thesis using reuse s4 n Inr env 1 stateDirReady_same [OF 3] ready by (intro exI [of _ w3]) auto
      qed
    qed
  qed
qed

end

section \<open>What Apply may change\<close>

lemma requestedOf_snoc:
  "requestedOf (as @ [a]) =
     (if ta_Action a = ActionSet \<and> ta_Confidence a = ConfidenceHigh
      then mset_key (ta_Key a) (ta_ProposedValue a) (requestedOf as) else requestedOf as)"
  by (simp add: requestedOf_def)

definition requests :: "TuneAction list \<Rightarrow> string \<Rightarrow> string \<Rightarrow> bool" where
  "requests actions key value =
     (\<exists>a \<in> set actions. ta_Action a = ActionSet \<and> ta_Confidence a = ConfidenceHigh \<and>
        ta_Key a = key \<and> ta_ProposedValue a = value)"

lemma requests_snoc:
  "requests (as @ [a]) k v \<longleftrightarrow>
     ta_Action a = ActionSet \<and> ta_Confidence a = ConfidenceHigh \<and> ta_Key a = k \<and> ta_ProposedValue a = v \<or>
     requests as k v"
  by (auto simp: requests_def)

lemma requests_key: "requests as k v \<Longrightarrow> k \<in> ta_Key ` set as"
  by (auto simp: requests_def)

lemma requests_safe: "requests (planActions p) k v \<Longrightarrow> safeChange p k v"
  unfolding requests_def using set_safe by blast

lemma requests_managed: "requests (planActions p) k v \<Longrightarrow> k \<in> set managedKeys"
  using requests_key [of "planActions p" k v] plan_keys [of p] by (metis list.set_map)

lemma requestedOf_map:
  "distinct (map ta_Key as) \<Longrightarrow> map_of (requestedOf as) k = Some v \<longleftrightarrow> requests as k v"
proof (induction as rule: rev_induct)
  case Nil
  show ?case by (simp add: requestedOf_def requests_def)
next
  case (snoc a as)
  then have d: "ta_Key a \<notin> ta_Key ` set as" and IH: "(map_of (requestedOf as) k = Some v) = requests as k v" by auto
  show ?case unfolding requestedOf_snoc requests_snoc IH [symmetric]
    using d requests_key [of as k v] IH by auto
qed

lemma makePlan_actions:
  assumes "makePlan g m inputs w = (Inr plan, w')"
  shows "pl_Actions plan = planActions (pl_Profile plan)" "distinct (map ta_Key (pl_Actions plan))"
    "Detect g m w = (Inr (pl_Profile plan), w')"
proof -
  obtain r1 w1 where s1: "Detect g m w = (r1, w1)" by fastforce
  obtain p where p: "r1 = Inr p" using assms s1 by (cases r1) (simp_all add: makePlan_def)
  have b: "BuildPlan p inputs = Inr plan" "w' = w1" using assms s1 p by (simp_all add: makePlan_def)
  then have e: "pl_Actions plan = planActions p" "pl_Profile plan = p"
    by (auto simp: BuildPlan_def split: option.splits)
  show "pl_Actions plan = planActions (pl_Profile plan)" using e by simp
  show "distinct (map ta_Key (pl_Actions plan))" using plan_keys managedKeys_distinct e by simp
  show "Detect g m w = (Inr (pl_Profile plan), w')" using s1 p b e by simp
qed

lemma Apply_cases:
  assumes "Apply g m inputs dryRun w = (r, w')"
  shows "sameTree w w' \<and> (\<forall>res. r = Inr res \<longrightarrow> ar_Changed res = []) \<or>
    \<not> dryRun \<and> (\<exists>plan w1. makePlan g m inputs w = (Inr plan, w1) \<and> sameTree w w1 \<and>
       ev_Virtualization (pf_Environment (pl_Profile plan)) \<notin> set containers \<and>
       requestedOf (pl_Actions plan) \<noteq> [] \<and> cp_Root (pf_Capabilities (pl_Profile plan)) \<and>
       applyRoot g m plan (requestedOf (pl_Actions plan))
         \<lparr>ar_Plan = plan, ar_Changed = [], ar_DryRun = False\<rparr> w1 = (r, w'))"
proof -
  obtain r1 w1 where s1: "makePlan g m inputs w = (r1, w1)" by fastforce
  have 1: "sameTree w w1" by (rule ro_same [OF ro_makePlan s1])
  show ?thesis
  proof (cases r1)
    case (Inl e)
    then show ?thesis using assms s1 1 by (auto simp: Apply_def)
  next
    case (Inr plan)
    let ?res = "\<lparr>ar_Plan = plan, ar_Changed = [], ar_DryRun = dryRun\<rparr>"
    obtain r2 w2 where s2: "Verify g m w1 = (r2, w2)" by fastforce
    have 2: "sameTree w w2" by (rule sameTree_trans [OF 1 ro_same [OF ro_Verify s2]])
    consider "r = Inr ?res" "w' = w1 \<or> w' = w2" | e where "r = Inl e" "w' = w1 \<or> w' = w2"
      | "\<not> dryRun" "ev_Virtualization (pf_Environment (pl_Profile plan)) \<notin> set containers"
        "requestedOf (pl_Actions plan) \<noteq> []" "cp_Root (pf_Capabilities (pl_Profile plan))"
        "applyRoot g m plan (requestedOf (pl_Actions plan)) ?res w1 = (r, w')"
      using assms s1 s2 Inr
      by (cases r2) (auto simp: Apply_def Let_def simp del: set_simps split: if_splits)
    then show ?thesis using 1 2 s1 Inr by cases auto
  qed
qed

lemma makePlan_root:
  assumes "makePlan g (New options) inputs w = (Inr plan, w1)" "cp_Root (pf_Capabilities (pl_Profile plan))"
  shows "processIsRoot w"
proof -
  obtain c w2 where "DecodeFile (gl_jsonMsg g) (op_ConfigPath (mg_options (New options))) w = (Inr c, w2)"
    "cp_Root (pf_Capabilities (pl_Profile plan)) = mg_isRoot (New options) w2"
    using Detect_steps [OF makePlan_actions(3) [OF assms(1)]] by metis
  then show ?thesis using assms(2) ro_call_env [OF ro_DecodeFile]
    by (metis New_sel(3) processIsRoot_def sameEnv_def)
qed

text \<open>
  Claim C18. \<open>Apply\<close> changes nothing, whatever fails, unless it is no dry run, the process is
  root, the survey found no container, and the plan sets a value with high confidence.
\<close>

theorem Apply_guarded:
  assumes "Apply g (New options) inputs dryRun w = (r, w')" "tree w' \<noteq> tree w"
  shows "\<not> dryRun \<and> processIsRoot w \<and>
    (\<exists>p w1. Detect g (New options) w = (Inr p, w1) \<and>
       ev_Virtualization (pf_Environment p) \<notin> set containers \<and>
       (\<exists>key value. requests (planActions p) key value \<and> sysctlIsWritable p key))"
proof -
  obtain plan w1 where a: "\<not> dryRun" "makePlan g (New options) inputs w = (Inr plan, w1)"
    "ev_Virtualization (pf_Environment (pl_Profile plan)) \<notin> set containers"
    "requestedOf (pl_Actions plan) \<noteq> []" "cp_Root (pf_Capabilities (pl_Profile plan))"
    using Apply_cases [OF assms(1)] assms(2) by (auto simp: sameTree_def)
  note p = makePlan_actions [OF a(2)]
  obtain kv where kv: "kv \<in> set (requestedOf (pl_Actions plan))"
    using a(4) by (meson last_in_set)
  then have "map_of (requestedOf (pl_Actions plan)) (fst kv) \<noteq> None"
    by (simp add: map_of_eq_None_iff)
  then obtain v where v: "requests (pl_Actions plan) (fst kv) v" using requestedOf_map [OF p(2)] by auto
  then have "safeChange (pl_Profile plan) (fst kv) v" using requests_safe p(1) by metis
  then have "sysctlIsWritable (pl_Profile plan) (fst kv)" unfolding safeChange_def by blast
  moreover have "processIsRoot w" by (rule makePlan_root [OF a(2,5)])
  ultimately show ?thesis using a p v by auto
qed

section \<open>The footprint of Apply\<close>

context tuning begin

lemma applyRoot_baseline:
  assumes "layout m w" "applyRoot g m plan requested result w = (r, w')" "lookup w (baselinePath m) \<noteq> None"
  shows "tree w' (keyOf w (baselinePath m)) = tree w (keyOf w (baselinePath m))"
proof -
  let ?k = "keyOf w (baselinePath m)"
  have k: "?k \<notin> set (stateDirKeys m w)" "?k \<notin> transactionFoot m requested w"
    using layout_files(7) [OF assms(1), of ?k] transactionFoot_avoids(1) [OF assms(1)] by (auto simp: stateKeys_def)
  obtain w2 where w2: "sameEnv w w2" "tree w2 ?k = tree w ?k"
    and alt: "tree w' = tree w2 \<or>
       (\<exists>e. establishBaseline m (pl_Profile plan) w2 = (Inl e, w')) \<or>
       (\<exists>b w3. (establishBaseline m (pl_Profile plan) w2 = (Inr b, w3) \<or>
         reuseBaseline m b w2 = (Inr b, w3)) \<and> runTransaction g m b requested result w3 = (r, w'))"
    using applyRoot_cases [OF assms(2)] k(1) by blast
  have l2: "lookup w2 (baselinePath m) \<noteq> None"
    using assms(3) w2 sameEnv_keyOf [OF w2(1)] by (simp add: lookup_def split: if_splits)
  show ?thesis
  proof (cases "\<exists>b w3. (establishBaseline m (pl_Profile plan) w2 = (Inr b, w3) \<or>
         reuseBaseline m b w2 = (Inr b, w3)) \<and> runTransaction g m b requested result w3 = (r, w')")
    case True
    then obtain b w3 where b: "establishBaseline m (pl_Profile plan) w2 = (Inr b, w3) \<or> reuseBaseline m b w2 = (Inr b, w3)"
      "runTransaction g m b requested result w3 = (r, w')" by blast
    have 3: "sameEnv w2 w3 \<and> tree w3 = tree w2" using b(1)
    proof
      assume e: "establishBaseline m (pl_Profile plan) w2 = (Inr b, w3)"
      show ?thesis using establishBaseline_existing [OF e l2] touches_env [OF touches_establishBaseline _ e] by blast
    next
      assume e: "reuseBaseline m b w2 = (Inr b, w3)"
      show ?thesis using ro_same [OF ro_reuseBaseline e] by (simp add: sameTree_def)
    qed
    have "sameEnv w w3" using sameEnv_trans [OF w2(1)] 3 by blast
    then have "tree w' ?k = tree w3 ?k" using touches_frame [OF touches_runTransaction _ b(2) k(2)] by blast
    then show ?thesis using 3 w2 by simp
  next
    case False
    then show ?thesis using alt w2(2) establishBaseline_existing [OF _ l2] by metis
  qed
qed

lemma Apply_foot:
  assumes "layout m w" "Apply g m inputs dryRun w = (r, w')"
  shows "tree w' k \<noteq> tree w k \<Longrightarrow>
      k \<in> set (stateDirKeys m w @ stateKeys m w @ fileDirKeys m w @ fileKeys m w) \<or>
      (\<exists>p w1 key value. Detect g m w = (Inr p, w1) \<and> requests (planActions p) key value \<and> k = sysctlKey m w key)"
    "lookup w (baselinePath m) \<noteq> None \<Longrightarrow>
       tree w' (keyOf w (baselinePath m)) = tree w (keyOf w (baselinePath m))"
proof -
  have main: "(tree w' k \<noteq> tree w k \<longrightarrow>
      k \<in> set (stateDirKeys m w @ stateKeys m w @ fileDirKeys m w @ fileKeys m w) \<or>
      (\<exists>p w1 key value. Detect g m w = (Inr p, w1) \<and> requests (planActions p) key value \<and> k = sysctlKey m w key)) \<and>
    (lookup w (baselinePath m) \<noteq> None \<longrightarrow>
       tree w' (keyOf w (baselinePath m)) = tree w (keyOf w (baselinePath m)))"
  proof (cases "sameTree w w'")
    case True
    then show ?thesis by (simp add: sameTree_def)
  next
    case False
    then obtain plan w1 where a: "makePlan g m inputs w = (Inr plan, w1)" "sameTree w w1"
      "applyRoot g m plan (requestedOf (pl_Actions plan))
         \<lparr>ar_Plan = plan, ar_Changed = [], ar_DryRun = False\<rparr> w1 = (r, w')"
      using Apply_cases [OF assms(2)] by blast
    let ?rq = "requestedOf (pl_Actions plan)"
    have env: "sameEnv w w1" "tree w1 = tree w" using a(2) by (simp_all add: sameTree_def)
    note p = makePlan_actions [OF a(1)]
    have "tree w' k = tree w k" if "k \<notin> applyFoot m ?rq w" for k
      using touches_frame [OF touches_applyRoot env(1) a(3) that] env(2) by simp
    moreover have "k \<in> set (stateDirKeys m w @ stateKeys m w @ fileDirKeys m w @ fileKeys m w) \<or>
      (\<exists>key value. requests (planActions (pl_Profile plan)) key value \<and> k = sysctlKey m w key)"
      if f: "k \<in> applyFoot m ?rq w" for k
    proof (cases "k \<in> sysctlKey m w ` {k \<in> set managedKeys. map_of ?rq k \<noteq> None}")
      case True
      then obtain key v where "map_of ?rq key = Some v" "k = sysctlKey m w key" by blast
      then show ?thesis using requestedOf_map [OF p(2)] p(1) by auto
    next
      case False
      then show ?thesis using f by (auto simp: applyFoot_def transactionFoot_def stateKeys_def)
    qed
    moreover have "tree w' (keyOf w (baselinePath m)) = tree w (keyOf w (baselinePath m))"
      if "lookup w (baselinePath m) \<noteq> None"
      using applyRoot_baseline [OF _ a(3)] assms(1) that layout_env [OF env(1)] sameEnv_keyOf [OF env(1)] env(2)
        sameTree_lookup [OF a(2)] by simp
    ultimately show ?thesis using p(3) by blast
  qed
  then show "tree w' k \<noteq> tree w k \<Longrightarrow>
      k \<in> set (stateDirKeys m w @ stateKeys m w @ fileDirKeys m w @ fileKeys m w) \<or>
      (\<exists>p w1 key value. Detect g m w = (Inr p, w1) \<and> requests (planActions p) key value \<and> k = sysctlKey m w key)"
    "lookup w (baselinePath m) \<noteq> None \<Longrightarrow>
       tree w' (keyOf w (baselinePath m)) = tree w (keyOf w (baselinePath m))"
    by blast+
qed

end

text \<open>
  Claim C19. Whatever fails during \<open>Apply\<close>, only these paths change: the state directory and its
  two state files with the temporary file, the managed sysctl file with its temporary file, the
  directories above them, and the sysctls for which the plan sets a value. A baseline that
  exists is never changed.
\<close>

theorem Apply_footprint:
  assumes "layout (New options) w" "Apply g (New options) inputs dryRun w = (r, w')"
  shows "(\<forall>k. tree w' k \<noteq> tree w k \<longrightarrow>
      k \<in> set (stateDirKeys (New options) w @ stateKeys (New options) w @
                fileDirKeys (New options) w @ fileKeys (New options) w) \<or>
      (\<exists>p w1 key value. Detect g (New options) w = (Inr p, w1) \<and> requests (planActions p) key value \<and>
         k = sysctlKey (New options) w key)) \<and>
    (lookup w (baselinePath (New options)) \<noteq> None \<longrightarrow>
       lookup w' (baselinePath (New options)) = lookup w (baselinePath (New options)))"
proof -
  have "sameEnv w w'"
  proof (cases "sameTree w w'")
    case False
    then obtain plan w1 where a: "sameTree w w1" "applyRoot g (New options) plan (requestedOf (pl_Actions plan))
         \<lparr>ar_Plan = plan, ar_Changed = [], ar_DryRun = False\<rparr> w1 = (r, w')"
      using Apply_cases [OF assms(2)] by blast
    then have "sameEnv w w1" by (simp add: sameTree_def)
    then show ?thesis using touches_env [OF program.touches_applyRoot _ a(2)] by blast
  qed (simp add: sameTree_def)
  then have "lookup w' (baselinePath (New options)) = lookup w (baselinePath (New options))"
    if "lookup w (baselinePath (New options)) \<noteq> None"
    using program.Apply_foot(2) [OF assms that] sameEnv_keyOf [of w w'] by (simp add: lookup_def)
  then show ?thesis using program.Apply_foot(1) [OF assms] by blast
qed

lemma lean_layout: "layout sampleManager leanWorld" "layout sampleManager (failing 60 leanWorld)"
  by code_simp+

lemma Apply_guarded_witness: "processIsRoot leanWorld"
proof -
  obtain res w' where run: "Apply sampleLib (New sampleOptions) sampleInputs False leanWorld = (Inr res, w')"
    "observed w' = (Some (''1'' @ nl), [True, True, True], True)" using lean_run by blast
  show ?thesis using Apply_guarded [OF run(1) lean_changed [OF run(2)]] by blast
qed

lemma lean_config_apart:
  "''/c'' \<notin> set (stateDirKeys sampleManager leanWorld @ stateKeys sampleManager leanWorld @
      fileDirKeys sampleManager leanWorld @ fileKeys sampleManager leanWorld)"
  "''/c'' \<notin> set (sysctlKeys sampleManager leanWorld)"
  by code_simp+

lemma Apply_footprint_witness:
  "\<exists>res w'. Apply sampleLib (New sampleOptions) sampleInputs False leanWorld = (Inr res, w') \<and>
     tree w' ''/c'' = tree leanWorld ''/c''"
proof -
  obtain res w' where run: "Apply sampleLib (New sampleOptions) sampleInputs False leanWorld = (Inr res, w')"
    using lean_run by blast
  note foot = Apply_footprint [OF lean_layout(1) [unfolded sampleManager_def] run, THEN conjunct1, THEN spec, of "''/c''"]
  have "tree w' ''/c'' = tree leanWorld ''/c''"
  proof (rule ccontr)
    assume "tree w' ''/c'' \<noteq> tree leanWorld ''/c''"
    then obtain p key v where "requests (planActions p) key v" "''/c'' = sysctlKey sampleManager leanWorld key"
      using foot lean_config_apart(1) unfolding sampleManager_def [symmetric] by auto
    then show False using requests_managed sysctlKey_mem lean_config_apart(2) by metis
  qed
  then show ?thesis using run by blast
qed

end
