(* ===== verification/TuneVerify.thy ===== *)
theory TuneVerify
  imports TuneGuard
begin

text \<open>
  What the state files that are accepted look like, and what \<open>Verify\<close> decides.
\<close>

section \<open>Accepted state\<close>

definition safeValue :: "string \<Rightarrow> bool" where
  "safeValue v = (v \<noteq> [] \<and> \<not> containsAny v [CHR 0x0D, CHR 0x0A, CHR 0x00])"

definition validValues :: "strmap \<Rightarrow> bool" where
  "validValues vs = (vs \<noteq> [] \<and> (\<forall>(k, v) \<in> set vs. k \<in> set managedKeys \<and> safeValue v))"

definition validActive :: "activeState \<Rightarrow> bool" where
  "validActive a = (as_Schema a = stateSchema \<and> validValues (as_Values a) \<and>
     length (as_SysctlFileHash a) = 64 \<and> hexDecode (as_SysctlFileHash a) \<noteq> None)"

definition validBaseline :: "baselineState \<Rightarrow> bool" where
  "validBaseline b = (bs_Schema b = stateSchema \<and> validValues (bs_Values b))"

lemma validateStateValues_iff:
  "(\<exists>u. validateStateValues vs = Inr u) \<longleftrightarrow> (\<forall>(k, v) \<in> set vs. k \<in> set managedKeys \<and> safeValue v)"
proof (induction vs rule: validateStateValues.induct)
  case (2 k v vs)
  show ?case
  proof (cases "k \<in> set managedKeys \<and> safeValue v")
    case True
    then show ?thesis using 2 by (auto simp: safeValue_def)
  next
    case False
    then show ?thesis by (auto simp: safeValue_def)
  qed
qed simp

lemma checkActive_iff: "(\<exists>u. checkActive a = Inr u) \<longleftrightarrow> validActive a"
  using validateStateValues_iff [of "as_Values a"]
  by (cases "validateStateValues (as_Values a)") (auto simp: checkActive_def validActive_def validValues_def)

lemma checkBaseline_iff: "(\<exists>u. checkBaseline b = Inr u) \<longleftrightarrow> validBaseline b"
  using validateStateValues_iff [of "bs_Values b"]
  by (cases "validateStateValues (bs_Values b)") (auto simp: checkBaseline_def validBaseline_def validValues_def)

definition secureStateDir :: "Manager \<Rightarrow> world \<Rightarrow> bool" where
  "secureStateDir m w = (\<exists>i. lookup w (stateDir m) = Some i \<and> isDir i \<and> stateDirectoryModeSecure i \<and>
     mg_stateOwner m i)"

definition regularAt :: "world \<Rightarrow> string \<Rightarrow> string \<Rightarrow> bool" where
  "regularAt w p text = (\<exists>i. lookup w p = Some i \<and> isRegular i \<and> data i = text)"

lemma regularAt_unique: "regularAt w p a \<Longrightarrow> regularAt w p b \<Longrightarrow> a = b"
  by (auto simp: regularAt_def)

lemma regularAt_same: "sameTree w w' \<Longrightarrow> regularAt w' p t = regularAt w p t"
  by (simp add: regularAt_def sameTree_lookup)

lemma unsafeFile_iff: "unsafeFile i \<longleftrightarrow> \<not> isRegular i"
  by (auto simp: unsafeFile_def isRegular_def isSymlink_def)

lemma readLimited_result:
  assumes "readLimitedFile p n w = (Inr c, w')" "lookup w p = Some i" "isRegular i"
  shows "c = data i \<and> length c \<le> n"
proof -
  obtain h w1 all where s: "sys_open p w = (Inr h, w1)" "sys_read h w1 = (Inr all, w')"
    "length (take (n + 1) all) \<le> n" "c = take (n + 1) all"
    using assms(1) by (auto simp: readLimitedFile_def Let_def not_less split: prod.splits sum.splits if_splits)
  have "h = p" using open_file [OF s(1) assms(2)] assms(3) by (simp add: isRegular_def isSymlink_def)
  then have "all = data i" using read_file [OF s(2)] open_ro.lookup_same [OF s(1)] assms(2) by simp
  moreover have "length all \<le> n" using s(3) by simp
  ultimately show ?thesis using s(4) by simp
qed

lemma readLimited_quiet:
  assumes "quiet w" "lookup w p = Some i" "isRegular i"
  shows "readLimitedFile p n w =
    (if length (data i) > n then Inl (Errorf (''file exceeds '' @ natText n @ '' bytes'')) else Inr (data i),
     tick (tick w))"
proof -
  have r: "\<not> isSymlink i" "\<not> isDir i" using assms(3) by (simp_all add: isRegular_def isSymlink_def isDir_def)
  have "length (take (n + 1) (data i)) > n \<longleftrightarrow> length (data i) > n" by auto
  then show ?thesis using assms r
    by (auto simp: readLimitedFile_def open_quiet [OF assms(1,2)] read_quiet Let_def)
qed

lemma readJSON_result:
  assumes "readJSONFile g names store zero p w = (Inr (Some x), w')"
  shows "\<exists>text. regularAt w p text \<and> length text \<le> stateLimit \<and>
    readDocument (decodeStruct names store) zero text = Document x"
proof -
  obtain i w1 c w2 where s: "sys_lstat p w = (Inr i, w1)" "isRegular i"
    "readLimitedFile p stateLimit w1 = (Inr c, w2)" "readDocument (decodeStruct names store) zero c = Document x"
    using assms by (auto simp: readJSONFile_def unsafeFile_iff
        split: prod.splits sum.splits if_splits document.splits)
  have l: "lookup w p = Some i" "lookup w1 p = Some i"
    using lstat_result(1) [OF s(1)] sameTree_lookup by auto
  show ?thesis using readLimited_result [OF s(3) l(2) s(2)] l(1) s(2,4) by (auto simp: regularAt_def)
qed

lemma loadState_result:
  assumes "loadState g m names store zero check p w = (Inr (Some x), w')"
  shows "(lookup w (stateDir m) = None \<or> secureStateDir m w) \<and> (\<exists>u. check x = Inr u) \<and>
    (\<exists>text. regularAt w p text \<and> length text \<le> stateLimit \<and>
      readDocument (decodeStruct names store) zero text = Document x)"
proof -
  obtain r1 w1 where s1: "checkStateDirectory m w = (r1, w1)" by fastforce
  obtain u w2 where s: "r1 = Inr ()" "readJSONFile g names store zero p w1 = (Inr (Some x), w2)" "check x = Inr u"
    using assms s1 by (auto simp: loadState_def split: prod.splits sum.splits option.splits)
  have 1: "sameTree w w1" by (rule ro_same [OF ro_checkStateDirectory s1])
  have "lookup w (stateDir m) = None \<or> secureStateDir m w"
  proof -
    obtain r0 w0 where l: "sys_lstat (stateDir m) w = (r0, w0)" by fastforce
    show ?thesis
    proof (cases r0)
      case (Inl e)
      then have "is_not_exist e" using s1 s(1) l by (auto simp: checkStateDirectory_def split: if_splits)
      then show ?thesis using lstat_result(2) [OF l [unfolded Inl]] by blast
    next
      case (Inr i)
      then have "\<not> unsafeDirectory i" "stateDirectoryModeSecure i" "mg_stateOwner m i"
        using s1 s(1) l by (auto simp: checkStateDirectory_def split: if_splits)
      then show ?thesis using lstat_result(1) [OF l [unfolded Inr]] by (auto simp: secureStateDir_def unsafeDirectory_def)
    qed
  qed
  then show ?thesis using readJSON_result [OF s(2)] s(3) regularAt_same [OF 1] by blast
qed

text \<open>A tree in which everything lies in a directory that is there too.\<close>

definition parentsExist :: "world \<Rightarrow> bool" where
  "parentsExist w = (\<forall>k. tree w k \<noteq> None \<longrightarrow> tree w (dirName k) \<noteq> None)"

lemma state_dir_there:
  assumes "parentsExist w" "isAbs (cwd w)" "regularAt w (activePath (New options)) doc"
  shows "lookup w (stateDir (New options)) \<noteq> None"
proof -
  let ?d = "stateDir (New options)"
  have d: "?d \<noteq> []" by (simp add: stateDir_def New_def withDefaults_def DefaultStateDirectory_def orElse_def Let_def)
  have "simpleName ''active.json''" by code_simp
  then have "dirName (keyOf w (activePath (New options))) = keyOf w ?d"
    using dirName_keyOf_join [OF assms(2) d] unfolding activePath_def by simp
  moreover have "tree w (keyOf w (activePath (New options))) \<noteq> None"
    using assms(3) by (auto simp: regularAt_def lookup_def split: if_splits)
  ultimately have "tree w (keyOf w ?d) \<noteq> None" using assms(1) unfolding parentsExist_def by metis
  then show ?thesis using d by (simp add: lookup_def)
qed

text \<open>The text of a state file: one JSON object whose members are all known, and the state it gives.\<close>

definition strictActive :: "string \<Rightarrow> activeState \<Rightarrow> bool" where
  "strictActive doc a =
     (\<exists>ms. parseJson doc = Some (JObj ms) \<and>
        (\<forall>(raw, v) \<in> set ms. matchField activeNames (unquote raw) \<noteq> None) \<and>
        decodeMembers activeNames storeActive ms zeroActive = Some a)"

lemma strict_document:
  assumes "readDocument (decodeStruct activeNames storeActive) zeroActive doc = Document a" "validActive a"
  shows "strictActive doc a"
proof -
  obtain j where j: "parseJson doc = Some j" "decodeStruct activeNames storeActive j zeroActive = Some a"
    using assms(1) by (auto simp: readDocument_iff)
  have "j \<noteq> JNull" using j(2) assms(2) by (auto simp: decodeStruct_def validActive_def zeroActive_def stateSchema_def)
  then obtain ms where ms: "j = JObj ms" "decodeMembers activeNames storeActive ms zeroActive = Some a"
    using j(2) by (cases j) (auto simp: decodeStruct_def)
  then show ?thesis using j(1) decodeMembers_known [OF ms(2)] unfolding strictActive_def by blast
qed

text \<open>
  Claim C20. The state a manager acts on is trustworthy: whatever the files hold and whatever
  fails, an active state that is loaded comes from a regular file of at most 1 MiB in a state
  directory that is owned by root and closed to group and others. The file is one JSON object,
  every member of which is a field of the state, and the state is what these members say. It has
  the current schema, at least one value, only keys the program manages, only values without line
  breaks and NUL, and a 64-digit hash. The tree is one in which the directory of everything that
  exists exists too, as in a file system, and the working directory is absolute.
\<close>

theorem loadActive_trusted:
  assumes "loadActive g (New options) w = (Inr (Some a), w')" "parentsExist w" "isAbs (cwd w)"
  shows "tree w' = tree w \<and> validActive a \<and> secureStateDir (New options) w \<and>
    (\<exists>doc. regularAt w (activePath (New options)) doc \<and> length doc \<le> 2 ^ 20 \<and> strictActive doc a)"
proof -
  note l = loadState_result [OF assms(1) [unfolded loadActive_def]]
  have t: "tree w' = tree w" using ro_same [OF ro_load(2) assms(1)] by (simp add: sameTree_def)
  have v: "validActive a" using l checkActive_iff [of a] by blast
  obtain doc where d: "regularAt w (activePath (New options)) doc" "length doc \<le> stateLimit"
    "readDocument (decodeStruct activeNames storeActive) zeroActive doc = Document a" using l by blast
  have "secureStateDir (New options) w" using l state_dir_there [OF assms(2,3) d(1)] by blast
  then show ?thesis using t v d(1,2) strict_document [OF d(3) v] unfolding stateLimit_def by blast
qed

section \<open>Verify\<close>

lemma trimSpace_nil: "trimSpace [] = []"
  by code_simp

lemma driftOf_sound:
  assumes "driftOf m vals keys w = ([], w')" "k \<in> set keys" "mget vals k \<noteq> []"
  shows "textAt w (sysctlPath m k) = mget vals k"
  using assms
proof (induction keys arbitrary: w)
  case (Cons key keys)
  obtain actual w1 where s1: "readSysctl m key w = (actual, w1)" by fastforce
  obtain d w2 where s2: "driftOf m vals keys w1 = (d, w2)" by fastforce
  have 1: "sameTree w w1" by (rule ro_same [OF ro_sysctls(1) s1])
  have d: "actual = mget vals key" "d = []" "w2 = w'" using Cons.prems(1) s1 s2 by (auto split: if_splits)
  show ?case
  proof (cases "k = key")
    case True
    then show ?thesis using readSysctl_sees(2) [OF s1] d(1) Cons.prems(3) by auto
  next
    case False
    then show ?thesis using Cons.IH [of w1] s2 d Cons.prems sameTree_textAt [OF 1] by auto
  qed
qed simp

lemma driftOf_quiet:
  assumes "quiet w" "driftOf m vals keys w = (d, w')"
  shows "d = [] \<longleftrightarrow> (\<forall>k \<in> set keys. textAt w (sysctlPath m k) = mget vals k)"
  using assms
proof (induction keys arbitrary: w d)
  case (Cons key keys)
  obtain w1 where s1: "readSysctl m key w = (textAt w (sysctlPath m key), w1)" "sameTree w w1"
    using readTrimmed_quiet [OF Cons.prems(1)] unfolding readSysctl_def by blast
  obtain d2 w2 where s2: "driftOf m vals keys w1 = (d2, w2)" by fastforce
  have "quiet w1" using sameTree_quiet [OF s1(2)] Cons.prems(1) by simp
  then have "d2 = [] \<longleftrightarrow> (\<forall>k \<in> set keys. textAt w (sysctlPath m k) = mget vals k)"
    using Cons.IH [of w1 d2] s2 Cons.prems(2) s1(1) sameTree_textAt [OF s1(2)] by simp
  then show ?case using Cons.prems(2) s1(1) s2 by (auto split: if_splits)
qed simp

text \<open>The tuning recorded in the state is in force on the host.\<close>

definition inForce :: "goLib \<Rightarrow> Manager \<Rightarrow> activeState \<Rightarrow> world \<Rightarrow> bool" where
  "inForce g m active w =
     (as_Phase active = ''active'' \<and>
      (\<forall>(k, v) \<in> set (as_Values active). textAt w (sysctlPath m k) = v) \<and>
      (\<exists>text. regularAt w (sysctlFile m) text \<and> length text \<le> stateLimit \<and>
         contentHash g text = as_SysctlFileHash active))"

lemma inForce_same: "sameTree w w' \<Longrightarrow> inForce g m a w' = inForce g m a w"
  by (simp add: inForce_def regularAt_same sameTree_textAt)

lemma mget_entries:
  "distinct (map fst vs) \<Longrightarrow>
     (\<forall>k \<in> dom (map_of vs). P k (mget vs k)) \<longleftrightarrow> (\<forall>(k, v) \<in> set vs. P k v)"
  by (force simp: mget_def dom_map_of_conv_image_fst)

lemma verifyActive_sound:
  assumes "verifyActive g m active w = (Inr v, w')" "vr_Drift v = []"
    "distinct (map fst (as_Values active))" "validValues (as_Values active)"
  shows "inForce g m active w"
proof -
  obtain d w1 where s1: "driftOf m (as_Values active) (sortedKeysOf (as_Values active)) w = (d, w1)" by fastforce
  have 1: "sameTree w w1" by (rule ro_same [OF ro_driftOf s1])
  obtain i w2 c where s: "sys_lstat (sysctlFile m) w1 = (Inr i, w2)" "isRegular i"
    "readLimitedFile (sysctlFile m) stateLimit w2 = (Inr c, w')" "contentHash g c = as_SysctlFileHash active"
    and d: "d = []" "as_Phase active = ''active''"
    using assms(1,2) s1
    by (auto simp: verifyActive_def Let_def unsafeFile_iff split: prod.splits sum.splits if_splits)
  have l: "lookup w (sysctlFile m) = Some i" "lookup w2 (sysctlFile m) = Some i"
    using lstat_result(1) [OF s(1)] sameTree_lookup [OF 1] sameTree_lookup by auto
  have v: "\<forall>(k, v) \<in> set (as_Values active). textAt w (sysctlPath m k) = v"
    unfolding mget_entries [OF assms(3), symmetric]
  proof
    fix k assume k: "k \<in> dom (map_of (as_Values active))"
    then obtain v where kv: "map_of (as_Values active) k = Some v" by blast
    have "v \<noteq> []" using map_of_SomeD [OF kv] assms(4) by (auto simp: validValues_def safeValue_def)
    then show "textAt w (sysctlPath m k) = mget (as_Values active) k"
      using driftOf_sound [OF s1 [unfolded d(1)], of k] k kv by (simp add: mget_Some)
  qed
  have "c = data i \<and> length c \<le> stateLimit" by (rule readLimited_result [OF s(3) l(2) s(2)])
  then have "\<exists>text. regularAt w (sysctlFile m) text \<and> length text \<le> stateLimit \<and>
      contentHash g text = as_SysctlFileHash active"
    using l(1) s(2,4) by (intro exI [of _ c]) (auto simp: regularAt_def)
  then show ?thesis unfolding inForce_def using d(2) v by (intro conjI)
qed

lemma verifyActive_complete:
  assumes "quiet w" "inForce g m active w" "distinct (map fst (as_Values active))"
  shows "\<exists>v w'. verifyActive g m active w = (Inr v, w') \<and> vr_Drift v = []"
proof -
  obtain d w1 where s1: "driftOf m (as_Values active) (sortedKeysOf (as_Values active)) w = (d, w1)" by fastforce
  have 1: "sameTree w w1" by (rule ro_same [OF ro_driftOf s1])
  have "\<forall>k \<in> dom (map_of (as_Values active)). textAt w (sysctlPath m k) = mget (as_Values active) k"
    by (rule iffD2 [OF mget_entries [OF assms(3), of "\<lambda>k v. textAt w (sysctlPath m k) = v"]])
      (use assms(2) [unfolded inForce_def] in \<open>elim conjE\<close>)
  then have d: "d = []" using driftOf_quiet [OF assms(1) s1] by simp
  obtain i where i: "lookup w (sysctlFile m) = Some i" "isRegular i" "length (data i) \<le> stateLimit"
    "contentHash g (data i) = as_SysctlFileHash active" and ph: "as_Phase active = ''active''"
    using assms(2) by (auto simp: inForce_def regularAt_def)
  have q: "quiet w1" "lookup w1 (sysctlFile m) = Some i"
    using sameTree_quiet [OF 1] assms(1) sameTree_lookup [OF 1] i(1) by simp_all
  have "sys_lstat (sysctlFile m) w1 = (Inr i, tick w1)" using q by (simp add: sys_lstat_def)
  moreover have "readLimitedFile (sysctlFile m) stateLimit (tick w1) = (Inr (data i), tick (tick (tick w1)))"
    using readLimited_quiet [of "tick w1" "sysctlFile m" i stateLimit] q i(2,3) by simp
  ultimately show ?thesis using s1 d i(2,4) ph
    by (simp add: verifyActive_def Let_def unsafeFile_iff)
qed


text \<open>What is loaded has distinct keys, as a Go map has.\<close>

lemma distinct_decodeEntries:
  "decodeEntries ms acc = Some vs \<Longrightarrow> distinct (map fst acc) \<Longrightarrow> distinct (map fst vs)"
proof (induction ms arbitrary: acc)
  case (Cons e ms)
  obtain raw v where e: "e = (raw, v)" by fastforce
  then obtain s where "decodeEntries ms (mset_key (unquote raw) s acc) = Some vs"
    using Cons.prems(1) by (auto split: option.splits)
  then show ?case using Cons.IH Cons.prems(2) by simp
qed simp

lemma distinct_decodeMap:
  "decodeMap v cur = Some vs \<Longrightarrow> distinct (map fst cur) \<Longrightarrow> distinct (map fst vs)"
  by (cases v) (auto simp: decodeMap_def dest: distinct_decodeEntries)


lemma store_active:
  "storeActive ''schema'' v s = map_option (\<lambda>x. s\<lparr>as_Schema := x\<rparr>) (decodeInt v (as_Schema s))"
  "storeActive ''phase'' v s = map_option (\<lambda>x. s\<lparr>as_Phase := x\<rparr>) (decodeString v (as_Phase s))"
  "storeActive ''updated_at'' v s = map_option (\<lambda>x. s\<lparr>as_UpdatedAt := x\<rparr>) (decodeTime v (as_UpdatedAt s))"
  "storeActive ''values'' v s = map_option (\<lambda>x. s\<lparr>as_Values := x\<rparr>) (decodeMap v (as_Values s))"
  "storeActive ''sysctl_file_sha256'' v s =
     map_option (\<lambda>x. s\<lparr>as_SysctlFileHash := x\<rparr>) (decodeString v (as_SysctlFileHash s))"
  by (simp_all add: storeActive_def)

lemma decodeMembers_invariant:
  assumes "decodeMembers names store ms acc = Some x" "P acc"
    "\<And>n v a b. store n v a = Some b \<Longrightarrow> P a \<Longrightarrow> P b"
  shows "P x"
  using assms(1,2)
proof (induction ms arbitrary: acc)
  case (Cons e ms)
  obtain raw v where e: "e = (raw, v)" by fastforce
  obtain n b where "store n v acc = Some b" "decodeMembers names store ms b = Some x"
    using Cons.prems(1) e by (auto split: option.splits)
  then show ?case using Cons.IH assms(3) Cons.prems(2) by blast
qed simp

lemma storeActive_distinct:
  "storeActive n v a = Some b \<Longrightarrow> distinct (map fst (as_Values a)) \<Longrightarrow> distinct (map fst (as_Values b))"
  by (auto simp: storeActive_def split: if_splits dest: distinct_decodeMap)

lemma loadActive_distinct:
  assumes "loadActive g m w = (Inr (Some a), w')"
  shows "distinct (map fst (as_Values a))" "validActive a"
proof -
  obtain doc where d: "readDocument (decodeStruct activeNames storeActive) zeroActive doc = Document a"
    and c: "\<exists>u. checkActive a = Inr u"
    using loadState_result [OF assms [unfolded loadActive_def]] by blast
  show "validActive a" using c checkActive_iff by blast
  obtain v where v: "decodeStruct activeNames storeActive v zeroActive = Some a"
    using d [unfolded readDocument_iff] by blast
  have z: "distinct (map fst (as_Values zeroActive))" by (simp add: zeroActive_def)
  show "distinct (map fst (as_Values a))"
  proof (cases v)
    case (JObj ms)
    then have "decodeMembers activeNames storeActive ms zeroActive = Some a" using v by (simp add: decodeStruct_def)
    then show ?thesis
      by (rule decodeMembers_invariant [where P = "\<lambda>a. distinct (map fst (as_Values a))", OF _ z storeActive_distinct])
  qed (use v z in \<open>auto simp: decodeStruct_def\<close>)
qed

text \<open>
  Claim C21. \<open>Verify\<close> tells the truth about tuning that is recorded as active: whatever fails, no
  reported drift means that every managed sysctl has its recorded value and that the managed
  file is a regular file with the recorded hash; and when no call fails, tuning that is in force
  is reported without drift.
\<close>

theorem Verify_exact:
  assumes "loadActive g (New options) w = (Inr (Some active), w1)" "Verify g (New options) w = (r, w2)"
  shows "tree w2 = tree w \<and>
    (\<forall>v. r = Inr v \<longrightarrow> vr_Drift v = [] \<longrightarrow> inForce g (New options) active w) \<and>
    (quiet w \<longrightarrow> inForce g (New options) active w \<longrightarrow> (\<exists>v. r = Inr v \<and> vr_Managed v \<and> vr_Drift v = []))"
proof -
  let ?m = "New options"
  note a = loadActive_distinct [OF assms(1)]
  have 1: "sameTree w w1" by (rule ro_same [OF ro_load(2) assms(1)])
  have v: "verifyActive g ?m active w1 = (r, w2)" using assms by (simp add: Verify_def)
  have "inForce g ?m active w" if "r = Inr v" "vr_Drift v = []" for v
    using verifyActive_sound [OF v [unfolded that(1)] that(2) a(1)] a(2) inForce_same [OF 1]
    by (simp add: validActive_def)
  moreover have "\<exists>v. r = Inr v \<and> vr_Managed v \<and> vr_Drift v = []" if q: "quiet w" "inForce g ?m active w"
  proof -
    obtain v where "r = Inr v" "vr_Drift v = []"
      using verifyActive_complete [of w1 g ?m active] v q a(1) inForce_same [OF 1] sameTree_quiet [OF 1] by auto
    then show ?thesis using v by (auto simp: verifyActive_def Let_def split: prod.splits sum.splits if_splits)
  qed
  moreover have "tree w2 = tree w" using ro_same [OF ro_Verify assms(2)] by (simp add: sameTree_def)
  ultimately show ?thesis by blast
qed

section \<open>The state files are read back\<close>

definition plainChar :: "char \<Rightarrow> bool" where
  "plainChar c = (byte c < 128 \<and> escapeByte c = [c])"

lemma plain_escape: "list_all plainChar s \<Longrightarrow> escape s = s \<and> ascii s"
proof (induction s)
  case (Cons c s)
  then show ?case using escape_ascii [of c s] by (simp add: plainChar_def)
qed (simp add: escape.simps)

lemma plain_digit: "isDigit c \<Longrightarrow> plainChar c"
proof -
  have "list_all (\<lambda>n. plainChar (char_of n)) [48..<58]" by code_simp
  moreover assume "isDigit c"
  then have "byte c \<in> set [48..<58]" by (simp add: isDigit_def del: upt_rec_numeral)
  ultimately have "plainChar (char_of (byte c))" unfolding list_all_iff by (rule bspec)
  then show ?thesis by (simp add: byte_def)
qed

lemma plain_digits: "list_all isDigit s \<Longrightarrow> list_all plainChar s"
  by (simp add: list_all_iff plain_digit)

lemma plain_time: "list_all plainChar (timeText t)"
proof -
  have f: "list_all plainChar (fracText n)" for n
  proof -
    have "list_all plainChar (rev (dropWhile P (rev (nine n))))" for P
      using plain_digits [OF digits_num(3)] set_dropWhileD by (fastforce simp: list_all_iff)
    moreover have "plainChar (CHR ''.'')" by code_simp
    ultimately show ?thesis by (simp add: fracText_def trimZeros_def)
  qed
  have c: "list_all plainChar ''-T:Z+''" by code_simp
  have z: "list_all plainChar (zoneText off)" for off
    using c plain_digits [OF digits_num(1)] by (simp add: zoneText_def)
  show ?thesis using c f z plain_digits [OF digits_num(1)] plain_digits [OF digits_num(2)]
    by (simp add: timeText_def)
qed

lemma rawOK_time: "rawOK (timeText t)"
  using plain_escape [OF plain_time] rawOK_escape [of "timeText t"] by simp


definition sortedMap :: "strmap \<Rightarrow> strmap" where
  "sortedMap vs = map (\<lambda>k. (k, mget vs k)) (sortedKeysOf vs)"

lemma sortedMap_map [simp]: "map_of (sortedMap vs) = map_of vs"
  unfolding sortedMap_def by (rule map_of_sorted)

definition portableMap :: "strmap \<Rightarrow> bool" where
  "portableMap vs = (distinct (map fst vs) \<and> (\<forall>(k, v) \<in> set vs. ascii k \<and> ascii v))"

definition portableActive :: "activeState \<Rightarrow> bool" where
  "portableActive a = (int64 (as_Schema a) \<and> ascii (as_Phase a) \<and> timeOK (as_UpdatedAt a) \<and>
     portableMap (as_Values a) \<and> ascii (as_SysctlFileHash a))"

definition portableBaseline :: "baselineState \<Rightarrow> bool" where
  "portableBaseline b = (int64 (bs_Schema b) \<and> timeOK (bs_CreatedAt b) \<and>
     list_all ascii [bs_ProgramVersion b, bs_Kernel b, bs_Interface b] \<and> portableMap (bs_Values b))"

lemma state_names [simp]:
  "list_all ascii activeNames" "list_all ascii baselineNames"
  "''schema'' \<in> set activeNames" "''phase'' \<in> set activeNames" "''updated_at'' \<in> set activeNames"
  "''values'' \<in> set activeNames" "''sysctl_file_sha256'' \<in> set activeNames"
  "''schema'' \<in> set baselineNames" "''created_at'' \<in> set baselineNames"
  "''program_version'' \<in> set baselineNames" "''kernel'' \<in> set baselineNames"
  "''interface'' \<in> set baselineNames" "''values'' \<in> set baselineNames"
  by code_simp+

lemma store_baseline:
  "storeBaseline ''schema'' v s = map_option (\<lambda>x. s\<lparr>bs_Schema := x\<rparr>) (decodeInt v (bs_Schema s))"
  "storeBaseline ''created_at'' v s = map_option (\<lambda>x. s\<lparr>bs_CreatedAt := x\<rparr>) (decodeTime v (bs_CreatedAt s))"
  "storeBaseline ''program_version'' v s =
     map_option (\<lambda>x. s\<lparr>bs_ProgramVersion := x\<rparr>) (decodeString v (bs_ProgramVersion s))"
  "storeBaseline ''kernel'' v s = map_option (\<lambda>x. s\<lparr>bs_Kernel := x\<rparr>) (decodeString v (bs_Kernel s))"
  "storeBaseline ''interface'' v s = map_option (\<lambda>x. s\<lparr>bs_Interface := x\<rparr>) (decodeString v (bs_Interface s))"
  "storeBaseline ''values'' v s = map_option (\<lambda>x. s\<lparr>bs_Values := x\<rparr>) (decodeMap v (bs_Values s))"
  by (simp_all add: storeBaseline_def)

lemma decodeTime_text: "timeOK t \<Longrightarrow> decodeTime (JStr (timeText t)) cur = Some t"
  by (simp add: decodeTime_def parse_time)

lemma decodeMap_sorted: "portableMap vs \<Longrightarrow> decodeMap (jsonMap vs) [] = Some (sortedMap vs)"
  unfolding portableMap_def sortedMap_def by (rule decodeMap_json) blast+

lemma jsonMap_OK: "portableMap vs \<Longrightarrow> jsonOK (jsonMap vs)"
  unfolding portableMap_def by (rule jsonOK_map) blast

lemma ascii_name: "list_all ascii names \<Longrightarrow> n \<in> set names \<Longrightarrow> ascii n"
  by (simp add: list_all_iff)

lemma active_members:
  assumes "portableActive a"
  shows "decodeStruct activeNames storeActive (activeJson a) zeroActive =
    Some (a\<lparr>as_Values := sortedMap (as_Values a)\<rparr>)"
  using assms
  by (cases a) (simp add: portableActive_def decodeStruct_def activeJson_def member_rules store_active zeroActive_def
      decodeTime_text decodeMap_sorted)

lemma activeJson_OK:
  assumes "portableActive a"
  shows "jsonOK (activeJson a)"
  using assms rawOK_time [of "as_UpdatedAt a"] unfolding activeJson_def jsonOK_fields(2) portableActive_def
  by (intro conjI jsonOK_fields(3) ascii_name [OF state_names(1)]) (simp_all add: jsonMap_OK)

lemma member_omitString:
  "n \<in> set names \<Longrightarrow> list_all ascii names \<Longrightarrow> ascii s \<Longrightarrow>
     decodeMembers names store (omitEmptyString n s @ ms) acc =
       (case (if s = [] then Some acc else store n (jsonString s) acc) of
          None \<Rightarrow> None | Some a \<Rightarrow> decodeMembers names store ms a)"
  by (simp add: omitEmptyString_def member_field)

lemma baseline_members:
  assumes "portableBaseline b"
  shows "decodeStruct baselineNames storeBaseline (baselineJson b) zeroBaseline =
    Some (b\<lparr>bs_Values := sortedMap (bs_Values b)\<rparr>)"
  using assms
  by (cases b) (simp add: portableBaseline_def decodeStruct_def baselineJson_def member_rules member_omitString
      store_baseline zeroBaseline_def decodeTime_text decodeMap_sorted)

lemma baselineJson_OK:
  assumes "portableBaseline b"
  shows "jsonOK (baselineJson b)"
proof -
  have "jsonOK (JObj (omitEmptyString ''interface'' (bs_Interface b)))"
    using assms jsonOK_fields(4) ascii_name [OF state_names(2) state_names(12)]
    by (simp add: portableBaseline_def)
  then show ?thesis
    using assms rawOK_time [of "bs_CreatedAt b"] unfolding baselineJson_def jsonOK_fields(2) portableBaseline_def
    by (intro conjI jsonOK_fields(3) ascii_name [OF state_names(2)]) (simp_all add: jsonMap_OK)
qed

lemma active_roundtrip:
  assumes "portableActive a"
  shows "\<exists>doc. activeText a = Inr doc \<and>
      readDocument (decodeStruct activeNames storeActive) zeroActive doc =
        Document (a\<lparr>as_Values := sortedMap (as_Values a)\<rparr>)"
proof -
  have "activeText a = Inr (pretty 0 (activeJson a) @ nl)"
    using assms by (simp add: activeText_def marshalWith_def marshalTime_def portableActive_def timeOK_def)
  then show ?thesis
    using readDocument_pretty [where store = "decodeStruct activeNames storeActive", OF activeJson_OK [OF assms] active_members [OF assms]]
    by simp
qed

lemma baseline_roundtrip:
  assumes "portableBaseline b"
  shows "\<exists>doc. baselineText b = Inr doc \<and>
      readDocument (decodeStruct baselineNames storeBaseline) zeroBaseline doc =
        Document (b\<lparr>bs_Values := sortedMap (bs_Values b)\<rparr>)"
proof -
  have "baselineText b = Inr (pretty 0 (baselineJson b) @ nl)"
    using assms by (simp add: baselineText_def marshalWith_def marshalTime_def portableBaseline_def timeOK_def)
  then show ?thesis
    using readDocument_pretty [where store = "decodeStruct baselineNames storeBaseline", OF baselineJson_OK [OF assms] baseline_members [OF assms]]
    by simp
qed

text \<open>
  Claim C22. What \<open>Apply\<close> records can be read back, provided that all its strings (kernel, interface
  and program version, keys and values, phase and hash) are ASCII, its time is a valid one and its
  schema number has 64 bits: the text of such a state decodes to the same state, with the values
  in key order, under the strict rules of the reader. Bytes that are not UTF-8 do not survive:
  encoding/json replaces them.
\<close>

theorem state_roundtrip:
  assumes "portableActive a" "portableBaseline b"
  shows "(\<exists>doc. activeText a = Inr doc \<and>
      readDocument (decodeStruct activeNames storeActive) zeroActive doc =
        Document (a\<lparr>as_Values := sortedMap (as_Values a)\<rparr>)) \<and>
    (\<exists>doc. baselineText b = Inr doc \<and>
      readDocument (decodeStruct baselineNames storeBaseline) zeroBaseline doc =
        Document (b\<lparr>bs_Values := sortedMap (bs_Values b)\<rparr>))"
  using active_roundtrip [OF assms(1)] baseline_roundtrip [OF assms(2)] by blast

definition storedActive :: activeState where
  "storedActive = \<lparr>as_Schema = 1, as_Phase = ''active'', as_UpdatedAt = epoch,
     as_Values = [(KeyMTUProbing, ''1'')], as_SysctlFileHash = replicate 64 (CHR ''a'')\<rparr>"

definition storedBaseline :: baselineState where
  "storedBaseline = \<lparr>bs_Schema = 1, bs_CreatedAt = epoch, bs_ProgramVersion = ''1'', bs_Kernel = ''6.1'',
     bs_Interface = [], bs_Values = [(KeyMTUProbing, ''0'')]\<rparr>"

lemma stored_portable: "portableActive storedActive" "portableBaseline storedBaseline"
  by code_simp+

lemma state_roundtrip_witness:
  "\<exists>doc. activeText storedActive = Inr doc \<and>
     readDocument (decodeStruct activeNames storeActive) zeroActive doc = Document storedActive"
proof -
  have s: "storedActive\<lparr>as_Values := sortedMap (as_Values storedActive)\<rparr> = storedActive" by code_simp
  show ?thesis using state_roundtrip [OF stored_portable] unfolding s by blast
qed

section \<open>Stored state on the host\<close>

text \<open>A state directory with an active state in it, and nothing else.\<close>

definition storedTree :: "string \<Rightarrow> inode option" where
  "storedTree = [''/'' \<mapsto> dirNode o755 0, ''/s'' \<mapsto> dirNode o700 0,
     ''/s/active.json'' \<mapsto> fileNode o600 0 (pretty 0 (activeJson storedActive) @ nl)]"

lemma sampleTree: "tree (sampleWorld t) = t"
  by (simp add: sampleWorld_def)

lemma stored_loaded:
  "fst (loadActive sampleLib (New sampleOptions) (sampleWorld storedTree)) = Inr (Some storedActive)"
  by code_simp

lemma stored_parents: "parentsExist (sampleWorld storedTree)"
proof -
  have "dirName ''/'' = ''/''" "dirName ''/s'' = ''/''" "dirName ''/s/active.json'' = ''/s''" by code_simp+
  then show ?thesis by (auto simp: parentsExist_def sampleTree storedTree_def)
qed

lemma loadActive_trusted_witness:
  "\<exists>doc w'. loadActive sampleLib (New sampleOptions) (sampleWorld storedTree) = (Inr (Some storedActive), w') \<and>
     secureStateDir (New sampleOptions) (sampleWorld storedTree) \<and>
     regularAt (sampleWorld storedTree) ''/s/active.json'' doc \<and> strictActive doc storedActive"
proof -
  obtain w' where run: "loadActive sampleLib (New sampleOptions) (sampleWorld storedTree) = (Inr (Some storedActive), w')"
    using stored_loaded by (metis prod.collapse)
  have c: "isAbs (cwd (sampleWorld storedTree))" "activePath (New sampleOptions) = ''/s/active.json''" by code_simp+
  show ?thesis using loadActive_trusted [OF run stored_parents c(1)] run unfolding c(2) by blast
qed

lemma Verify_exact_witness:
  "tree (snd (Verify sampleLib (New sampleOptions) (sampleWorld storedTree))) = storedTree"
  using Verify_exact [of sampleLib sampleOptions "sampleWorld storedTree" storedActive] stored_loaded
  by (metis prod.collapse sampleTree)

section \<open>Loading what was stored\<close>

lemma readJSON_quiet:
  assumes "quiet w" "regularAt w p doc" "length doc \<le> stateLimit"
    "readDocument (decodeStruct names store) zero doc = Document x"
  shows "\<exists>w'. readJSONFile g names store zero p w = (Inr (Some x), w')"
proof -
  obtain i where i: "lookup w p = Some i" "isRegular i" "data i = doc" using assms(2) by (auto simp: regularAt_def)
  have "sys_lstat p w = (Inr i, tick w)" using i(1) assms(1) by (simp add: sys_lstat_def)
  moreover have "readLimitedFile p stateLimit (tick w) = (Inr doc, tick (tick (tick w)))"
    using readLimited_quiet [of "tick w" p i stateLimit] assms(1,3) i by simp
  ultimately show ?thesis using i(2) assms(4) by (simp add: readJSONFile_def unsafeFile_iff)
qed

lemma loadState_quiet:
  assumes "quiet w" "secureStateDir m w" "regularAt w p doc" "length doc \<le> stateLimit"
    "readDocument (decodeStruct names store) zero doc = Document x" "check x = Inr u"
  shows "\<exists>w'. loadState g m names store zero check p w = (Inr (Some x), w')"
proof -
  obtain d where d: "lookup w (stateDir m) = Some d" "isDir d" "stateDirectoryModeSecure d" "mg_stateOwner m d"
    using assms(2) by (auto simp: secureStateDir_def)
  have "\<not> unsafeDirectory d" using d(2) by (simp add: unsafeDirectory_def isDir_def isSymlink_def)
  then have c: "checkStateDirectory m w = (Inr (), tick w)"
    using d assms(1) by (simp add: checkStateDirectory_def sys_lstat_def)
  have t: "quiet (tick w)" "regularAt (tick w) p doc" using assms(1,3) by (simp_all add: regularAt_def)
  obtain w' where "readJSONFile g names store zero p (tick w) = (Inr (Some x), w')"
    using readJSON_quiet [OF t assms(4,5), of g] by (elim exE)
  then show ?thesis using c assms(6) by (simp add: loadState_def)
qed

lemma loadActive_quiet:
  assumes "quiet w" "secureStateDir m w" "regularAt w (activePath m) doc" "length doc \<le> stateLimit"
    "readDocument (decodeStruct activeNames storeActive) zeroActive doc = Document a" "validActive a"
  shows "\<exists>w'. loadActive g m w = (Inr (Some a), w')"
proof -
  obtain u where "checkActive a = Inr u" using checkActive_iff assms(6) by blast
  then show ?thesis unfolding loadActive_def by (rule loadState_quiet [OF assms(1-5)])
qed

lemma loadBaseline_quiet:
  assumes "quiet w" "secureStateDir m w" "regularAt w (baselinePath m) doc" "length doc \<le> stateLimit"
    "readDocument (decodeStruct baselineNames storeBaseline) zeroBaseline doc = Document b" "validBaseline b"
  shows "\<exists>w'. loadBaseline g m w = (Inr (Some b), w')"
proof -
  obtain u where "checkBaseline b = Inr u" using checkBaseline_iff assms(6) by blast
  then show ?thesis unfolding loadBaseline_def by (rule loadState_quiet [OF assms(1-5)])
qed

text \<open>What is loaded is what the file says.\<close>

lemma loadState_reads:
  assumes "loadState g m names store zero check p w = (Inr (Some x), w')" "regularAt w p doc"
  shows "readDocument (decodeStruct names store) zero doc = Document x"
proof -
  obtain doc' where d: "regularAt w p doc'" "readDocument (decodeStruct names store) zero doc' = Document x"
    using loadState_result [OF assms(1)] by blast
  have "doc' = doc" by (rule regularAt_unique [OF d(1) assms(2)])
  then show ?thesis using d(2) by simp
qed

lemma load_reads:
  "loadActive g m w = (Inr (Some a), w') \<Longrightarrow> regularAt w (activePath m) doc \<Longrightarrow>
     readDocument (decodeStruct activeNames storeActive) zeroActive doc = Document a"
  unfolding loadActive_def by (rule loadState_reads)

lemma load_reads_baseline:
  "loadBaseline g m w = (Inr (Some b), w') \<Longrightarrow> regularAt w (baselinePath m) doc \<Longrightarrow>
     readDocument (decodeStruct baselineNames storeBaseline) zeroBaseline doc = Document b"
  unfolding loadBaseline_def by (rule loadState_reads)

end
