(* ===== verification/TuneCommit.thy ===== *)
theory TuneCommit
  imports TuneVerify
begin

text \<open>
  The transaction of \<open>Apply\<close>: what a committed run has put in force, and what a failed run has
  restored.
\<close>

lemma lookup_unchanged:
  "sameEnv w w' \<Longrightarrow> tree w' (keyOf w p) = tree w (keyOf w p) \<Longrightarrow> lookup w' p = lookup w p"
  by (simp add: lookup_def sameEnv_keyOf)

section \<open>Observed values\<close>

lemma readSysctls_seen:
  assumes "readSysctls m ks acc w = (s, w')" "\<And>k. mget acc k = [] \<or> mget acc k = textAt w (sysctlPath m k)"
  shows "mget s k = [] \<or> mget s k = textAt w (sysctlPath m k)"
  using assms
proof (induction ks arbitrary: acc w)
  case (Cons key ks)
  obtain v w1 where s1: "readSysctl m key w = (v, w1)" by fastforce
  have t: "textAt w1 p = textAt w p" for p by (rule sameTree_textAt [OF readSysctl_sees(1) [OF s1]])
  have "mget (mset_key key v acc) k = [] \<or> mget (mset_key key v acc) k = textAt w1 (sysctlPath m k)" for k
    using Cons.prems(2) [of k] readSysctl_sees(2) [OF s1] by (simp add: t)
  then show ?case using Cons.IH [of "mset_key key v acc" w1] Cons.prems(1) s1 by (simp add: t)
qed simp

text \<open>A value in a profile is empty or the text of the sysctl.\<close>

lemma Detect_seen:
  assumes "Detect g m w = (Inr p, w')"
  shows "sysctl p k = [] \<or> sysctl p k = textAt w (sysctlPath m k)"
proof -
  obtain c w1 w2 w3 where s: "DecodeFile (gl_jsonMsg g) (op_ConfigPath (mg_options m)) w = (Inr c, w1)"
    "detectEnvironment g m w1 = (pf_Environment p, w2)"
    "readSysctls m (managedKeys @ [KeyAvailableCC]) [] w2 = (pf_Sysctls p, w3)"
    using Detect_steps [OF assms] by metis
  have "sameTree w w2"
    by (rule sameTree_trans [OF ro_same [OF ro_DecodeFile s(1)] ro_same [OF ro_environment s(2)]])
  then have "textAt w2 q = textAt w q" for q by (rule sameTree_textAt)
  then show ?thesis using readSysctls_seen [OF s(3), of k] by (simp add: sysctl_def mget_def)
qed

lemma holds_trimmed: "holds m w k v \<Longrightarrow> trimSpace v = v"
  by (auto simp: holds_def trimSpace_idem)

lemma requests_observed:
  assumes "Detect g m w = (Inr p, w')" "requests (planActions p) k value" "holds m w k v"
  shows "sysctl p k = v \<and> v \<noteq> []"
proof -
  have "safeChange p k value" by (rule requests_safe [OF assms(2)])
  then have "sysctl p k \<noteq> []" unfolding safeChange_def by force
  then show ?thesis using Detect_seen [OF assms(1), of k] holds_textAt [OF assms(3)] by simp
qed

lemma requests_value: "requests (planActions p) k value \<Longrightarrow> value \<in> {''fq'', ''bbr'', ''1''}"
  using requests_safe unfolding safeChange_def by blast

lemma baselineValues_mget:
  "mget (baselineValues s) k = (if k \<in> set managedKeys then mget s k else [])"
proof -
  have "mget (fold (\<lambda>key m. if mget s key \<noteq> [] then mset_key key (mget s key) m else m) ks acc) k =
      (if k \<in> set ks \<and> mget s k \<noteq> [] then mget s k else mget acc k)" for ks acc
    by (induction ks arbitrary: acc) auto
  then show ?thesis by (simp add: baselineValues_def mget_def)
qed

section \<open>Writing the requested values\<close>

lemma applyKeys_done:
  assumes "applyKeys m rq keys changed w = ((None, changed'), w')"
    "layout m w" "distinct keys" "set keys \<subseteq> set managedKeys" "\<forall>k v. map_of rq k = Some v \<longrightarrow> v \<noteq> []"
  shows "changed' = changed @ filter (\<lambda>k. map_of rq k \<noteq> None) keys \<and>
    (\<forall>k \<in> set keys. \<forall>v. map_of rq k = Some v \<longrightarrow> holds m w' k v)"
  using assms
proof (induction keys arbitrary: changed w)
  case (Cons key ks)
  show ?case
  proof (cases "map_of rq key")
    case None
    then show ?thesis using Cons by auto
  next
    case (Some v)
    obtain r1 w1 where s1: "writeSysctl m key v w = (r1, w1)" by fastforce
    have r1: "r1 = Inr ()" using Cons.prems(1) Some s1 by (cases r1) auto
    obtain a w2 where s2: "readSysctl m key w1 = (a, w2)" by fastforce
    have a: "a = v" and rest: "applyKeys m rq ks (changed @ [key]) w2 = ((None, changed'), w')"
      using Cons.prems(1) Some s1 s2 r1 by (auto split: if_splits)
    obtain i where "lookup w1 (sysctlPath m key) = Some (written w (sysctlPath m key) i v)" "isRegular i"
      using writeSysctl_result(3) [OF s1 r1] by blast
    then have h1: "holds m w1 key v"
      using readSysctl_holds [OF s2] a Cons.prems(5) Some
      by (auto simp: written_def isRegular_def split: option.splits)
    have same: "sameTree w1 w2" by (rule readSysctl_sees(1) [OF s2])
    have env: "sameEnv w w2" using writeSysctl_result(1) [OF s1] same sameEnv_trans by (auto simp: sameTree_def)
    have l2: "layout m w2" using Cons.prems(2) layout_env [OF env] by simp
    have IH: "changed' = (changed @ [key]) @ filter (\<lambda>k. map_of rq k \<noteq> None) ks \<and>
        (\<forall>k \<in> set ks. \<forall>v. map_of rq k = Some v \<longrightarrow> holds m w' k v)"
      using Cons.IH [OF rest l2] Cons.prems(3-5) by simp
    have t: "touches w2 (sysctlKey m w2 ` set ks) (applyKeys m rq ks (changed @ [key]))"
      by (rule touches_applyKeys) simp
    have k: "sysctlKey m w2 key \<notin> sysctlKey m w2 ` set ks"
      using sysctlKeys_inj [OF l2] Cons.prems(3,4) by (auto simp: subset_iff)
    have "holds m w' key v"
      using touchesD [OF t _ rest] k holds_frame [of w2 w' m key v] holds_same [OF same] h1 by simp
    then show ?thesis using IH Some by auto
  qed
qed simp

lemma sysctlPath_nonempty: "sysctlPath m k \<noteq> []"
  by (simp add: sysctlPath_def joinPath.simps)

text \<open>A failed write leaves its sysctl alone, unless only closing it failed.\<close>

definition closeError :: "string \<Rightarrow> error \<Rightarrow> bool" where
  "closeError key e = (\<exists>value ce. e = Wrap (''apply '' @ key @ ''='' @ value @ '': '') ce [] \<and> closeFailure ce)"

lemma applyKeys_failed:
  assumes "applyKeys m rq keys changed w = ((Some e, changed'), w')"
    "layout m w" "storesValues m w" "set keys \<subseteq> set managedKeys" "key \<in> set managedKeys" "key \<notin> set changed'"
  shows "tree w' (sysctlKey m w key) = tree w (sysctlKey m w key) \<or> closeError key e"
  using assms
proof (induction keys arbitrary: changed w)
  case (Cons k ks)
  show ?case
  proof (cases "map_of rq k")
    case None
    then show ?thesis using Cons by auto
  next
    case (Some v)
    obtain r1 w1 where s1: "writeSysctl m k v w = (r1, w1)" by fastforce
    note wr = writeSysctl_result [OF s1]
    show ?thesis
    proof (cases r1)
      case (Inl ce)
      then have e: "e = Wrap (''apply '' @ k @ ''='' @ v @ '': '') ce []" "w' = w1"
        using Cons.prems(1) Some s1 by auto
      show ?thesis
      proof (cases "k = key")
        case True
        have "kernel w (keyOf w (sysctlPath m k)) \<noteq> None"
          using Cons.prems(3,4) by (auto simp: storesValues_def sysctlKey_def)
        then have "lookup w1 (sysctlPath m k) = lookup w (sysctlPath m k) \<or> closeFailure ce"
          using wr(4) [OF Inl] by blast
        then show ?thesis using e True sameEnv_keyOf [OF wr(1)] sysctlPath_nonempty
          by (auto simp: lookup_def sysctlKey_def closeError_def)
      next
        case False
        then have "sysctlKey m w key \<noteq> keyOf w (sysctlPath m k)"
          using sysctlKeys_inj [OF Cons.prems(2), of key k] Cons.prems(4,5) by (auto simp: sysctlKey_def)
        then show ?thesis using wr(2) e(2) by simp
      qed
    next
      case (Inr u)
      obtain a w2 where s2: "readSysctl m k w1 = (a, w2)" by fastforce
      have same: "sameTree w1 w2" by (rule readSysctl_sees(1) [OF s2])
      have env: "sameEnv w w2" using wr(1) same sameEnv_trans by (auto simp: sameTree_def)
      have key: "k \<in> set changed'"
      proof (cases "a = v")
        case True
        then have "applyKeys m rq ks (changed @ [k]) w2 = ((Some e, changed'), w')"
          using Cons.prems(1) Some s1 s2 Inr by simp
        then show ?thesis using applyKeys_changed by fastforce
      next
        case False
        then show ?thesis using Cons.prems(1) Some s1 s2 Inr by auto
      qed
      then have "k \<noteq> key" using Cons.prems(6) by blast
      then have "sysctlKey m w key \<noteq> keyOf w (sysctlPath m k)"
        using sysctlKeys_inj [OF Cons.prems(2), of key k] Cons.prems(4,5) by (auto simp: sysctlKey_def)
      then have t: "tree w2 (sysctlKey m w key) = tree w (sysctlKey m w key)"
        using wr(2) same by (simp add: sameTree_def)
      show ?thesis
      proof (cases "a = v")
        case True
        then have "applyKeys m rq ks (changed @ [k]) w2 = ((Some e, changed'), w')"
          using Cons.prems(1) Some s1 s2 Inr by simp
        then have "tree w' (sysctlKey m w2 key) = tree w2 (sysctlKey m w2 key) \<or> closeError key e"
          by (rule Cons.IH) (use Cons.prems layout_env [OF env] storesValues_env [OF env] in simp_all)
        then show ?thesis using t key_env(1) [OF env] by simp
      next
        case False
        then show ?thesis using Cons.prems(1) Some s1 s2 Inr t by auto
      qed
    qed
  qed
qed simp

section \<open>Recovery\<close>

lemma restoreKeys_done:
  assumes "restoreKeys m originals managed keys w = ([], w')"
    "layout m w" "storesValues m w" "distinct keys" "set keys \<subseteq> set managedKeys"
    "\<forall>k. trimSpace (mget originals k) = mget originals k"
  shows "\<forall>k \<in> set keys. holds m w' k (mget originals k)"
  using assms
proof (induction keys arbitrary: w)
  case (Cons key ks)
  obtain c w1 where s1: "readSysctl m key w = (c, w1)" by fastforce
  have 1: "sameTree w w1" by (rule readSysctl_sees(1) [OF s1])
  obtain r2 w2 where s2: "writeSysctl m key (mget originals key) w1 = (r2, w2)" by fastforce
  have r: "r2 = Inr ()" and rest: "restoreKeys m originals managed ks w2 = ([], w')"
    using Cons.prems(1) s1 s2 by (cases r2; auto split: if_splits prod.splits)+
  note wr = writeSysctl_result [OF s2]
  have env: "sameEnv w w2" using 1 wr(1) sameEnv_trans by (auto simp: sameTree_def)
  have st: "storesValues m w1" using Cons.prems(3) 1 storesValues_env by (auto simp: sameTree_def)
  have l2: "layout m w2" "storesValues m w2"
    using Cons.prems(2,3) layout_env [OF env] storesValues_env [OF env] by simp_all
  obtain i where i: "isRegular i"
    "lookup w2 (sysctlPath m key) = Some (written w1 (sysctlPath m key) i (mget originals key))"
    using wr(3) [OF r] by blast
  have h: "holds m w2 key (mget originals key)"
    using written_holds [OF st _ i(1) _ i(2)] Cons.prems(5,6) by simp
  have t: "touches w2 (sysctlKey m w2 ` set ks) (restoreKeys m originals managed ks)"
    by (rule touches_restoreKeys) simp
  have k: "sysctlKey m w2 key \<notin> sysctlKey m w2 ` set ks"
    using sysctlKeys_inj [OF l2(1)] Cons.prems(4,5) by (auto simp: subset_iff)
  have "holds m w' key (mget originals key)"
    using touchesD [OF t _ rest] k holds_frame [of w2 w' m key] h by simp
  then show ?case using Cons.IH [OF rest l2] Cons.prems(4-6) by simp
qed simp

lemma recoverFile_done:
  assumes "recoverFile g m hash w = ([], w')"
  shows "lookup w' (sysctlFile m) = None"
proof -
  obtain r1 w1 where s1: "pathState (sysctlFile m) w = (r1, w1)" by fastforce
  have 1: "sameTree w w1" by (rule ro_same [OF ro_pathState s1])
  show ?thesis
  proof (cases "r1 = Inr (False, False)")
    case True
    then obtain e w0 where "sys_lstat (sysctlFile m) w = (Inl e, w0)" "is_not_exist e"
      using s1 by (auto simp: pathState_def split: prod.splits sum.splits if_splits)
    then have "lookup w (sysctlFile m) = None" using lstat_result(2) by blast
    moreover have "w' = w1" using assms s1 True by (simp add: recoverFile_def)
    ultimately show ?thesis using sameTree_lookup [OF 1] by simp
  next
    case False
    moreover have "r1 \<noteq> Inr (False, True)"
      using s1 by (auto simp: pathState_def split: prod.splits sum.splits if_splits)
    ultimately obtain w2 where "sys_remove (sysctlFile m) w2 = (Inr (), w')"
      using assms s1 by (auto simp: recoverFile_def split: prod.splits sum.splits if_splits)
    then show ?thesis
      by (auto simp: sys_remove_def lookup_putNode lookup_nonempty split: option.splits if_splits)
  qed
qed

text \<open>The text that marks a failed recovery.\<close>

definition recoveryFailed :: "error \<Rightarrow> bool" where
  "recoveryFailed e = (\<exists>e1 t. e = Wrap [] e1 (''; automatic recovery also failed: '' @ t))"

lemma applyKeys_error:
  "applyKeys m rq keys changed w = ((Some e, changed'), w') \<Longrightarrow> \<not> recoveryFailed e"
proof (induction keys arbitrary: changed w)
  case (Cons k ks)
  show ?case
  proof (cases "map_of rq k")
    case None
    then show ?thesis using Cons by auto
  next
    case (Some v)
    obtain r1 w1 where s1: "writeSysctl m k v w = (r1, w1)" by fastforce
    obtain a w2 where s2: "readSysctl m k w1 = (a, w2)" by fastforce
    show ?thesis using Cons s1 s2 Some
      by (cases r1) (auto simp: recoveryFailed_def split: if_splits)
  qed
qed simp

lemma applyKeys_distinct:
  "applyKeys m rq keys changed w = ((e, changed'), w') \<Longrightarrow> distinct (changed @ keys) \<Longrightarrow> distinct changed'"
proof (induction keys arbitrary: changed w)
  case (Cons k ks)
  show ?case
  proof (cases "map_of rq k")
    case None
    then show ?thesis using Cons by simp
  next
    case (Some v)
    obtain r1 w1 where s1: "writeSysctl m k v w = (r1, w1)" by fastforce
    obtain a w2 where s2: "readSysctl m k w1 = (a, w2)" by fastforce
    have "distinct ((changed @ [k]) @ ks)" using Cons.prems(2) by auto
    then show ?thesis using Cons.IH [of "changed @ [k]" w2] Cons.prems s1 s2 Some
      by (cases r1) (auto split: if_splits)
  qed
qed simp

lemma touches_writeActive:
  "touches w0 {keyOf w0 (activePath m), temporaryKey w0 (activePath m)} (writeJSONAtomic (activePath m) t o600)"
  by (intro touch_intros) simp_all

context tuning begin

text \<open>Everything outside the sysctls leaves their values alone.\<close>

lemma sysctl_apart:
  assumes "layout m w" "k \<in> set managedKeys"
  shows "sysctlKey m w k \<notin> set (stateDirKeys m w @ stateKeys m w @ fileDirKeys m w @ fileKeys m w)"
    "sysctlKey m w k \<notin> {keyOf w (activePath m), temporaryKey w (activePath m)}"
    "sysctlKey m w k \<noteq> keyOf w (sysctlFile m)" "sysctlKey m w k \<noteq> keyOf w (activePath m)"
  using layout_files(2,3,7) [OF assms(1)] sysctlKey_mem [OF assms(2), of m w]
  by (fastforce simp: stateKeys_def fileKeys_def)+

lemma file_apart:
  assumes "layout m w"
  shows "keyOf w (sysctlFile m) \<notin> {keyOf w (activePath m), temporaryKey w (activePath m)}"
    "k \<in> set managedKeys \<Longrightarrow> keyOf w (sysctlFile m) \<noteq> sysctlKey m w k"
    "keyOf w (sysctlFile m) \<noteq> keyOf w (activePath m)"
    "keyOf w (sysctlFile m) \<notin> set (stateDirKeys m w)" "keyOf w (sysctlFile m) \<noteq> keyOf w (baselinePath m)"
  using layout_files(1,7) [OF assms] sysctl_apart(3) [OF assms]
  by (fastforce simp: stateKeys_def fileKeys_def)+

lemma transaction_failed:
  assumes "transaction m active content w = ((Some e, changed), w')" "layout m w" "storesValues m w"
  shows "distinct changed" "\<not> recoveryFailed e"
    "key \<in> set managedKeys \<Longrightarrow> key \<notin> set changed \<Longrightarrow>
       tree w' (sysctlKey m w key) = tree w (sysctlKey m w key) \<or> closeError key e"
proof -
  obtain e1 c1 w1 where s1: "applyKeys m (as_Values active) managedKeys [] w = ((e1, c1), w1)"
    by (metis prod.collapse)
  have env1: "sameEnv w w1"
    using touches_env [OF touches_applyKeys [of managedKeys "as_Values active" m w UNIV] sameEnv_refl s1] by simp
  have c: "changed = c1" using assms(1) s1
    by (cases e1) (auto simp: transaction_def split: prod.splits sum.splits)
  show "distinct changed" using applyKeys_distinct [OF s1] managedKeys_distinct c by simp
  show "\<not> recoveryFailed e"
  proof (cases e1)
    case None
    then show ?thesis using assms(1) s1
      by (auto simp: transaction_def recoveryFailed_def split: prod.splits sum.splits)
  next
    case (Some e2)
    then show ?thesis using assms(1) s1 applyKeys_error [of m _ _ _ w e2] by (auto simp: transaction_def)
  qed
  show "tree w' (sysctlKey m w key) = tree w (sysctlKey m w key) \<or> closeError key e"
    if k: "key \<in> set managedKeys" "key \<notin> set changed"
  proof (cases e1)
    case (Some e2)
    then have "e2 = e" "w' = w1" using assms(1) s1 by (auto simp: transaction_def)
    then show ?thesis using applyKeys_failed [OF s1 [unfolded Some] assms(2,3) _ k(1)] k(2) c by simp
  next
    case None
    obtain r2 w2 where s2: "mg_persist m content w1 = (r2, w2)" by fastforce
    obtain t w3 where s3: "mg_now m w2 = (t, w3)" by fastforce
    have rq: "map_of (as_Values active) key = None"
    proof (rule ccontr)
      assume "map_of (as_Values active) key \<noteq> None"
      moreover have "applyKeys m rq ks ch v = ((None, ch'), v') \<Longrightarrow>
          set ch' = set ch \<union> {k \<in> set ks. map_of rq k \<noteq> None}" for rq ks ch v ch' v'
      proof (induction ks arbitrary: ch v)
        case (Cons k ks)
        then show ?case by (cases "map_of rq k") (fastforce split: prod.splits sum.splits if_splits)+
      qed simp
      ultimately show False using s1 None c k by fastforce
    qed
    let ?k = "sysctlKey m w key"
    have apart: "?k \<notin> set (fileDirKeys m w @ fileKeys m w)"
      "?k \<notin> {keyOf w (activePath m), temporaryKey w (activePath m)}"
      using sysctl_apart [OF assms(2) k(1)] by auto
    have t1: "tree w1 ?k = tree w ?k"
    proof -
      have t: "touches w (sysctlKey m w ` {k \<in> set managedKeys. map_of (as_Values active) k \<noteq> None})
          (applyKeys m (as_Values active) managedKeys [])"
        by (rule touches_applyKeys) auto
      have "?k \<notin> sysctlKey m w ` {k \<in> set managedKeys. map_of (as_Values active) k \<noteq> None}"
        using sysctlKeys_inj [OF assms(2) k(1)] rq by auto
      then show ?thesis by (rule touches_frame [OF t sameEnv_refl s1])
    qed
    have 2: "sameEnv w w2 \<and> tree w2 ?k = tree w ?k"
      using touchesD [OF persist env1 s2] apart(1) t1 by simp
    have 3: "sameEnv w w3 \<and> tree w3 ?k = tree w ?k"
      using 2 ro_same [OF now s3] sameEnv_trans by (auto simp: sameTree_def)
    show ?thesis
    proof (cases r2)
      case (Inl e2)
      then show ?thesis using assms(1) s1 None s2 2 by (auto simp: transaction_def)
    next
      case (Inr u)
      then obtain r4 tx where "writeJSONAtomic (activePath m) tx o600 w3 = (r4, w')"
        using assms(1) s1 None s2 s3 by (auto simp: transaction_def split: prod.splits sum.splits)
      then show ?thesis using touches_frame [OF touches_writeActive] 3 apart(2) by metis
    qed
  qed
qed

lemma runTransaction_failed:
  assumes "runTransaction g m baseline rq result w = (Inl e, w')" "\<not> recoveryFailed e"
    "layout m w" "storesValues m w" "\<forall>k. trimSpace (mget (bs_Values baseline) k) = mget (bs_Values baseline) k"
    "lookup w (sysctlFile m) = None"
  shows "lookup w' (sysctlFile m) = None"
    "key \<in> set managedKeys \<Longrightarrow> holds m w key v \<Longrightarrow>
       (map_of rq key \<noteq> None \<longrightarrow> mget (bs_Values baseline) key = v) \<Longrightarrow> holds m w' key v \<or> closeError key e"
proof -
  obtain t w1 where s1: "mg_now m w = (t, w1)" by fastforce
  define content where "content = managedSysctlContent rq"
  define active where "active = \<lparr>as_Schema = stateSchema, as_Phase = ''applying'', as_UpdatedAt = t,
     as_Values = rq, as_SysctlFileHash = contentHash g content\<rparr>"
  have av: "as_Values active = rq" by (simp add: active_def)
  have 1: "sameTree w w1" by (rule ro_same [OF now s1])
  obtain r2 w2 where s2: "writeJSONAtomic (activePath m) (activeText active) o600 w1 = (r2, w2)" by fastforce
  have 2: "sameEnv w w2 \<and> (\<forall>k. k \<notin> {keyOf w (activePath m), temporaryKey w (activePath m)} \<longrightarrow> tree w2 k = tree w k)"
    using touchesD [OF touches_writeActive _ s2, of w] 1 by (simp add: sameTree_def)
  have f2: "lookup w2 (sysctlFile m) = None"
    using lookup_unchanged [of w w2 "sysctlFile m"] 2 file_apart(1) [OF assms(3)] assms(6) by simp
  have h2: "holds m w2 key v" if "key \<in> set managedKeys" "holds m w key v" for key v
    using holds_frame [of w w2 m key v] 2 sysctl_apart(2) [OF assms(3) that(1)] that(2) by simp
  have main: "lookup w' (sysctlFile m) = None \<and>
    (\<forall>key v. key \<in> set managedKeys \<longrightarrow> holds m w key v \<longrightarrow>
       (map_of rq key \<noteq> None \<longrightarrow> mget (bs_Values baseline) key = v) \<longrightarrow> holds m w' key v \<or> closeError key e)"
  proof (cases r2)
    case (Inl e1)
    then have "w' = w2" using assms(1) s1 s2
      by (simp add: runTransaction_def Let_def active_def content_def)
    then show ?thesis using f2 h2 by simp
  next
    case (Inr u)
    obtain e3 changed w3 where s3: "transaction m active content w2 = ((e3, changed), w3)"
      by (metis prod.collapse)
    obtain e4 where e4: "e3 = Some e4" using assms(1) s1 s2 s3 Inr
      by (cases e3) (simp_all add: runTransaction_def Let_def active_def content_def)
    obtain r5 w5 where s5: "recoverApply g m baseline active changed w3 = (r5, w5)" by fastforce
    have fin: "w' = w5" "(\<exists>u. r5 = Inr u) \<and> e = e4"
      using assms(1,2) s1 s2 s3 Inr e4 s5
      by (cases r5; simp add: runTransaction_def Let_def active_def content_def; auto simp: recoveryFailed_def)+
    have l2: "layout m w2" "storesValues m w2" using assms(3,4) layout_env storesValues_env 2 by blast+
    note tf = transaction_failed [OF s3 [unfolded e4] l2]
    have ch: "set changed \<subseteq> {k \<in> set managedKeys. map_of rq k \<noteq> None}"
      using transaction_changed [OF s3] av by auto
    have env3: "sameEnv w2 w3" using touches_env [OF touches_transaction sameEnv_refl s3] .
    have l3: "layout m w3" "storesValues m w3" using l2 layout_env [OF env3] storesValues_env [OF env3] by simp_all
    obtain f6 w6 where s6: "restoreKeys m (bs_Values baseline) (as_Values active) (rev changed) w3 = (f6, w6)" by fastforce
    obtain f7 w7 where s7: "recoverFile g m (as_SysctlFileHash active) w6 = (f7, w7)" by fastforce
    obtain r8 w8 where s8: "sys_remove (activePath m) w7 = (r8, w8)" by fastforce
    have ok: "f6 = []" "f7 = []" "w5 = w8" using s5 fin(2) s6 s7 s8
      by (auto simp: recoverApply_def split: if_splits)
    have restored: "\<forall>k \<in> set changed. holds m w6 k (mget (bs_Values baseline) k)"
      using restoreKeys_done [OF s6 [unfolded ok(1)] l3 _ _ assms(5)] tf(1) ch by auto
    have tr: "touches w3 (sysctlKey m w3 ` set changed) (restoreKeys m (bs_Values baseline) (as_Values active) (rev changed))"
      by (rule touches_restoreKeys) simp
    note 6 = touchesD [OF tr sameEnv_refl s6]
    have env6: "sameEnv w2 w6" using sameEnv_trans [OF env3] 6 by blast
    have 7: "sameEnv w6 w7 \<and> (\<forall>k. k \<noteq> keyOf w6 (sysctlFile m) \<longrightarrow> tree w7 k = tree w6 k)"
      using touchesD [OF touches_recoverFile [of w6 m "{keyOf w6 (sysctlFile m)}"] sameEnv_refl s7] by simp
    have env7: "sameEnv w2 w7" using sameEnv_trans [OF env6] 7 by blast
    have 8: "sameEnv w7 w8 \<and> (\<forall>k. k \<noteq> keyOf w7 (activePath m) \<longrightarrow> tree w8 k = tree w7 k)"
      using remove.env [OF s8] remove.frame [OF s8] by simp
    have l6: "layout m w6" "layout m w7" using l2 layout_env [OF env6] layout_env [OF env7] by simp_all
    have keep: "holds m w8 k v = holds m w6 k v" if "k \<in> set managedKeys" for k v
    proof -
      have "holds m w7 k v = holds m w6 k v"
        using 7 sysctl_apart(3) [OF l6(1) that] by (intro holds_frame) auto
      moreover have "holds m w8 k v = holds m w7 k v"
        using 8 sysctl_apart(4) [OF l6(2) that] by (intro holds_frame) auto
      ultimately show ?thesis by simp
    qed
    have "lookup w7 (sysctlFile m) = None" by (rule recoverFile_done [OF s7 [unfolded ok(2)]])
    then have f8: "lookup w8 (sysctlFile m) = None"
      using lookup_unchanged [of w7 w8 "sysctlFile m"] 8 file_apart(3) [OF l6(2)] by simp
    have "holds m w8 key v \<or> closeError key e"
      if k: "key \<in> set managedKeys" "holds m w key v" "map_of rq key \<noteq> None \<longrightarrow> mget (bs_Values baseline) key = v" for key v
    proof (cases "key \<in> set changed")
      case True
      then show ?thesis using restored k(3) ch keep [OF k(1)] by auto
    next
      case False
      have "sysctlKey m w3 key \<notin> sysctlKey m w3 ` set changed"
        using False sysctlKeys_inj [OF l3(1) k(1)] ch by auto
      then have "holds m w6 key v = holds m w3 key v" using 6 by (intro holds_frame) auto
      moreover have "holds m w3 key v \<or> closeError key e"
        using tf(3) [OF k(1) False] holds_frame [OF env3] h2 [OF k(1,2)] fin(2) by blast
      ultimately show ?thesis using keep [OF k(1)] by blast
    qed
    then show ?thesis using f8 ok(3) fin(1) by simp
  qed
  then show "lookup w' (sysctlFile m) = None" by blast
  show "key \<in> set managedKeys \<Longrightarrow> holds m w key v \<Longrightarrow>
       (map_of rq key \<noteq> None \<longrightarrow> mget (bs_Values baseline) key = v) \<Longrightarrow> holds m w' key v \<or> closeError key e"
    using main by blast
qed

lemma freeSysctlFile_free: "freeSysctlFile m a b w = (Inr u, w') \<Longrightarrow> lookup w (sysctlFile m) = None"
  using lstat_result(2) by (fastforce simp: freeSysctlFile_def pathState_def
      split: prod.splits sum.splits if_splits)

lemma establishBaseline_done:
  assumes "establishBaseline m profile w = (Inr b, w')"
  shows "bs_Values b = baselineValues (pf_Sysctls profile)" "lookup w (sysctlFile m) = None"
    "sameEnv w w' \<and> (\<forall>k. k \<noteq> keyOf w (baselinePath m) \<longrightarrow> tree w' k = tree w k)"
proof -
  obtain w1 u where f: "freeSysctlFile m ''cannot safely establish pre-tune baseline: '' '' already exists'' w = (Inr u, w1)"
    using assms by (auto simp: establishBaseline_def split: prod.splits sum.splits)
  show "lookup w (sysctlFile m) = None" by (rule freeSysctlFile_free [OF f])
  show "bs_Values b = baselineValues (pf_Sysctls profile)"
    using assms by (auto simp: establishBaseline_def Let_def split: prod.splits sum.splits)
  have "touches w {keyOf w (baselinePath m)} (establishBaseline m profile)"
    unfolding establishBaseline_def Let_def by (intro touch_intros) simp
  from touchesD [OF this sameEnv_refl assms]
  show "sameEnv w w' \<and> (\<forall>k. k \<noteq> keyOf w (baselinePath m) \<longrightarrow> tree w' k = tree w k)" by simp
qed

lemma baseline_trimmed:
  assumes "Detect g m w = (Inr p, w')"
  shows "trimSpace (mget (baselineValues (pf_Sysctls p)) k) = mget (baselineValues (pf_Sysctls p)) k"
proof -
  have "trimSpace (textAt w q) = textAt w q" for q
    by (auto simp: textAt_def trimSpace_idem trimSpace_nil simp del: resolve.simps split: sum.splits prod.splits)
  then show ?thesis using Detect_seen [OF assms, of k] trimSpace_nil
    by (auto simp: baselineValues_mget sysctl_def)
qed

lemma Apply_failed:
  assumes "Apply g m inputs dryRun w = (Inl e, w')" "\<not> recoveryFailed e"
    "layout m w" "storesValues m w" "lookup w (baselinePath m) = None"
  shows "lookup w' (sysctlFile m) = lookup w (sysctlFile m)"
    "key \<in> set managedKeys \<Longrightarrow> holds m w key v \<Longrightarrow> holds m w' key v \<or> closeError key e"
proof -
  have main: "lookup w' (sysctlFile m) = lookup w (sysctlFile m) \<and>
    (\<forall>key v. key \<in> set managedKeys \<longrightarrow> holds m w key v \<longrightarrow> holds m w' key v \<or> closeError key e)"
  proof (cases "sameTree w w'")
    case True
    then show ?thesis using holds_same sameTree_lookup by blast
  next
    case False
    then obtain plan w1 where a: "makePlan g m inputs w = (Inr plan, w1)" "sameTree w w1"
      "applyRoot g m plan (requestedOf (pl_Actions plan))
         \<lparr>ar_Plan = plan, ar_Changed = [], ar_DryRun = False\<rparr> w1 = (Inl e, w')"
      using Apply_cases [OF assms(1)] by blast
    let ?rq = "requestedOf (pl_Actions plan)" and ?p = "pl_Profile plan"
    note p = makePlan_actions [OF a(1)]
    have env1: "sameEnv w w1" "tree w1 = tree w" using a(2) by (simp_all add: sameTree_def)
    have l1: "layout m w1" "storesValues m w1" "lookup w1 (baselinePath m) = None"
      using assms(3-5) layout_env [OF env1(1)] storesValues_env [OF env1(1)] sameTree_lookup [OF a(2)] by simp_all
    obtain w2 where 2: "sameEnv w1 w2" "\<forall>k. k \<notin> set (stateDirKeys m w1) \<longrightarrow> tree w2 k = tree w1 k"
      and alt: "(tree w' = tree w2 \<and> sameEnv w2 w') \<or>
         (\<exists>e. establishBaseline m ?p w2 = (Inl e, w')) \<or>
         (\<exists>b w3. (establishBaseline m ?p w2 = (Inr b, w3) \<or> lookup w2 (baselinePath m) \<noteq> None) \<and>
            runTransaction g m b ?rq \<lparr>ar_Plan = plan, ar_Changed = [], ar_DryRun = False\<rparr> w3 = (Inl e, w'))"
      using applyRoot_cases [OF a(3)] by blast
    have keys: "keyOf w1 (baselinePath m) \<notin> set (stateDirKeys m w1)" "keyOf w1 (sysctlFile m) \<notin> set (stateDirKeys m w1)"
      using layout_files(7) [OF l1(1), of "keyOf w1 (baselinePath m)"] file_apart(4) [OF l1(1)]
      by (auto simp: stateKeys_def)
    have b2: "lookup w2 (baselinePath m) = None" "lookup w2 (sysctlFile m) = lookup w (sysctlFile m)"
      using lookup_unchanged [OF 2(1)] keys 2(2) l1(3) sameTree_lookup [OF a(2)] by auto
    have l2: "layout m w2" "storesValues m w2"
      using l1 layout_env [OF 2(1)] storesValues_env [OF 2(1)] by simp_all
    have h2: "holds m w2 key v" if "key \<in> set managedKeys" "holds m w key v" for key v
      using holds_frame [OF 2(1), of m key v] 2(2) sysctl_apart(1) [OF l1(1) that(1)] holds_same [OF a(2)] that(2) by simp
    have est: "sameEnv w2 w3 \<and> lookup w3 (sysctlFile m) = lookup w2 (sysctlFile m) \<and>
        (\<forall>key v. key \<in> set managedKeys \<longrightarrow> holds m w2 key v \<longrightarrow> holds m w3 key v)"
      if e: "establishBaseline m ?p w2 = (q, w3)" for q w3
    proof -
      have "touches w2 {keyOf w2 (baselinePath m)} (establishBaseline m ?p)"
        unfolding establishBaseline_def Let_def by (intro touch_intros) simp
      from touchesD [OF this sameEnv_refl e]
      have 3: "sameEnv w2 w3" "\<forall>k. k \<noteq> keyOf w2 (baselinePath m) \<longrightarrow> tree w3 k = tree w2 k" by auto
      have "sysctlKey m w2 key \<noteq> keyOf w2 (baselinePath m)" if "key \<in> set managedKeys" for key
        using sysctl_apart(1) [OF l2(1) that] by (auto simp: stateKeys_def)
      then show ?thesis using 3 file_apart(5) [OF l2(1)] lookup_unchanged [OF 3(1)] holds_frame [OF 3(1)] by simp
    qed
    show ?thesis
      using alt
    proof (elim disjE exE conjE)
      assume "tree w' = tree w2" "sameEnv w2 w'"
      then have "sameTree w2 w'" by (simp add: sameTree_def)
      then show ?thesis using h2 b2(2) holds_same sameTree_lookup by metis
    next
      fix e assume "establishBaseline m ?p w2 = (Inl e, w')"
      then show ?thesis using est h2 b2(2) by metis
    next
      fix b w3 assume "lookup w2 (baselinePath m) \<noteq> None"
      then show ?thesis using b2(1) by simp
    next
      fix b w3
      assume e: "establishBaseline m ?p w2 = (Inr b, w3)"
        and run: "runTransaction g m b ?rq \<lparr>ar_Plan = plan, ar_Changed = [], ar_DryRun = False\<rparr> w3 = (Inl e, w')"
      note d = establishBaseline_done [OF e]
      have 3: "sameEnv w2 w3" using d(3) by blast
      have l3: "layout m w3" "storesValues m w3" "lookup w3 (sysctlFile m) = None"
        using l2 layout_env [OF 3] storesValues_env [OF 3] est [OF e] d(2) by simp_all
      have tr: "\<forall>k. trimSpace (mget (bs_Values b) k) = mget (bs_Values b) k"
        unfolding d(1) using baseline_trimmed [OF p(3)] by blast
      have val: "map_of ?rq key \<noteq> None \<longrightarrow> mget (bs_Values b) key = v"
        if "key \<in> set managedKeys" "holds m w key v" for key v
      proof
        assume "map_of ?rq key \<noteq> None"
        then obtain x where "map_of ?rq key = Some x" by blast
        then have "requests (planActions ?p) key x" using requestedOf_map [OF p(2)] p(1) by simp
        then show "mget (bs_Values b) key = v"
          using requests_observed [OF p(3) _ that(2)] that(1) d(1) by (simp add: baselineValues_mget sysctl_def)
      qed
      have "lookup w' (sysctlFile m) = lookup w (sysctlFile m)"
        using runTransaction_failed(1) [OF run assms(2) l3(1,2) tr l3(3)] d(2) b2(2) by simp
      moreover have "holds m w' key v \<or> closeError key e" if "key \<in> set managedKeys" "holds m w key v" for key v
        using runTransaction_failed(2) [OF run assms(2) l3(1,2) tr l3(3) that(1) _ val [OF that]] est [OF e] h2 [OF that] that(1)
        by blast
      ultimately show ?thesis by blast
    qed
  qed
  then show "lookup w' (sysctlFile m) = lookup w (sysctlFile m)"
    "key \<in> set managedKeys \<Longrightarrow> holds m w key v \<Longrightarrow> holds m w' key v \<or> closeError key e"
    by blast+
qed

end

text \<open>
  Claim C23. A first \<open>Apply\<close> that fails puts every sysctl back. Whatever call fails, if the host
  had no baseline yet and the error does not say that the recovery failed too, then every managed
  sysctl has the value it had before, except one whose write was accepted and only its closing
  failed, and the managed file is as before.
\<close>

theorem Apply_recovers:
  assumes "layout (New options) w" "storesValues (New options) w" "lookup w (baselinePath (New options)) = None"
    "Apply g (New options) inputs dryRun w = (Inl e, w')" "\<not> recoveryFailed e"
    "key \<in> set managedKeys" "holds (New options) w key v"
  shows "(holds (New options) w' key v \<or> closeError key e) \<and>
    lookup w' (sysctlFile (New options)) = lookup w (sysctlFile (New options))"
  using program.Apply_failed [OF assms(4,5,1-3)] assms(6,7) by blast

section \<open>The sample host\<close>

text \<open>A kernel that stores what is written with a newline keeps the value.\<close>

lemma spaces_newline: "\<forall>e \<in> set spaceEncodings. 2 \<le> length e \<longrightarrow> CHR 0x0A \<notin> set e"
proof -
  have "list_all (\<lambda>e. 2 \<le> length e \<longrightarrow> CHR 0x0A \<notin> set e) spaceEncodings" by code_simp
  then show ?thesis by (simp add: list_all_iff)
qed

lemma spaceLen_newline:
  assumes "s \<noteq> []"
  shows "spaceLen spaceEncodings (s @ nl) = spaceLen spaceEncodings s"
proof -
  have "hasPrefix (s @ nl) e = hasPrefix s e" if e: "e \<in> set spaceEncodings" for e
  proof (cases "length e \<le> length s")
    case True
    then show ?thesis by (simp add: hasPrefix_def)
  next
    case False
    then have "2 \<le> length e" using assms by (cases s) auto
    then have n: "CHR 0x0A \<notin> set e" using spaces_newline e by blast
    have "take (length e) (s @ nl) = s @ nl" using False by (simp add: nl_def)
    then have "\<not> hasPrefix (s @ nl) e" using n by (auto simp: hasPrefix_def nl_def)
    moreover have "\<not> hasPrefix s e" using False by (auto simp: hasPrefix_def)
    ultimately show ?thesis by simp
  qed
  then have "find (hasPrefix (s @ nl)) spaceEncodings = find (hasPrefix s) spaceEncodings"
    by (intro find_cong) simp_all
  then show ?thesis by (simp add: spaceLen_def)
qed

lemma trimLeft_newline:
  "trimLeftWith spaceEncodings (s @ nl) =
     (if trimLeftWith spaceEncodings s = [] then [] else trimLeftWith spaceEncodings s @ nl)"
proof (induction spaceEncodings s rule: trimLeftWith.induct)
  case (1 s)
  show ?case
  proof (cases "s = []")
    case True
    then show ?thesis by (simp, code_simp)
  next
    case False
    show ?thesis
    proof (cases "spaceLen spaceEncodings s = 0")
      case True
      then have "trimLeftWith spaceEncodings (s @ nl) = s @ nl" "trimLeftWith spaceEncodings s = s"
        using spaceLen_newline [OF False] by (auto intro: trimLeftWith_stop)
      then show ?thesis using False by simp
    next
      case len: False
      let ?n = "spaceLen spaceEncodings s"
      have n: "?n \<le> length s"
        by (auto simp: spaceLen_def find_Some_iff hasPrefix_def split: option.splits)
          (metis length_take min.bounded_iff order_refl)
      have "trimLeftWith spaceEncodings (s @ nl) = trimLeftWith spaceEncodings (drop ?n s @ nl)"
        using len False spaceLen_newline [OF False] n by (subst trimLeftWith.simps) (auto simp: Let_def)
      moreover have "trimLeftWith spaceEncodings s = trimLeftWith spaceEncodings (drop ?n s)"
        using len False by (subst trimLeftWith.simps) (auto simp: Let_def)
      ultimately show ?thesis using 1 [of ?n] len False by simp
    qed
  qed
qed

lemma rev_nl: "rev nl = nl"
  by (simp add: nl_def)

lemma trimSpace_newline: "trimSpace (s @ nl) = trimSpace s"
proof (cases "trimLeftWith spaceEncodings s = []")
  case True
  then show ?thesis by (simp add: trimSpace_def trimLeft_newline)
next
  case False
  have "spaceLen (map rev spaceEncodings) (CHR 0x0A # x) = 1" for x
    by (simp add: spaceLen_def spaceEncodings_def hasPrefix_def)
  then have "trimLeftWith (map rev spaceEncodings) (nl @ x) = trimLeftWith (map rev spaceEncodings) x" for x
    by (subst trimLeftWith.simps) (simp add: nl_def)
  then show ?thesis using False by (simp add: trimSpace_def trimLeft_newline rev_nl)
qed

lemma lean_keys: "list_all (\<lambda>key. hasPrefix (sysctlKey sampleManager leanWorld key) ''/p/sys/'') managedKeys"
  by code_simp

lemma lean_stores:
  assumes "kernel w = kernel leanWorld" "cwd w = cwd leanWorld"
  shows "storesValues sampleManager w"
proof -
  have "sysctlKey sampleManager w key = sysctlKey sampleManager leanWorld key" for key
    using assms(2) by (simp add: sysctlKey_def keyOf_def)
  then show ?thesis using lean_keys assms(1)
    by (auto simp: storesValues_def list_all_iff leanWorld_def trimSpace_newline)
qed

lemma lean_start:
  assumes "tree w = leanTree" "cwd w = ''/''"
  shows "holds sampleManager w KeyMTUProbing ''0''" "lookup w (baselinePath sampleManager) = None"
proof -
  have k: "absPath ''/'' (sysctlPath sampleManager KeyMTUProbing) = ''/p/sys/net/ipv4/tcp_mtu_probing''"
    "absPath ''/'' (baselinePath sampleManager) = ''/s/baseline.json''"
    "leanTree ''/p/sys/net/ipv4/tcp_mtu_probing'' = Some (fileNode o644 0 (''0'' @ nl))"
    "leanTree ''/s/baseline.json'' = None" "trimSpace (''0'' @ nl) = ''0''"
    by code_simp+
  show "holds sampleManager w KeyMTUProbing ''0''"
    using k(1,3,5) assms by (simp add: holds_def lookup_def keyOf_def sysctlPath_nonempty fileNode_def isRegular_def)
  show "lookup w (baselinePath sampleManager) = None"
    using k(2,4) assms by (simp add: lookup_def keyOf_def)
qed

lemma Apply_recovers_witness:
  "\<exists>e w'. Apply sampleLib (New sampleOptions) sampleInputs False (failing 60 leanWorld) = (Inl e, w') \<and>
     (holds (New sampleOptions) w' KeyMTUProbing ''0'' \<or> closeError KeyMTUProbing e)"
proof -
  let ?w = "failing 60 leanWorld"
  have w: "tree ?w = leanTree" "cwd ?w = ''/''" "kernel ?w = kernel leanWorld" "cwd ?w = cwd leanWorld"
    by (simp_all add: failing_def leanWorld_def sampleWorld_def)
  obtain r w' where run: "Apply sampleLib (New sampleOptions) sampleInputs False ?w = (r, w')" by fastforce
  have "r = Inl (Wrap ''persist tuning: '' (OsError ''mkdir'' ''/d'' (Fault EIO)) [])"
    using lean_failed run unfolding sampleManager_def by (cases r) auto
  then have run2: "Apply sampleLib (New sampleOptions) sampleInputs False ?w =
      (Inl (Wrap ''persist tuning: '' (OsError ''mkdir'' ''/d'' (Fault EIO)) []), w')" using run by simp
  have n: "\<not> recoveryFailed (Wrap ''persist tuning: '' (OsError ''mkdir'' ''/d'' (Fault EIO)) [])"
    by (simp add: recoveryFailed_def)
  have k: "KeyMTUProbing \<in> set managedKeys" by (simp add: managedKeys_def)
  show ?thesis
    using Apply_recovers [OF lean_layout(2) [unfolded sampleManager_def] lean_stores [OF w(3,4), unfolded sampleManager_def]
        lean_start(2) [OF w(1,2), unfolded sampleManager_def] run2 n k lean_start(1) [OF w(1,2), unfolded sampleManager_def]]
      run2 by blast
qed

end
