(* ===== verification/TuneSuccess.thy ===== *)
theory TuneSuccess
  imports TuneCommit
begin

text \<open>
  What a committed \<open>Apply\<close> leaves behind, and that \<open>Verify\<close> agrees with it.
\<close>

section \<open>Facts about what is written\<close>

lemma hexDigit_facts: "n < 16 \<Longrightarrow> byte (hexDigits ! n) < 128 \<and> hexVal (hexDigits ! n) \<noteq> None"
proof -
  have "list_all (\<lambda>n. byte (hexDigits ! n) < 128 \<and> hexVal (hexDigits ! n) \<noteq> None) [0..<16]" by code_simp
  moreover assume "n < 16"
  then have "n \<in> set [0..<16]" unfolding set_upt by simp
  ultimately show ?thesis unfolding list_all_iff by (rule bspec)
qed

lemma hexEncode_chars: "c \<in> set (hexEncode s) \<Longrightarrow> byte c < 128 \<and> hexVal c \<noteq> None"
proof -
  assume "c \<in> set (hexEncode s)"
  then obtain b where "c = hexDigits ! (byte b div 16) \<or> c = hexDigits ! (byte b mod 16)"
    by (auto simp: hexEncode_def hexByte_def)
  moreover have "byte b div 16 < 16" using byte_less [of b] by simp
  ultimately show ?thesis using hexDigit_facts by auto
qed

lemma hexEncode_len: "length (hexEncode s) = 2 * length s"
  by (induction s) (simp_all add: hexEncode_def hexByte_def)

lemma contentHash_valid:
  assumes "length (gl_sha256 g c) = 32"
  shows "length (contentHash g c) = 64" "ascii (contentHash g c)" "hexDecode (contentHash g c) \<noteq> None"
proof -
  show l: "length (contentHash g c) = 64" by (simp add: contentHash_def hexEncode_len assms)
  show "ascii (contentHash g c)" using hexEncode_chars by (auto simp: ascii_def list_all_iff contentHash_def)
  show "hexDecode (contentHash g c) \<noteq> None"
    using hexDecode_total [of "contentHash g c" 32] l hexEncode_chars by (fastforce simp: contentHash_def)
qed

lemma requestedOf_distinct: "distinct (map fst (requestedOf as))"
proof (induction as rule: rev_induct)
  case (snoc a as)
  then show ?case by (simp add: requestedOf_snoc)
qed (simp add: requestedOf_def)

lemma planned_values:
  "list_all (\<lambda>v. ascii v \<and> safeValue v \<and> length v \<le> 3) [''fq'', ''bbr'', ''1'']"
  "list_all ascii managedKeys" "list_all (\<lambda>k. length k \<le> 40) managedKeys"
  by code_simp+

lemma requestedOf_entries:
  assumes "(k, v) \<in> set (requestedOf (planActions p))"
  shows "k \<in> set managedKeys" "ascii k" "ascii v" "safeValue v" "length v \<le> 3"
proof -
  have "map_of (requestedOf (planActions p)) k = Some v"
    by (rule map_of_is_SomeI [OF requestedOf_distinct assms])
  then have r: "requests (planActions p) k v"
    using requestedOf_map [of "planActions p"] plan_keys [of p] managedKeys_distinct by simp
  show k: "k \<in> set managedKeys" by (rule requests_managed [OF r])
  show "ascii k" using k planned_values(2) by (simp add: list_all_iff)
  have "v \<in> set [''fq'', ''bbr'', ''1'']" using requests_value [OF r] by simp
  then have "ascii v \<and> safeValue v \<and> length v \<le> 3" using planned_values(1) unfolding list_all_iff by (rule bspec [rotated])
  then show "ascii v" "safeValue v" "length v \<le> 3" by blast+
qed

lemma requestedOf_portable: "portableMap (requestedOf (planActions p))"
  unfolding portableMap_def using requestedOf_distinct requestedOf_entries(2,3) by auto

lemma requestedOf_valid: "requestedOf (planActions p) \<noteq> [] \<Longrightarrow> validValues (requestedOf (planActions p))"
  unfolding validValues_def using requestedOf_entries(1,4) by auto

lemma managedContent_short: "length (managedSysctlContent (requestedOf (planActions p))) \<le> stateLimit"
proof -
  let ?f = "\<lambda>key. case map_of (requestedOf (planActions p)) key of
      None \<Rightarrow> [] | Some value \<Rightarrow> key @ '' = '' @ value @ nl"
  have l: "length (?f key) \<le> 60" if "key \<in> set managedKeys" for key
  proof (cases "map_of (requestedOf (planActions p)) key")
    case (Some v)
    have "length v \<le> 3" by (rule requestedOf_entries(5) [OF map_of_SomeD [OF Some]])
    moreover have "length key \<le> 40" using that planned_values(3) by (simp add: list_all_iff)
    ultimately show ?thesis using Some by (simp add: nl_def)
  qed simp
  have "length (concat (map ?f ks)) \<le> 60 * length ks" if "set ks \<subseteq> set managedKeys" for ks
    using that by (induction ks) (use l in force)+
  from this [of managedKeys] have "length (concat (map ?f managedKeys)) \<le> 240" by (simp add: managedKeys_def)
  moreover have "length managedHeader \<le> 100" by code_simp
  ultimately show ?thesis by (simp add: managedSysctlContent_def stateLimit_def)
qed

section \<open>The committed transaction\<close>

context tuning begin

lemma secure_ready: "stateDirReady w = secureStateDir m w"
  by (simp add: stateDirReady_def secureStateDir_def)

lemma apart_more:
  assumes "layout m w"
  shows "keyOf w (activePath m) \<notin> set (fileDirKeys m w @ fileKeys m w)"
    "keyOf w (activePath m) \<noteq> temporaryKey w (activePath m)"
    "kernel w (temporaryKey w (activePath m)) = None"
  using layout_files(1,4,6,7) [OF assms] by (fastforce simp: stateKeys_def)+

lemma writeActive_done:
  assumes "writeJSONAtomic (activePath m) (activeText a) o600 w = (Inr u, w')" "layout m w"
  shows "\<exists>doc. activeText a = Inr doc \<and> regularAt w' (activePath m) doc"
proof -
  obtain doc where d: "activeText a = Inr doc" "atomicWrite (activePath m) doc o600 w = (Inr u, w')"
    using assms(1) by (auto simp: writeJSONAtomic_def split: sum.splits)
  have "lookup w' (activePath m) = Some (newFile w o600 doc)"
    by (rule atomicWrite_done(1) [OF d(2)]) (use apart_more [OF assms(2)] in auto)
  then show ?thesis using d(1) by (simp add: regularAt_def newFile_def isRegular_def)
qed

lemma transaction_done:
  assumes "transaction m active content w = ((None, changed), w')" "layout m w"
    "\<forall>k v. map_of (as_Values active) k = Some v \<longrightarrow> v \<noteq> []"
  shows "changed = filter (\<lambda>k. map_of (as_Values active) k \<noteq> None) managedKeys"
    "k \<in> set managedKeys \<Longrightarrow> map_of (as_Values active) k = Some v \<Longrightarrow> holds m w' k v"
    "regularAt w' (sysctlFile m) content"
    "\<exists>v t v' doc. sameEnv w v \<and> mg_now m v = (t, v') \<and>
       activeText (active\<lparr>as_Phase := ''active'', as_UpdatedAt := t\<rparr>) = Inr doc \<and>
       regularAt w' (activePath m) doc"
proof -
  obtain c1 w1 where s1: "applyKeys m (as_Values active) managedKeys [] w = ((None, c1), w1)"
  proof -
    obtain e1 c1 w1 where s: "applyKeys m (as_Values active) managedKeys [] w = ((e1, c1), w1)"
      by (metis prod.collapse)
    then have "e1 = None" using assms(1) by (cases e1) (auto simp: transaction_def)
    then show thesis using that s by simp
  qed
  obtain r2 w2 where s2: "mg_persist m content w1 = (r2, w2)" by fastforce
  have r2: "r2 = Inr ()" using assms(1) s1 s2 by (cases r2) (auto simp: transaction_def)
  obtain t w3 where s3: "mg_now m w2 = (t, w3)" by fastforce
  have s4: "writeJSONAtomic (activePath m) (activeText (active\<lparr>as_Phase := ''active'', as_UpdatedAt := t\<rparr>)) o600 w3 = (Inr (), w')"
    and c: "changed = c1"
    using assms(1) s1 s2 r2 s3 by (auto simp: transaction_def split: prod.splits sum.splits)
  note ap = applyKeys_done [OF s1 assms(2) managedKeys_distinct order_refl assms(3)]
  show "changed = filter (\<lambda>k. map_of (as_Values active) k \<noteq> None) managedKeys" using ap c by simp
  have env1: "sameEnv w w1"
    using touches_env [OF touches_applyKeys [of managedKeys "as_Values active" m w UNIV] sameEnv_refl s1] by simp
  have l1: "layout m w1" using assms(2) layout_env [OF env1] by simp
  have 2: "sameEnv w1 w2 \<and> (\<forall>k. k \<notin> set (fileDirKeys m w1 @ fileKeys m w1) \<longrightarrow> tree w2 k = tree w1 k)"
    using touchesD [OF persist sameEnv_refl s2] by blast
  have 3: "sameTree w2 w3" by (rule ro_same [OF now s3])
  have env3: "sameEnv w1 w3" using 2 3 sameEnv_trans by (auto simp: sameTree_def)
  have l3: "layout m w3" using l1 layout_env [OF env3] by simp
  have 4: "sameEnv w3 w' \<and> (\<forall>k. k \<notin> {keyOf w3 (activePath m), temporaryKey w3 (activePath m)} \<longrightarrow> tree w' k = tree w3 k)"
    using touchesD [OF touches_writeActive sameEnv_refl s4] by blast
  show "holds m w' k v" if k: "k \<in> set managedKeys" "map_of (as_Values active) k = Some v"
  proof -
    have "holds m w1 k v" using ap k by blast
    then have "holds m w2 k v"
      using holds_frame [of w1 w2 m k v] 2 sysctl_apart(1) [OF l1 k(1)] by simp
    then have "holds m w3 k v" using holds_same [OF 3] by simp
    then show ?thesis using holds_frame [of w3 w' m k v] 4 sysctl_apart(2) [OF l3 k(1)] by simp
  qed
  have "lookup w2 (sysctlFile m) = Some (newFile w1 o644 content)"
    by (rule persist_done [OF l1 s2 [unfolded r2]])
  then have "lookup w3 (sysctlFile m) = Some (newFile w1 o644 content)" using sameTree_lookup [OF 3] by simp
  then have "lookup w' (sysctlFile m) = Some (newFile w1 o644 content)"
    using lookup_unchanged [of w3 w' "sysctlFile m"] 4 file_apart(1) [OF l3] by simp
  then show "regularAt w' (sysctlFile m) content" by (simp add: regularAt_def newFile_def isRegular_def)
  show "\<exists>v t v' doc. sameEnv w v \<and> mg_now m v = (t, v') \<and>
       activeText (active\<lparr>as_Phase := ''active'', as_UpdatedAt := t\<rparr>) = Inr doc \<and>
       regularAt w' (activePath m) doc"
    using writeActive_done [OF s4 l3] s3 sameEnv_trans [OF env1] 2 by blast
qed

lemma runTransaction_done:
  assumes "runTransaction g m baseline rq result w = (Inr res, w')" "layout m w"
    "\<forall>k v. map_of rq k = Some v \<longrightarrow> v \<noteq> []"
  shows "res = result\<lparr>ar_Changed := filter (\<lambda>k. map_of rq k \<noteq> None) managedKeys\<rparr>"
    "k \<in> set managedKeys \<Longrightarrow> map_of rq k = Some v \<Longrightarrow> holds m w' k v"
    "regularAt w' (sysctlFile m) (managedSysctlContent rq)"
    "\<exists>v t v' doc. sameEnv w v \<and> mg_now m v = (t, v') \<and>
       activeText \<lparr>as_Schema = stateSchema, as_Phase = ''active'', as_UpdatedAt = t, as_Values = rq,
         as_SysctlFileHash = contentHash g (managedSysctlContent rq)\<rparr> = Inr doc \<and>
       regularAt w' (activePath m) doc"
proof -
  obtain t w1 where s1: "mg_now m w = (t, w1)" by fastforce
  define active where "active = \<lparr>as_Schema = stateSchema, as_Phase = ''applying'', as_UpdatedAt = t,
     as_Values = rq, as_SysctlFileHash = contentHash g (managedSysctlContent rq)\<rparr>"
  have 1: "sameTree w w1" by (rule ro_same [OF now s1])
  obtain r2 w2 where s2: "writeJSONAtomic (activePath m) (activeText active) o600 w1 = (r2, w2)" by fastforce
  have 2: "sameEnv w w2" using touches_env [OF touches_writeActive _ s2, of w] 1 by (simp add: sameTree_def)
  obtain e3 changed w3 where s3: "transaction m active (managedSysctlContent rq) w2 = ((e3, changed), w3)"
    by (metis prod.collapse)
  have ok: "e3 = None" "res = result\<lparr>ar_Changed := changed\<rparr>" "w' = w3"
    using assms(1) s1 s2 s3
    by (cases r2; cases e3; auto simp: runTransaction_def Let_def active_def split: sum.splits prod.splits)+
  have l2: "layout m w2" using assms(2) layout_env [OF 2] by simp
  have v: "\<forall>k v. map_of (as_Values active) k = Some v \<longrightarrow> v \<noteq> []" using assms(3) by (simp add: active_def)
  note t = transaction_done [OF s3 [unfolded ok(1)] l2 v]
  show "res = result\<lparr>ar_Changed := filter (\<lambda>k. map_of rq k \<noteq> None) managedKeys\<rparr>"
    using t(1) ok(2) by (simp add: active_def)
  show "k \<in> set managedKeys \<Longrightarrow> map_of rq k = Some v \<Longrightarrow> holds m w' k v"
    using t(2) ok(3) by (simp add: active_def)
  show "regularAt w' (sysctlFile m) (managedSysctlContent rq)" using t(3) ok(3) by simp
  show "\<exists>v t v' doc. sameEnv w v \<and> mg_now m v = (t, v') \<and>
       activeText \<lparr>as_Schema = stateSchema, as_Phase = ''active'', as_UpdatedAt = t, as_Values = rq,
         as_SysctlFileHash = contentHash g (managedSysctlContent rq)\<rparr> = Inr doc \<and>
       regularAt w' (activePath m) doc"
    using t(4) ok(3) sameEnv_trans [OF 2] unfolding active_def by (simp add: ) blast
qed

end

section \<open>The committed run\<close>

definition committed :: "goLib \<Rightarrow> Manager \<Rightarrow> ApplyResult \<Rightarrow> world \<Rightarrow> world \<Rightarrow> activeState \<Rightarrow> bool" where
  "committed g m res w w' active =
     (let rq = requestedOf (pl_Actions (ar_Plan res)) in
      as_Schema active = stateSchema \<and> as_Phase active = ''active'' \<and> as_Values active = rq \<and>
      as_SysctlFileHash active = contentHash g (managedSysctlContent rq) \<and>
      (\<exists>v. sameEnv w v \<and> as_UpdatedAt active = fst (mg_now m v)) \<and>
      (\<exists>doc. activeText active = Inr doc \<and> regularAt w' (activePath m) doc) \<and>
      regularAt w' (sysctlFile m) (managedSysctlContent rq) \<and>
      (\<forall>k \<in> set managedKeys. \<forall>v. map_of rq k = Some v \<longrightarrow> holds m w' k v) \<and>
      ar_Changed res = filter (\<lambda>k. map_of rq k \<noteq> None) managedKeys \<and>
      secureStateDir m w' \<and> sameEnv w w')"

definition baselined :: "Manager \<Rightarrow> Profile \<Rightarrow> world \<Rightarrow> world \<Rightarrow> baselineState \<Rightarrow> bool" where
  "baselined m p w w' b =
     (bs_Schema b = stateSchema \<and> bs_Values b = baselineValues (pf_Sysctls p) \<and>
      bs_ProgramVersion b = op_ProgramVersion (mg_options m) \<and>
      bs_Kernel b = ev_Kernel (pf_Environment p) \<and> bs_Interface b = ev_Interface (pf_Environment p) \<and>
      (\<exists>v. sameEnv w v \<and> bs_CreatedAt b = fst (mg_now m v)) \<and>
      (\<exists>doc. baselineText b = Inr doc \<and> regularAt w' (baselinePath m) doc))"

context tuning begin

lemma establishBaseline_written:
  assumes "establishBaseline m p w = (Inr b, w')" "layout m w"
  shows "baselined m p w w' b"
proof -
  obtain r1 w1 where s1: "freeSysctlFile m ''cannot safely establish pre-tune baseline: '' '' already exists'' w = (r1, w1)"
    by fastforce
  obtain t w2 where s2: "mg_now m w1 = (t, w2)" by fastforce
  have 1: "sameTree w w1" by (rule ro_same [OF ro_freeSysctlFile s1])
  have 2: "sameTree w w2" by (rule sameTree_trans [OF 1 ro_same [OF now s2]])
  have s3: "writeJSONNew (baselinePath m) (baselineText b) o600 w2 = (Inr (), w')"
    and b: "b = \<lparr>bs_Schema = stateSchema, bs_CreatedAt = t,
                      bs_ProgramVersion = op_ProgramVersion (mg_options m),
                      bs_Kernel = ev_Kernel (pf_Environment p),
                      bs_Interface = ev_Interface (pf_Environment p),
                      bs_Values = baselineValues (pf_Sysctls p)\<rparr>"
    using assms(1) s1 s2 by (auto simp: establishBaseline_def Let_def split: sum.splits prod.splits)
  obtain doc where doc: "baselineText b = Inr doc" "writeNew (baselinePath m) doc o600 w2 = (Inr (), w')"
    using s3 by (auto simp: writeJSONNew_def split: sum.splits)
  have env: "sameEnv w w2" using 2 by (simp add: sameTree_def)
  have "layout m w2" using assms(2) layout_env [OF env] by simp
  then have "kernel w2 (keyOf w2 (baselinePath m)) = None"
    using layout_files(6) by (simp add: stateKeys_def)
  then have "regularAt w' (baselinePath m) doc"
    using writeNew_done(2) [OF doc(2)] by (simp add: regularAt_def newFile_def isRegular_def)
  moreover have "sameEnv w w1" using 1 by (simp add: sameTree_def)
  ultimately show ?thesis using doc(1) b s2 unfolding baselined_def
    by (metis baselineState.select_convs fst_conv)
qed

lemma regularAt_frame:
  "sameEnv w w' \<Longrightarrow> tree w' (keyOf w p) = tree w (keyOf w p) \<Longrightarrow> regularAt w' p t = regularAt w p t"
  using lookup_unchanged [of w w' p] by (simp add: regularAt_def)

lemma secureStateDir_frame:
  "sameEnv w w' \<Longrightarrow> tree w' (keyOf w (stateDir m)) = tree w (keyOf w (stateDir m)) \<Longrightarrow>
     secureStateDir m w' = secureStateDir m w"
  using lookup_unchanged [of w w' "stateDir m"] by (simp add: secureStateDir_def)

lemma stateDir_apart:
  assumes "layout m w"
  shows "keyOf w (stateDir m) \<notin> transactionFoot m rq w" "keyOf w (stateDir m) \<noteq> keyOf w (baselinePath m)"
proof -
  have "keyOf w (stateDir m) \<in> set (stateDirKeys m w)" by (simp add: stateDirKeys_def)
  then have "keyOf w (stateDir m) \<notin> set (stateKeys m w) \<union> set (fileKeys m w) \<union> set (sysctlKeys m w)"
    using layout_files(7) [OF assms] by blast
  then show "keyOf w (stateDir m) \<notin> transactionFoot m rq w" "keyOf w (stateDir m) \<noteq> keyOf w (baselinePath m)"
    using layout_files(8) [OF assms] by (auto simp: transactionFoot_def stateKeys_def sysctlKeys_def)
qed

lemma Apply_done:
  assumes "Apply g m inputs dryRun w = (Inr res, w')" "ar_Changed res \<noteq> []" "layout m w"
  shows "\<not> dryRun" "\<exists>w1. Detect g m w = (Inr (pl_Profile (ar_Plan res)), w1)"
    "pl_Actions (ar_Plan res) = planActions (pl_Profile (ar_Plan res))"
    "\<exists>active. committed g m res w w' active"
    "lookup w (baselinePath m) = None \<Longrightarrow> \<exists>b. baselined m (pl_Profile (ar_Plan res)) w w' b"
proof -
  obtain plan w1 where a: "\<not> dryRun" "makePlan g m inputs w = (Inr plan, w1)" "sameTree w w1"
    "applyRoot g m plan (requestedOf (pl_Actions plan))
         \<lparr>ar_Plan = plan, ar_Changed = [], ar_DryRun = False\<rparr> w1 = (Inr res, w')"
    using Apply_cases [OF assms(1)] assms(2) by auto
  let ?rq = "requestedOf (pl_Actions plan)" and ?res = "\<lparr>ar_Plan = plan, ar_Changed = [], ar_DryRun = False\<rparr>"
  note p = makePlan_actions [OF a(2)]
  have env1: "sameEnv w w1" "tree w1 = tree w" using a(3) by (simp_all add: sameTree_def)
  have l1: "layout m w1" using assms(3) layout_env [OF env1(1)] by simp
  have nr: "res \<noteq> ?res" using assms(2) by auto
  obtain w2 b w3 where 2: "sameEnv w1 w2" "\<forall>k. k \<notin> set (stateDirKeys m w1) \<longrightarrow> tree w2 k = tree w1 k"
    and ready: "stateDirReady w2"
    and base: "lookup w2 (baselinePath m) = None \<and> establishBaseline m (pl_Profile plan) w2 = (Inr b, w3) \<or>
       lookup w2 (baselinePath m) \<noteq> None \<and> reuseBaseline m b w2 = (Inr b, w3)"
    and run: "runTransaction g m b ?rq ?res w3 = (Inr res, w')"
    using applyRoot_cases [OF a(4)] nr by blast
  have l2: "layout m w2" using l1 layout_env [OF 2(1)] by simp
  have 3: "sameEnv w2 w3" "tree w3 (keyOf w2 (stateDir m)) = tree w2 (keyOf w2 (stateDir m))"
  proof -
    have "sameEnv w2 w3 \<and> (\<forall>k. k \<noteq> keyOf w2 (baselinePath m) \<longrightarrow> tree w3 k = tree w2 k)"
      using base
    proof (elim disjE conjE)
      assume "establishBaseline m (pl_Profile plan) w2 = (Inr b, w3)"
      then show ?thesis by (rule establishBaseline_done(3))
    next
      assume "reuseBaseline m b w2 = (Inr b, w3)"
      then have "sameTree w2 w3" by (rule ro_same [OF ro_reuseBaseline])
      then show ?thesis by (simp add: sameTree_def)
    qed
    then show "sameEnv w2 w3" "tree w3 (keyOf w2 (stateDir m)) = tree w2 (keyOf w2 (stateDir m))"
      using stateDir_apart(2) [OF l2] by auto
  qed
  have l3: "layout m w3" using l2 layout_env [OF 3(1)] by simp
  have env3: "sameEnv w w3" using sameEnv_trans [OF env1(1) sameEnv_trans [OF 2(1) 3(1)]] .
  have ne: "\<forall>k v. map_of ?rq k = Some v \<longrightarrow> v \<noteq> []"
    using requestedOf_entries(4) map_of_SomeD unfolding p(1) safeValue_def by fast
  note d = runTransaction_done [OF run l3 ne]
  have pl: "ar_Plan res = plan" using d(1) by simp
  have env4: "sameEnv w3 w'" using touches_env [OF touches_runTransaction sameEnv_refl run] .
  have frame: "k \<notin> transactionFoot m ?rq w3 \<Longrightarrow> tree w' k = tree w3 k" for k
    by (rule touches_frame [OF touches_runTransaction sameEnv_refl run])
  have sec: "secureStateDir m w'"
    using ready secure_ready [of w2] secureStateDir_frame [OF 3] secureStateDir_frame [OF env4]
      frame [OF stateDir_apart(1) [OF l3]] by simp
  show "\<not> dryRun" by (rule a(1))
  show "\<exists>w1. Detect g m w = (Inr (pl_Profile (ar_Plan res)), w1)" using p(3) pl by blast
  show "pl_Actions (ar_Plan res) = planActions (pl_Profile (ar_Plan res))" using p(1) pl by simp
  obtain v t v' doc where act: "sameEnv w3 v" "mg_now m v = (t, v')"
      "activeText \<lparr>as_Schema = stateSchema, as_Phase = ''active'', as_UpdatedAt = t, as_Values = ?rq,
         as_SysctlFileHash = contentHash g (managedSysctlContent ?rq)\<rparr> = Inr doc"
      "regularAt w' (activePath m) doc"
    using d(4) by blast
  have "committed g m res w w' \<lparr>as_Schema = stateSchema, as_Phase = ''active'', as_UpdatedAt = t, as_Values = ?rq,
         as_SysctlFileHash = contentHash g (managedSysctlContent ?rq)\<rparr>"
    unfolding committed_def Let_def pl
    using act sameEnv_trans [OF env3 act(1)] d(1-3) sec sameEnv_trans [OF env3 env4]
    by (simp, intro exI [of _ v]) simp
  then show "\<exists>active. committed g m res w w' active" by blast
  show "\<exists>b. baselined m (pl_Profile (ar_Plan res)) w w' b" if n: "lookup w (baselinePath m) = None"
  proof -
    have k: "keyOf w1 (baselinePath m) \<notin> set (stateDirKeys m w1)"
      using layout_files(7) [OF l1, of "keyOf w1 (baselinePath m)"] by (auto simp: stateKeys_def)
    have "lookup w2 (baselinePath m) = None"
      using lookup_unchanged [OF 2(1)] k 2(2) n sameTree_lookup [OF a(3)] by simp
    then have e: "establishBaseline m (pl_Profile plan) w2 = (Inr b, w3)" using base by blast
    note bl = establishBaseline_written [OF e l2]
    have "regularAt w' (baselinePath m) doc = regularAt w3 (baselinePath m) doc" for doc
      by (rule regularAt_frame [OF env4 frame [OF transactionFoot_avoids(1) [OF l3]]])
    then show ?thesis using bl sameEnv_trans [OF sameEnv_trans [OF env1(1) 2(1)]] unfolding baselined_def pl by blast
  qed
qed

end

section \<open>Verify agrees\<close>

text \<open>The same world when no call fails any more.\<close>

definition calm :: "world \<Rightarrow> world" where
  "calm w = w\<lparr>faults := (\<lambda>_. None)\<rparr>"

lemma calm_sel [simp]:
  "quiet (calm w)" "lookup (calm w) p = lookup w p" "keyOf (calm w) p = keyOf w p" "tree (calm w) = tree w"
  by (simp_all add: calm_def quiet_def lookup_def keyOf_def)

lemma calm_resolve: "resolve n (calm w) p = resolve n w p"
  by (induction n w p rule: resolve.induct) (auto split: option.splits node_kind.splits)

lemma calm_views [simp]:
  "regularAt (calm w) p t = regularAt w p t" "textAt (calm w) p = textAt w p"
  "secureStateDir m (calm w) = secureStateDir m w" "holds m (calm w) k v = holds m w k v"
  "inForce g m a (calm w) = inForce g m a w"
  by (simp_all add: regularAt_def textAt_def secureStateDir_def holds_def inForce_def calm_resolve del: resolve.simps)

lemma set_sortedMap:
  assumes "distinct (map fst vs)"
  shows "set (sortedMap vs) = set vs"
proof -
  have "(k, v) \<in> set (sortedMap vs) \<longleftrightarrow> map_of vs k = Some v" for k v
    unfolding sortedMap_def by (auto simp: mget_def)
  moreover have "map_of vs k = Some v \<longleftrightarrow> (k, v) \<in> set vs" for k v
    using assms by (simp add: map_of_eq_Some_iff)
  ultimately show ?thesis by auto
qed

lemma distinct_sortedMap: "distinct (map fst vs) \<Longrightarrow> distinct (map fst (sortedMap vs))"
  by (simp add: sortedMap_def sortedKeysOf_def comp_def)

lemma sortedMap_valid: "distinct (map fst vs) \<Longrightarrow> validValues vs \<Longrightarrow> validValues (sortedMap vs)"
  using set_sortedMap [of vs] unfolding validValues_def
  by (metis list.set(1) set_empty)

text \<open>The state files are small enough to be read back.\<close>

definition smallState :: "Manager \<Rightarrow> world \<Rightarrow> bool" where
  "smallState m w =
     (\<forall>p \<in> {baselinePath m, activePath m}. \<forall>doc. regularAt w p doc \<longrightarrow> length doc \<le> stateLimit)"

lemma committed_loaded:
  assumes "committed g m res w w' active" "pl_Actions (ar_Plan res) = planActions p" "ar_Changed res \<noteq> []"
    "\<forall>c. length (gl_sha256 g c) = 32" "timeOK (as_UpdatedAt active)"
  defines "stored \<equiv> active\<lparr>as_Values := sortedMap (as_Values active)\<rparr>"
  shows "validActive stored" "distinct (map fst (as_Values stored))" "inForce g m stored w'"
    "\<exists>doc. regularAt w' (activePath m) doc \<and>
       readDocument (decodeStruct activeNames storeActive) zeroActive doc = Document stored"
proof -
  note c = assms(1) [unfolded committed_def Let_def assms(2)]
  let ?rq = "requestedOf (planActions p)"
  have ne: "?rq \<noteq> []" using c assms(3) by auto
  have v: "as_Values active = ?rq" using c by blast
  note h = contentHash_valid [OF assms(4) [rule_format]]
  show "validActive stored"
    using c h sortedMap_valid [OF requestedOf_distinct requestedOf_valid [OF ne]]
    by (simp add: validActive_def stored_def)
  show d: "distinct (map fst (as_Values stored))"
    unfolding stored_def using distinct_sortedMap [OF requestedOf_distinct] v by simp
  have vals: "\<forall>(k, x) \<in> set (sortedMap ?rq). textAt w' (sysctlPath m k) = x"
  proof (intro ballI, clarify)
    fix k x assume "(k, x) \<in> set (sortedMap ?rq)"
    then have e: "(k, x) \<in> set ?rq" using set_sortedMap [OF requestedOf_distinct] by simp
    then have "map_of ?rq k = Some x" by (rule map_of_is_SomeI [OF requestedOf_distinct])
    then show "textAt w' (sysctlPath m k) = x"
      using c requestedOf_entries(1) [OF e] holds_textAt by blast
  qed
  have f: "\<exists>doc. regularAt w' (sysctlFile m) doc \<and> length doc \<le> stateLimit \<and>
      contentHash g doc = as_SysctlFileHash stored"
    using c managedContent_short by (intro exI [of _ "managedSysctlContent ?rq"]) (simp add: stored_def)
  show "inForce g m stored w'" unfolding inForce_def using c vals f v by (intro conjI) (simp_all add: stored_def)
  have "ascii ''active''" by code_simp
  moreover have "as_Phase active = ''active''" using c by (elim conjE)
  ultimately have "ascii (as_Phase active)" by (simp only:)
  then have po: "portableActive active"
    using c h requestedOf_portable assms(5) by (simp add: portableActive_def stateSchema_def int64_def)
  show "\<exists>doc. regularAt w' (activePath m) doc \<and>
       readDocument (decodeStruct activeNames storeActive) zeroActive doc = Document stored"
    using c active_roundtrip [OF po] unfolding stored_def by force
qed

lemma committed_verified:
  assumes "committed g m res w w' active" "pl_Actions (ar_Plan res) = planActions p" "ar_Changed res \<noteq> []"
    "\<forall>c. length (gl_sha256 g c) = 32" "timeOK (as_UpdatedAt active)" "smallState m w'"
  shows "\<exists>v w2. Verify g m (calm w') = (Inr v, w2) \<and> vr_Managed v \<and> vr_Phase v = ''active'' \<and> vr_Drift v = []"
proof -
  define stored where "stored = active\<lparr>as_Values := sortedMap (as_Values active)\<rparr>"
  note l = committed_loaded [OF assms(1-5), folded stored_def]
  obtain doc where doc: "regularAt w' (activePath m) doc"
    "readDocument (decodeStruct activeNames storeActive) zeroActive doc = Document stored" using l(4) by blast
  have small: "length doc \<le> stateLimit" using assms(6) doc(1) by (simp add: smallState_def)
  have sec: "secureStateDir m w'" using assms(1) by (simp add: committed_def Let_def)
  obtain w1 where load: "loadActive g m (calm w') = (Inr (Some stored), w1)"
    using loadActive_quiet [of "calm w'" m doc stored g] sec doc small l(1) by auto
  have 1: "sameTree (calm w') w1" by (rule ro_same [OF ro_load(2) load])
  have q: "quiet w1" using sameTree_quiet [OF 1] by simp
  have f: "inForce g m stored w1" using inForce_same [OF 1] l(3) by simp
  obtain v w2 where v: "verifyActive g m stored w1 = (Inr v, w2)" "vr_Drift v = []"
    using verifyActive_complete [OF q f l(2)] by blast
  have "vr_Managed v \<and> vr_Phase v = as_Phase stored"
    using v(1) by (auto simp: verifyActive_def Let_def split: prod.splits sum.splits if_splits)
  moreover have "as_Phase stored = ''active''" using f unfolding inForce_def by blast
  ultimately show ?thesis using load v by (simp add: Verify_def)
qed

text \<open>
  Claim C24. A run of \<open>Apply\<close> that reports changed sysctls has done all it planned, whatever
  failed on the way: it was no dry run, every value the plan sets with high confidence is the
  value of its sysctl, the managed file is a regular file with exactly these values, and
  \<open>Verify\<close> on that host, once no call fails, reports active management without drift.
\<close>

theorem Apply_commits:
  assumes "layout (New options) w" "\<forall>c. length (gl_sha256 g c) = 32" "\<forall>n. timeOK (clock w n)"
    "Apply g (New options) inputs dryRun w = (Inr res, w')" "ar_Changed res \<noteq> []" "smallState (New options) w'"
  shows "\<not> dryRun \<and>
    (\<forall>key value. requests (pl_Actions (ar_Plan res)) key value \<longrightarrow>
       key \<in> set (ar_Changed res) \<and> holds (New options) w' key value) \<and>
    regularAt w' (sysctlFile (New options)) (managedSysctlContent (requestedOf (pl_Actions (ar_Plan res)))) \<and>
    (\<exists>v w2. Verify g (New options) (calm w') = (Inr v, w2) \<and> vr_Managed v \<and> vr_Phase v = ''active'' \<and>
       vr_Drift v = [])"
proof -
  let ?m = "New options" and ?p = "pl_Profile (ar_Plan res)"
  note d = program.Apply_done [OF assms(4,5,1)]
  obtain active where c: "committed g ?m res w w' active" using d(4) by blast
  have t: "timeOK (as_UpdatedAt active)"
  proof -
    obtain v where "sameEnv w v" "as_UpdatedAt active = fst (mg_now ?m v)"
      using c unfolding committed_def Let_def by blast
    then show ?thesis using assms(3) by (simp add: sys_now_def sameEnv_def)
  qed
  have "key \<in> set (ar_Changed res) \<and> holds ?m w' key v"
    if r: "requests (pl_Actions (ar_Plan res)) key v" for key v
  proof -
    have "map_of (requestedOf (pl_Actions (ar_Plan res))) key = Some v"
      using requestedOf_map [of "planActions ?p"] plan_keys [of ?p] managedKeys_distinct r d(3) by simp
    moreover have "key \<in> set managedKeys" using requests_managed r d(3) by simp
    ultimately show ?thesis using c unfolding committed_def Let_def by simp
  qed
  moreover have "regularAt w' (sysctlFile ?m) (managedSysctlContent (requestedOf (pl_Actions (ar_Plan res))))"
    using c unfolding committed_def Let_def by blast
  moreover have "\<exists>v w2. Verify g ?m (calm w') = (Inr v, w2) \<and> vr_Managed v \<and> vr_Phase v = ''active'' \<and> vr_Drift v = []"
    by (rule committed_verified [OF c d(3) assms(5,2) t assms(6)])
  ultimately show ?thesis using d(1) by blast
qed

lemma lean_small:
  assumes "observed w' = (x, bs, True)" "cwd w' = ''/''"
  shows "smallState sampleManager w'"
proof -
  have k: "keyOf w' (baselinePath sampleManager) = ''/s/baseline.json''"
    "keyOf w' (activePath sampleManager) = ''/s/active.json''"
    unfolding keyOf_def assms(2) by code_simp+
  have "length doc < 1000" if "p \<in> {baselinePath sampleManager, activePath sampleManager}" "regularAt w' p doc" for p doc
    using that assms(1) k by (auto simp: observed_def regularAt_def lookup_def split: if_splits)
  then show ?thesis by (fastforce simp: smallState_def stateLimit_def)
qed

lemma lean_facts: "\<forall>c. length (gl_sha256 sampleLib c) = 32" "\<forall>n. timeOK (clock leanWorld n)"
proof -
  have "timeOK epoch" by code_simp
  then show "\<forall>n. timeOK (clock leanWorld n)" by (simp add: leanWorld_def sampleWorld_def)
qed (simp add: sampleLib_def)

lemma lean_cwd: "sameEnv leanWorld w \<Longrightarrow> cwd w = ''/''"
  by (simp add: sameEnv_def leanWorld_def sampleWorld_def)

lemma Apply_commits_witness:
  "\<exists>res w' v w2. Apply sampleLib (New sampleOptions) sampleInputs False leanWorld = (Inr res, w') \<and>
     Verify sampleLib (New sampleOptions) (calm w') = (Inr v, w2) \<and> vr_Drift v = []"
proof -
  obtain res w' where run: "Apply sampleLib (New sampleOptions) sampleInputs False leanWorld = (Inr res, w')"
    "ar_Changed res = [KeyMTUProbing]" "observed w' = (Some (''1'' @ nl), [True, True, True], True)"
    using lean_run by blast
  note lay = lean_layout(1) [unfolded sampleManager_def]
  have "\<exists>active. committed sampleLib (New sampleOptions) res leanWorld w' active"
    using program.Apply_done(4) [OF run(1) _ lay] run(2) by simp
  then have "sameEnv leanWorld w'" by (auto simp: committed_def Let_def)
  then have "smallState (New sampleOptions) w'"
    using lean_small [OF run(3) lean_cwd] unfolding sampleManager_def by blast
  moreover have "ar_Changed res \<noteq> []" using run(2) by simp
  ultimately show ?thesis using Apply_commits [OF lay lean_facts run(1)] run(1) by blast
qed

end
