(* ===== verification/TuneRollback.thy ===== *)
theory TuneRollback
  imports TuneSuccess
begin

text \<open>
  \<open>Rollback\<close>: it changes only what is still the managed value, a run without error has restored
  the baseline, and it undoes a committed \<open>Apply\<close>.
\<close>

section \<open>One key\<close>

text \<open>The managed sysctls that exist are regular files, as the kernel makes them.\<close>

definition plainSysctls :: "Manager \<Rightarrow> world \<Rightarrow> bool" where
  "plainSysctls m w =
     (\<forall>key \<in> set managedKeys. \<forall>i. lookup w (sysctlPath m key) = Some i \<longrightarrow> isRegular i)"

lemma plain_holds:
  assumes "plainSysctls m w" "key \<in> set managedKeys" "textAt w (sysctlPath m key) = v" "v \<noteq> []"
  shows "holds m w key v"
proof (cases "lookup w (sysctlPath m key)")
  case None
  have "resolve 41 w (sysctlPath m key) = Inl ENOENT" using None by (simp add: eval_nat_numeral)
  then show ?thesis using assms(3,4) by (simp add: textAt_def del: resolve.simps)
next
  case (Some i)
  then have r: "isRegular i" using assms(1,2) by (simp add: plainSysctls_def)
  then have "holds m w key (trimSpace (data i))" using Some by (auto simp: holds_def)
  then show ?thesis using holds_textAt assms(3) by metis
qed

lemma writeSysctl_regular:
  assumes "writeSysctl m key v w = (r, w')" "tree w' \<noteq> tree w"
  shows "\<exists>i. lookup w (sysctlPath m key) = Some i \<and> isRegular i"
proof -
  obtain r1 w1 where s1: "sys_lstat (sysctlPath m key) w = (r1, w1)" by fastforce
  have "tree w1 = tree w" by (rule lstat.fs_same [OF s1])
  then obtain i where i: "r1 = Inr i" "\<not> unsafeFile i"
    using assms s1 by (auto simp: writeSysctl_def Let_def split: sum.splits if_splits)
  then show ?thesis using lstat_result(1) [OF s1 [unfolded i(1)]] by (auto simp: unsafeFile_iff)
qed

lemma writeSysctl_plain:
  assumes "writeSysctl m key v w = (r, w')" "plainSysctls m w" "layout m w" "storesValues m w" "key \<in> set managedKeys"
  shows "plainSysctls m w'"
proof (cases "tree w' = tree w")
  case True
  then have "sameTree w w'" using writeSysctl_result(1) [OF assms(1)] by (simp add: sameTree_def)
  then show ?thesis using assms(2) by (simp add: plainSysctls_def sameTree_lookup)
next
  case False
  note wr = writeSysctl_result [OF assms(1)]
  show ?thesis unfolding plainSysctls_def
  proof (intro ballI allI impI)
    fix k i assume k: "k \<in> set managedKeys" and i: "lookup w' (sysctlPath m k) = Some i"
    show "isRegular i"
    proof (cases "k = key")
      case True
      have "kernel w (keyOf w (sysctlPath m key)) \<noteq> None"
        using assms(4,5) by (auto simp: storesValues_def sysctlKey_def)
      then have "lookup w' (sysctlPath m key) = lookup w (sysctlPath m key) \<or>
          (\<exists>j. isRegular j \<and> lookup w' (sysctlPath m key) = Some (written w (sysctlPath m key) j v))"
        using wr(3,4) by (cases r) blast+
      then show ?thesis using i True assms(2,5)
        by (auto simp: plainSysctls_def written_def isRegular_def split: option.splits)
    next
      case False
      then have "keyOf w (sysctlPath m k) \<noteq> keyOf w (sysctlPath m key)"
        using sysctlKeys_inj [OF assms(3) k assms(5)] by (auto simp: sysctlKey_def)
      then have "lookup w (sysctlPath m k) = Some i"
        using lookup_unchanged [OF wr(1)] wr(2) i by simp
      then show ?thesis using assms(2) k by (simp add: plainSysctls_def)
    qed
  qed
qed

lemma rollbackKey_env: "rollbackKey m originals managed key w = (r, w') \<Longrightarrow> sameEnv w w'"
  using touches_env [OF touches_rollbackKey [of m w key UNIV originals managed] sameEnv_refl] by simp

lemma rollbackKey_frame:
  "rollbackKey m originals managed key w = (r, w') \<Longrightarrow> k \<noteq> sysctlKey m w key \<Longrightarrow> tree w' k = tree w k"
  using touches_frame [OF touches_rollbackKey [of m w key "{sysctlKey m w key}" originals managed] sameEnv_refl] by simp

text \<open>What one step does: the value is written only when it is the managed one.\<close>

lemma rollbackKey_cases:
  assumes "rollbackKey m originals managed key w = ((restored, drift), w')"
  shows "sameTree w w' \<and> restored = [] \<and>
      (drift = [] \<longrightarrow> (\<exists>original w0. map_of originals key = Some original \<and> readSysctl m key w = (original, w0))) \<or>
    (\<exists>original w0 w2 q. map_of originals key = Some original \<and>
       readSysctl m key w = (mget managed key, w0) \<and> writeSysctl m key original w0 = (q, w2) \<and> sameTree w2 w' \<and>
       set restored \<subseteq> {key} \<and> (drift = [] \<longrightarrow> q = Inr () \<and> (\<exists>w3. readSysctl m key w2 = (original, w3))))"
proof (cases "map_of originals key")
  case None
  then show ?thesis using assms by (auto simp: rollbackKey_def)
next
  case (Some original)
  obtain c w1 where s1: "readSysctl m key w = (c, w1)" by fastforce
  have 1: "sameTree w w1" by (rule readSysctl_sees(1) [OF s1])
  show ?thesis
  proof (cases "c = original \<or> c \<noteq> mget managed key")
    case True
    then show ?thesis using assms Some s1 1 by (auto simp: rollbackKey_def split: if_splits)
  next
    case False
    obtain q w2 where s2: "writeSysctl m key original w1 = (q, w2)" by fastforce
    obtain a w3 where s3: "readSysctl m key w2 = (a, w3)" by fastforce
    have 3: "sameTree w2 w3" by (rule readSysctl_sees(1) [OF s3])
    show ?thesis
    proof (rule disjI2, intro exI conjI)
      show "map_of originals key = Some original" "writeSysctl m key original w1 = (q, w2)"
        by (rule Some, rule s2)
      show "readSysctl m key w = (mget managed key, w1)" using s1 False by simp
      show "sameTree w2 w'" "set restored \<subseteq> {key}"
        "drift = [] \<longrightarrow> q = Inr () \<and> (\<exists>w3. readSysctl m key w2 = (original, w3))"
        using assms Some s1 s2 s3 3 False by (auto simp: rollbackKey_def split: sum.splits if_splits)
    qed
  qed
qed

lemma rollbackKey_safe:
  assumes "rollbackKey m originals managed key w = (r, w')" "tree w' \<noteq> tree w" "mget managed key \<noteq> []"
  shows "holds m w key (mget managed key)"
proof -
  obtain restored drift where r: "r = (restored, drift)" by fastforce
  obtain original w0 w2 q where s: "readSysctl m key w = (mget managed key, w0)"
    "writeSysctl m key original w0 = (q, w2)" "sameTree w2 w'"
    using rollbackKey_cases [OF assms(1) [unfolded r]] assms(2) by (auto simp: sameTree_def)
  have 0: "sameTree w w0" by (rule readSysctl_sees(1) [OF s(1)])
  have "tree w2 \<noteq> tree w0" using assms(2) s(3) 0 by (simp add: sameTree_def)
  then obtain i where "lookup w0 (sysctlPath m key) = Some i" "isRegular i"
    using writeSysctl_regular [OF s(2)] by blast
  then show ?thesis using readSysctl_holds [OF s(1) assms(3)] sameTree_lookup [OF 0] by simp
qed

lemma rollbackKey_done:
  assumes "rollbackKey m originals managed key w = ((restored, []), w')" "plainSysctls m w" "layout m w"
    "storesValues m w" "key \<in> set managedKeys" "\<forall>v. map_of originals key = Some v \<longrightarrow> v \<noteq> []"
  shows "\<exists>original. map_of originals key = Some original \<and> holds m w' key original"
  using rollbackKey_cases [OF assms(1)]
proof (elim disjE conjE)
  assume same: "sameTree w w'"
    and "[] = [] \<longrightarrow> (\<exists>original w0. map_of originals key = Some original \<and> readSysctl m key w = (original, w0))"
  then obtain original w0 where o: "map_of originals key = Some original" "readSysctl m key w = (original, w0)" by blast
  have "original \<noteq> []" using assms(6) o(1) by blast
  then have "textAt w (sysctlPath m key) = original" using readSysctl_sees(2) [OF o(2)] by auto
  then have "holds m w key original" using plain_holds assms(2,5) \<open>original \<noteq> []\<close> by blast
  then show ?thesis using o(1) holds_same [OF same] by blast
next
  assume "\<exists>original w0 w2 q. map_of originals key = Some original \<and>
       readSysctl m key w = (mget managed key, w0) \<and> writeSysctl m key original w0 = (q, w2) \<and> sameTree w2 w' \<and>
       set restored \<subseteq> {key} \<and> ([] = [] \<longrightarrow> q = Inr () \<and> (\<exists>w3. readSysctl m key w2 = (original, w3)))"
  then obtain original w0 w2 w3 where s: "map_of originals key = Some original"
    "readSysctl m key w = (mget managed key, w0)" "writeSysctl m key original w0 = (Inr (), w2)"
    "sameTree w2 w'" "readSysctl m key w2 = (original, w3)" by blast
  have n: "original \<noteq> []" using assms(6) s(1) by blast
  obtain i where "lookup w2 (sysctlPath m key) = Some (written w0 (sysctlPath m key) i original)" "isRegular i"
    using writeSysctl_result(3) [OF s(3)] by blast
  then have "holds m w2 key original"
    using readSysctl_holds [OF s(5) n] by (auto simp: written_def isRegular_def split: option.splits)
  then show ?thesis using s(1) holds_same [OF s(4)] by blast
qed

lemma rollbackKey_plain:
  assumes "rollbackKey m originals managed key w = (r, w')" "plainSysctls m w" "layout m w" "storesValues m w"
    "key \<in> set managedKeys"
  shows "plainSysctls m w'"
proof -
  have same: "plainSysctls m b = plainSysctls m a" if "sameTree a b" for a b
    by (simp add: plainSysctls_def sameTree_lookup [OF that])
  obtain restored drift where r: "r = (restored, drift)" by fastforce
  show ?thesis using rollbackKey_cases [OF assms(1) [unfolded r]]
  proof (elim disjE conjE)
    assume "sameTree w w'"
    then show ?thesis using same assms(2) by blast
  next
    assume "\<exists>original w0 w2 q. map_of originals key = Some original \<and>
       readSysctl m key w = (mget managed key, w0) \<and> writeSysctl m key original w0 = (q, w2) \<and> sameTree w2 w' \<and>
       set restored \<subseteq> {key} \<and> (drift = [] \<longrightarrow> q = Inr () \<and> (\<exists>w3. readSysctl m key w2 = (original, w3)))"
    then obtain original w0 w2 q where s: "readSysctl m key w = (mget managed key, w0)"
      "writeSysctl m key original w0 = (q, w2)" "sameTree w2 w'" by blast
    have 0: "sameTree w w0" by (rule readSysctl_sees(1) [OF s(1)])
    have e: "sameEnv w w0" using 0 by (simp add: sameTree_def)
    have "plainSysctls m w2"
      using writeSysctl_plain [OF s(2)] same [OF 0] assms(2-5) layout_env [OF e] storesValues_env [OF e] by simp
    then show ?thesis using same [OF s(3)] by simp
  qed
qed

section \<open>The loop\<close>

lemma rollbackKeys_env: "rollbackKeys m originals managed keys w = (r, w') \<Longrightarrow> sameEnv w w'"
  using touches_env [OF touches_rollbackKeys [of keys m w UNIV originals managed] sameEnv_refl] by simp

lemma rollbackKeys_frame:
  "rollbackKeys m originals managed keys w = (r, w') \<Longrightarrow> k \<notin> sysctlKey m w ` set keys \<Longrightarrow> tree w' k = tree w k"
  using touches_frame [OF touches_rollbackKeys [of keys m w "sysctlKey m w ` set keys" originals managed] sameEnv_refl] by simp

lemma rollbackKeys_safe:
  assumes "rollbackKeys m originals managed keys w = (r, w')" "layout m w"
    "set keys \<subseteq> set managedKeys" "key \<in> set managedKeys" "tree w' (sysctlKey m w key) \<noteq> tree w (sysctlKey m w key)"
    "\<forall>k \<in> set keys. mget managed k \<noteq> []"
  shows "key \<in> set keys \<and> holds m w key (mget managed key)"
  using assms
proof (induction keys arbitrary: w r)
  case (Cons k ks)
  obtain r1 w1 where s1: "rollbackKey m originals managed k w = (r1, w1)" by fastforce
  obtain r2 w2 where s2: "rollbackKeys m originals managed ks w1 = (r2, w2)" by fastforce
  have w2: "w2 = w'" using Cons.prems(1) s1 s2 by (auto split: prod.splits)
  have env: "sameEnv w w1" by (rule rollbackKey_env [OF s1])
  show ?case
  proof (cases "tree w1 (sysctlKey m w key) = tree w (sysctlKey m w key)")
    case True
    have "key \<in> set ks \<and> holds m w1 key (mget managed key)"
      using Cons.IH [OF s2 [unfolded w2]] Cons.prems layout_env [OF env] key_env(1) [OF env] True by simp
    then show ?thesis using holds_frame [OF env True] by simp
  next
    case False
    then have "sysctlKey m w key = sysctlKey m w k" using rollbackKey_frame [OF s1] by blast
    then have "key = k" using sysctlKeys_inj [OF Cons.prems(2)] Cons.prems(3,4) by simp
    moreover have "tree w1 \<noteq> tree w" using False by auto
    ultimately show ?thesis using rollbackKey_safe [OF s1] Cons.prems(6) by auto
  qed
qed simp

lemma rollbackKeys_done:
  assumes "rollbackKeys m originals managed keys w = ((restored, []), w')" "plainSysctls m w" "layout m w"
    "storesValues m w" "distinct keys" "set keys \<subseteq> set managedKeys" "\<forall>k v. map_of originals k = Some v \<longrightarrow> v \<noteq> []"
  shows "\<forall>key \<in> set keys. \<exists>original. map_of originals key = Some original \<and> holds m w' key original"
  using assms
proof (induction keys arbitrary: w restored)
  case (Cons k ks)
  obtain r1 d1 w1 where s1: "rollbackKey m originals managed k w = ((r1, d1), w1)" by (metis prod.collapse)
  obtain r2 d2 w2 where s2: "rollbackKeys m originals managed ks w1 = ((r2, d2), w2)" by (metis prod.collapse)
  have e: "d1 = []" "d2 = []" "w2 = w'" using Cons.prems(1) s1 s2 by auto
  have env: "sameEnv w w1" by (rule rollbackKey_env [OF s1])
  have k: "k \<in> set managedKeys" using Cons.prems(6) by simp
  have l1: "layout m w1" "storesValues m w1" "plainSysctls m w1"
    using Cons.prems(3,4) layout_env [OF env] storesValues_env [OF env]
      rollbackKey_plain [OF s1 Cons.prems(2-4) k] by simp_all
  obtain v where v: "map_of originals k = Some v" "holds m w1 k v"
    using rollbackKey_done [OF s1 [unfolded e(1)] Cons.prems(2-4) k] Cons.prems(7) by blast
  have "sysctlKey m w1 k \<notin> sysctlKey m w1 ` set ks"
    using sysctlKeys_inj [OF l1(1)] Cons.prems(5,6) by (auto simp: subset_iff)
  then have "tree w' (sysctlKey m w1 k) = tree w1 (sysctlKey m w1 k)"
    using rollbackKeys_frame [OF s2] e(3) by simp
  then have "holds m w' k v" using holds_frame [of w1 w' m k v] rollbackKeys_env [OF s2] e(3) v(2) by simp
  moreover have "\<forall>key \<in> set ks. \<exists>original. map_of originals key = Some original \<and> holds m w' key original"
    using Cons.IH [OF s2 [unfolded e(2,3)] l1(3,1,2)] Cons.prems(5-7) by simp
  ultimately show ?case using v(1) by auto
qed simp

section \<open>The whole rollback\<close>

definition archivePath :: "Manager \<Rightarrow> gotime \<Rightarrow> string" where
  "archivePath m t = joinPath [stateDir m, archiveName t]"

text \<open>No archive name the clock can give is in use.\<close>

definition archiveFree :: "Manager \<Rightarrow> world \<Rightarrow> bool" where
  "archiveFree m w = (\<forall>n. let k = keyOf w (archivePath m (clock w n)) in
     tree w k = None \<and>
     k \<notin> set (stateDirKeys m w @ stateKeys m w @ fileDirKeys m w @ fileKeys m w @ sysctlKeys m w))"

lemma removeManagedFile_cases:
  assumes "removeManagedFile g m hash w = (r, w')"
  shows "sameEnv w w'" "k \<noteq> keyOf w (sysctlFile m) \<Longrightarrow> tree w' k = tree w k"
    "tree w' \<noteq> tree w \<Longrightarrow> \<exists>doc. regularAt w (sysctlFile m) doc \<and> contentHash g doc = hash"
    "r = Inr u \<Longrightarrow> lookup w' (sysctlFile m) = None"
proof -
  note t = touchesD [OF touches_removeManagedFile [of w m "{keyOf w (sysctlFile m)}" g hash] sameEnv_refl assms]
  show "sameEnv w w'" "k \<noteq> keyOf w (sysctlFile m) \<Longrightarrow> tree w' k = tree w k" using t by simp_all
  obtain r1 w1 where s1: "sys_lstat (sysctlFile m) w = (r1, w1)" by fastforce
  have 1: "sameTree w w1" by (rule ro_same [OF lstat.ro_call_axioms s1])
  have main: "(tree w' \<noteq> tree w \<longrightarrow> (\<exists>doc. regularAt w (sysctlFile m) doc \<and> contentHash g doc = hash)) \<and>
    (r = Inr () \<longrightarrow> lookup w' (sysctlFile m) = None)"
  proof (cases "\<exists>i. r1 = Inr i \<and> isRegular i")
    case False
    then have w: "w' = w1" "r = Inr () \<longrightarrow> (\<exists>e. r1 = Inl e \<and> is_not_exist e)"
      using assms s1 by (auto simp: removeManagedFile_def unsafeFile_iff split: sum.splits if_splits)
    then have "r = Inr () \<longrightarrow> lookup w (sysctlFile m) = None" using lstat_result(2) s1 by blast
    then show ?thesis using w(1) 1 sameTree_lookup [OF 1] by (simp add: sameTree_def)
  next
    case True
    then obtain i where i: "r1 = Inr i" "isRegular i" by blast
    have l: "lookup w (sysctlFile m) = Some i" "lookup w1 (sysctlFile m) = Some i"
      using lstat_result(1) [OF s1 [unfolded i(1)]] sameTree_lookup [OF 1] by auto
    obtain r2 w2 where s2: "readLimitedFile (sysctlFile m) stateLimit w1 = (r2, w2)" by fastforce
    have 2: "sameTree w w2" by (rule sameTree_trans [OF 1 ro_same [OF ro_readLimited s2]])
    show ?thesis
    proof (cases "\<exists>c. r2 = Inr c \<and> contentHash g c = hash")
      case False
      then have "w' = w2" "\<exists>e. r = Inl e"
        using assms s1 i s2 by (auto simp: removeManagedFile_def unsafeFile_iff split: sum.splits if_splits)
      then show ?thesis using 2 by (auto simp: sameTree_def)
    next
      case True
      then obtain c where c: "r2 = Inr c" "contentHash g c = hash" by blast
      then have rm: "sys_remove (sysctlFile m) w2 = (r, w')"
        using assms s1 i s2 by (simp add: removeManagedFile_def unsafeFile_iff)
      have "c = data i" using readLimited_result [OF s2 [unfolded c(1)] l(2) i(2)] by blast
      then have "regularAt w (sysctlFile m) c" using l(1) i(2) by (simp add: regularAt_def)
      moreover have "r = Inr () \<longrightarrow> lookup w' (sysctlFile m) = None"
        using rm by (auto simp: sys_remove_def lookup_putNode lookup_nonempty split: option.splits if_splits)
      ultimately show ?thesis using c(2) by blast
    qed
  qed
  then show "tree w' \<noteq> tree w \<Longrightarrow> \<exists>doc. regularAt w (sysctlFile m) doc \<and> contentHash g doc = hash"
    "r = Inr u \<Longrightarrow> lookup w' (sysctlFile m) = None" by auto
qed

lemma Rollback_cases:
  assumes "Rollback g m w = ((restored, e), w')"
  shows "sameTree w w' \<and> (e = None \<longrightarrow> (\<exists>w1. loadActive g m w = (Inr None, w1))) \<or>
    (\<exists>active baseline w1 w2 w3 drift1 r w4.
       loadActive g m w = (Inr (Some active), w1) \<and> mg_isRoot m w1 \<and>
       loadBaseline g m w1 = (Inr (Some baseline), w2) \<and> sameTree w w2 \<and>
       rollbackKeys m (bs_Values baseline) (as_Values active) (sortedKeysOf (as_Values active)) w2 =
         ((restored, drift1), w3) \<and>
       removeManagedFile g m (as_SysctlFileHash active) w3 = (r, w4) \<and>
       (w' = w4 \<and> e \<noteq> None \<or>
        drift1 = [] \<and> r = Inr () \<and> finishRollback m w4 = (e, w')))"
proof -
  obtain r1 w1 where s1: "loadActive g m w = (r1, w1)" by fastforce
  have 1: "sameTree w w1" by (rule ro_same [OF ro_load(2) s1])
  show ?thesis
  proof (cases "\<exists>active. r1 = Inr (Some active) \<and> mg_isRoot m w1")
    case False
    then have "w' = w1 \<and> (e = None \<longrightarrow> r1 = Inr None)" using assms s1
      by (auto simp: Rollback_def split: sum.splits option.splits if_splits)
    then show ?thesis using 1 s1 by blast
  next
    case True
    then obtain active where a: "r1 = Inr (Some active)" "mg_isRoot m w1" by blast
    obtain r2 w2 where s2: "loadBaseline g m w1 = (r2, w2)" by fastforce
    have 2: "sameTree w w2" by (rule sameTree_trans [OF 1 ro_same [OF ro_load(1) s2]])
    show ?thesis
    proof (cases "\<exists>b. r2 = Inr (Some b)")
      case False
      then have "w' = w2 \<and> e \<noteq> None" using assms s1 a s2
        by (auto simp: Rollback_def split: sum.splits option.splits)
      then show ?thesis using 2 by blast
    next
      case True
      then obtain b where b: "r2 = Inr (Some b)" by blast
      obtain restored1 drift1 w3 where s3:
        "rollbackKeys m (bs_Values b) (as_Values active) (sortedKeysOf (as_Values active)) w2 = ((restored1, drift1), w3)"
        by (metis prod.collapse)
      obtain r4 w4 where s4: "removeManagedFile g m (as_SysctlFileHash active) w3 = (r4, w4)" by fastforce
      obtain e5 w5 where s5: "finishRollback m w4 = (e5, w5)" by fastforce
      have "restored1 = restored \<and> (w' = w4 \<and> e \<noteq> None \<or> drift1 = [] \<and> r4 = Inr () \<and> finishRollback m w4 = (e, w'))"
        using assms s1 a s2 b s3 s4 s5
        by (cases r4) (auto simp: Rollback_def Let_def split: if_splits)
      then show ?thesis using s1 a s2 b s3 s4 2 by blast
    qed
  qed
qed

lemma remove_result:
  assumes "sys_remove p w = (r, w')"
  shows "sameEnv w w'" "k \<noteq> keyOf w p \<Longrightarrow> tree w' k = tree w k"
    "r = Inr u \<or> (\<exists>e. r = Inl e \<and> is_not_exist e) \<Longrightarrow> lookup w' p = None"
    "r = Inl e \<Longrightarrow> tree w' = tree w"
proof -
  show "sameEnv w w'" by (rule remove.env [OF assms])
  show "k \<noteq> keyOf w p \<Longrightarrow> tree w' k = tree w k" using remove.frame [OF assms] by simp
  show "r = Inr u \<or> (\<exists>e. r = Inl e \<and> is_not_exist e) \<Longrightarrow> lookup w' p = None"
    using assms by (auto simp: sys_remove_def lookup_putNode lookup_nonempty split: option.splits if_splits)
  show "r = Inl e \<Longrightarrow> tree w' = tree w"
    using assms by (auto simp: sys_remove_def split: option.splits if_splits)
qed

lemma rename_result:
  assumes "sys_rename a b w = (r, w')"
  shows "r = Inl e \<Longrightarrow> tree w' = tree w"
    "r = Inr u \<Longrightarrow> b \<noteq> [] \<and> (\<exists>i. lookup w a = Some i \<and> tree w' = (tree w)(keyOf w a := None, keyOf w b \<mapsto> i))"
  using assms by (auto simp: sys_rename_def split: option.splits if_splits)

lemma finishRollback_result:
  assumes "finishRollback m w = (e, w')" "mg_now m = sys_now" "layout m w" "archiveFree m w"
  shows "sameEnv w w'"
    "k \<notin> {keyOf w (activePath m), keyOf w (baselinePath m)} \<Longrightarrow>
       k \<notin> range (\<lambda>n. keyOf w (archivePath m (clock w n))) \<Longrightarrow> tree w' k = tree w k"
    "e = None \<Longrightarrow> lookup w' (activePath m) = None \<and> lookup w' (baselinePath m) = None \<and>
       (\<exists>n. lookup w' (archivePath m (clock w n)) = lookup w (baselinePath m))"
proof -
  obtain r1 w1 where s1: "sys_remove (activePath m) w = (r1, w1)" by fastforce
  note rm = remove_result [OF s1]
  let ?t = "clock w1 (ticks w1)"
  let ?a = "archivePath m ?t"
  obtain r3 w3 where s3: "sys_rename (baselinePath m) ?a (tick w1) = (r3, w3)" by fastforce
  note rn = rename_result [OF s3]
  have clk: "clock w1 = clock w" using rm(1) by (simp add: sameEnv_def)
  have k1: "keyOf w1 p = keyOf w p" for p by (rule sameEnv_keyOf [OF rm(1)])
  have env3: "sameEnv w w3" using rename.env [OF s3] rm(1) sameEnv_trans by (metis sameEnv_tick1)
  have ka: "keyOf w ?a \<in> range (\<lambda>n. keyOf w (archivePath m (clock w n)))" using clk by auto
  have afree: "keyOf w ?a \<notin> set (stateKeys m w @ fileKeys m w @ sysctlKeys m w)"
    using assms(4) clk by (simp add: archiveFree_def Let_def)
  have apart: "keyOf w (activePath m) \<noteq> keyOf w (baselinePath m)"
    "keyOf w ?a \<noteq> keyOf w (activePath m)" "keyOf w ?a \<noteq> keyOf w (baselinePath m)"
    using layout_files(4) [OF assms(3)] afree by (auto simp: stateKeys_def)
  have alt: "(w' = w1 \<and> e \<noteq> None) \<or>
      ((r1 = Inr () \<or> (\<exists>e. r1 = Inl e \<and> is_not_exist e)) \<and> w' = w3 \<and> (e = None \<longrightarrow> r3 = Inr ()))"
    using assms(1) s1 s3 unfolding finishRollback_def assms(2) sys_now_def archivePath_def
    by (cases r1; cases r3) (auto split: if_splits)
  show "sameEnv w w'" using alt rm(1) env3 by auto
  have t3: "tree w3 k = tree w1 k" if "k \<noteq> keyOf w (baselinePath m)" "k \<noteq> keyOf w ?a" for k
    using rename.frame [OF s3, of k] that k1 by simp
  show "tree w' k = tree w k" if "k \<notin> {keyOf w (activePath m), keyOf w (baselinePath m)}"
    "k \<notin> range (\<lambda>n. keyOf w (archivePath m (clock w n)))"
  proof -
    have "k \<noteq> keyOf w ?a" using that(2) ka by blast
    then have "tree w3 k = tree w1 k" using t3 that(1) by simp
    then show ?thesis using alt rm(2) [of k] that(1) by auto
  qed
  show "lookup w' (activePath m) = None \<and> lookup w' (baselinePath m) = None \<and>
       (\<exists>n. lookup w' (archivePath m (clock w n)) = lookup w (baselinePath m))" if "e = None"
  proof -
    have ok: "r1 = Inr () \<or> (\<exists>e. r1 = Inl e \<and> is_not_exist e)" "w' = w3" "r3 = Inr ()" using alt that by auto
    obtain i where i: "?a \<noteq> []" "lookup w1 (baselinePath m) = Some i"
      "tree w3 = (tree w1)(keyOf w (baselinePath m) := None, keyOf w ?a \<mapsto> i)"
      using rn(2) [OF ok(3)] k1 by auto
    have k3: "keyOf w3 p = keyOf w p" for p by (rule sameEnv_keyOf [OF env3])
    have "lookup w1 (activePath m) = None" using rm(3) ok(1) by blast
    then have a: "lookup w3 (activePath m) = None" using i(3) apart k1 k3 by (simp add: lookup_def split: if_splits)
    have b: "lookup w3 (baselinePath m) = None" using i(3) apart k3 by (simp add: lookup_def)
    have "lookup w (baselinePath m) = Some i"
      using i(2) rm(2) [of "keyOf w (baselinePath m)"] apart(1) k1 by (simp add: lookup_def split: if_splits)
    moreover have "lookup w3 ?a = Some i" using i k3 by (simp add: lookup_def)
    ultimately show ?thesis using a b ok(2) clk by auto
  qed
qed

lemma archiveFree_frame:
  assumes "archiveFree m w" "sameEnv w w'" "\<And>k. k \<notin> set (fileKeys m w @ sysctlKeys m w) \<Longrightarrow> tree w' k = tree w k"
  shows "archiveFree m w'"
proof -
  have c: "clock w' = clock w" using assms(2) by (simp add: sameEnv_def)
  show ?thesis using assms(1,3) unfolding archiveFree_def Let_def
    by (simp add: c key_env [OF assms(2)] sameEnv_keyOf [OF assms(2)])
qed

lemma validActive_keys:
  assumes "validActive a"
  shows "set (sortedKeysOf (as_Values a)) \<subseteq> set managedKeys"
    "\<forall>k \<in> set (sortedKeysOf (as_Values a)). mget (as_Values a) k \<noteq> []"
    "k \<in> set (sortedKeysOf (as_Values a)) \<Longrightarrow> map_of (as_Values a) k = Some (mget (as_Values a) k)"
proof -
  have e: "k \<in> set managedKeys \<and> mget (as_Values a) k \<noteq> [] \<and> map_of (as_Values a) k = Some (mget (as_Values a) k)"
    if k: "k \<in> set (sortedKeysOf (as_Values a))" for k
  proof -
    obtain v where v: "map_of (as_Values a) k = Some v" using k by auto
    then have "(k, v) \<in> set (as_Values a)" by (rule map_of_SomeD)
    then have "k \<in> set managedKeys \<and> safeValue v" using assms by (auto simp: validActive_def validValues_def)
    then show ?thesis using v by (simp add: mget_Some safeValue_def)
  qed
  then show "set (sortedKeysOf (as_Values a)) \<subseteq> set managedKeys"
    "\<forall>k \<in> set (sortedKeysOf (as_Values a)). mget (as_Values a) k \<noteq> []"
    "k \<in> set (sortedKeysOf (as_Values a)) \<Longrightarrow> map_of (as_Values a) k = Some (mget (as_Values a) k)"
    by blast+
qed

lemma Rollback_steps:
  assumes "Rollback g m w = ((restored, e), w')"
    "\<not> (sameTree w w' \<and> (e = None \<longrightarrow> (\<exists>w1. loadActive g m w = (Inr None, w1))))" "layout m w" "archiveFree m w" "mg_now m = sys_now"
  obtains active baseline w1 w2 w3 drift1 r w4 where
    "loadActive g m w = (Inr (Some active), w1)" "mg_isRoot m w1" "loadBaseline g m w1 = (Inr (Some baseline), w2)"
    "sameTree w w2" "sameTree w w1" "validActive active" "layout m w2"
    "rollbackKeys m (bs_Values baseline) (as_Values active) (sortedKeysOf (as_Values active)) w2 = ((restored, drift1), w3)"
    "sameEnv w2 w3" "layout m w3" "removeManagedFile g m (as_SysctlFileHash active) w3 = (r, w4)"
    "sameEnv w3 w4" "layout m w4" "archiveFree m w4" "sameEnv w w4"
    "w' = w4 \<and> e \<noteq> None \<or> drift1 = [] \<and> r = Inr () \<and> finishRollback m w4 = (e, w')"
proof -
  obtain active baseline w1 w2 w3 drift1 r w4 where s:
    "loadActive g m w = (Inr (Some active), w1)" "mg_isRoot m w1" "loadBaseline g m w1 = (Inr (Some baseline), w2)"
    "sameTree w w2"
    "rollbackKeys m (bs_Values baseline) (as_Values active) (sortedKeysOf (as_Values active)) w2 = ((restored, drift1), w3)"
    "removeManagedFile g m (as_SysctlFileHash active) w3 = (r, w4)"
    "w' = w4 \<and> e \<noteq> None \<or> drift1 = [] \<and> r = Inr () \<and> finishRollback m w4 = (e, w')"
    by (rule disjE [OF Rollback_cases [OF assms(1)]])
      (erule notE [OF assms(2)], elim exE conjE, rule that)
  have v: "validActive active" by (rule loadActive_distinct(2) [OF s(1)])
  have 1: "sameTree w w1" by (rule ro_same [OF ro_load(2) s(1)])
  have e2: "sameEnv w w2" "tree w2 = tree w" using s(4) by (simp_all add: sameTree_def)
  have e3: "sameEnv w2 w3" by (rule rollbackKeys_env [OF s(5)])
  note rm = removeManagedFile_cases(1,2) [OF s(6)]
  have e23: "sameEnv w w3" by (rule sameEnv_trans [OF e2(1) e3])
  have e4: "sameEnv w w4" by (rule sameEnv_trans [OF e23 rm(1)])
  have l: "layout m w2" "layout m w3" "layout m w4"
    using assms(3) layout_env [OF e2(1)] layout_env [OF e23] layout_env [OF e4] by simp_all
  have "tree w4 k = tree w k" if k: "k \<notin> set (fileKeys m w @ sysctlKeys m w)" for k
  proof -
    have "k \<noteq> keyOf w3 (sysctlFile m)" using k sameEnv_keyOf [OF e23] by (auto simp: fileKeys_def)
    moreover have "k \<notin> sysctlKey m w2 ` set (sortedKeysOf (as_Values active))"
      using k validActive_keys(1) [OF v] key_env(1) [OF e2(1)] by (auto simp: sysctlKeys_def)
    ultimately show ?thesis using rm(2) rollbackKeys_frame [OF s(5)] e2(2) by simp
  qed
  then have af: "archiveFree m w4" by (rule archiveFree_frame [OF assms(4) e4])
  show thesis
    by (rule that [OF s(1-4) 1 v l(1) s(5) e3 l(2) s(6) rm(1) l(3) af e4 s(7)])
qed

text \<open>Neither the sysctls nor the managed file are touched by the end of a rollback.\<close>

lemma finishRollback_apart:
  assumes "finishRollback m w = (e, w')" "mg_now m = sys_now" "layout m w" "archiveFree m w"
    "k \<in> set (fileKeys m w @ sysctlKeys m w)"
  shows "tree w' k = tree w k"
proof (rule finishRollback_result(2) [OF assms(1-4)])
  show "k \<notin> {keyOf w (activePath m), keyOf w (baselinePath m)}"
    using layout_files(1,2) [OF assms(3)] assms(5) by (auto simp: stateKeys_def)
  show "k \<notin> range (\<lambda>n. keyOf w (archivePath m (clock w n)))"
    using assms(4,5) by (auto simp: archiveFree_def Let_def)
qed

lemma Rollback_safe:
  assumes "Rollback g m w = ((restored, e), w')" "layout m w" "archiveFree m w" "mg_now m = sys_now"
  shows "key \<in> set managedKeys \<Longrightarrow> holds m w key v \<Longrightarrow> \<not> holds m w' key v \<Longrightarrow>
      \<exists>a w1. loadActive g m w = (Inr (Some a), w1) \<and> map_of (as_Values a) key = Some v"
    "lookup w' (sysctlFile m) \<noteq> lookup w (sysctlFile m) \<Longrightarrow>
      \<exists>a w1 doc. loadActive g m w = (Inr (Some a), w1) \<and> regularAt w (sysctlFile m) doc \<and>
        contentHash g doc = as_SysctlFileHash a"
    "tree w' \<noteq> tree w \<Longrightarrow> \<exists>w1. sameTree w w1 \<and> mg_isRoot m w1"
proof -
  have main: "(key \<in> set managedKeys \<longrightarrow> holds m w key v \<longrightarrow> \<not> holds m w' key v \<longrightarrow>
      (\<exists>a w1. loadActive g m w = (Inr (Some a), w1) \<and> map_of (as_Values a) key = Some v)) \<and>
    (lookup w' (sysctlFile m) \<noteq> lookup w (sysctlFile m) \<longrightarrow>
      (\<exists>a w1 doc. loadActive g m w = (Inr (Some a), w1) \<and> regularAt w (sysctlFile m) doc \<and>
        contentHash g doc = as_SysctlFileHash a)) \<and>
    (tree w' \<noteq> tree w \<longrightarrow> (\<exists>w1. sameTree w w1 \<and> mg_isRoot m w1))"
  proof (cases "sameTree w w'")
    case True
    then show ?thesis using holds_same [OF True, of m key v] sameTree_lookup [OF True] by (simp add: sameTree_def)
  next
    case False
    then have ns: "\<not> (sameTree w w' \<and> (e = None \<longrightarrow> (\<exists>w1. loadActive g m w = (Inr None, w1))))" by blast
    obtain active baseline w1 w2 w3 drift1 r w4 where s:
      "loadActive g m w = (Inr (Some active), w1)" "mg_isRoot m w1" "loadBaseline g m w1 = (Inr (Some baseline), w2)"
      "sameTree w w2" "sameTree w w1" "validActive active" "layout m w2"
      "rollbackKeys m (bs_Values baseline) (as_Values active) (sortedKeysOf (as_Values active)) w2 = ((restored, drift1), w3)"
      "sameEnv w2 w3" "layout m w3" "removeManagedFile g m (as_SysctlFileHash active) w3 = (r, w4)"
      "sameEnv w3 w4" "layout m w4" "archiveFree m w4" "sameEnv w w4"
      "w' = w4 \<and> e \<noteq> None \<or> drift1 = [] \<and> r = Inr () \<and> finishRollback m w4 = (e, w')"
      by (rule Rollback_steps [OF assms(1) ns assms(2-4)])
    note rm = removeManagedFile_cases [OF s(11)]
    have env': "sameEnv w4 w'"
      using s(16) finishRollback_result(1) [OF _ assms(4) s(13,14)] by auto
    have fin: "tree w' k = tree w4 k" if "k \<in> set (fileKeys m w4 @ sysctlKeys m w4)" for k
      using s(16) finishRollback_apart [OF _ assms(4) s(13,14) that] by auto
    have "\<exists>a w1. loadActive g m w = (Inr (Some a), w1) \<and> map_of (as_Values a) key = Some v"
      if k: "key \<in> set managedKeys" "holds m w key v" "\<not> holds m w' key v"
    proof -
      have "holds m w' key v = holds m w4 key v"
        using fin [of "sysctlKey m w4 key"] sysctlKey_mem [OF k(1), of m w4] by (intro holds_frame [OF env']) auto
      moreover have "holds m w4 key v = holds m w3 key v"
      proof (rule holds_frame [OF s(12)], rule rm(2))
        show "sysctlKey m w3 key \<noteq> keyOf w3 (sysctlFile m)"
          using layout_files(3) [OF s(10)] sysctlKey_mem [OF k(1), of m w3] by (auto simp: fileKeys_def)
      qed
      moreover have h2: "holds m w2 key v" using holds_same [OF s(4)] k(2) by simp
      ultimately have "tree w3 (sysctlKey m w2 key) \<noteq> tree w2 (sysctlKey m w2 key)"
        using holds_frame [OF s(9)] k(3) by metis
      then have "key \<in> set (sortedKeysOf (as_Values active)) \<and> holds m w2 key (mget (as_Values active) key)"
        by (rule rollbackKeys_safe [OF s(8,7) validActive_keys(1) [OF s(6)] k(1) _ validActive_keys(2) [OF s(6)]])
      then show ?thesis using s(1) validActive_keys(3) [OF s(6)] holds_unique [OF h2] by blast
    qed
    moreover have "\<exists>a w1 doc. loadActive g m w = (Inr (Some a), w1) \<and> regularAt w (sysctlFile m) doc \<and>
        contentHash g doc = as_SysctlFileHash a" if d: "lookup w' (sysctlFile m) \<noteq> lookup w (sysctlFile m)"
    proof -
      have "lookup w' (sysctlFile m) = lookup w4 (sysctlFile m)"
        using fin [of "keyOf w4 (sysctlFile m)"] by (intro lookup_unchanged [OF env']) (simp add: fileKeys_def)
      moreover have "keyOf w2 (sysctlFile m) \<notin> sysctlKey m w2 ` set (sortedKeysOf (as_Values active))"
        using layout_files(3) [OF s(7)] validActive_keys(1) [OF s(6)] by (auto simp: fileKeys_def sysctlKeys_def)
      then have 3: "lookup w3 (sysctlFile m) = lookup w (sysctlFile m)"
        using lookup_unchanged [OF s(9)] rollbackKeys_frame [OF s(8)] sameTree_lookup [OF s(4)] by simp
      ultimately have "tree w4 \<noteq> tree w3" using d lookup_unchanged [OF s(12), of "sysctlFile m"] by auto
      then obtain doc where "regularAt w3 (sysctlFile m) doc" "contentHash g doc = as_SysctlFileHash active"
        using rm(3) by blast
      then show ?thesis using s(1) 3 by (auto simp: regularAt_def)
    qed
    ultimately show ?thesis using s(2,5) by blast
  qed
  then show "key \<in> set managedKeys \<Longrightarrow> holds m w key v \<Longrightarrow> \<not> holds m w' key v \<Longrightarrow>
      \<exists>a w1. loadActive g m w = (Inr (Some a), w1) \<and> map_of (as_Values a) key = Some v"
    "lookup w' (sysctlFile m) \<noteq> lookup w (sysctlFile m) \<Longrightarrow>
      \<exists>a w1 doc. loadActive g m w = (Inr (Some a), w1) \<and> regularAt w (sysctlFile m) doc \<and>
        contentHash g doc = as_SysctlFileHash a"
    "tree w' \<noteq> tree w \<Longrightarrow> \<exists>w1. sameTree w w1 \<and> mg_isRoot m w1"
    by blast+
qed

text \<open>
  Claim C25. \<open>Rollback\<close> protects external changes. Whatever fails, it changes nothing without
  root; a managed sysctl loses its value only if that value is the one recorded as managed, and
  the managed file changes only if its content has the recorded hash.
\<close>

theorem Rollback_protects:
  assumes "layout (New options) w" "archiveFree (New options) w"
    "Rollback g (New options) w = ((restored, e), w')"
  shows "(tree w' \<noteq> tree w \<longrightarrow> processIsRoot w) \<and>
    (\<forall>key \<in> set managedKeys. \<forall>v. holds (New options) w key v \<longrightarrow> \<not> holds (New options) w' key v \<longrightarrow>
       (\<exists>a w1. loadActive g (New options) w = (Inr (Some a), w1) \<and> map_of (as_Values a) key = Some v)) \<and>
    (lookup w' (sysctlFile (New options)) \<noteq> lookup w (sysctlFile (New options)) \<longrightarrow>
       (\<exists>a w1 doc. loadActive g (New options) w = (Inr (Some a), w1) \<and>
          regularAt w (sysctlFile (New options)) doc \<and> contentHash g doc = as_SysctlFileHash a))"
proof -
  note r = Rollback_safe [OF assms(3,1,2) New_sel(2)]
  have "processIsRoot w" if "tree w' \<noteq> tree w"
    using r(3) [OF that] by (auto simp: processIsRoot_def sameTree_def sameEnv_def)
  then show ?thesis using r(1,2) by blast
qed

lemma loadBaseline_valid:
  assumes "loadBaseline g m w = (Inr (Some b), w')"
  shows "\<forall>k v. map_of (bs_Values b) k = Some v \<longrightarrow> v \<noteq> []"
proof -
  have "validBaseline b"
    using loadState_result [OF assms [unfolded loadBaseline_def]] checkBaseline_iff by blast
  then show ?thesis by (auto simp: validBaseline_def validValues_def safeValue_def dest!: map_of_SomeD)
qed

lemma distinct_sortedKeysOf: "distinct (map fst vs) \<Longrightarrow> distinct (sortedKeysOf vs)"
  by (simp add: sortedKeysOf_def)

lemma Rollback_done:
  assumes "layout (New options) w" "archiveFree (New options) w" "storesValues (New options) w"
    "plainSysctls (New options) w" "loadActive g (New options) w = (Inr (Some a), w1)"
    "Rollback g (New options) w = ((restored, None), w')"
  shows "\<exists>b w2 n. loadBaseline g (New options) w1 = (Inr (Some b), w2) \<and>
    (\<forall>key \<in> dom (map_of (as_Values a)). \<exists>v. map_of (bs_Values b) key = Some v \<and> holds (New options) w' key v) \<and>
    lookup w' (sysctlFile (New options)) = None \<and> lookup w' (activePath (New options)) = None \<and>
    lookup w' (baselinePath (New options)) = None \<and>
    lookup w' (archivePath (New options) (clock w n)) = lookup w (baselinePath (New options))"
proof -
  let ?m = "New options"
  have ns: "\<not> (sameTree w w' \<and> ((None :: error option) = None \<longrightarrow> (\<exists>w1. loadActive g ?m w = (Inr None, w1))))"
    using assms(5) by simp
  obtain active baseline w1' w2 w3 drift1 r w4 where s:
      "loadActive g ?m w = (Inr (Some active), w1')" "mg_isRoot ?m w1'" "loadBaseline g ?m w1' = (Inr (Some baseline), w2)"
      "sameTree w w2" "sameTree w w1'" "validActive active" "layout ?m w2"
      "rollbackKeys ?m (bs_Values baseline) (as_Values active) (sortedKeysOf (as_Values active)) w2 = ((restored, drift1), w3)"
      "sameEnv w2 w3" "layout ?m w3" "removeManagedFile g ?m (as_SysctlFileHash active) w3 = (r, w4)"
      "sameEnv w3 w4" "layout ?m w4" "archiveFree ?m w4" "sameEnv w w4"
      "w' = w4 \<and> (None :: error option) \<noteq> None \<or> drift1 = [] \<and> r = Inr () \<and> finishRollback ?m w4 = (None, w')"
    by (rule Rollback_steps [OF assms(6) ns assms(1,2) New_sel(2)])
  have a: "active = a" "w1' = w1" using s(1) assms(5) by simp_all
  have f: "drift1 = []" "r = Inr ()" "finishRollback ?m w4 = (None, w')" using s(16) by auto
  note rm = removeManagedFile_cases [OF s(11)]
  note fr = finishRollback_result [OF f(3) New_sel(2) s(13,14)]
  have fin: "tree w' k = tree w4 k" if "k \<in> set (fileKeys ?m w4 @ sysctlKeys ?m w4)" for k
    by (rule finishRollback_apart [OF f(3) New_sel(2) s(13,14) that])
  have e2: "sameEnv w w2" using s(4) by (simp add: sameTree_def)
  have p2: "plainSysctls ?m w2" "storesValues ?m w2"
    using assms(3,4) storesValues_env [OF e2] by (simp_all add: plainSysctls_def sameTree_lookup [OF s(4)])
  have keys: "set (sortedKeysOf (as_Values active)) = dom (map_of (as_Values a))" using a(1) by simp
  have done3: "\<forall>key \<in> dom (map_of (as_Values a)). \<exists>v. map_of (bs_Values baseline) key = Some v \<and> holds ?m w3 key v"
    using rollbackKeys_done [OF s(8) [unfolded f(1)] p2(1) s(7) p2(2)
        distinct_sortedKeysOf [OF loadActive_distinct(1) [OF s(1)]] validActive_keys(1) [OF s(6)] loadBaseline_valid [OF s(3)]]
    unfolding keys .
  have keep: "holds ?m w' key v" if k: "key \<in> dom (map_of (as_Values a))" and h: "holds ?m w3 key v" for key v
  proof -
    have m: "key \<in> set managedKeys" using k keys validActive_keys(1) [OF s(6)] by blast
    have "sysctlKey ?m w3 key \<noteq> keyOf w3 (sysctlFile ?m)"
      using layout_files(3) [OF s(10)] sysctlKey_mem [OF m, of ?m w3] by (auto simp: fileKeys_def)
    then have h4: "holds ?m w4 key v" using holds_frame [OF s(12) rm(2)] h by blast
    have "sysctlKey ?m w4 key \<in> set (fileKeys ?m w4 @ sysctlKeys ?m w4)" using sysctlKey_mem [OF m] by simp
    then show ?thesis using holds_frame [OF fr(1) fin] h4 by blast
  qed
  have "lookup w4 (sysctlFile ?m) = None" by (rule rm(4) [OF f(2)])
  moreover have "lookup w' (sysctlFile ?m) = lookup w4 (sysctlFile ?m)"
    by (rule lookup_unchanged [OF fr(1) fin]) (simp add: fileKeys_def)
  ultimately have gone: "lookup w' (sysctlFile ?m) = None" by simp
  obtain n where n: "lookup w' (archivePath ?m (clock w4 n)) = lookup w4 (baselinePath ?m)"
    "lookup w' (activePath ?m) = None" "lookup w' (baselinePath ?m) = None" using fr(3) by blast
  have "lookup w4 (baselinePath ?m) = lookup w (baselinePath ?m)"
  proof -
    have "keyOf w3 (baselinePath ?m) \<noteq> keyOf w3 (sysctlFile ?m)" using program.file_apart(5) [OF s(10)] by simp
    then have "lookup w4 (baselinePath ?m) = lookup w3 (baselinePath ?m)" by (rule lookup_unchanged [OF s(12) rm(2)])
    moreover have "keyOf w2 (baselinePath ?m) \<notin> sysctlKey ?m w2 ` set (sortedKeysOf (as_Values active))"
      using layout_files(2) [OF s(7)] validActive_keys(1) [OF s(6)] by (auto simp: stateKeys_def sysctlKeys_def)
    then have "lookup w3 (baselinePath ?m) = lookup w2 (baselinePath ?m)"
      by (rule lookup_unchanged [OF s(9) rollbackKeys_frame [OF s(8)]])
    ultimately show ?thesis using sameTree_lookup [OF s(4)] by simp
  qed
  moreover have "clock w4 = clock w" using s(15) by (simp add: sameEnv_def)
  ultimately show ?thesis using n gone done3 keep s(3) a(2) by metis
qed

text \<open>Without an active state there is nothing to do.\<close>

lemma Rollback_nothing:
  assumes "Rollback g m w = ((restored, None), w')" "\<nexists>a w1. loadActive g m w = (Inr (Some a), w1)"
  shows "loadActive g m w = (Inr None, w') \<and> restored = [] \<and> sameTree w w'"
proof -
  obtain r w1 where l: "loadActive g m w = (r, w1)" by fastforce
  then have "r = Inr None" using assms by (cases r) (auto simp: Rollback_def split: option.splits)
  then have "loadActive g m w = (Inr None, w')" "restored = []" using l assms(1) by (simp_all add: Rollback_def)
  then show ?thesis using ro_same [OF ro_load(2)] by blast
qed

text \<open>
  Claim C26. Where the paths of the manager are apart, the sysctls are regular files that store what
  is written, and no archive name that the clock can give is taken: a \<open>Rollback\<close> that reports no error either found no active state, restored nothing and
  changed nothing (also not a baseline that an earlier failed run left behind), or it has restored
  the host, whatever failed on the way: every sysctl that was managed has its baseline value, the
  managed file and the active state are gone, and the baseline was moved, unchanged, to an archive.
\<close>

theorem Rollback_restores:
  assumes "layout (New options) w" "archiveFree (New options) w" "storesValues (New options) w"
    "plainSysctls (New options) w" "Rollback g (New options) w = ((restored, None), w')"
  shows "(loadActive g (New options) w = (Inr None, w') \<and> restored = [] \<and> sameTree w w') \<or>
    (\<exists>a w1 b w2 n. loadActive g (New options) w = (Inr (Some a), w1) \<and>
       loadBaseline g (New options) w1 = (Inr (Some b), w2) \<and>
       (\<forall>key \<in> dom (map_of (as_Values a)). \<exists>v. map_of (bs_Values b) key = Some v \<and> holds (New options) w' key v) \<and>
       lookup w' (sysctlFile (New options)) = None \<and> lookup w' (activePath (New options)) = None \<and>
       lookup w' (baselinePath (New options)) = None \<and>
       lookup w' (archivePath (New options) (clock w n)) = lookup w (baselinePath (New options)))"
proof (cases "\<exists>a w1. loadActive g (New options) w = (Inr (Some a), w1)")
  case True
  then obtain a w1 where l: "loadActive g (New options) w = (Inr (Some a), w1)" by blast
  show ?thesis using Rollback_done [OF assms(1-4) l assms(5)] l by blast
next
  case False
  then show ?thesis using Rollback_nothing [OF assms(5)] by blast
qed

end
