(* ===== verification/TuneCycle.thy ===== *)
theory TuneCycle
  imports TuneRollback
begin

text \<open>
  A committed \<open>Apply\<close> followed by a \<open>Rollback\<close> that meets no failing call gives every sysctl its
  value back and leaves no managed file.
\<close>

section \<open>Steps without failing calls\<close>

lemma readSysctl_quiet:
  "quiet w \<Longrightarrow> \<exists>w'. readSysctl m key w = (textAt w (sysctlPath m key), w') \<and> sameTree w w'"
  unfolding readSysctl_def by (rule readTrimmed_quiet)

lemma writeSysctl_quiet:
  assumes "quiet w" "lookup w (sysctlPath m key) = Some i" "isRegular i" "kernel w (sysctlKey m w key) = Some f"
  shows "\<exists>w'. writeSysctl m key v w = (Inr (), w')"
proof -
  let ?p = "sysctlPath m key"
  have n: "\<not> isSymlink i" "\<not> isDir i" "\<not> unsafeFile i"
    using assms(3) by (simp_all add: isRegular_def isSymlink_def isDir_def unsafeFile_iff)
  have k: "kernel (tick w) (keyOf (tick w) ?p) = Some f" using assms(4) by (simp add: sysctlKey_def tick_def keyOf_def)
  have s1: "sys_lstat ?p w = (Inr i, tick w)" using assms(1,2) by (simp add: sys_lstat_def)
  have s2: "sys_openWrite ?p True (tick w) = (Inr ?p, tick (tick w))"
    using resolve_nolink [of "tick w" ?p i 40] assms(1,2) n k by (simp add: sys_openWrite_def del: resolve.simps)
  define w3 where "w3 = tick (putNode ?p (Some (i\<lparr>data := f (data i) v\<rparr>)) (tick (tick w)))"
  have k2: "kernel (tick (tick w)) (keyOf (tick (tick w)) ?p) = Some f"
    using assms(4) by (simp add: sysctlKey_def tick_def keyOf_def)
  have "lookup (tick (tick w)) ?p = Some i" "faulted (tick (tick w)) = None" using assms(1,2) by simp_all
  then have s3: "sys_write ?p v (tick (tick w)) = (Inr (), w3)" using k2 by (simp add: sys_write_def w3_def)
  have q3: "quiet w3" using assms(1) by (simp add: w3_def quiet_def tick_def putNode_def)
  have s4: "sys_flush ''close'' ?p w3 = (Inr (), tick w3)" using q3 by (simp add: sys_flush_def)
  show ?thesis using s1 n(3) s2 s3 s4 by (simp add: writeSysctl_def)
qed

lemma rollbackKey_quiet:
  assumes "quiet w" "storesValues m w" "key \<in> set managedKeys" "holds m w key (mget managed key)"
    "map_of originals key = Some v" "trimSpace v = v"
  shows "\<exists>r w'. rollbackKey m originals managed key w = ((r, []), w')"
proof -
  obtain w1 where s1: "readSysctl m key w = (mget managed key, w1)" "sameTree w w1"
    using readSysctl_quiet [OF assms(1), of m key] holds_textAt [OF assms(4)] by auto
  show ?thesis
  proof (cases "mget managed key = v")
    case True
    then show ?thesis using s1 assms(5) by (simp add: rollbackKey_def)
  next
    case False
    have e1: "sameEnv w w1" using s1(2) by (simp add: sameTree_def)
    have st: "storesValues m w1" "quiet w1"
      using assms(1,2) storesValues_env [OF e1] quiet_same [OF e1] by simp_all
    obtain i where i: "lookup w1 (sysctlPath m key) = Some i" "isRegular i"
      using assms(4) sameTree_lookup [OF s1(2)] by (auto simp: holds_def)
    obtain f where f: "kernel w1 (sysctlKey m w1 key) = Some f" using st(1) assms(3) by (auto simp: storesValues_def)
    obtain w2 where s2: "writeSysctl m key v w1 = (Inr (), w2)" using writeSysctl_quiet [OF st(2) i f] by blast
    note wr = writeSysctl_result [OF s2]
    obtain j where j: "isRegular j" "lookup w2 (sysctlPath m key) = Some (written w1 (sysctlPath m key) j v)"
      using wr(3) by blast
    have "holds m w2 key v" by (rule written_holds [OF st(1) assms(3) j(1) assms(6) j(2)])
    then have t: "textAt w2 (sysctlPath m key) = v" by (rule holds_textAt)
    obtain w3 where s3: "readSysctl m key w2 = (v, w3)"
      using readSysctl_quiet [OF quiet_same [OF wr(1) st(2)], of m key] t by auto
    show ?thesis using s1(1) s2 s3 assms(5) False by (simp add: rollbackKey_def)
  qed
qed

lemma rollbackKeys_quiet:
  assumes "quiet w" "layout m w" "storesValues m w" "distinct keys" "set keys \<subseteq> set managedKeys"
    "\<forall>key \<in> set keys. holds m w key (mget managed key) \<and>
       (\<exists>v. map_of originals key = Some v \<and> trimSpace v = v)"
  shows "\<exists>r w'. rollbackKeys m originals managed keys w = ((r, []), w')"
  using assms
proof (induction keys arbitrary: w)
  case (Cons k ks)
  obtain r1 w1 where s1: "rollbackKey m originals managed k w = ((r1, []), w1)"
    using rollbackKey_quiet [OF Cons.prems(1,3), of k] Cons.prems(5,6) by fastforce
  have env: "sameEnv w w1" by (rule rollbackKey_env [OF s1])
  have "holds m w1 key v = holds m w key v" if "key \<in> set ks" for key v
  proof (rule holds_frame [OF env rollbackKey_frame [OF s1]])
    show "sysctlKey m w key \<noteq> sysctlKey m w k"
      using sysctlKeys_inj [OF Cons.prems(2)] Cons.prems(4,5) that by fastforce
  qed
  then obtain r2 w2 where "rollbackKeys m originals managed ks w1 = ((r2, []), w2)"
    using Cons.IH [of w1] Cons.prems quiet_same [OF env] layout_env [OF env] storesValues_env [OF env] by auto
  then show ?case using s1 by simp
qed simp

lemma removeManagedFile_quiet:
  assumes "quiet w" "regularAt w (sysctlFile m) doc" "length doc \<le> stateLimit" "contentHash g doc = hash"
  shows "\<exists>w'. removeManagedFile g m hash w = (Inr (), w')"
proof -
  obtain i where i: "lookup w (sysctlFile m) = Some i" "isRegular i" "data i = doc"
    using assms(2) by (auto simp: regularAt_def)
  have "sys_lstat (sysctlFile m) w = (Inr i, tick w)" using assms(1) i by (simp add: sys_lstat_def)
  moreover have "readLimitedFile (sysctlFile m) stateLimit (tick w) = (Inr doc, tick (tick (tick w)))"
    using readLimited_quiet [of "tick w" "sysctlFile m" i stateLimit] assms(1,3) i by simp
  moreover have "sys_remove (sysctlFile m) (tick (tick (tick w))) =
      (Inr (), tick (putNode (sysctlFile m) None (tick (tick (tick w)))))"
    using assms(1) i by (simp add: sys_remove_def isDir_def isRegular_def)
  ultimately show ?thesis using i(2) assms(4) by (simp add: removeManagedFile_def unsafeFile_iff)
qed

lemma archiveName_simple: "simpleName (archiveName t)"
proof -
  have "slash \<notin> set (natText n)" for n
    using natText_digits [of n] by (auto simp: list_all_iff isDigit_def slash_def byte_def)
  then have "slash \<notin> set (itoa i)" for i by (simp add: itoa_def slash_def)
  then show ?thesis by (simp add: simpleName_def archiveName_def slash_def)
qed

lemma finishRollback_quiet:
  assumes "quiet w" "mg_now m = sys_now" "layout m w" "archiveFree m w" "isAbs (cwd w)" "secureStateDir m w"
    "regularAt w (activePath m) d1" "regularAt w (baselinePath m) d2"
  shows "\<exists>w'. finishRollback m w = (None, w')"
proof -
  obtain i where i: "lookup w (activePath m) = Some i" "\<not> isDir i"
    using assms(7) by (auto simp: regularAt_def isRegular_def isDir_def)
  obtain j where j: "lookup w (baselinePath m) = Some j" "\<not> isDir j"
    using assms(8) by (auto simp: regularAt_def isRegular_def isDir_def)
  obtain d where d: "lookup w (stateDir m) = Some d" "isDir d" using assms(6) by (auto simp: secureStateDir_def)
  define w1 where "w1 = tick (putNode (activePath m) None w)"
  have s1: "sys_remove (activePath m) w = (Inr (), w1)" using assms(1) i by (simp add: sys_remove_def w1_def)
  have q1: "quiet w1" using assms(1) by (simp add: w1_def quiet_def tick_def putNode_def)
  have k1: "keyOf w1 p = keyOf w p" for p by (simp add: w1_def)
  have clk: "clock w1 = clock w" by (simp add: w1_def tick_def putNode_def)
  define a where "a = archivePath m (clock w1 (ticks w1))"
  have ne: "stateDir m \<noteq> []" by (rule lookup_nonempty [OF d(1)])
  have apart: "keyOf w (baselinePath m) \<noteq> keyOf w (activePath m)" "keyOf w (stateDir m) \<noteq> keyOf w (activePath m)"
    using layout_files(4,7) [OF assms(3)] by (fastforce simp: stateKeys_def stateDirKeys_def)+
  have free: "tree w (keyOf w a) = None" using assms(4) clk by (simp add: archiveFree_def Let_def a_def)
  have b: "lookup (tick w1) (baselinePath m) = Some j"
    using j(1) apart(1) by (auto simp: lookup_def w1_def split: if_splits)
  have "dirName (keyOf (tick w1) a) = keyOf w (stateDir m)"
    using dirName_keyOf_join [OF assms(5) ne archiveName_simple] k1 by (simp add: a_def archivePath_def)
  then have par: "parentErr (tick w1) a = None"
    using d apart(2) by (auto simp: parentErr_def w1_def lookup_def split: if_splits)
  have tgt: "lookup (tick w1) a = None" using free k1 by (simp add: lookup_def w1_def)
  have "a \<noteq> []" using joinPath2_nonempty [OF ne] by (simp add: a_def archivePath_def)
  then have s3: "\<exists>w3. sys_rename (baselinePath m) a (tick w1) = (Inr (), w3)"
    using q1 b j(2) par tgt by (simp add: sys_rename_def)
  then show ?thesis using s1 assms(2) unfolding finishRollback_def a_def archivePath_def
    by (auto simp: sys_now_def)
qed

lemma Rollback_quiet:
  assumes "quiet w" "layout m w" "archiveFree m w" "storesValues m w" "isAbs (cwd w)" "secureStateDir m w"
    "mg_now m = sys_now" "mg_isRoot m = processIsRoot" "processIsRoot w"
    "regularAt w (activePath m) d1" "length d1 \<le> stateLimit" "validActive a" "distinct (map fst (as_Values a))"
    "readDocument (decodeStruct activeNames storeActive) zeroActive d1 = Document a"
    "regularAt w (baselinePath m) d2" "length d2 \<le> stateLimit" "validBaseline b"
    "readDocument (decodeStruct baselineNames storeBaseline) zeroBaseline d2 = Document b"
    "regularAt w (sysctlFile m) d3" "length d3 \<le> stateLimit" "contentHash g d3 = as_SysctlFileHash a"
    "\<forall>key \<in> dom (map_of (as_Values a)). holds m w key (mget (as_Values a) key) \<and>
       (\<exists>v. map_of (bs_Values b) key = Some v \<and> trimSpace v = v)"
  shows "\<exists>restored w'. Rollback g m w = ((restored, None), w')"
proof -
  obtain w1 where s1: "loadActive g m w = (Inr (Some a), w1)"
    using loadActive_quiet [OF assms(1,6,10,11,14,12)] by blast
  have 1: "sameTree w w1" by (rule ro_same [OF ro_load(2) s1])
  have q1: "quiet w1" "secureStateDir m w1" "regularAt w1 (baselinePath m) d2" "mg_isRoot m w1"
    using sameTree_quiet [OF 1] assms(1,6,8,9,15) 1
    by (simp_all add: secureStateDir_def sameTree_lookup [OF 1] regularAt_same [OF 1])
      (simp add: processIsRoot_def sameTree_def sameEnv_def)
  obtain w2 where s2: "loadBaseline g m w1 = (Inr (Some b), w2)"
    using loadBaseline_quiet [OF q1(1-3) assms(16,18,17)] by blast
  have 2: "sameTree w w2" by (rule sameTree_trans [OF 1 ro_same [OF ro_load(1) s2]])
  have e2: "sameEnv w w2" using 2 by (simp add: sameTree_def)
  have l2: "quiet w2" "layout m w2" "storesValues m w2"
    using assms(1,2,4) quiet_same [OF e2] layout_env [OF e2] storesValues_env [OF e2] by simp_all
  obtain restored w3 where s3:
    "rollbackKeys m (bs_Values b) (as_Values a) (sortedKeysOf (as_Values a)) w2 = ((restored, []), w3)"
    using rollbackKeys_quiet [OF l2 distinct_sortedKeysOf [OF assms(13)] validActive_keys(1) [OF assms(12)]]
      assms(22) holds_same [OF 2] by (metis set_sortedKeysOf)
  have e3: "sameEnv w2 w3" by (rule rollbackKeys_env [OF s3])
  have l3: "quiet w3" "layout m w3" using l2 quiet_same [OF e3] layout_env [OF e3] by simp_all
  have keep: "lookup w3 p = lookup w p" if "keyOf w2 p \<notin> set (sysctlKeys m w2)" for p
  proof -
    have "keyOf w2 p \<notin> sysctlKey m w2 ` set (sortedKeysOf (as_Values a))"
      using that validActive_keys(1) [OF assms(12)] by (auto simp: sysctlKeys_def)
    then show ?thesis using lookup_unchanged [OF e3 rollbackKeys_frame [OF s3]] sameTree_lookup [OF 2] by simp
  qed
  have k: "keyOf w2 (sysctlFile m) \<notin> set (sysctlKeys m w2)" "keyOf w2 (activePath m) \<notin> set (sysctlKeys m w2)"
    "keyOf w2 (baselinePath m) \<notin> set (sysctlKeys m w2)" "keyOf w2 (stateDir m) \<notin> set (sysctlKeys m w2)"
    using layout_files(2,3,7) [OF l2(2)] by (auto simp: stateKeys_def fileKeys_def stateDirKeys_def)
  have r3: "regularAt w3 (sysctlFile m) d3" using assms(19) keep [OF k(1)] by (simp add: regularAt_def)
  obtain w4 where s4: "removeManagedFile g m (as_SysctlFileHash a) w3 = (Inr (), w4)"
    using removeManagedFile_quiet [OF l3(1) r3 assms(20,21)] by blast
  note rm = removeManagedFile_cases(1,2) [OF s4]
  have e4: "sameEnv w w4" using sameEnv_trans [OF sameEnv_trans [OF e2 e3] rm(1)] .
  have keep4: "lookup w4 p = lookup w p" if "keyOf w2 p \<notin> set (sysctlKeys m w2)" "keyOf w3 p \<noteq> keyOf w3 (sysctlFile m)" for p
    using lookup_unchanged [OF rm(1) rm(2) [OF that(2)]] keep [OF that(1)] by simp
  have k4: "keyOf w3 (activePath m) \<noteq> keyOf w3 (sysctlFile m)" "keyOf w3 (baselinePath m) \<noteq> keyOf w3 (sysctlFile m)"
    "keyOf w3 (stateDir m) \<noteq> keyOf w3 (sysctlFile m)"
    using layout_files(1,7) [OF l3(2)] by (auto simp: stateKeys_def fileKeys_def stateDirKeys_def)
  have af: "archiveFree m w4"
  proof (rule archiveFree_frame [OF assms(3) e4])
    fix x assume x: "x \<notin> set (fileKeys m w @ sysctlKeys m w)"
    have "x \<noteq> keyOf w3 (sysctlFile m)"
      using x sameEnv_keyOf [OF sameEnv_trans [OF e2 e3]] by (auto simp: fileKeys_def)
    moreover have "x \<notin> sysctlKey m w2 ` set (sortedKeysOf (as_Values a))"
      using x validActive_keys(1) [OF assms(12)] key_env(1) [OF e2] by (auto simp: sysctlKeys_def)
    ultimately show "tree w4 x = tree w x"
      using rm(2) rollbackKeys_frame [OF s3] 2 by (simp add: sameTree_def)
  qed
  have l4: "quiet w4" "layout m w4" "isAbs (cwd w4)"
    using assms(1,2,5) quiet_same [OF e4] layout_env [OF e4] e4 by (simp_all add: sameEnv_def)
  have v4: "secureStateDir m w4" "regularAt w4 (activePath m) d1" "regularAt w4 (baselinePath m) d2"
    using assms(6,10,15) keep4 [OF k(4) k4(3)] keep4 [OF k(2) k4(1)] keep4 [OF k(3) k4(2)]
    by (simp_all add: secureStateDir_def regularAt_def)
  obtain w5 where s5: "finishRollback m w4 = (None, w5)"
    using finishRollback_quiet [OF l4(1) assms(7) l4(2) af l4(3) v4] by blast
  show ?thesis using s1 q1(4) s2 s3 s4 s5 by (simp add: Rollback_def)
qed

section \<open>The baseline that Apply recorded\<close>

text \<open>A profile whose texts survive the state file: ASCII, and single-line sysctl values.\<close>

definition plainProfile :: "Manager \<Rightarrow> Profile \<Rightarrow> bool" where
  "plainProfile m p =
     (list_all ascii [op_ProgramVersion (mg_options m), ev_Kernel (pf_Environment p),
        ev_Interface (pf_Environment p)] \<and>
      list_all (\<lambda>k. sysctl p k = [] \<or> ascii (sysctl p k) \<and> safeValue (sysctl p k)) managedKeys)"

lemma baselineValues_map:
  "map_of (baselineValues s) k = (if k \<in> set managedKeys \<and> mget s k \<noteq> [] then Some (mget s k) else None)"
proof -
  have "map_of (fold (\<lambda>key m. if mget s key \<noteq> [] then mset_key key (mget s key) m else m) ks acc) k =
      (if k \<in> set ks \<and> mget s k \<noteq> [] then Some (mget s k) else map_of acc k)" for ks acc
    by (induction ks arbitrary: acc) auto
  then show ?thesis by (simp add: baselineValues_def)
qed

lemma baselineValues_distinct: "distinct (map fst (baselineValues s))"
proof -
  have "distinct (map fst acc) \<Longrightarrow>
      distinct (map fst (fold (\<lambda>key m. if mget s key \<noteq> [] then mset_key key (mget s key) m else m) ks acc))" for ks acc
    by (induction ks arbitrary: acc) auto
  then show ?thesis by (simp add: baselineValues_def)
qed

lemma baselineValues_entries:
  assumes "plainProfile m p" "(k, v) \<in> set (baselineValues (pf_Sysctls p))"
  shows "k \<in> set managedKeys" "ascii k" "ascii v" "safeValue v"
proof -
  have "map_of (baselineValues (pf_Sysctls p)) k = Some v"
    by (rule map_of_is_SomeI [OF baselineValues_distinct assms(2)])
  then have kv: "k \<in> set managedKeys" "v \<noteq> []" "v = sysctl p k"
    by (auto simp: baselineValues_map sysctl_def split: if_splits)
  then show "k \<in> set managedKeys" "ascii k" "ascii v" "safeValue v"
    using assms(1) planned_values(2) by (auto simp: plainProfile_def list_all_iff)
qed

lemma baselined_loaded:
  assumes "baselined m p w w' b" "plainProfile m p" "timeOK (bs_CreatedAt b)" "baselineValues (pf_Sysctls p) \<noteq> []"
  defines "stored \<equiv> b\<lparr>bs_Values := sortedMap (bs_Values b)\<rparr>"
  shows "validBaseline stored" "\<exists>doc. regularAt w' (baselinePath m) doc \<and>
     readDocument (decodeStruct baselineNames storeBaseline) zeroBaseline doc = Document stored"
proof -
  note b = assms(1) [unfolded baselined_def]
  have bv: "bs_Values b = baselineValues (pf_Sysctls p)" using b by blast
  have "validValues (baselineValues (pf_Sysctls p))"
    using baselineValues_entries(1,4) [OF assms(2)] assms(4) unfolding validValues_def by auto
  then have "validValues (sortedMap (bs_Values b))"
    using sortedMap_valid [OF baselineValues_distinct] bv by simp
  then show "validBaseline stored" using b by (simp add: validBaseline_def stored_def)
  have "portableMap (bs_Values b)"
    using baselineValues_entries(2,3) [OF assms(2)] baselineValues_distinct bv by (auto simp: portableMap_def)
  then have "portableBaseline b"
    using b assms(2,3) by (simp add: portableBaseline_def plainProfile_def stateSchema_def int64_def)
  then show "\<exists>doc. regularAt w' (baselinePath m) doc \<and>
     readDocument (decodeStruct baselineNames storeBaseline) zeroBaseline doc = Document stored"
    using baseline_roundtrip [of b] b unfolding stored_def by force
qed

section \<open>The host after an Apply\<close>

lemma calm_env [simp]:
  "layout m (calm w) = layout m w" "archiveFree m (calm w) = archiveFree m w"
  "storesValues m (calm w) = storesValues m w" "plainSysctls m (calm w) = plainSysctls m w"
  "processIsRoot (calm w) = processIsRoot w" "cwd (calm w) = cwd w"
proof -
  have s: "kernel (calm w) = kernel w" "clock (calm w) = clock w" "pid (calm w) = pid w" by (simp_all add: calm_def)
  have k: "sysctlKey m (calm w) = sysctlKey m w" "temporaryKey (calm w) = temporaryKey w"
    by (auto simp: sysctlKey_def temporaryKey_def temporaryName_def s)
  note keys = stateKeys_def fileKeys_def stateDirKeys_def fileDirKeys_def sysctlKeys_def k
  show "layout m (calm w) = layout m w" "archiveFree m (calm w) = archiveFree m w"
    by (simp_all add: layout_def archiveFree_def Let_def keys s)
  show "storesValues m (calm w) = storesValues m w" "plainSysctls m (calm w) = plainSysctls m w"
    by (simp_all add: storesValues_def plainSysctls_def k s)
  show "processIsRoot (calm w) = processIsRoot w" "cwd (calm w) = cwd w"
    by (simp_all add: processIsRoot_def calm_def)
qed

context tuning begin

lemma Apply_sysctl:
  assumes "layout m w" "Apply g m inputs dryRun w = (r, w')" "key \<in> set managedKeys"
    "tree w' (sysctlKey m w key) \<noteq> tree w (sysctlKey m w key)"
  shows "\<exists>p w1 v. Detect g m w = (Inr p, w1) \<and> requests (planActions p) key v"
proof -
  obtain p w1 k v where d: "Detect g m w = (Inr p, w1)" "requests (planActions p) k v"
    "sysctlKey m w key = sysctlKey m w k"
    using Apply_foot(1) [OF assms(1,2,4)] sysctl_apart(1) [OF assms(1,3)] by blast
  have "key = k" by (rule sysctlKeys_inj [OF assms(1,3) requests_managed [OF d(2)] d(3)])
  then show ?thesis using d(1,2) by blast
qed

lemma Apply_archiveFree:
  assumes "layout m w" "Apply g m inputs dryRun w = (r, w')" "sameEnv w w'" "archiveFree m w"
  shows "archiveFree m w'"
proof -
  have c: "clock w' = clock w" using assms(3) by (simp add: sameEnv_def)
  have "tree w' k = tree w k"
    if out: "k \<notin> set (stateDirKeys m w @ stateKeys m w @ fileDirKeys m w @ fileKeys m w @ sysctlKeys m w)" for k
  proof (rule ccontr)
    assume "tree w' k \<noteq> tree w k"
    from Apply_foot(1) [OF assms(1,2) this]
    obtain p key v where "requests (planActions p) key v" "k = sysctlKey m w key"
      using out by auto
    then show False using requests_managed sysctlKey_mem out by auto
  qed
  then show ?thesis using assms(4) unfolding archiveFree_def Let_def c
    by (simp add: key_env [OF assms(3)] sameEnv_keyOf [OF assms(3)])
qed

lemma Apply_plainSysctls:
  assumes "layout m w" "Apply g m inputs dryRun w = (Inr res, w')" "ar_Changed res \<noteq> []" "plainSysctls m w"
  shows "plainSysctls m w'"
proof -
  note d = Apply_done [OF assms(2,3,1)]
  obtain active where c: "committed g m res w w' active" using d(4) by blast
  let ?p = "pl_Profile (ar_Plan res)"
  have env: "sameEnv w w'" using c by (simp add: committed_def Let_def)
  show ?thesis unfolding plainSysctls_def
  proof (intro ballI allI impI)
    fix key i assume k: "key \<in> set managedKeys" and i: "lookup w' (sysctlPath m key) = Some i"
    show "isRegular i"
    proof (cases "tree w' (sysctlKey m w key) = tree w (sysctlKey m w key)")
      case True
      then have "lookup w (sysctlPath m key) = Some i" using lookup_unchanged [OF env] i by (simp add: sysctlKey_def)
      then show ?thesis using assms(4) k by (simp add: plainSysctls_def)
    next
      case False
      obtain v where v: "requests (planActions ?p) key v" using Apply_sysctl [OF assms(1,2) k False] d(2) by auto
      have "map_of (requestedOf (planActions ?p)) key = Some v"
        using requestedOf_map [of "planActions ?p"] plan_keys [of ?p] managedKeys_distinct v by simp
      then have "holds m w' key v" using c k unfolding committed_def Let_def d(3) by blast
      then show ?thesis using i by (auto simp: holds_def)
    qed
  qed
qed

end

lemma Apply_root:
  assumes "Apply g (New options) inputs dryRun w = (Inr res, w')" "ar_Changed res \<noteq> []"
  shows "processIsRoot w"
proof -
  obtain plan w1 where "makePlan g (New options) inputs w = (Inr plan, w1)" "cp_Root (pf_Capabilities (pl_Profile plan))"
    using Apply_cases [OF assms(1)] assms(2) by auto
  then show ?thesis by (rule makePlan_root)
qed

section \<open>Undoing a committed Apply\<close>

lemma Apply_Rollback_runs:
  assumes "layout (New options) w" "archiveFree (New options) w" "storesValues (New options) w" "isAbs (cwd w)"
    "\<forall>c. length (gl_sha256 g c) = 32" "\<forall>n. timeOK (clock w n)" "lookup w (baselinePath (New options)) = None"
    "Apply g (New options) inputs dryRun w = (Inr res, w')" "ar_Changed res \<noteq> []"
    "smallState (New options) w'" "plainProfile (New options) (pl_Profile (ar_Plan res))"
  defines "p \<equiv> pl_Profile (ar_Plan res)"
  shows "\<exists>a w1 restored w2. loadActive g (New options) (calm w') = (Inr (Some a), w1) \<and>
      (\<forall>key v. map_of (as_Values a) key = Some v \<longleftrightarrow> requests (planActions p) key v) \<and>
      (\<forall>b w3. loadBaseline g (New options) w1 = (Inr (Some b), w3) \<longrightarrow>
         (\<forall>key v. requests (planActions p) key v \<longrightarrow> map_of (bs_Values b) key = Some (sysctl p key))) \<and>
      Rollback g (New options) (calm w') = ((restored, None), w2)"
proof -
  let ?m = "New options" and ?w = "calm w'"
  note d = program.Apply_done [OF assms(8,9,1), folded p_def]
  obtain active where c: "committed g ?m res w w' active" using d(4) by blast
  obtain bl where b: "baselined ?m p w w' bl" using d(5) [OF assms(7)] by blast
  have env: "sameEnv w w'" using c by (simp add: committed_def Let_def)
  have clk: "timeOK (fst (mg_now ?m v))" if "sameEnv w v" for v
    using assms(6) that by (simp add: sys_now_def sameEnv_def)
  have "\<exists>v. sameEnv w v \<and> as_UpdatedAt active = fst (mg_now ?m v)" using c unfolding committed_def Let_def by blast
  then have t1: "timeOK (as_UpdatedAt active)" using clk by auto
  have "\<exists>v. sameEnv w v \<and> bs_CreatedAt bl = fst (mg_now ?m v)" using b unfolding baselined_def by blast
  then have t2: "timeOK (bs_CreatedAt bl)" using clk by auto
  have ne: "requestedOf (planActions p) \<noteq> []" using c assms(9) d(3) by (auto simp: committed_def Let_def)
  have rq: "map_of (requestedOf (planActions p)) key = Some v \<longleftrightarrow> requests (planActions p) key v" for key v
    using requestedOf_map [of "planActions p"] plan_keys [of p] managedKeys_distinct by simp
  have bv: "map_of (baselineValues (pf_Sysctls p)) key = Some (sysctl p key)" if "requests (planActions p) key v" for key v
    using requests_safe [OF that] requests_managed [OF that]
    by (auto simp: baselineValues_map safeChange_def sysctl_def)
  have vals: "map_of (as_Values active) = map_of (requestedOf (planActions p))" "as_Values active = requestedOf (planActions p)"
    using c d(3) by (simp_all add: committed_def Let_def)
  obtain key0 v0 where "map_of (requestedOf (planActions p)) key0 = Some v0"
    using ne by (metis map_of_eq_None_iff not_None_eq list.set_intros(1) list.exhaust imageI)
  then have "requests (planActions p) key0 v0" using rq by simp
  then have nb: "baselineValues (pf_Sysctls p) \<noteq> []" using bv by fastforce
  define a where "a = active\<lparr>as_Values := sortedMap (as_Values active)\<rparr>"
  define st where "st = bl\<lparr>bs_Values := sortedMap (bs_Values bl)\<rparr>"
  note la = committed_loaded [OF c d(3) assms(9,5) t1, folded a_def]
  note lb = baselined_loaded [OF b assms(11) [folded p_def] t2 nb, folded st_def]
  obtain d1 where d1: "regularAt w' (activePath ?m) d1"
    "readDocument (decodeStruct activeNames storeActive) zeroActive d1 = Document a" using la(4) by blast
  obtain d2 where d2: "regularAt w' (baselinePath ?m) d2"
    "readDocument (decodeStruct baselineNames storeBaseline) zeroBaseline d2 = Document st" using lb(2) by blast
  have small: "length d1 \<le> stateLimit" "length d2 \<le> stateLimit"
    using assms(10) d1(1) d2(1) by (simp_all add: smallState_def)
  have d3: "regularAt w' (sysctlFile ?m) (managedSysctlContent (requestedOf (planActions p)))"
    "contentHash g (managedSysctlContent (requestedOf (planActions p))) = as_SysctlFileHash a" "secureStateDir ?m w'"
    using c d(3) by (simp_all add: committed_def Let_def a_def)
  have map_a: "map_of (as_Values a) = map_of (requestedOf (planActions p))" using vals by (simp add: a_def)
  have keys: "\<forall>key \<in> dom (map_of (as_Values a)). holds ?m ?w key (mget (as_Values a) key) \<and>
       (\<exists>v. map_of (bs_Values st) key = Some v \<and> trimSpace v = v)"
  proof
    fix key assume "key \<in> dom (map_of (as_Values a))"
    then obtain v where v: "map_of (requestedOf (planActions p)) key = Some v" using map_a by auto
    then have r: "requests (planActions p) key v" using rq by simp
    have "holds ?m w' key v" using c v requests_managed [OF r] unfolding committed_def Let_def d(3) by blast
    moreover have "mget (as_Values a) key = v" using v map_a by (simp add: mget_def)
    moreover have s: "map_of (bs_Values st) key = Some (sysctl p key)" using bv [OF r] b by (simp add: st_def baselined_def)
    moreover obtain w1 where "Detect g ?m w = (Inr p, w1)" using d(2) by blast
    then have "trimSpace (sysctl p key) = sysctl p key"
      using program.baseline_trimmed [of g options w p w1 key] requests_managed [OF r] by (simp add: baselineValues_mget sysctl_def)
    ultimately show "holds ?m ?w key (mget (as_Values a) key) \<and>
       (\<exists>v. map_of (bs_Values st) key = Some v \<and> trimSpace v = v)" by simp
  qed
  have root: "processIsRoot w'" "cwd w' = cwd w"
    using Apply_root [OF assms(8,9)] env by (simp_all add: processIsRoot_def sameEnv_def)
  have after: "layout ?m ?w" "archiveFree ?m ?w" "storesValues ?m ?w" "isAbs (cwd ?w)" "processIsRoot ?w"
    using assms(1,3,4) layout_env [OF env] storesValues_env [OF env] env program.Apply_archiveFree [OF assms(1,8) env assms(2)]
      root by simp_all
  obtain w1 where l1: "loadActive g ?m ?w = (Inr (Some a), w1)"
    using loadActive_quiet [of ?w ?m d1 a g] d1 d3(3) small(1) la(1) by auto
  have "\<exists>restored w2. Rollback g ?m ?w = ((restored, None), w2)"
    by (rule Rollback_quiet [OF _ after(1-4) _ New_sel(2,3) after(5) _ small(1) la(1,2) d1(2) _ small(2) lb(1) d2(2)
          _ managedContent_short d3(2) keys]) (simp_all add: d1(1) d2(1) d3(1,3))
  moreover have "map_of (bs_Values x) key = Some (sysctl p key)"
    if "loadBaseline g ?m w1 = (Inr (Some x), w3)" "requests (planActions p) key v" for x w3 key v
  proof -
    have "regularAt w1 (baselinePath ?m) d2"
      using regularAt_same [OF ro_same [OF ro_load(2) l1]] d2(1) by simp
    then have "x = st" using load_reads_baseline [OF that(1)] d2(2) by simp
    then show ?thesis using bv [OF that(2)] b by (simp add: st_def baselined_def)
  qed
  moreover have "\<forall>key v. map_of (as_Values a) key = Some v \<longleftrightarrow> requests (planActions p) key v" using map_a rq by simp
  ultimately show ?thesis using l1 by blast
qed

lemma Apply_Rollback_restored:
  assumes "layout (New options) w" "archiveFree (New options) w" "storesValues (New options) w" "isAbs (cwd w)"
    "\<forall>c. length (gl_sha256 g c) = 32" "\<forall>n. timeOK (clock w n)" "lookup w (baselinePath (New options)) = None"
    "Apply g (New options) inputs dryRun w = (Inr res, w')" "ar_Changed res \<noteq> []"
    "smallState (New options) w'" "plainProfile (New options) (pl_Profile (ar_Plan res))" "plainSysctls (New options) w"
  shows "\<exists>restored w2. Rollback g (New options) (calm w') = ((restored, None), w2) \<and>
    (\<forall>key \<in> set managedKeys. \<forall>v. holds (New options) w key v \<longrightarrow> holds (New options) w2 key v) \<and>
    lookup w2 (sysctlFile (New options)) = None \<and> lookup w2 (activePath (New options)) = None \<and>
    lookup w2 (baselinePath (New options)) = None"
proof -
  let ?m = "New options" and ?p = "pl_Profile (ar_Plan res)"
  note d = program.Apply_done [OF assms(8,9,1)]
  obtain active where c: "committed g ?m res w w' active" using d(4) by blast
  have env: "sameEnv w w'" using c by (simp add: committed_def Let_def)
  have after: "layout ?m (calm w')" "archiveFree ?m (calm w')" "storesValues ?m (calm w')" "plainSysctls ?m (calm w')"
    using assms(1,3) layout_env [OF env] storesValues_env [OF env] program.Apply_archiveFree [OF assms(1,8) env assms(2)]
      program.Apply_plainSysctls [OF assms(1,8,9,12)] by simp_all
  obtain a w1 restored w2 where run: "loadActive g ?m (calm w') = (Inr (Some a), w1)"
    "Rollback g ?m (calm w') = ((restored, None), w2)"
    and av: "\<forall>key v. map_of (as_Values a) key = Some v \<longleftrightarrow> requests (planActions ?p) key v"
    and bv: "\<forall>b w3. loadBaseline g ?m w1 = (Inr (Some b), w3) \<longrightarrow>
         (\<forall>key v. requests (planActions ?p) key v \<longrightarrow> map_of (bs_Values b) key = Some (sysctl ?p key))"
    using Apply_Rollback_runs [OF assms(1-11)] by (elim exE conjE) (rule that)
  obtain b w3 where b: "loadBaseline g ?m w1 = (Inr (Some b), w3)"
    "\<forall>key \<in> dom (map_of (as_Values a)). \<exists>v. map_of (bs_Values b) key = Some v \<and> holds ?m w2 key v"
    and gone: "lookup w2 (sysctlFile ?m) = None" "lookup w2 (activePath ?m) = None" "lookup w2 (baselinePath ?m) = None"
    using Rollback_done [OF after run] by blast
  have "holds ?m w2 key v" if k: "key \<in> set managedKeys" and h: "holds ?m w key v" for key v
  proof (cases "map_of (as_Values a) key")
    case None
    have "tree w' (sysctlKey ?m w key) = tree w (sysctlKey ?m w key)"
    proof (rule ccontr)
      assume "\<not> ?thesis"
      from program.Apply_sysctl [OF assms(1,8) k this]
      obtain x where "requests (planActions ?p) key x" using d(2) by auto
      then show False using None av by force
    qed
    then have "holds ?m (calm w') key v" using holds_frame [OF env] h by simp
    then show ?thesis using Rollback_safe(1) [OF run(2) after(1,2) New_sel(2) k] run(1) None by force
  next
    case (Some x)
    then have r: "requests (planActions ?p) key x" using av by simp
    obtain y where y: "map_of (bs_Values b) key = Some y" "holds ?m w2 key y" using b(2) Some by blast
    have "y = sysctl ?p key" using bv b(1) r y(1) by force
    moreover have "sysctl ?p key = v" using requests_observed [OF _ r h] d(2) by blast
    ultimately show ?thesis using y(2) by simp
  qed
  then show ?thesis using run(2) gone by blast
qed

text \<open>
  Claim C27. Rolling back undoes applying. When a first \<open>Apply\<close> has changed sysctls, a \<open>Rollback\<close>
  during which no call fails succeeds and gives every managed sysctl the value it had before the
  \<open>Apply\<close>, and no managed file is left.
\<close>

theorem Apply_Rollback_cycle:
  assumes "layout (New options) w" "archiveFree (New options) w" "storesValues (New options) w" "isAbs (cwd w)"
    "\<forall>c. length (gl_sha256 g c) = 32" "\<forall>n. timeOK (clock w n)" "lookup w (baselinePath (New options)) = None"
    "Apply g (New options) inputs dryRun w = (Inr res, w')" "ar_Changed res \<noteq> []"
    "smallState (New options) w'" "plainProfile (New options) (pl_Profile (ar_Plan res))" "plainSysctls (New options) w"
  shows "\<exists>restored w2. Rollback g (New options) (calm w') = ((restored, None), w2) \<and>
    (\<forall>key \<in> set managedKeys. \<forall>v. holds (New options) w key v \<longrightarrow> holds (New options) w2 key v) \<and>
    lookup w2 (sysctlFile (New options)) = None \<and> lookup w2 (activePath (New options)) = None \<and>
    lookup w2 (baselinePath (New options)) = None"
  by (rule Apply_Rollback_restored [OF assms])

section \<open>The sample host\<close>

lemma lean_archive: "archiveFree sampleManager leanWorld"
proof -
  have "let k = keyOf leanWorld (archivePath sampleManager epoch) in tree leanWorld k = None \<and>
     k \<notin> set (stateDirKeys sampleManager leanWorld @ stateKeys sampleManager leanWorld @
       fileDirKeys sampleManager leanWorld @ fileKeys sampleManager leanWorld @ sysctlKeys sampleManager leanWorld)"
    by code_simp
  moreover have "clock leanWorld n = epoch" for n by (simp add: leanWorld_def sampleWorld_def)
  ultimately show ?thesis by (simp add: archiveFree_def)
qed

lemma lean_plain: "plainSysctls sampleManager leanWorld"
proof -
  have "list_all (\<lambda>key. case lookup leanWorld (sysctlPath sampleManager key) of None \<Rightarrow> True | Some i \<Rightarrow> isRegular i)
     managedKeys" by code_simp
  then show ?thesis by (auto simp: plainSysctls_def list_all_iff)
qed

lemma lean_profile:
  "case Detect sampleLib sampleManager leanWorld of (Inr p, _) \<Rightarrow> plainProfile sampleManager p | _ \<Rightarrow> False"
  by code_simp

lemma lean_times:
  "storesValues sampleManager leanWorld" "isAbs (cwd leanWorld)" "lookup leanWorld (baselinePath sampleManager) = None"
proof -
  show "storesValues sampleManager leanWorld" by (rule lean_stores) simp_all
  show "isAbs (cwd leanWorld)" by code_simp
  show "lookup leanWorld (baselinePath sampleManager) = None"
    by (rule lean_start(2)) (simp_all add: leanWorld_def sampleWorld_def)
qed

lemmas lean_host = lean_layout(1) [unfolded sampleManager_def] lean_archive [unfolded sampleManager_def]
  lean_times(1) [unfolded sampleManager_def] lean_times(2) lean_facts lean_times(3) [unfolded sampleManager_def]

lemma lean_changed_run:
  "\<exists>res w'. Apply sampleLib (New sampleOptions) sampleInputs False leanWorld = (Inr res, w') \<and>
     ar_Changed res \<noteq> [] \<and> smallState (New sampleOptions) w' \<and>
     plainProfile (New sampleOptions) (pl_Profile (ar_Plan res)) \<and>
     lookup w' (sysctlFile (New sampleOptions)) \<noteq> None \<and> sameEnv leanWorld w'"
proof -
  obtain res w' where run: "Apply sampleLib (New sampleOptions) sampleInputs False leanWorld = (Inr res, w')"
    "ar_Changed res = [KeyMTUProbing]" "observed w' = (Some (''1'' @ nl), [True, True, True], True)"
    using lean_run by blast
  have ch: "ar_Changed res \<noteq> []" using run(2) by simp
  note d = program.Apply_done [OF run(1) ch lean_host(1)]
  obtain active where c: "committed sampleLib (New sampleOptions) res leanWorld w' active" using d(4) by blast
  have env: "sameEnv leanWorld w'" using c by (simp add: committed_def Let_def)
  have "smallState (New sampleOptions) w'"
    using lean_small [OF run(3) lean_cwd [OF env]] unfolding sampleManager_def .
  moreover have "plainProfile (New sampleOptions) (pl_Profile (ar_Plan res))"
    using lean_profile [unfolded sampleManager_def] d(2) by auto
  moreover have "lookup w' (sysctlFile (New sampleOptions)) \<noteq> None"
    using c by (auto simp: committed_def Let_def regularAt_def)
  ultimately show ?thesis using run(1) ch env by blast
qed

lemma Apply_Rollback_cycle_witness:
  "\<exists>res w' restored w2. Apply sampleLib (New sampleOptions) sampleInputs False leanWorld = (Inr res, w') \<and>
     Rollback sampleLib (New sampleOptions) (calm w') = ((restored, None), w2) \<and>
     lookup w' (sysctlFile (New sampleOptions)) \<noteq> None \<and> lookup w2 (sysctlFile (New sampleOptions)) = None"
proof -
  obtain res w' where r: "Apply sampleLib (New sampleOptions) sampleInputs False leanWorld = (Inr res, w')"
    "ar_Changed res \<noteq> []" "smallState (New sampleOptions) w'"
    "plainProfile (New sampleOptions) (pl_Profile (ar_Plan res))" "lookup w' (sysctlFile (New sampleOptions)) \<noteq> None"
    using lean_changed_run by blast
  show ?thesis
    using Apply_Rollback_cycle [OF lean_host r(1-4) lean_plain [unfolded sampleManager_def]] r(1,5) by blast
qed

text \<open>The host on which a rollback succeeds.\<close>

lemma lean_rollback:
  "\<exists>w a w1 restored w2. layout (New sampleOptions) w \<and> archiveFree (New sampleOptions) w \<and>
     storesValues (New sampleOptions) w \<and> plainSysctls (New sampleOptions) w \<and>
     loadActive sampleLib (New sampleOptions) w = (Inr (Some a), w1) \<and>
     Rollback sampleLib (New sampleOptions) w = ((restored, None), w2) \<and>
     lookup w (sysctlFile (New sampleOptions)) \<noteq> None"
proof -
  let ?m = "New sampleOptions"
  obtain res w' where r: "Apply sampleLib ?m sampleInputs False leanWorld = (Inr res, w')"
    "ar_Changed res \<noteq> []" "smallState ?m w'" "plainProfile ?m (pl_Profile (ar_Plan res))"
    "lookup w' (sysctlFile ?m) \<noteq> None" "sameEnv leanWorld w'"
    using lean_changed_run by blast
  have after: "layout ?m (calm w')" "archiveFree ?m (calm w')" "storesValues ?m (calm w')" "plainSysctls ?m (calm w')"
    using lean_host(1,3) layout_env [OF r(6)] storesValues_env [OF r(6)]
      program.Apply_archiveFree [OF lean_host(1) r(1,6) lean_host(2)]
      program.Apply_plainSysctls [OF lean_host(1) r(1,2) lean_plain [unfolded sampleManager_def]] by simp_all
  obtain a w1 restored w2 where "loadActive sampleLib ?m (calm w') = (Inr (Some a), w1)"
    "Rollback sampleLib ?m (calm w') = ((restored, None), w2)"
    using Apply_Rollback_runs [OF lean_host r(1-4)] by (elim exE conjE) (rule that)
  moreover have "lookup (calm w') (sysctlFile ?m) \<noteq> None" using r(5) by simp
  ultimately show ?thesis using after by blast
qed

lemma Rollback_protects_witness:
  "\<exists>w restored w'. Rollback sampleLib (New sampleOptions) w = ((restored, None), w') \<and>
     lookup w (sysctlFile (New sampleOptions)) \<noteq> None \<and>
     (lookup w' (sysctlFile (New sampleOptions)) = None \<longrightarrow>
       (\<exists>a w1. loadActive sampleLib (New sampleOptions) w = (Inr (Some a), w1)))"
proof -
  obtain w restored w' where r: "layout (New sampleOptions) w" "archiveFree (New sampleOptions) w"
    "Rollback sampleLib (New sampleOptions) w = ((restored, None), w')" "lookup w (sysctlFile (New sampleOptions)) \<noteq> None"
    using lean_rollback by blast
  then show ?thesis using Rollback_protects [OF r(1-3)] by (intro exI [of _ w] exI [of _ restored] exI [of _ w']) auto
qed

lemma Rollback_restores_witness:
  "\<exists>w restored w'. Rollback sampleLib (New sampleOptions) w = ((restored, None), w') \<and>
     lookup w (sysctlFile (New sampleOptions)) \<noteq> None \<and> lookup w' (sysctlFile (New sampleOptions)) = None"
proof -
  obtain w a w1 restored w' where r: "layout (New sampleOptions) w" "archiveFree (New sampleOptions) w"
    "storesValues (New sampleOptions) w" "plainSysctls (New sampleOptions) w"
    "loadActive sampleLib (New sampleOptions) w = (Inr (Some a), w1)"
    "Rollback sampleLib (New sampleOptions) w = ((restored, None), w')" "lookup w (sysctlFile (New sampleOptions)) \<noteq> None"
    using lean_rollback by blast
  show ?thesis using Rollback_restores [OF r(1-4,6)] r(5-7) by auto
qed

end
