(* ===== verification/Codec.thy ===== *)
theory Codec
  imports JsonProof
begin

text \<open>
  encoding/base64 and encoding/pem of the standard library as the program uses them: the
  unpadded URL alphabet of keys, passwords and profiles, the padded standard alphabet inside
  PEM, writing one PEM block without headers and the scanner of \<open>pem.Decode\<close>. The proofs are
  the round trips.
\<close>

section \<open>Unpadded Base64\<close>

lemma indexOf_b64: "n < 64 \<Longrightarrow> indexOf (b64Char n) b64Alphabet = Some n"
proof -
  have "list_all (\<lambda>n. indexOf (b64Char n) b64Alphabet = Some n) [0..<64]" by code_simp
  moreover assume "n < 64"
  ultimately show ?thesis by (simp add: list_all_iff)
qed

text \<open>The 6-bit symbols of a byte string.\<close>

fun b64Symbols :: "string \<Rightarrow> nat list" where
  "b64Symbols [] = []"
| "b64Symbols [a] = [byte a div 4, byte a mod 4 * 16]"
| "b64Symbols [a, b] = [byte a div 4, byte a mod 4 * 16 + byte b div 16, byte b mod 16 * 4]"
| "b64Symbols (a # b # c # s) =
     byte a div 4 # (byte a mod 4 * 16 + byte b div 16) # (byte b mod 16 * 4 + byte c div 64) #
     (byte c mod 64) # b64Symbols s"

lemma symbol_bounds:
  "byte a div 4 < 64" "byte a mod 4 * 16 < 64" "byte a mod 4 * 16 + byte b div 16 < 64"
  "byte b mod 16 * 4 < 64" "byte b mod 16 * 4 + byte c div 64 < 64" "byte c mod 64 < 64"
proof -
  have "byte b div 16 < 16" "byte c div 64 < 4" using byte_less [of b] byte_less [of c] by auto
  moreover have "byte a mod 4 < 4" "byte b mod 16 < 16" by simp_all
  ultimately show "byte a mod 4 * 16 + byte b div 16 < 64" "byte b mod 16 * 4 + byte c div 64 < 64"
    "byte a mod 4 * 16 < 64" "byte b mod 16 * 4 < 64" by linarith+
  show "byte a div 4 < 64" "byte c mod 64 < 64" using byte_less [of a] by auto
qed

lemma b64Encode_symbols: "b64Encode s = map b64Char (b64Symbols s)"
  by (induction s rule: b64Symbols.induct) simp_all

lemma b64Symbols_less: "v \<in> set (b64Symbols s) \<Longrightarrow> v < 64"
  by (induction s rule: b64Symbols.induct) (auto simp: symbol_bounds)

lemma b64Vals_chars: "(\<And>v. v \<in> set vs \<Longrightarrow> v < 64) \<Longrightarrow> b64Vals (map b64Char vs) = Some vs"
  by (induction vs) (auto simp: indexOf_b64)

lemma regroup:
  "char_of (byte a div 4 * 4 + byte a mod 4 * 16 div 16) = a"
  "char_of (byte a div 4 * 4 + (byte a mod 4 * 16 + byte b div 16) div 16) = a"
  "char_of ((byte a mod 4 * 16 + byte b div 16) mod 16 * 16 + byte b mod 16 * 4 div 4) = b"
  "char_of ((byte a mod 4 * 16 + byte b div 16) mod 16 * 16 + (byte b mod 16 * 4 + byte c div 64) div 4) = b"
  "char_of ((byte b mod 16 * 4 + byte c div 64) mod 4 * 64 + byte c mod 64) = c"
proof -
  have b: "byte b div 16 < 16" and c: "byte c div 64 < 4" using byte_less [of b] byte_less [of c] by auto
  have "(byte a mod 4 * 16 + byte b div 16) div 16 = byte a mod 4"
    "(byte a mod 4 * 16 + byte b div 16) mod 16 = byte b div 16"
    "(byte b mod 16 * 4 + byte c div 64) div 4 = byte b mod 16"
    "(byte b mod 16 * 4 + byte c div 64) mod 4 = byte c div 64" using b c by simp_all
  then show
    "char_of (byte a div 4 * 4 + byte a mod 4 * 16 div 16) = a"
    "char_of (byte a div 4 * 4 + (byte a mod 4 * 16 + byte b div 16) div 16) = a"
    "char_of ((byte a mod 4 * 16 + byte b div 16) mod 16 * 16 + byte b mod 16 * 4 div 4) = b"
    "char_of ((byte a mod 4 * 16 + byte b div 16) mod 16 * 16 + (byte b mod 16 * 4 + byte c div 64) div 4) = b"
    "char_of ((byte b mod 16 * 4 + byte c div 64) mod 4 * 64 + byte c mod 64) = c"
    by (simp_all add: byte_char)
qed

lemma b64Groups_symbols: "b64Groups (b64Symbols s) = Some s"
  by (induction s rule: b64Symbols.induct) (simp_all only: b64Symbols.simps b64Groups.simps regroup option.simps)

lemma b64Alphabet_free:
  "c \<in> set b64Alphabet \<Longrightarrow> isLowerAZ c \<or> isUpperAZ c \<or> isDigit c \<or> c = CHR ''-'' \<or> c = CHR ''_''"
proof -
  have "list_all (\<lambda>c. isLowerAZ c \<or> isUpperAZ c \<or> isDigit c \<or> c = CHR ''-'' \<or> c = CHR ''_'') b64Alphabet"
    by code_simp
  moreover assume "c \<in> set b64Alphabet"
  ultimately show ?thesis by (simp add: list_all_iff)
qed

lemma indexOf_in: "indexOf c xs = Some i \<Longrightarrow> c \<in> set xs"
  by (induction xs arbitrary: i) (auto split: if_splits option.splits)

lemma b64Char_in: "n < 64 \<Longrightarrow> b64Char n \<in> set b64Alphabet"
  using indexOf_b64 indexOf_in by blast

lemma b64Encode_chars: "c \<in> set (b64Encode s) \<Longrightarrow> c \<in> set b64Alphabet"
  using b64Symbols_less [of _ s] b64Char_in by (auto simp: b64Encode_symbols)

lemma b64Decode_Encode: "b64Decode (b64Encode s) = Some s"
proof -
  have "c \<noteq> CHR 0x0D \<and> c \<noteq> CHR 0x0A" if "c \<in> set b64Alphabet" for c
    using b64Alphabet_free [OF that] by (auto simp: isLowerAZ_def isUpperAZ_def isDigit_def byte_def)
  then have "filter (\<lambda>c. c \<noteq> CHR 0x0D \<and> c \<noteq> CHR 0x0A) (b64Encode s) = b64Encode s"
    using b64Encode_chars by (intro filter_True) blast
  then show ?thesis
    by (simp add: b64Decode_def b64Encode_symbols b64Vals_chars b64Symbols_less b64Groups_symbols)
qed

lemma length_b64Encode: "length (b64Encode s) = (4 * length s + 2) div 3"
  by (induction s rule: b64Symbols.induct) simp_all

section \<open>Padded Base64\<close>

text \<open>The standard alphabet differs from the URL alphabet in two symbols.\<close>

definition toStd :: "char \<Rightarrow> char" where
  "toStd c = (if c = CHR ''-'' then CHR ''+'' else if c = CHR ''_'' then CHR ''/'' else c)"

definition ofStd :: "char \<Rightarrow> char" where
  "ofStd c = (if c = CHR ''+'' then CHR ''-'' else if c = CHR ''/'' then CHR ''_'' else c)"

text \<open>\<open>base64.StdEncoding.EncodeToString\<close>.\<close>

definition stdEncode :: "string \<Rightarrow> string" where
  "stdEncode s = map toStd (b64Encode s) @ replicate ((3 - length s mod 3) mod 3) (CHR ''='')"

text \<open>
  \<open>base64.StdEncoding.Decode\<close>: line breaks are skipped, the rest is whole quanta of four
  symbols, of which the last may end in one or two padding signs.
\<close>

definition stripPad :: "string \<Rightarrow> string" where
  "stripPad t = (if hasSuffix t ''=='' then take (length t - 2) t else trimSuffix t ''='')"

definition stdDecode :: "string \<Rightarrow> string option" where
  "stdDecode s =
     (let t = filter (\<lambda>c. c \<noteq> CHR 0x0D \<and> c \<noteq> CHR 0x0A) s; body = stripPad t in
      if length t mod 4 \<noteq> 0 \<or> CHR ''-'' \<in> set body \<or> CHR ''_'' \<in> set body then None
      else b64Decode (map ofStd body))"

lemma stdDecode_samples:
  "stdDecode ''+/8='' = Some [CHR 0xFB, CHR 0xFF]" "stdDecode (''QQ'' @ nl @ ''=='') = Some ''A''"
  "stdDecode ''QQ='' = None" "stdDecode ''Q==='' = None" "stdDecode ''QQ==QUJD'' = None"
  "stdDecode ''-_8='' = None"
  by code_simp+

lemma stdEncode_chars:
  assumes "c \<in> set (stdEncode s)"
  shows "isLowerAZ c \<or> isUpperAZ c \<or> isDigit c \<or> c = CHR ''+'' \<or> c = CHR ''/'' \<or> c = CHR ''=''"
proof (cases "c = CHR ''=''")
  case False
  then obtain d where "d \<in> set b64Alphabet" "c = toStd d"
    using assms b64Encode_chars by (auto simp: stdEncode_def split: if_splits)
  then show ?thesis using b64Alphabet_free [of d] by (auto simp: toStd_def)
qed simp

lemma stdEncode_free:
  "c \<in> set (stdEncode s) \<Longrightarrow> c \<notin> set [CHR ''-'', CHR '':'', CHR 0x0A, CHR 0x0D, CHR 0x20, CHR 0x09]"
  by (drule stdEncode_chars) (auto simp: isLowerAZ_def isUpperAZ_def isDigit_def byte_def)

lemma ofStd_toStd: "c \<in> set b64Alphabet \<Longrightarrow> ofStd (toStd c) = c"
proof -
  have "list_all (\<lambda>c. ofStd (toStd c) = c) b64Alphabet" by code_simp
  moreover assume "c \<in> set b64Alphabet"
  ultimately show ?thesis by (simp add: list_all_iff)
qed

lemma hasSuffix_append [simp]: "hasSuffix (a @ b) b"
  by (simp add: hasSuffix_def)

lemma suffix_end: "hasSuffix t p \<Longrightarrow> p \<noteq> [] \<Longrightarrow> t \<noteq> [] \<and> last t = last p"
  unfolding hasSuffix_def by (metis last_drop length_greater_0_conv diff_less le_zero_eq list.size(3) not_less drop_all order_refl)

lemma no_eq: "c \<notin> set body \<Longrightarrow> p \<noteq> [] \<Longrightarrow> last p = c \<Longrightarrow> \<not> hasSuffix body p"
  using suffix_end [of body p] last_in_set [of body] by metis

lemma stripPad_padded:
  assumes "CHR ''='' \<notin> set body" "k \<le> 2"
  shows "stripPad (body @ replicate k (CHR ''='')) = body"
proof -
  consider "k = 0" | "k = 1" | "k = 2" using assms(2) by linarith
  then show ?thesis
  proof cases
    case 1
    have "\<not> hasSuffix body ''==''" "\<not> hasSuffix body ''=''" by (rule no_eq [OF assms(1)]; simp)+
    then show ?thesis using 1 by (simp add: stripPad_def trimSuffix_def)
  next
    case 2
    have "\<not> hasSuffix (body @ ''='') ''==''"
    proof
      assume "hasSuffix (body @ ''='') ''==''"
      then have "hasSuffix body ''=''" by (auto simp: hasSuffix_def Suc_le_eq)
      then show False using no_eq [OF assms(1), of "''=''"] by simp
    qed
    then show ?thesis using 2 by (simp add: stripPad_def trimSuffix_def)
  next
    case 3
    then show ?thesis by (simp add: stripPad_def numeral_2_eq_2)
  qed
qed

lemma stdDecode_Encode: "stdDecode (stdEncode s) = Some s"
proof -
  let ?e = "map toStd (b64Encode s)"
  have fl: "filter (\<lambda>c. c \<noteq> CHR 0x0D \<and> c \<noteq> CHR 0x0A) (stdEncode s) = stdEncode s"
    using stdEncode_free by (intro filter_True) force
  have free: "c \<noteq> CHR ''='' \<and> c \<noteq> CHR ''-'' \<and> c \<noteq> CHR ''_''" if c: "c \<in> set ?e" for c
  proof -
    obtain d where "d \<in> set (b64Encode s)" "c = toStd d" using c by auto
    then show ?thesis using b64Alphabet_free [OF b64Encode_chars, of d s]
      by (auto simp: toStd_def isLowerAZ_def isUpperAZ_def isDigit_def byte_def split: if_splits)
  qed
  have body: "stripPad (stdEncode s) = ?e"
    unfolding stdEncode_def by (rule stripPad_padded) (use free in \<open>auto simp: less_Suc_eq_le\<close>)
  have "length (stdEncode s) mod 4 = 0"
  proof -
    define q r where "q = length s div 3" and "r = length s mod 3"
    have l: "length s = 3 * q + r" and r: "r = 0 \<or> r = 1 \<or> r = 2" by (auto simp: q_def r_def)
    have e: "length (b64Encode s) = 4 * q + (4 * r + 2) div 3" by (simp add: length_b64Encode l)
    have "length (stdEncode s) = 4 * q + ((4 * r + 2) div 3 + (3 - r) mod 3)" using r
      by (simp add: stdEncode_def e) (auto simp: l)
    moreover have "((4 * r + 2) div 3 + (3 - r) mod 3) mod 4 = 0" using r by auto
    ultimately show ?thesis by (simp only: mod_mult_self4)
  qed
  moreover have "map ofStd ?e = b64Encode s"
    using ofStd_toStd b64Encode_chars by (auto intro: map_idI)
  ultimately show ?thesis using fl body free by (auto simp: stdDecode_def b64Decode_Encode)
qed

section \<open>PEM\<close>

text \<open>\<open>pem.EncodeToMemory\<close> of a block without headers: lines of 64 symbols.\<close>

function breakLines :: "string \<Rightarrow> string" where
  "breakLines s = (if s = [] then [] else take 64 s @ nl @ breakLines (drop 64 s))"
  by pat_completeness auto
termination
  by (relation "measure length") auto

declare breakLines.simps [simp del]

definition pemBegin :: string where "pemBegin = ''-----BEGIN ''"
definition pemEnd :: string where "pemEnd = nl @ ''-----END ''"
definition dashes :: string where "dashes = ''-----''"

definition pemEncode :: "string \<Rightarrow> string \<Rightarrow> string" where
  "pemEncode typ b =
     pemBegin @ typ @ dashes @ nl @ breakLines (stdEncode b) @ ''-----END '' @ typ @ dashes @ nl"

text \<open>\<open>bytes.Index\<close> and \<open>bytes.LastIndex\<close>, as the text before and after the occurrence.\<close>

fun cutStr :: "string \<Rightarrow> string \<Rightarrow> (string \<times> string) option" where
  "cutStr p [] = (if p = [] then Some ([], []) else None)"
| "cutStr p (x # xs) =
     (if hasPrefix (x # xs) p then Some ([], drop (length p) (x # xs))
      else map_option (\<lambda>(a, b). (x # a, b)) (cutStr p xs))"

fun cutLast :: "string \<Rightarrow> string \<Rightarrow> (string \<times> string) option" where
  "cutLast p [] = (if p = [] then Some ([], []) else None)"
| "cutLast p (x # xs) =
     (case cutLast p xs of
        Some (a, b) \<Rightarrow> Some (x # a, b)
      | None \<Rightarrow> if hasPrefix (x # xs) p then Some ([], drop (length p) (x # xs)) else None)"

text \<open>A line without its end and trailing blanks, and what follows it.\<close>

definition blank :: "char \<Rightarrow> bool" where
  "blank c = (c = CHR 0x20 \<or> c = CHR 0x09)"

definition getLine :: "string \<Rightarrow> string \<times> string" where
  "getLine s =
     (let (line, rest) = (case cutAt (CHR 0x0A) s of
            None \<Rightarrow> (s, []) | Some (a, b) \<Rightarrow> (trimSuffix a [CHR 0x0D], b))
      in (rev (dropWhile blank (rev line)), rest))"

lemma cutAt_length: "cutAt c s = Some (a, b) \<Longrightarrow> length b < length s"
  by (induction s arbitrary: a) (auto split: if_splits option.splits)

lemma getLine_length: "s \<noteq> [] \<Longrightarrow> length (snd (getLine s)) < length s"
  by (auto simp: getLine_def dest: cutAt_length split: option.splits)

text \<open>
  Skipping the header lines of a block: how many there are and the text after them, or
  \<open>None\<close> when the text ends first. The fields of a header are not used by the program.
\<close>

function skipHeaders :: "nat \<Rightarrow> string \<Rightarrow> (nat \<times> string) option" where
  "skipHeaders n s =
     (if s = [] then None
      else if cutAt (CHR '':'') (fst (getLine s)) = None then Some (n, s)
      else skipHeaders (Suc n) (snd (getLine s)))"
  by pat_completeness auto
termination
  by (relation "measure (\<lambda>(n, s). length s)") (auto simp: getLine_length)

declare skipHeaders.simps [simp del]

text \<open>
  One round of \<open>pem.Decode\<close>: the first end line, the last begin line before it, and the text
  between them. \<open>PemRetry\<close> goes on behind the end line.
\<close>

datatype pemRound = PemNone | PemRetry string | PemBlock string string string

definition pemBody :: "string \<Rightarrow> nat \<Rightarrow> string \<Rightarrow> string \<Rightarrow> pemRound" where
  "pemBody typ headers text3 trailer =
     (let endIndex = int (length text3) - int (length trailer) - int (length pemEnd);
          lineEnd = drop (length typ + length dashes) trailer;
          body = filter (\<lambda>c. \<not> blank c) (take (nat endIndex) text3)
      in if length trailer > length text3 then PemNone
         else if headers > 0 \<and> endIndex < 0 then PemRetry trailer
         else if length trailer < length typ + length dashes then PemRetry trailer
         else if \<not> hasPrefix trailer (typ @ dashes) then PemRetry trailer
         else if fst (getLine lineEnd) \<noteq> [] then PemRetry trailer
         else if endIndex > 0
           then (case stdDecode body of
                   None \<Rightarrow> PemRetry trailer
                 | Some b \<Rightarrow> PemBlock typ b (snd (getLine trailer)))
         else PemBlock typ [] (snd (getLine trailer)))"

definition pemStep :: "string \<Rightarrow> pemRound" where
  "pemStep s =
     (case cutStr pemEnd s of
        None \<Rightarrow> PemNone
      | Some (front, trailer) \<Rightarrow>
          (case cutLast pemBegin front of
             None \<Rightarrow> PemRetry trailer
           | Some (pre, post) \<Rightarrow>
               if pre \<noteq> [] \<and> last pre \<noteq> CHR 0x0A then PemRetry trailer
               else
                 let text1 = post @ pemEnd @ trailer; (line, text2) = getLine text1;
                     consumed = length text1 - length text2
                 in if \<not> hasSuffix line dashes
                    then (if consumed > length trailer then PemNone else PemRetry (drop consumed trailer))
                    else (case skipHeaders 0 text2 of
                        None \<Rightarrow> PemNone
                      | Some (headers, text3) \<Rightarrow>
                          pemBody (trimSuffix line dashes) headers text3 trailer)))"

text \<open>
  \<open>pem.Decode\<close>: type and bytes of the first block and the text after it. The text left shrinks
  in every round, so the comparison of lengths only serves termination.
\<close>

function pemDecode :: "string \<Rightarrow> (string \<times> string \<times> string) option" where
  "pemDecode s =
     (case pemStep s of
        PemNone \<Rightarrow> None
      | PemRetry t \<Rightarrow> if length t < length s then pemDecode t else None
      | PemBlock typ b rest \<Rightarrow> Some (typ, b, rest))"
  by pat_completeness auto
termination
  by (relation "measure length") auto

declare pemDecode.simps [simp del]

section \<open>Every round consumes text\<close>

lemma cutStr_append: "cutStr p s = Some (a, b) \<Longrightarrow> s = a @ p @ b"
proof (induction s arbitrary: a)
  case (Cons x xs)
  show ?case
  proof (cases "hasPrefix (x # xs) p")
    case True
    then have "take (length p) (x # xs) = p" by (simp add: hasPrefix_def)
    then show ?thesis using Cons.prems True append_take_drop_id [of "length p" "x # xs"] by auto
  next
    case False
    then show ?thesis using Cons by auto
  qed
qed (auto split: if_splits)

lemma pemBody_retry: "pemBody typ n t trailer = PemRetry r \<Longrightarrow> r = trailer"
  by (auto simp: pemBody_def Let_def split: if_splits option.splits)

lemma pemStep_shrinks: "pemStep s = PemRetry t \<Longrightarrow> length t < length s"
proof -
  assume run: "pemStep s = PemRetry t"
  then obtain front trailer where c: "cutStr pemEnd s = Some (front, trailer)"
    by (auto simp: pemStep_def split: option.splits)
  have "length trailer < length s" using cutStr_append [OF c] by (simp add: pemEnd_def nl_def)
  moreover have "length t \<le> length trailer" using run c
    by (auto simp: pemStep_def Let_def split: option.splits if_splits prod.splits dest: pemBody_retry)
  ultimately show ?thesis by linarith
qed

lemma pemDecode_round:
  "pemDecode s =
     (case pemStep s of PemNone \<Rightarrow> None | PemRetry t \<Rightarrow> pemDecode t | PemBlock typ b rest \<Rightarrow> Some (typ, b, rest))"
  using pemStep_shrinks [of s] by (subst pemDecode.simps) (auto split: pemRound.splits)

section \<open>Reading back a written block\<close>

text \<open>A text in which no line but the first can be an end line.\<close>

fun plainText :: "string \<Rightarrow> bool" where
  "plainText [] = True"
| "plainText (x # xs) = ((x = CHR 0x0A \<longrightarrow> xs \<noteq> [] \<and> hd xs \<noteq> CHR ''-'') \<and> plainText xs)"

lemma cutStr_end: "plainText a \<Longrightarrow> cutStr pemEnd (a @ pemEnd @ b) = Some (a, b)"
proof (induction a)
  case Nil
  then show ?case by (simp add: pemEnd_def nl_def hasPrefix_def)
next
  case (Cons x xs)
  have "\<not> hasPrefix ((x # xs) @ pemEnd @ b) pemEnd"
    using Cons.prems by (cases xs) (auto simp: hasPrefix_def pemEnd_def nl_def)
  then show ?case using Cons by simp
qed

lemma plainText_append:
  "plainText xs \<Longrightarrow> plainText ys \<Longrightarrow> plainText (xs @ ys)"
  by (induction xs) (auto simp: hd_append)

lemma plainText_free: "CHR 0x0A \<notin> set xs \<Longrightarrow> plainText xs"
  by (induction xs) auto

lemma breakLines_set: "set (breakLines s) \<subseteq> set s \<union> {CHR 0x0A}"
proof (induction s rule: breakLines.induct)
  case (1 s)
  show ?case
    using 1 set_take_subset [of 64 s] set_drop_subset [of 64 s]
    by (subst breakLines.simps) (auto simp: nl_def)
qed

lemma breakLines_filter:
  "CHR 0x0A \<notin> set s \<Longrightarrow> filter (\<lambda>c. c \<noteq> CHR 0x0A) (breakLines s) = s"
proof (induction s rule: breakLines.induct)
  case (1 s)
  have "filter (\<lambda>c. c \<noteq> CHR 0x0A) (take 64 s) = take 64 s"
    using 1(2) set_take_subset [of 64 s] by (intro filter_True) auto
  moreover have "filter (\<lambda>c. c \<noteq> CHR 0x0A) (breakLines (drop 64 s)) = drop 64 s" if "s \<noteq> []"
    using 1 that set_drop_subset [of 64 s] by blast
  ultimately show ?case by (subst breakLines.simps) (auto simp: nl_def)
qed

text \<open>The body without its last newline, after the newline of the first line.\<close>

lemma breakLines_body:
  assumes "s \<noteq> []" "CHR 0x0A \<notin> set s" "CHR ''-'' \<notin> set s"
  shows "\<exists>body. breakLines s = body @ nl \<and> plainText (nl @ body)"
  using assms
proof (induction s rule: breakLines.induct)
  case (1 s)
  have h: "hd s \<noteq> CHR ''-''" using 1(2,4) by (cases s) auto
  have t: "CHR 0x0A \<notin> set (take 64 s)" "CHR 0x0A \<notin> set (drop 64 s)" "CHR ''-'' \<notin> set (drop 64 s)"
    using 1 set_take_subset [of 64 s] set_drop_subset [of 64 s] by auto
  have l: "plainText (take 64 s)" by (rule plainText_free [OF t(1)])
  show ?case
  proof (cases "drop 64 s = []")
    case True
    then have "breakLines s = take 64 s @ nl"
      using 1(2) by (subst breakLines.simps) (simp add: breakLines.simps [of "[]"])
    moreover have "plainText (nl @ take 64 s)" using l h 1(2) by (simp add: nl_def)
    ultimately show ?thesis by blast
  next
    case False
    then obtain body where b: "breakLines (drop 64 s) = body @ nl" "plainText (nl @ body)"
      using 1 t by blast
    have "breakLines s = (take 64 s @ nl @ body) @ nl"
      using 1(2) b(1) by (subst breakLines.simps) simp
    moreover have "plainText (nl @ take 64 s @ nl @ body)"
      using plainText_append [OF l(1) b(2)] h 1(2) by (simp add: nl_def)
    ultimately show ?thesis by blast
  qed
qed

lemma cutLast_pass:
  "CHR ''-'' \<notin> set xs \<Longrightarrow>
     cutLast pemBegin (xs @ ys) = map_option (\<lambda>(a, b). (xs @ a, b)) (cutLast pemBegin ys)"
proof (induction xs)
  case Nil
  show ?case by (cases "cutLast pemBegin ys") auto
next
  case (Cons x xs)
  then have "\<not> hasPrefix (x # xs @ ys) pemBegin" by (auto simp: hasPrefix_def pemBegin_def)
  then show ?case using Cons by (cases "cutLast pemBegin ys") auto
qed

lemma cutLast_none: "CHR ''-'' \<notin> set xs \<Longrightarrow> cutLast pemBegin xs = None"
  using cutLast_pass [of xs "[]"] by (simp add: pemBegin_def)

lemma cutLast_head:
  assumes "CHR ''-'' \<notin> set typ" "CHR ''-'' \<notin> set mid" "mid = [] \<or> hd mid = CHR 0x0A"
  shows "cutLast pemBegin (pemBegin @ typ @ dashes @ mid) = Some ([], typ @ dashes @ mid)"
proof -
  have d: "cutLast pemBegin (dashes @ mid) = None"
    using cutLast_none [OF assms(2)] assms(2,3)
    by (cases mid) (auto simp: dashes_def pemBegin_def hasPrefix_def simp del: cutLast.simps(2)
        simp: cutLast.simps(2) [of _ "CHR ''-''"])
  have t: "cutLast pemBegin (typ @ dashes @ mid) = None" using cutLast_pass [OF assms(1)] d by simp
  show ?thesis
    using t by (simp add: pemBegin_def hasPrefix_def)
qed

lemma cutAt_pass: "c \<notin> set xs \<Longrightarrow> cutAt c (xs @ c # ys) = Some (xs, ys)"
  by (induction xs) auto

lemma cutAt_free: "c \<notin> set xs \<Longrightarrow> cutAt c xs = None"
  by (induction xs) auto

lemma cutAt_parts: "cutAt c s = Some (a, b) \<Longrightarrow> s = a @ c # b"
  by (induction s arbitrary: a) (auto split: if_splits option.splits)

lemma getLine_set: "set (fst (getLine s)) \<subseteq> set s"
proof -
  have "set (rev (dropWhile blank (rev l))) \<subseteq> set l" for l
    using set_dropWhileD [of _ blank "rev l"] by auto
  moreover have "set (trimSuffix a x) \<subseteq> set a" for a x :: string
    using set_take_subset [of _ a] by (simp add: trimSuffix_def)
  ultimately show ?thesis
    by (auto simp: getLine_def dest!: cutAt_parts split: option.splits) blast+
qed

lemma getLine_clean:
  assumes "CHR 0x0A \<notin> set l" "l \<noteq> []" "\<not> blank (last l)" "last l \<noteq> CHR 0x0D"
  shows "getLine (l @ nl @ s) = (l, s)"
proof -
  have "\<not> hasSuffix l [CHR 0x0D]" using assms(4) suffix_end [of l "[CHR 0x0D]"] by auto
  moreover have "dropWhile blank (rev l) = rev l" using assms(2,3) by (cases l rule: rev_cases) auto
  ultimately show ?thesis using cutAt_pass [OF assms(1)]
    by (simp add: getLine_def nl_def trimSuffix_def)
qed

text \<open>A block type as the program writes it.\<close>

definition pemType :: "string \<Rightarrow> bool" where
  "pemType typ = (\<forall>c \<in> set typ. isUpperAZ c \<or> c = CHR '' '')"

lemma pemType_free:
  "pemType typ \<Longrightarrow> CHR ''-'' \<notin> set typ \<and> CHR 0x0A \<notin> set typ \<and> CHR '':'' \<notin> set typ"
  by (auto simp: pemType_def isUpperAZ_def byte_def)

lemma stdDecode_cong:
  "filter (\<lambda>c. c \<noteq> CHR 0x0D \<and> c \<noteq> CHR 0x0A) s = filter (\<lambda>c. c \<noteq> CHR 0x0D \<and> c \<noteq> CHR 0x0A) t \<Longrightarrow>
     stdDecode s = stdDecode t"
  by (simp add: stdDecode_def)

lemma decode_body:
  assumes "breakLines (stdEncode b) = body @ nl"
  shows "stdDecode (filter (\<lambda>c. \<not> blank c) body) = Some b"
proof -
  let ?e = "stdEncode b"
  have e: "CHR 0x0A \<notin> set ?e" "CHR 0x0D \<notin> set ?e" "CHR 0x20 \<notin> set ?e" "CHR 0x09 \<notin> set ?e"
    using stdEncode_free [of _ b] by auto
  have s: "set body \<subseteq> set ?e \<union> {CHR 0x0A}" using breakLines_set [of ?e] assms by auto
  have "filter (\<lambda>c. c \<noteq> CHR 0x0A) (body @ nl) = ?e" using breakLines_filter [OF e(1)] assms by simp
  then have f: "filter (\<lambda>c. c \<noteq> CHR 0x0A) body = ?e" by (simp add: nl_def)
  have n: "\<not> blank c \<and> c \<noteq> CHR 0x0D" if "c \<in> set body" for c
    using s e that by (auto simp: blank_def)
  have "filter (\<lambda>c. \<not> blank c) body = body" using n by (intro filter_True) blast
  moreover have "filter (\<lambda>c. c \<noteq> CHR 0x0D \<and> c \<noteq> CHR 0x0A) body = filter (\<lambda>c. c \<noteq> CHR 0x0A) body"
    using n by (intro filter_cong) auto
  moreover have "filter (\<lambda>c. c \<noteq> CHR 0x0D \<and> c \<noteq> CHR 0x0A) ?e = ?e"
    using e by (intro filter_True) auto
  ultimately show ?thesis using stdDecode_cong [of body ?e] f by (simp add: stdDecode_Encode)
qed

lemma pemDecode_Encode:
  assumes "pemType typ"
  shows "pemDecode (pemEncode typ b) = Some (typ, b, [])"
proof -
  note ty = pemType_free [OF assms]
  let ?e = "stdEncode b" and ?trailer = "typ @ dashes @ nl"
  let ?text = "breakLines ?e @ ''-----END '' @ ?trailer"
  have ee: "CHR 0x0A \<notin> set ?e" "CHR ''-'' \<notin> set ?e" "CHR '':'' \<notin> set ?e"
    using stdEncode_free [of _ b] by auto
  obtain mid where mid: "nl @ breakLines ?e @ ''-----END '' = mid @ pemEnd" "plainText mid"
    "CHR ''-'' \<notin> set mid" "b = [] \<longrightarrow> mid = []" "b \<noteq> [] \<longrightarrow> (\<exists>body. mid = nl @ body \<and> breakLines ?e = body @ nl)"
  proof (cases "b = []")
    case True
    then have "breakLines ?e = []" by (simp add: stdEncode_def breakLines.simps)
    then show ?thesis using that [of "[]"] True by (simp add: pemEnd_def)
  next
    case False
    then have "?e \<noteq> []" by (cases b rule: b64Encode.cases) (auto simp: stdEncode_def)
    then obtain body where b: "breakLines ?e = body @ nl" "plainText (nl @ body)"
      using breakLines_body ee(1,2) by blast
    have "CHR ''-'' \<notin> set (nl @ body)" using breakLines_set [of ?e] b(1) ee(2) by (auto simp: nl_def)
    then show ?thesis using that [of "nl @ body"] b False by (simp add: pemEnd_def)
  qed
  have "pemEncode typ b = (pemBegin @ typ @ dashes @ mid) @ pemEnd @ ?trailer"
    using mid(1) by (simp add: pemEncode_def)
  moreover have "plainText (pemBegin @ typ @ dashes @ mid)"
    using ty by (intro plainText_append mid(2) plainText_free) (auto simp: pemBegin_def dashes_def)
  ultimately have c1: "cutStr pemEnd (pemEncode typ b) = Some (pemBegin @ typ @ dashes @ mid, ?trailer)"
    using cutStr_end by metis
  have c2: "cutLast pemBegin (pemBegin @ typ @ dashes @ mid) = Some ([], typ @ dashes @ mid)"
    by (rule cutLast_head) (use ty mid(3-5) in \<open>auto simp: nl_def\<close>)
  have "getLine ((typ @ dashes) @ nl @ ?text) = (typ @ dashes, ?text)"
    by (rule getLine_clean) (use ty in \<open>auto simp: dashes_def blank_def\<close>)
  moreover have "typ @ dashes @ mid @ pemEnd @ ?trailer = (typ @ dashes) @ nl @ ?text"
    using mid(1) by simp
  ultimately have g1: "getLine (typ @ dashes @ mid @ pemEnd @ ?trailer) = (typ @ dashes, ?text)"
    by (simp only:)
  have "CHR '':'' \<notin> set ?text"
    using breakLines_set [of ?e] ee(3) ty by (auto simp: dashes_def nl_def)
  then have "cutAt (CHR '':'') (fst (getLine ?text)) = None"
    using getLine_set [of ?text] by (intro cutAt_free) blast
  then have sk: "skipHeaders 0 ?text = Some (0, ?text)" by (subst skipHeaders.simps) simp
  have g2: "getLine ?trailer = (typ @ dashes, [])"
    using getLine_clean [of "typ @ dashes" "[]"] ty by (simp add: dashes_def blank_def)
  have g3: "fst (getLine nl) = []" by (simp add: getLine_def nl_def trimSuffix_def hasSuffix_def)
  have pb: "pemBody typ 0 ?text ?trailer = PemBlock typ b []"
  proof (cases "b = []")
    case True
    then have "breakLines ?e = []" by (simp add: stdEncode_def breakLines.simps)
    then show ?thesis using True g2 g3
      by (simp add: pemBody_def Let_def hasPrefix_def pemEnd_def nl_def)
  next
    case False
    then obtain body where b: "breakLines ?e = body @ nl" "mid = nl @ body" using mid(5) by blast
    have "stdDecode (filter (\<lambda>c. \<not> blank c) body) = Some b" by (rule decode_body [OF b(1)])
    moreover have "body \<noteq> []" using False b(1) breakLines_filter [OF ee(1)] 
      by (cases b rule: b64Encode.cases) (auto simp: stdEncode_def nl_def)
    ultimately show ?thesis using b g2 g3
      by (simp add: pemBody_def Let_def hasPrefix_def pemEnd_def nl_def)
  qed
  have "pemStep (pemEncode typ b) = PemBlock typ b []"
    using c1 c2 g1 sk pb by (simp add: pemStep_def Let_def trimSuffix_def)
  then show ?thesis by (subst pemDecode_round) simp
qed

end
