(* ===== verification/Url.thy ===== *)
theory Url
  imports Codec NetAddr
begin

text \<open>
  net/url and net of the standard library as the program uses them: percent encoding, the text
  of a URL with user and host, \<open>Values.Encode\<close>, \<open>net.JoinHostPort\<close> and \<open>net.SplitHostPort\<close>.
\<close>

section \<open>Percent encoding\<close>

datatype urlMode = UrlHost | UrlUser | UrlQuery | UrlFragment

definition alphanumeric :: "char \<Rightarrow> bool" where
  "alphanumeric c = (isLowerAZ c \<or> isUpperAZ c \<or> isDigit c)"

text \<open>\<open>url.shouldEscape\<close> for the four modes in use.\<close>

definition hostPlain :: string where
  "hostPlain = [CHR 0x27, CHR 0x22] @ ''!$&()*+,;=:[]<>''"

definition userEscaped :: string where "userEscaped = ''@/?:''"

definition shouldEscape :: "urlMode \<Rightarrow> char \<Rightarrow> bool" where
  "shouldEscape m c =
     (if alphanumeric c then False
      else if m = UrlHost \<and> c \<in> set hostPlain then False
      else if c \<in> set ''-_.~'' then False
      else if c \<in> set ''$&+,/:;=?@'' then
        (case m of UrlUser \<Rightarrow> c \<in> set userEscaped | UrlQuery \<Rightarrow> True | UrlFragment \<Rightarrow> False | UrlHost \<Rightarrow> True)
      else if m = UrlFragment \<and> c \<in> set ''!()*'' then False
      else True)"

definition upperHex :: string where "upperHex = ''0123456789ABCDEF''"

definition percent :: "char \<Rightarrow> string" where
  "percent c = [CHR ''%'', upperHex ! (byte c div 16), upperHex ! (byte c mod 16)]"

definition escapeChar :: "urlMode \<Rightarrow> char \<Rightarrow> string" where
  "escapeChar m c =
     (if m = UrlQuery \<and> c = CHR '' '' then ''+''
      else if shouldEscape m c then percent c else [c])"

definition urlEscape :: "urlMode \<Rightarrow> string \<Rightarrow> string" where
  "urlEscape m s = concat (map (escapeChar m) s)"

text \<open>\<open>Values.Encode\<close> of a map with one value per key.\<close>

definition queryText :: "strmap \<Rightarrow> string" where
  "queryText q =
     joinWith ''&'' (map (\<lambda>k. urlEscape UrlQuery k @ ''='' @ urlEscape UrlQuery (mget q k)) (sortedKeysOf q))"

text \<open>
  \<open>URL.String\<close> of a URL with scheme, user name, host, path, query and fragment. The path is empty
  or a slash, which no mode escapes.
\<close>

record shareURL =
  su_Scheme :: string
  su_User :: string
  su_Host :: string
  su_Path :: string
  su_RawQuery :: string
  su_Fragment :: string

definition urlString :: "shareURL \<Rightarrow> string" where
  "urlString u =
     (if su_Scheme u = [] then [] else su_Scheme u @ '':'')
     @ ''//'' @ urlEscape UrlUser (su_User u) @ ''@'' @ urlEscape UrlHost (su_Host u)
     @ su_Path u @ (if su_RawQuery u = [] then [] else ''?'' @ su_RawQuery u)
     @ (if su_Fragment u = [] then [] else ''#'' @ urlEscape UrlFragment (su_Fragment u))"

section \<open>Host and port\<close>

definition joinHostPort :: "string \<Rightarrow> string \<Rightarrow> string" where
  "joinHostPort host port =
     (if CHR '':'' \<in> set host then ''['' @ host @ '']:'' @ port else host @ '':'' @ port)"

definition splitHostPort :: "string \<Rightarrow> (string \<times> string) option" where
  "splitHostPort s =
     (case cutLast '':'' s of
        None \<Rightarrow> None
      | Some (front, port) \<Rightarrow>
          if hasPrefix s ''['' then
            (case cutAt (CHR '']'') s of
               None \<Rightarrow> None
             | Some (a, b) \<Rightarrow>
                 if front \<noteq> a @ '']'' \<or> CHR ''['' \<in> set (tl s) \<or> CHR '']'' \<in> set b then None
                 else Some (tl a, port))
          else if CHR '':'' \<in> set front \<or> CHR ''['' \<in> set s \<or> CHR '']'' \<in> set s then None
          else Some (front, port))"

lemma hostPort_samples:
  "joinHostPort ''::1'' ''443'' = ''[::1]:443''"
  "splitHostPort ''[::1]:443'' = Some (''::1'', ''443'')"
  "splitHostPort ''example.com:443'' = Some (''example.com'', ''443'')"
  "splitHostPort ''example.com'' = None" "splitHostPort ''::1:443'' = None"
  "splitHostPort ''[::1]'' = None" "splitHostPort ''[::1]x:443'' = None" "splitHostPort ''a]:1'' = None"
  "splitHostPort '':'' = Some ([], [])"
  by code_simp+

section \<open>Reading a URL back\<close>

text \<open>\<open>url.unescape\<close>: \<open>None\<close> for a broken escape; a plus sign is a space in a query only.\<close>

fun urlUnescape :: "urlMode \<Rightarrow> string \<Rightarrow> string option" where
  "urlUnescape m [] = Some []"
| "urlUnescape m (c # s) =
     (if c = CHR ''%'' then
        (case s of
           a # b # t \<Rightarrow>
             (case (hexVal a, hexVal b) of
                (Some x, Some y) \<Rightarrow> map_option (Cons (char_of (16 * x + y))) (urlUnescape m t)
              | _ \<Rightarrow> None)
         | _ \<Rightarrow> None)
      else map_option (Cons (if m = UrlQuery \<and> c = CHR ''+'' then CHR '' '' else c)) (urlUnescape m s))"

lemma upperHex_val: "i < 16 \<Longrightarrow> hexVal (upperHex ! i) = Some i"
proof -
  have "list_all (\<lambda>i. hexVal (upperHex ! i) = Some i) [0..<16]" by code_simp
  moreover assume "i < 16"
  ultimately show ?thesis by (simp add: list_all_iff)
qed

lemma unescape_percent: "urlUnescape m (percent c @ s) = map_option (Cons c) (urlUnescape m s)"
proof -
  have "char_of (16 * (byte c div 16) + byte c mod 16) = c" by (simp add: byte_char)
  then show ?thesis
    using upperHex_val [of "byte c div 16"] upperHex_val [of "byte c mod 16"] hexByte_parts [of c]
    by (simp add: percent_def)
qed

lemma escapes_always:
  "shouldEscape m (CHR ''%'')" "shouldEscape UrlQuery (CHR ''+'')" "shouldEscape m (CHR ''#'')"
  "m \<noteq> UrlFragment \<Longrightarrow> shouldEscape m (CHR ''/'')" "m \<noteq> UrlFragment \<Longrightarrow> shouldEscape m (CHR ''?'')"
  "m \<noteq> UrlFragment \<Longrightarrow> shouldEscape m (CHR ''@'')"
  "shouldEscape UrlQuery (CHR ''&'')" "shouldEscape UrlQuery (CHR ''='')"
  by (cases m; simp add: shouldEscape_def alphanumeric_def isLowerAZ_def isUpperAZ_def isDigit_def
      byte_def hostPlain_def userEscaped_def)+

lemma unescape_char: "urlUnescape m (escapeChar m c @ s) = map_option (Cons c) (urlUnescape m s)"
proof (cases "shouldEscape m c")
  case True
  then show ?thesis by (simp add: escapeChar_def unescape_percent)
next
  case False
  then have "c \<noteq> CHR ''%''" "\<not> (m = UrlQuery \<and> c = CHR ''+'')" using escapes_always by blast+
  then show ?thesis using False by (auto simp: escapeChar_def)
qed

lemma urlUnescape_Escape: "urlUnescape m (urlEscape m s) = Some s"
  by (induction s) (simp_all add: urlEscape_def unescape_char)

text \<open>Escaped text is free of the characters its place in a URL gives a meaning.\<close>

lemma percent_chars: "set (percent c) \<subseteq> set (CHR ''%'' # upperHex)"
proof -
  have "upperHex ! i \<in> set upperHex" if "i < 16" for i
    using that by (intro nth_mem) (simp add: upperHex_def)
  then show ?thesis using hexByte_parts [of c] by (auto simp: percent_def)
qed

lemma escape_free:
  assumes "\<And>d. d \<in> set (CHR ''%'' # CHR ''+'' # upperHex) \<Longrightarrow> d \<noteq> c" "shouldEscape m c"
  shows "c \<notin> set (urlEscape m s)"
proof -
  have "c \<notin> set (escapeChar m d)" for d
    using assms percent_chars [of d] by (auto simp: escapeChar_def)
  then show ?thesis by (auto simp: urlEscape_def)
qed

lemma escaped_free:
  "CHR ''#'' \<notin> set (urlEscape m s)"
  "m \<noteq> UrlFragment \<Longrightarrow> CHR ''/'' \<notin> set (urlEscape m s)"
  "m \<noteq> UrlFragment \<Longrightarrow> CHR ''?'' \<notin> set (urlEscape m s)"
  "m \<noteq> UrlFragment \<Longrightarrow> CHR ''@'' \<notin> set (urlEscape m s)"
  "CHR ''&'' \<notin> set (urlEscape UrlQuery s)" "CHR ''='' \<notin> set (urlEscape UrlQuery s)"
  by (rule escape_free; (auto simp: upperHex_def escapes_always)[1])+

section \<open>A reader of share links\<close>

text \<open>
  A reading of the text of a share link: scheme, user, host and port, path, query and fragment,
  each unescaped.
\<close>

definition cutOr :: "char \<Rightarrow> string \<Rightarrow> string \<times> string" where
  "cutOr c s = (case cutAt c s of Some p \<Rightarrow> p | None \<Rightarrow> (s, []))"

definition readPair :: "string \<Rightarrow> (string \<times> string) option" where
  "readPair p =
     (case cutAt (CHR ''='') p of
        None \<Rightarrow> None
      | Some (a, b) \<Rightarrow>
          (case (urlUnescape UrlQuery a, urlUnescape UrlQuery b) of
             (Some k, Some v) \<Rightarrow> Some (k, v) | _ \<Rightarrow> None))"

definition readQuery :: "string \<Rightarrow> strmap option" where
  "readQuery q = collect readPair (splitOn (CHR ''&'') q)"

definition readURL :: "string \<Rightarrow> (string \<times> string \<times> (string \<times> string) \<times> string \<times> strmap \<times> string) option" where
  "readURL s =
     (case cutStr ''://'' s of
        None \<Rightarrow> None
      | Some (scheme, r) \<Rightarrow>
          (let (main, fragment) = cutOr (CHR ''#'') r; (front, query) = cutOr (CHR ''?'') main in
           case cutAt (CHR ''@'') front of
             None \<Rightarrow> None
           | Some (user, hp) \<Rightarrow>
               (let host = takeWhile (\<lambda>c. c \<noteq> CHR ''/'') hp in
                case (urlUnescape UrlUser user, Option.bind (urlUnescape UrlHost host) splitHostPort,
                      readQuery query, urlUnescape UrlFragment fragment) of
                  (Some u, Some h, Some q, Some f) \<Rightarrow> Some (scheme, u, h, drop (length host) hp, q, f)
                | _ \<Rightarrow> None)))"

lemma splitOn_join_char:
  "xs \<noteq> [] \<Longrightarrow> (\<And>x. x \<in> set xs \<Longrightarrow> c \<notin> set x) \<Longrightarrow> splitOn c (joinWith [c] xs) = xs"
proof (induction xs)
  case (Cons x xs)
  then show ?case by (cases "xs = []") (auto simp: splitOn_none joinWith_Cons splitOn_append)
qed simp

lemma collect_map: "(\<And>x. x \<in> set xs \<Longrightarrow> f (g x) = Some (h x)) \<Longrightarrow> collect f (map g xs) = Some (map h xs)"
  by (induction xs) auto

lemma readPair_text:
  "readPair (urlEscape UrlQuery k @ ''='' @ urlEscape UrlQuery v) = Some (k, v)"
  using cutAt_pass [OF escaped_free(6)] by (simp add: readPair_def urlUnescape_Escape)

lemma readQuery_text:
  assumes "q \<noteq> []"
  shows "readQuery (queryText q) = Some (map (\<lambda>k. (k, mget q k)) (sortedKeysOf q))"
proof -
  let ?p = "\<lambda>k. urlEscape UrlQuery k @ ''='' @ urlEscape UrlQuery (mget q k)"
  have "length (sortedKeysOf q) = length q" by (simp add: sortedKeysOf_def)
  then have "map ?p (sortedKeysOf q) \<noteq> []" using assms by auto
  moreover have "CHR ''&'' \<notin> set x" if "x \<in> set (map ?p (sortedKeysOf q))" for x
    using that escaped_free(5) by auto
  ultimately have "splitOn (CHR ''&'') (queryText q) = map ?p (sortedKeysOf q)"
    unfolding queryText_def by (intro splitOn_join_char) auto
  then show ?thesis unfolding readQuery_def by (simp only:) (rule collect_map, rule readPair_text)
qed

lemma queryText_free: "CHR ''#'' \<notin> set (queryText q)"
proof -
  have "set (joinWith sep xs) \<subseteq> set sep \<union> (\<Union>x \<in> set xs. set x)" for sep and xs :: "string list"
    by (induction sep xs rule: joinWith.induct) auto
  then show ?thesis using escaped_free(1) by (fastforce simp: queryText_def)
qed

lemma cutLast_char: "c \<notin> set b \<Longrightarrow> cutLast [c] (a @ c # b) = Some (a, b)"
proof (induction a)
  case Nil
  have "cutLast [c] b = None" using Nil
    by (induction b) (auto simp: hasPrefix_def)
  then show ?case by (simp add: hasPrefix_def)
qed simp

lemma split_joinHostPort:
  assumes "CHR ''['' \<notin> set host" "CHR '']'' \<notin> set host"
    "\<And>c. c \<in> set '':[]'' \<Longrightarrow> c \<notin> set port"
  shows "splitHostPort (joinHostPort host port) = Some (host, port)"
proof (cases "CHR '':'' \<in> set host")
  case True
  have l: "cutLast '':'' ((''['' @ host @ '']'') @ '':'' @ port) = Some (''['' @ host @ '']'', port)"
    using cutLast_char [of "CHR '':''" port "''['' @ host @ '']''"] assms(3) by simp
  have c: "cutAt (CHR '']'') ((''['' @ host) @ CHR '']'' # '':'' @ port) = Some (''['' @ host, '':'' @ port)"
    by (rule cutAt_pass) (use assms in simp)
  show ?thesis using True l c assms by (simp add: splitHostPort_def joinHostPort_def hasPrefix_def)
next
  case False
  have "cutLast '':'' (host @ '':'' @ port) = Some (host, port)"
    using cutLast_char [of "CHR '':''" port host] assms(3) by simp
  moreover have "\<not> hasPrefix (host @ '':'' @ port) ''[''" using assms(1) by (cases host) (auto simp: hasPrefix_def)
  ultimately show ?thesis using False assms by (simp add: splitHostPort_def joinHostPort_def)
qed

lemma cutStr_scheme: "CHR '':'' \<notin> set s \<Longrightarrow> cutStr ''://'' (s @ '':'' @ ''//'' @ r) = Some (s, r)"
  by (induction s) (auto simp: hasPrefix_def)

lemma cutOr_pass: "c \<notin> set a \<Longrightarrow> cutOr c (a @ c # b) = (a, b)" "c \<notin> set a \<Longrightarrow> cutOr c a = (a, [])"
  by (simp_all add: cutOr_def cutAt_pass cutAt_free)

lemma readURL_String:
  assumes "CHR '':'' \<notin> set (su_Scheme u)" "su_Scheme u \<noteq> []" "su_Path u \<in> {[], ''/''}"
    "su_RawQuery u = queryText q" "q \<noteq> []" "splitHostPort (su_Host u) = Some h" "su_Fragment u \<noteq> []"
  shows "readURL (urlString u) =
    Some (su_Scheme u, su_User u, h, su_Path u, map (\<lambda>k. (k, mget q k)) (sortedKeysOf q), su_Fragment u)"
proof -
  let ?user = "urlEscape UrlUser (su_User u)" and ?host = "urlEscape UrlHost (su_Host u)"
    and ?frag = "urlEscape UrlFragment (su_Fragment u)"
  have "readQuery [] = None" by (simp add: readQuery_def readPair_def)
  then have qn: "queryText q \<noteq> []" using readQuery_text [OF assms(5)] by auto
  note p = assms(3) and q = queryText_free [of q] readQuery_text [OF assms(5)]
  let ?front = "?user @ ''@'' @ ?host @ su_Path u"
  have s: "urlString u = su_Scheme u @ '':'' @ ''//'' @ ?front @ ''?'' @ queryText q @ ''#'' @ ?frag"
    using assms qn by (simp add: urlString_def)
  have f: "CHR ''#'' \<notin> set ?front" "CHR ''?'' \<notin> set ?front" using p escaped_free by auto
  have c1: "cutOr (CHR ''#'') ((?front @ ''?'' @ queryText q) @ CHR ''#'' # ?frag) = (?front @ ''?'' @ queryText q, ?frag)"
    using f(1) q(1) by (intro cutOr_pass(1)) auto
  have c2: "cutOr (CHR ''?'') (?front @ CHR ''?'' # queryText q) = (?front, queryText q)"
    by (rule cutOr_pass(1) [OF f(2)])
  have c3: "cutAt (CHR ''@'') (?user @ CHR ''@'' # ?host @ su_Path u) = Some (?user, ?host @ su_Path u)"
    by (rule cutAt_pass) (use escaped_free in simp)
  have "CHR ''/'' \<notin> set ?host" using escaped_free by simp
  then have t: "takeWhile (\<lambda>c. c \<noteq> CHR ''/'') (?host @ su_Path u) = ?host"
    using p takeWhile_append2 [of ?host "\<lambda>c. c \<noteq> CHR ''/''" "su_Path u"] by fastforce
  show ?thesis
    using cutStr_scheme [OF assms(1), of "?front @ ''?'' @ queryText q @ ''#'' @ ?frag"] c1 c2 c3 t q(2) assms(6)
    by (simp add: readURL_def s urlUnescape_Escape)
qed

end
