(* ===== verification/Secret.thy ===== *)
theory Secret
  imports Codec NetAddr Samples
begin

text \<open>
  internal/secret: random credentials (random.go), Reality key pairs (reality.go) and the
  self-signed certificate (certificate.go). The file writer of the package is in AtomicWrite.

  Randomness is drawn from the world, one byte after the other. The cryptography of the
  standard library is the parameter \<open>cryptoLib\<close>: an ECDSA key and an X.509 certificate are
  whatever the library makes of the random bytes and the template, as a byte string.
\<close>

section \<open>Cryptography of the standard library\<close>

text \<open>
  The fields of \<open>x509.Certificate\<close> that certificate.go sets. An instant is a reading of the
  clock with a duration in nanoseconds added to it; an IP address is its 16 bytes.
\<close>

record certTemplate =
  ct_SerialNumber :: nat
  ct_CommonName :: string
  ct_NotBefore :: "gotime \<times> int"
  ct_NotAfter :: "gotime \<times> int"
  ct_KeyUsage :: "string list"
  ct_ExtKeyUsage :: "string list"
  ct_BasicConstraintsValid :: bool
  ct_IPAddresses :: "string list"
  ct_DNSNames :: "string list"

text \<open>The fields of a parsed certificate that the program reads.\<close>

record parsedCertificate =
  pc_Raw :: string
  pc_DNSNames :: "string list"
  pc_IPAddresses :: "string list"

text \<open>
  \<open>ecdsa.GenerateKey\<close> and \<open>x509.CreateCertificate\<close> draw \<open>cl_keyRandom\<close> and \<open>cl_signRandom\<close>
  bytes; the remaining functions are deterministic. \<open>cl_x25519\<close> maps a private key to its public
  key, \<open>cl_base64Error\<close> is the text of a Base64 error on an input.
\<close>

record cryptoLib =
  cl_keyRandom :: nat
  cl_ecdsaKey :: "string \<Rightarrow> string res"
  cl_signRandom :: nat
  cl_createCertificate :: "certTemplate \<Rightarrow> string \<Rightarrow> string \<Rightarrow> string res"
  cl_marshalPKCS8 :: "string \<Rightarrow> string res"
  cl_parseCertificate :: "string \<Rightarrow> parsedCertificate res"
  cl_keyPair :: "string \<Rightarrow> string \<Rightarrow> bool"
  cl_sha256 :: "string \<Rightarrow> string"
  cl_x25519 :: "string \<Rightarrow> string"
  cl_base64Error :: "string \<Rightarrow> string"

section \<open>Random credentials\<close>

definition randomBytes :: "nat \<Rightarrow> world \<Rightarrow> string res \<times> world" where
  "randomBytes n w =
     (case sys_rand n w of
        (Inl e, w1) \<Rightarrow> (Inl (Wrap ''secure random: '' e []), w1)
      | (Inr v, w1) \<Rightarrow> (Inr v, w1))"

definition Password :: "world \<Rightarrow> string res \<times> world" where
  "Password w =
     (case randomBytes 32 w of
        (Inl e, w1) \<Rightarrow> (Inl e, w1)
      | (Inr v, w1) \<Rightarrow> (Inr (b64Encode v), w1))"

definition ShortID :: "world \<Rightarrow> string res \<times> world" where
  "ShortID w =
     (case randomBytes 8 w of
        (Inl e, w1) \<Rightarrow> (Inl e, w1)
      | (Inr v, w1) \<Rightarrow> (Inr (hexEncode v), w1))"

text \<open>\<open>value[i] = value[i] & keep | set\<close>.\<close>

definition maskByte :: "nat \<Rightarrow> nat \<Rightarrow> nat \<Rightarrow> string \<Rightarrow> string" where
  "maskByte i keep st v = v[i := char_of (or (and (byte (v ! i)) keep) st)]"

definition slice :: "nat \<Rightarrow> nat \<Rightarrow> string \<Rightarrow> string" where
  "slice a b v = take (b - a) (drop a v)"

text \<open>The verbs \<open>%08x-%04x-%04x-%04x-%012x\<close> on five slices.\<close>

definition uuidText :: "string \<Rightarrow> string" where
  "uuidText v =
     joinWith ''-'' [hexEncode (slice 0 4 v), hexEncode (slice 4 6 v), hexEncode (slice 6 8 v),
       hexEncode (slice 8 10 v), hexEncode (slice 10 16 v)]"

definition UUIDv4 :: "world \<Rightarrow> string res \<times> world" where
  "UUIDv4 w =
     (case randomBytes 16 w of
        (Inl e, w1) \<Rightarrow> (Inl e, w1)
      | (Inr v0, w1) \<Rightarrow>
          let v = maskByte 8 0x3f 0x80 (maskByte 6 0x0f 0x40 v0) in (Inr (uuidText v), w1))"

section \<open>Reality keys\<close>

record RealityKeyPair =
  rk_Private :: string
  rk_Public :: string

text \<open>\<open>ecdh.X25519().GenerateKey\<close> draws the 32 bytes of the private key.\<close>

definition RealityKeys :: "cryptoLib \<Rightarrow> world \<Rightarrow> RealityKeyPair res \<times> world" where
  "RealityKeys L w =
     (case sys_rand 32 w of
        (Inl e, w1) \<Rightarrow> (Inl e, w1)
      | (Inr privateKey, w1) \<Rightarrow>
          (Inr \<lparr>rk_Private = b64Encode privateKey, rk_Public = b64Encode (cl_x25519 L privateKey)\<rparr>, w1))"

section \<open>Self-signed certificates\<close>

record Certificate =
  CertificatePEM :: string
  PrivateKeyPEM :: string

text \<open>\<open>net.ParseIP\<close>: like \<open>netip.ParseAddr\<close>, but without zones; and its 16 bytes.\<close>

definition parseIP :: "string \<Rightarrow> ipAddr option" where
  "parseIP s =
     (case parseAddr s of
        Some (IPv6 gs z) \<Rightarrow> if z = [] then Some (IPv6 gs z) else None
      | r \<Rightarrow> r)"

fun ipBytes :: "ipAddr \<Rightarrow> string" where
  "ipBytes (IPv4 bs) = replicate 10 (char_of (0 :: nat)) @ [CHR 0xFF, CHR 0xFF] @ map char_of bs"
| "ipBytes (IPv6 gs z) = concat (map (\<lambda>g. [char_of (g div 256), char_of (g mod 256)]) gs)"

definition sanLabel :: "string \<Rightarrow> bool" where
  "sanLabel l =
     (if l = [] \<or> length l > 63 \<or> hd l = CHR ''-'' \<or> last l = CHR ''-'' then False
      else list_all (\<lambda>ch. \<not> ((ch < 97 \<or> ch > 122) \<and> (ch < 65 \<or> ch > 90) \<and> (ch < 48 \<or> ch > 57) \<and> ch \<noteq> 45))
             (runes l))"

definition validSAN :: "string \<Rightarrow> bool" where
  "validSAN value =
     (if parseIP value \<noteq> None then True
      else let v = trimSuffix value ''.'' in
        if v = [] \<or> length v > 253 then False
        else list_all sanLabel (splitOn (CHR ''.'') v))"

text \<open>The value of a big-endian byte string, \<open>big.Int.SetBytes\<close>.\<close>

definition bytesValue :: "string \<Rightarrow> nat" where
  "bytesValue v = foldl (\<lambda>acc c. acc * 256 + byte c) 0 v"

definition serialOf :: "string \<Rightarrow> nat" where
  "serialOf v = (if bytesValue v = 0 then 1 else bytesValue v)"

definition nanosPerMinute :: int where
  "nanosPerMinute = 60 * 1000000000"

definition certificateTemplate :: "string \<Rightarrow> gotime \<Rightarrow> string \<Rightarrow> certTemplate" where
  "certificateTemplate san now serialBytes =
     \<lparr>ct_SerialNumber = serialOf serialBytes, ct_CommonName = san,
      ct_NotBefore = (now, - 5 * nanosPerMinute), ct_NotAfter = (now, 365 * 24 * 60 * nanosPerMinute),
      ct_KeyUsage = [''DigitalSignature''], ct_ExtKeyUsage = [''ServerAuth''],
      ct_BasicConstraintsValid = True,
      ct_IPAddresses = (case parseIP san of Some a \<Rightarrow> [ipBytes a] | None \<Rightarrow> []),
      ct_DNSNames = (case parseIP san of Some a \<Rightarrow> [] | None \<Rightarrow> [trimSuffix san ''.''])\<rparr>"

definition SelfSignedCertificate ::
  "cryptoLib \<Rightarrow> string \<Rightarrow> gotime \<Rightarrow> world \<Rightarrow> Certificate res \<times> world" where
  "SelfSignedCertificate L san now w =
     (if \<not> validSAN san
      then (Inl (Errorf ''tls SAN must be a valid DNS name or IP address''), w)
      else
     (case sys_rand (cl_keyRandom L) w of
        (Inl e, w1) \<Rightarrow> (Inl e, w1)
      | (Inr seed, w1) \<Rightarrow>
     (case cl_ecdsaKey L seed of
        Inl e \<Rightarrow> (Inl e, w1)
      | Inr privateKey \<Rightarrow>
     (case randomBytes 16 w1 of
        (Inl e, w2) \<Rightarrow> (Inl e, w2)
      | (Inr serialBytes, w2) \<Rightarrow>
     (case sys_rand (cl_signRandom L) w2 of
        (Inl e, w3) \<Rightarrow> (Inl e, w3)
      | (Inr nonce, w3) \<Rightarrow>
     (case cl_createCertificate L (certificateTemplate san now serialBytes) privateKey nonce of
        Inl e \<Rightarrow> (Inl e, w3)
      | Inr certificateDER \<Rightarrow>
     (case cl_marshalPKCS8 L privateKey of
        Inl e \<Rightarrow> (Inl e, w3)
      | Inr privateDER \<Rightarrow>
          (Inr \<lparr>CertificatePEM = pemEncode ''CERTIFICATE'' certificateDER,
                PrivateKeyPEM = pemEncode ''PRIVATE KEY'' privateDER\<rparr>, w3))))))))"

end
