(* ===== verification/SecretProps.thy ===== *)
theory SecretProps
  imports Secret ConfigProps
begin

text \<open>
  What internal/secret generates: credentials that the validation of internal/config accepts,
  from fresh randomness, and certificates whose PEM text carries the requested names.
\<close>

section \<open>Randomness\<close>

definition fresh :: "world \<Rightarrow> nat \<Rightarrow> string" where
  "fresh w n = map (entropy w) [drawn w..<drawn w + n]"

lemma length_fresh [simp]: "length (fresh w n) = n"
  by (simp add: fresh_def)

lemma rand_drawn:
  assumes "sys_rand n w = (Inr v, w')"
  shows "v = fresh w n" "drawn w' = drawn w + n" "sameTree w w'"
  using assms rand.env [OF assms] rand.fs_same [OF assms]
  by (auto simp: sys_rand_def fresh_def tick_def sameTree_def split: option.splits)

lemma rand_same: "sys_rand n w = (r, w') \<Longrightarrow> sameTree w w'"
  using rand.env rand.fs_same by (auto simp: sameTree_def)

lemma rand_quiet: "quiet w \<Longrightarrow> \<exists>w'. sys_rand n w = (Inr (fresh w n), w') \<and> quiet w'"
  by (simp add: sys_rand_def fresh_def quiet_def tick_def faulted_def)

lemma randomBytes_same: "randomBytes n w = (r, w') \<Longrightarrow> sameTree w w'"
  by (auto simp: randomBytes_def split: prod.splits sum.splits dest: rand_same)

lemma randomBytes_drawn:
  "randomBytes n w = (Inr v, w') \<Longrightarrow> v = fresh w n \<and> drawn w' = drawn w + n \<and> sameTree w w'"
  by (auto simp: randomBytes_def split: prod.splits sum.splits dest: rand_drawn)

lemma fresh_after: "sameTree w w' \<Longrightarrow> drawn w' = drawn w + n \<Longrightarrow>
    fresh w' m = map (entropy w) [drawn w + n..<drawn w + n + m]"
  by (simp add: fresh_def sameTree_def sameEnv_def)

section \<open>Text forms\<close>

lemma hexDecode_Encode: "hexDecode (hexEncode s) = Some s"
proof (induction s)
  case (Cons c s)
  have "char_of (16 * (byte c div 16) + byte c mod 16) = c"
    by (simp add: byte_char)
  then show ?case using Cons hexDigit_val [of "byte c div 16"] hexDigit_val [of "byte c mod 16"] hexByte_parts [of c]
    by (simp add: hexEncode_def hexByte_def)
qed (simp add: hexEncode_def)

lemma hexEncode_length [simp]: "length (hexEncode s) = 2 * length s"
  by (induction s) (simp_all add: hexEncode_def hexByte_def)

lemma hexEncode_append: "hexEncode (a @ b) = hexEncode a @ hexEncode b"
  by (simp add: hexEncode_def)

lemma hexDigits_in: "i < 16 \<Longrightarrow> hexDigits ! i \<in> set hexDigits"
  by (rule nth_mem) (simp add: hexDigits_def)

lemma hexText_chars: "set (hexEncode s) \<subseteq> set hexDigits"
  using hexDigits_in hexByte_parts by (auto simp: hexEncode_def hexByte_def)

lemma hexDigits_no_hyphen: "CHR ''-'' \<notin> set hexDigits"
  by (simp add: hexDigits_def)

lemma runes_ascii: "list_all (\<lambda>c. byte c < 128) s \<Longrightarrow> runeCount s = length s"
proof (induction s)
  case (Cons c s)
  then show ?case using decodeRune_ascii [of c s] by (simp add: runeCount_def)
qed (simp add: runeCount_def)

lemma b64_ascii: "list_all (\<lambda>c. byte c < 128) (b64Encode s)"
  using b64Alphabet_free [OF b64Encode_chars]
  by (force simp: list_all_iff isLowerAZ_def isUpperAZ_def isDigit_def byte_def)

text \<open>Trimming keeps a printable text and takes a newline off its end.\<close>

definition graphic :: "char \<Rightarrow> bool" where
  "graphic c = (33 \<le> byte c \<and> byte c \<le> 126)"

lemma spaceLen_graphic:
  assumes "graphic c" "encs = spaceEncodings \<or> encs = map rev spaceEncodings"
  shows "spaceLen encs (c # s) = 0"
proof -
  have "\<not> hasPrefix (c # s) e" if "e \<in> set encs" for e
  proof -
    have "list_all (\<lambda>e. e \<noteq> [] \<and> \<not> graphic (hd e)) (spaceEncodings @ map rev spaceEncodings)" by code_simp
    then have "e \<noteq> []" "\<not> graphic (hd e)" using that assms(2) by (auto simp: list_all_iff)
    then show ?thesis using assms(1) by (cases e) (auto simp: hasPrefix_def)
  qed
  then show ?thesis by (auto simp: spaceLen_def find_None_iff split: option.splits) (auto simp: find_Some_iff)
qed

lemma trimLeft_graphic:
  "graphic c \<Longrightarrow> trimLeftWith spaceEncodings (c # s) = c # s"
  "graphic c \<Longrightarrow> trimLeftWith (map rev spaceEncodings) (c # s) = c # s"
  by (subst trimLeftWith.simps, simp add: spaceLen_graphic)+

lemma graphic_newline:
  "trimLeftWith (map rev spaceEncodings) (CHR 0x0A # s) = trimLeftWith (map rev spaceEncodings) s"
proof -
  have "spaceLen (map rev spaceEncodings) (CHR 0x0A # s) = 1"
    by (simp add: spaceLen_def spaceEncodings_def hasPrefix_def)
  then show ?thesis by (subst trimLeftWith.simps) simp
qed

lemma trimSpace_graphic:
  assumes "s \<noteq> []" "\<forall>c \<in> set s. graphic c"
  shows "trimSpace s = s" "trimSpace (s @ nl) = s"
proof -
  obtain a t where s: "s = a # t" using assms(1) by (cases s) auto
  obtain b u where r: "rev s = b # u" using assms(1) by (cases "rev s") auto
  have "b \<in> set (rev s)" by (simp add: r)
  then have g: "graphic a" "graphic b" using assms(2) s by auto
  have "trimLeftWith spaceEncodings s = s" "trimLeftWith spaceEncodings (s @ nl) = s @ nl"
    using trimLeft_graphic(1) [OF g(1)] by (simp_all add: s)
  moreover have "trimLeftWith (map rev spaceEncodings) (rev s) = rev s"
    using trimLeft_graphic(2) [OF g(2)] by (simp add: r)
  ultimately show "trimSpace s = s" "trimSpace (s @ nl) = s"
    by (simp_all add: trimSpace_def nl_def graphic_newline)
qed

lemma b64_graphic: "\<forall>c \<in> set (b64Encode s). graphic c"
  using b64Alphabet_free [OF b64Encode_chars]
  by (force simp: graphic_def isLowerAZ_def isUpperAZ_def isDigit_def byte_def)

text \<open>A written key file stores the key.\<close>

lemma key_file: "length raw = 32 \<Longrightarrow> storesKey (b64Encode raw @ nl) (b64Encode raw)"
proof -
  assume l: "length raw = 32"
  then have "length (b64Encode raw) = 43" by (simp add: length_b64Encode)
  moreover from this have "trimSpace (b64Encode raw @ nl) = b64Encode raw"
    by (intro trimSpace_graphic b64_graphic) auto
  ultimately show ?thesis using l by (simp add: storesKey_def b64Decode_Encode nl_def)
qed

section \<open>UUIDs\<close>

lemma length_slice [simp]: "length v = 16 \<Longrightarrow> b \<le> 16 \<Longrightarrow> length (slice a b v) = b - a"
  by (simp add: slice_def)

lemma slice_join: "a \<le> b \<Longrightarrow> b \<le> c \<Longrightarrow> slice a b v @ slice b c v = slice a c v"
  using take_add [of "b - a" "c - b" "drop a v"] by (simp add: slice_def)

lemma hd_slice: "a < b \<Longrightarrow> a < length v \<Longrightarrow> hd (slice a b v) = v ! a"
  by (simp add: slice_def hd_drop_conv_nth)

lemma hex_first: "s \<noteq> [] \<Longrightarrow> hexEncode s ! 0 = hexDigits ! (byte (hd s) div 16)"
  by (cases s) (simp_all add: hexEncode_def hexByte_def)

lemma uuid_groups:
  "splitOn (CHR ''-'') (uuidText v) =
     [hexEncode (slice 0 4 v), hexEncode (slice 4 6 v), hexEncode (slice 6 8 v),
      hexEncode (slice 8 10 v), hexEncode (slice 10 16 v)]"
proof -
  have "CHR ''-'' \<notin> set (hexEncode s)" for s using hexText_chars hexDigits_no_hyphen by blast
  then show ?thesis by (simp add: uuidText_def splitOn_append splitOn_none)
qed

lemma uuid_canonical: "length v = 16 \<Longrightarrow> canonicalUUID (uuidText v)"
proof -
  assume v: "length v = 16"
  have "hexVal c \<noteq> None" if c: "c \<in> set (hexEncode s)" for c s
  proof -
    have "c \<in> set hexDigits" using c hexText_chars by blast
    moreover have "list_all (\<lambda>c. hexVal c \<noteq> None) hexDigits" by code_simp
    ultimately show ?thesis by (simp add: list_all_iff)
  qed
  then show ?thesis using v by (auto simp: canonicalUUID_def uuid_groups)
qed

lemma uuid_bytes: "length v = 16 \<Longrightarrow> hexDecode (concat (splitOn (CHR ''-'') (uuidText v))) = Some v"
  by (simp add: uuid_groups hexEncode_append [symmetric] slice_join hexDecode_Encode) (simp add: slice_def)

lemma uuid_nibbles:
  assumes "length v = 16"
  shows "uuidText v ! 14 = hexDigits ! (byte (v ! 6) div 16)"
    "uuidText v ! 19 = hexDigits ! (byte (v ! 8) div 16)"
proof -
  have s: "slice 6 8 v \<noteq> []" "slice 8 10 v \<noteq> []" using assms by (auto simp: slice_def)
  show "uuidText v ! 14 = hexDigits ! (byte (v ! 6) div 16)"
    "uuidText v ! 19 = hexDigits ! (byte (v ! 8) div 16)"
    using assms hex_first [OF s(1)] hex_first [OF s(2)]
    by (simp_all add: uuidText_def nth_append hd_slice)
qed

text \<open>The two masks fix the version and the variant and keep the other 122 bits.\<close>



lemma low_bits: "and n (15 :: nat) = n mod 16" "and n (63 :: nat) = n mod 64"
  using take_bit_eq_mask [of 4 n] take_bit_eq_mask [of 6 n] by (simp_all add: take_bit_eq_mod mask_eq_exp_minus_1)

lemma top_bits: "m < 64 \<Longrightarrow> or m 64 = m + (64 :: nat)" "m < 128 \<Longrightarrow> or m 128 = m + (128 :: nat)"
  using set_bit_eq_or [of 6 m] set_bit_eq [of 6 m] set_bit_eq_or [of 7 m] set_bit_eq [of 7 m]
  by (simp_all add: bit_iff_odd push_bit_eq_mult)

lemma mask_bytes:
  "byte (char_of (or (and (byte c) 0x0f) 0x40)) div 16 = 4"
  "byte (char_of (or (and (byte c) 0x3f) 0x80)) div 16 \<in> {8, 9, 10, 11}"
  "and (byte (char_of (or (and (byte c) 0x0f) 0x40))) 0x0f = and (byte c) (0x0f :: nat)"
  "and (byte (char_of (or (and (byte c) 0x3f) 0x80))) 0x3f = and (byte c) (0x3f :: nat)"
proof -
  define a b where "a = byte c mod 16" and "b = byte c mod 64"
  have r: "a < 16" "b < 64" by (simp_all add: a_def b_def)
  have e: "byte (char_of (or (and (byte c) 0x0f) 0x40)) = a + 64" "byte (char_of (or (and (byte c) 0x3f) 0x80)) = b + 128"
    using r by (simp_all add: low_bits top_bits byte_def [of "char_of _"] flip: a_def b_def)
  have "(a + 64) div 16 = 4" "(b + 128) div 16 = b div 16 + 8" "b div 16 < 4"
    "(a + 64) mod 16 = a" "(b + 128) mod 64 = b"
    using r mod_mult_self1 [of a 4 16] mod_mult_self1 [of b 2 64] by simp_all
  moreover have "b div 16 + 8 \<in> {8, 9, 10, 11}" using \<open>b div 16 < 4\<close> by auto
  ultimately show "byte (char_of (or (and (byte c) 0x0f) 0x40)) div 16 = 4"
    "byte (char_of (or (and (byte c) 0x3f) 0x80)) div 16 \<in> {8, 9, 10, 11}"
    "and (byte (char_of (or (and (byte c) 0x0f) 0x40))) 0x0f = and (byte c) (0x0f :: nat)"
    "and (byte (char_of (or (and (byte c) 0x3f) 0x80))) 0x3f = and (byte c) (0x3f :: nat)"
    by (simp_all only: e) (simp_all add: low_bits flip: a_def b_def)
qed

lemma UUIDv4_result:
  assumes "UUIDv4 w = (Inr u, w')"
  shows "sameTree w w' \<and> drawn w' = drawn w + 16 \<and>
    (\<exists>v. u = uuidText v \<and> v = maskByte 8 0x3f 0x80 (maskByte 6 0x0f 0x40 (fresh w 16)))"
  using assms by (auto simp: UUIDv4_def Let_def split: prod.splits sum.splits dest: randomBytes_drawn)

lemma masked:
  assumes "v = maskByte 8 0x3f 0x80 (maskByte 6 0x0f 0x40 r)" "length r = 16"
  shows "length v = 16" "byte (v ! 6) div 16 = 4" "byte (v ! 8) div 16 \<in> {8, 9, 10, 11}"
    "\<And>i. i \<noteq> 6 \<Longrightarrow> i \<noteq> 8 \<Longrightarrow> v ! i = r ! i"
    "and (byte (v ! 6)) 0x0f = and (byte (r ! 6)) 0x0f" "and (byte (v ! 8)) 0x3f = and (byte (r ! 8)) 0x3f"
  using assms mask_bytes by (auto simp: maskByte_def)

definition variantDigit :: "char \<Rightarrow> bool" where
  "variantDigit c = (c \<in> set ''89ab'')"

lemma uuid_version:
  assumes "v = maskByte 8 0x3f 0x80 (maskByte 6 0x0f 0x40 r)" "length r = 16"
  shows "validUUID (uuidText v) \<and> uuidText v ! 14 = CHR ''4'' \<and> variantDigit (uuidText v ! 19)"
proof -
  note m = masked [OF assms]
  have "hexDigits ! n \<in> set ''89ab''" if "n \<in> {8, 9, 10, 11}" for n
    using that by (auto simp: hexDigits_def)
  then show ?thesis
    using canonicalUUID_valid [OF uuid_canonical [OF m(1)]] uuid_nibbles [OF m(1)] m(2,3)
    by (simp add: hexDigits_def variantDigit_def)
qed

section \<open>Names\<close>

lemma sanLabel_dns: "sanLabel = dnsLabel"
  by (rule ext) (auto simp: sanLabel_def dnsLabel_def dnsRune_def list_all_iff)

lemma validSAN_names: "validSAN v \<longleftrightarrow> parseIP v \<noteq> None \<or> validDNSName v"
  by (auto simp: validSAN_def validDNSName_def sanLabel_dns Let_def)

section \<open>Certificates\<close>

text \<open>The parts of a successful run.\<close>

lemma SelfSigned_result:
  assumes "SelfSignedCertificate L san now w = (Inr c, w')"
  shows "sameTree w w' \<and> validSAN san \<and>
    (\<exists>key serial nonce der pkcs8.
       cl_ecdsaKey L (fresh w (cl_keyRandom L)) = Inr key \<and>
       cl_createCertificate L (certificateTemplate san now serial) key nonce = Inr der \<and>
       cl_marshalPKCS8 L key = Inr pkcs8 \<and> length serial = 16 \<and>
       CertificatePEM c = pemEncode ''CERTIFICATE'' der \<and>
       PrivateKeyPEM c = pemEncode ''PRIVATE KEY'' pkcs8)"
proof -
  obtain r1 w1 where s1: "sys_rand (cl_keyRandom L) w = (r1, w1)" by fastforce
  obtain r2 w2 where s2: "randomBytes 16 w1 = (r2, w2)" by fastforce
  obtain r3 w3 where s3: "sys_rand (cl_signRandom L) w2 = (r3, w3)" by fastforce
  note run = assms [unfolded SelfSignedCertificate_def] s1 s2 s3
  obtain seed serial nonce where r: "r1 = Inr seed" "r2 = Inr serial" "r3 = Inr nonce"
    using run by (auto split: if_splits sum.splits)
  have t: "sameTree w w1" "sameTree w1 w2" "sameTree w2 w3"
    using rand_same [OF s1] randomBytes_same [OF s2] rand_same [OF s3] by auto
  have l: "length serial = 16" "seed = fresh w (cl_keyRandom L)"
    using randomBytes_drawn [of 16 w1 serial w2] s2 r(2) rand_drawn(1) s1 r(1) by auto
  obtain key der pkcs8 where c: "validSAN san" "cl_ecdsaKey L seed = Inr key"
    "cl_createCertificate L (certificateTemplate san now serial) key nonce = Inr der"
    "cl_marshalPKCS8 L key = Inr pkcs8" "w3 = w'"
    "c = \<lparr>CertificatePEM = pemEncode ''CERTIFICATE'' der, PrivateKeyPEM = pemEncode ''PRIVATE KEY'' pkcs8\<rparr>"
    using run r by (auto split: if_splits sum.splits)
  then show ?thesis using l sameTree_trans [OF t(1) sameTree_trans [OF t(2,3)]] by auto
qed

lemma SelfSigned_same: "SelfSignedCertificate L san now w = (r, w') \<Longrightarrow> sameTree w w'"
  by (auto simp: SelfSignedCertificate_def split: if_splits prod.splits sum.splits
      dest!: rand_same randomBytes_same intro: sameTree_trans)

lemma pemTypes: "pemType ''CERTIFICATE''" "pemType ''PRIVATE KEY''"
  by (simp_all add: pemType_def isUpperAZ_def byte_def)

section \<open>Runs without failing calls\<close>

lemma randomBytes_quiet: "quiet w \<Longrightarrow> \<exists>w'. randomBytes n w = (Inr (fresh w n), w') \<and> quiet w'"
  using rand_quiet [of w n] by (auto simp: randomBytes_def)

lemma Password_quiet: "quiet w \<Longrightarrow> \<exists>w'. Password w = (Inr (b64Encode (fresh w 32)), w') \<and> quiet w'"
  using randomBytes_quiet [of w 32] by (auto simp: Password_def)

lemma ShortID_quiet: "quiet w \<Longrightarrow> \<exists>w'. ShortID w = (Inr (hexEncode (fresh w 8)), w') \<and> quiet w'"
  using randomBytes_quiet [of w 8] by (auto simp: ShortID_def)

lemma UUIDv4_quiet: "quiet w \<Longrightarrow> \<exists>u w'. UUIDv4 w = (Inr u, w') \<and> quiet w'"
  using randomBytes_quiet [of w 16] by (auto simp: UUIDv4_def Let_def)

lemma RealityKeys_quiet: "quiet w \<Longrightarrow> \<exists>k w'. RealityKeys L w = (Inr k, w') \<and> quiet w'"
  using rand_quiet [of w 32] by (auto simp: RealityKeys_def)

section \<open>Properties\<close>

text \<open>The bytes at a distance from where a run starts to draw.\<close>

definition randomAt :: "world \<Rightarrow> nat \<Rightarrow> nat \<Rightarrow> string" where
  "randomAt w a n = map (entropy w) [drawn w + a..<drawn w + a + n]"

lemma fresh_at: "sameTree w w' \<Longrightarrow> drawn w' = drawn w + a \<Longrightarrow> fresh w' n = randomAt w a n"
  by (simp add: fresh_def randomAt_def sameTree_def sameEnv_def)

lemma Password_result:
  "Password w = (Inr p, w') \<Longrightarrow> p = b64Encode (fresh w 32) \<and> drawn w' = drawn w + 32 \<and> sameTree w w'"
  by (auto simp: Password_def split: prod.splits sum.splits dest: randomBytes_drawn)

lemma ShortID_result:
  "ShortID w = (Inr s, w') \<Longrightarrow> s = hexEncode (fresh w 8) \<and> drawn w' = drawn w + 8 \<and> sameTree w w'"
  by (auto simp: ShortID_def split: prod.splits sum.splits dest: randomBytes_drawn)

lemma RealityKeys_result:
  "RealityKeys L w = (Inr k, w') \<Longrightarrow>
     rk_Private k = b64Encode (fresh w 32) \<and> rk_Public k = b64Encode (cl_x25519 L (fresh w 32)) \<and>
     drawn w' = drawn w + 32 \<and> sameTree w w'"
  by (auto simp: RealityKeys_def split: prod.splits sum.splits dest: rand_drawn)

text \<open>
  Claim C28. Credentials generated one after the other come from consecutive, never reused
  bytes of the random source and carry all of them: a password is the unpadded Base64 text of
  32 bytes (43 characters), a short ID the hexadecimal text of 8 bytes, a UUID a canonical
  version 4 UUID whose remaining 122 bits are random, a Reality key pair the Base64 text of
  32 bytes and of its X25519 public key. The key file written from it is accepted by the
  validation. No file changes.
\<close>

theorem generated_credentials:
  assumes "Password w = (Inr p, w1)" "ShortID w1 = (Inr s, w2)" "UUIDv4 w2 = (Inr u, w3)"
    "RealityKeys L w3 = (Inr k, w4)"
  shows "sameTree w w4 \<and> drawn w4 = drawn w + 88 \<and>
    b64Decode p = Some (randomAt w 0 32) \<and> length p = 43 \<and> 16 \<le> runeCount p \<and>
    hexDecode s = Some (randomAt w 32 8) \<and> length s = 16 \<and>
    validUUID u \<and> u ! 14 = CHR ''4'' \<and> variantDigit (u ! 19) \<and>
    (\<exists>v. hexDecode (concat (splitOn (CHR ''-'') u)) = Some v \<and>
       (\<forall>i. i \<noteq> 6 \<longrightarrow> i \<noteq> 8 \<longrightarrow> v ! i = randomAt w 40 16 ! i) \<and>
       and (byte (v ! 6)) 0x0f = and (byte (randomAt w 40 16 ! 6)) 0x0f \<and>
       and (byte (v ! 8)) 0x3f = and (byte (randomAt w 40 16 ! 8)) 0x3f) \<and>
    b64Decode (rk_Private k) = Some (randomAt w 56 32) \<and>
    b64Decode (rk_Public k) = Some (cl_x25519 L (randomAt w 56 32)) \<and>
    storesKey (rk_Private k @ nl) (rk_Private k)"
proof -
  note p = Password_result [OF assms(1)] and s = ShortID_result [OF assms(2)]
    and u = UUIDv4_result [OF assms(3)] and k = RealityKeys_result [OF assms(4)]
  have t: "sameTree w w1" "sameTree w w2" "sameTree w w3" "sameTree w w4"
    using p s u k sameTree_trans by blast+
  have f: "fresh w 32 = randomAt w 0 32" "fresh w1 8 = randomAt w 32 8" "fresh w2 16 = randomAt w 40 16"
    "fresh w3 32 = randomAt w 56 32"
    using p s u fresh_at [of w w 0] t by (auto intro!: fresh_at)
  obtain v where v: "u = uuidText v" "v = maskByte 8 0x3f 0x80 (maskByte 6 0x0f 0x40 (randomAt w 40 16))"
    using u f(3) by auto
  have l: "length (randomAt w 40 16) = 16" "length (randomAt w 0 32) = 32" "length (randomAt w 32 8) = 8"
    "length (randomAt w 56 32) = 32" by (simp_all add: randomAt_def)
  note m = masked [OF v(2) l(1)] and uv = uuid_version [OF v(2) l(1)] and ub = uuid_bytes [OF m(1)]
  have pw: "length p = 43" "runeCount p = length p" "b64Decode p = Some (randomAt w 0 32)"
    using p f(1) l(2) runes_ascii [OF b64_ascii] by (simp_all add: length_b64Encode b64Decode_Encode)
  have "\<exists>v. hexDecode (concat (splitOn (CHR ''-'') u)) = Some v \<and>
       (\<forall>i. i \<noteq> 6 \<longrightarrow> i \<noteq> 8 \<longrightarrow> v ! i = randomAt w 40 16 ! i) \<and>
       and (byte (v ! 6)) 0x0f = and (byte (randomAt w 40 16 ! 6)) 0x0f \<and>
       and (byte (v ! 8)) 0x3f = and (byte (randomAt w 40 16 ! 8)) 0x3f"
    using ub m(4-6) v(1) by blast
  moreover have "hexDecode s = Some (randomAt w 32 8) \<and> length s = 16"
    using s f(2) l(3) by (simp add: hexDecode_Encode)
  moreover have "b64Decode (rk_Private k) = Some (randomAt w 56 32)"
    "b64Decode (rk_Public k) = Some (cl_x25519 L (randomAt w 56 32))"
    "storesKey (rk_Private k @ nl) (rk_Private k)"
    using k f(4) l(4) key_file by (simp_all add: b64Decode_Encode)
  moreover have "drawn w4 = drawn w + 88" using p s u k by simp
  ultimately show ?thesis using t pw uv v(1) by auto
qed

lemma bytesValue_less: "bytesValue v < 256 ^ length v"
proof (induction v rule: rev_induct)
  case (snoc c v)
  then have "bytesValue v * 256 + byte c < 256 ^ length v * 256"
    using byte_less [of c] by linarith
  then show ?case by (simp add: bytesValue_def mult.commute)
qed (simp add: bytesValue_def)

lemma serial_range: "length v = 16 \<Longrightarrow> 1 \<le> serialOf v \<and> serialOf v < 2 ^ 128"
  using bytesValue_less [of v] by (simp add: serialOf_def)

text \<open>
  Claim C29. A generated certificate is issued only for an IP literal or a valid DNS name; its
  two PEM texts hold, as their only blocks, the certificate that X.509 made of the template and
  the PKCS#8 form of the key the certificate was made with. The template names the requested
  subject alternative name and nothing else, has a serial number in 1 to 2^128 - 1 and is valid
  from 5 minutes before to 365 days after the clock reading. No file changes.
\<close>

theorem generated_certificate:
  assumes "SelfSignedCertificate L san now w = (Inr c, w')"
  shows "sameTree w w' \<and> (parseIP san \<noteq> None \<or> validDNSName san) \<and>
    (\<exists>key t nonce der pkcs8.
       cl_createCertificate L t key nonce = Inr der \<and> cl_marshalPKCS8 L key = Inr pkcs8 \<and>
       pemDecode (CertificatePEM c) = Some (''CERTIFICATE'', der, []) \<and>
       pemDecode (PrivateKeyPEM c) = Some (''PRIVATE KEY'', pkcs8, []) \<and>
       (case parseIP san of
          Some a \<Rightarrow> ct_IPAddresses t = [ipBytes a] \<and> ct_DNSNames t = []
        | None \<Rightarrow> ct_IPAddresses t = [] \<and> ct_DNSNames t = [trimSuffix san ''.'']) \<and>
       1 \<le> ct_SerialNumber t \<and> ct_SerialNumber t < 2 ^ 128 \<and>
       ct_NotBefore t = (now, - 300 * 1000000000) \<and> ct_NotAfter t = (now, 31536000 * 1000000000))"
proof -
  note r = SelfSigned_result [OF assms]
  obtain key serial nonce der pkcs8 where g:
    "cl_createCertificate L (certificateTemplate san now serial) key nonce = Inr der"
    "cl_marshalPKCS8 L key = Inr pkcs8" "length serial = 16"
    "CertificatePEM c = pemEncode ''CERTIFICATE'' der" "PrivateKeyPEM c = pemEncode ''PRIVATE KEY'' pkcs8"
    using r by blast
  let ?t = "certificateTemplate san now serial"
  have "case parseIP san of
          Some a \<Rightarrow> ct_IPAddresses ?t = [ipBytes a] \<and> ct_DNSNames ?t = []
        | None \<Rightarrow> ct_IPAddresses ?t = [] \<and> ct_DNSNames ?t = [trimSuffix san ''.'']"
    "ct_SerialNumber ?t = serialOf serial"
    "ct_NotBefore ?t = (now, - 300 * 1000000000)" "ct_NotAfter ?t = (now, 31536000 * 1000000000)"
    by (simp_all add: certificateTemplate_def nanosPerMinute_def split: option.splits)
  moreover have "sameTree w w'" "parseIP san \<noteq> None \<or> validDNSName san"
    using r by (simp_all add: validSAN_names)
  moreover have "pemDecode (CertificatePEM c) = Some (''CERTIFICATE'', der, [])"
    "pemDecode (PrivateKeyPEM c) = Some (''PRIVATE KEY'', pkcs8, [])"
    using g(4,5) pemDecode_Encode pemTypes by simp_all
  ultimately show ?thesis using g(1,2) serial_range [OF g(3)] by metis
qed

section \<open>A sample library\<close>

text \<open>
  Concrete functions for the parameters: a certificate is the text of its first name behind a
  letter that tells the two kinds of names apart.
\<close>

definition sampleLib :: cryptoLib where
  "sampleLib =
     \<lparr>cl_keyRandom = 4, cl_ecdsaKey = (\<lambda>seed. Inr seed), cl_signRandom = 4,
      cl_createCertificate = (\<lambda>t key nonce.
        Inr (case ct_DNSNames t of n # _ \<Rightarrow> CHR ''D'' # n | [] \<Rightarrow> CHR ''I'' # concat (take 1 (ct_IPAddresses t)))),
      cl_marshalPKCS8 = (\<lambda>key. Inr key),
      cl_parseCertificate = (\<lambda>der.
        case der of
          [] \<Rightarrow> Inl (Errorf ''x509: malformed certificate'')
        | c # n \<Rightarrow> Inr \<lparr>pc_Raw = der, pc_DNSNames = (if c = CHR ''D'' then [n] else []),
                         pc_IPAddresses = (if c = CHR ''I'' then [n] else [])\<rparr>),
      cl_keyPair = (\<lambda>cert key. cert \<noteq> [] \<and> key \<noteq> []),
      cl_sha256 = (\<lambda>s. take 32 (s @ replicate 32 (CHR 0x00))), cl_x25519 = (\<lambda>k. rev k),
      cl_base64Error = (\<lambda>s. ''illegal base64 data'')\<rparr>"

lemma generated_credentials_witness:
  "\<exists>p w1 s w2 u w3 k w4. Password outWorld = (Inr p, w1) \<and> ShortID w1 = (Inr s, w2) \<and>
     UUIDv4 w2 = (Inr u, w3) \<and> RealityKeys sampleLib w3 = (Inr k, w4) \<and>
     validUUID u \<and> u ! 14 = CHR ''4'' \<and> b64Decode p = Some (randomAt outWorld 0 32)"
proof -
  have q: "quiet outWorld" by (simp add: quiet_def)
  obtain w1 where 1: "Password outWorld = (Inr (b64Encode (fresh outWorld 32)), w1)" "quiet w1"
    using Password_quiet [OF q] by blast
  obtain w2 where 2: "ShortID w1 = (Inr (hexEncode (fresh w1 8)), w2)" "quiet w2"
    using ShortID_quiet [OF 1(2)] by blast
  obtain u w3 where 3: "UUIDv4 w2 = (Inr u, w3)" "quiet w3" using UUIDv4_quiet [OF 2(2)] by blast
  obtain k w4 where 4: "RealityKeys sampleLib w3 = (Inr k, w4)" using RealityKeys_quiet [OF 3(2)] by blast
  show ?thesis using generated_credentials [OF 1(1) 2(1) 3(1) 4] 1 2 3 4 by blast
qed

lemma generated_certificate_witness:
  "\<exists>c w' der. SelfSignedCertificate sampleLib ''vpn.example.com'' epoch outWorld = (Inr c, w') \<and>
     pemDecode (CertificatePEM c) = Some (''CERTIFICATE'', der, [])"
proof -
  have "is_ok (fst (SelfSignedCertificate sampleLib ''vpn.example.com'' epoch outWorld))" by code_simp
  then obtain c w' where "SelfSignedCertificate sampleLib ''vpn.example.com'' epoch outWorld = (Inr c, w')"
    by (metis is_ok_iff prod.collapse)
  then show ?thesis using generated_certificate by blast
qed

end
