(* ===== verification/Share.thy ===== *)
theory Share
  imports Url SecretProps JsonDecode AtomicWrite
begin

text \<open>
  internal/app/share.go with the client records of generate.go: the checks of a public address,
  the fingerprint of a certificate, the delivery files with their share links, and the public
  ports. A pointer that may be nil is an \<open>option\<close>; the functions that fill fields of the client
  through a pointer return the changed client.
\<close>

section \<open>What a client needs\<close>

record vlessClientInfo =
  vc_Port :: int
  vc_UUID :: string
  vc_PublicKey :: string
  vc_ShortID :: string
  vc_ServerName :: string
  vc_ShareURI :: string

record passwordClientInfo =
  pc_Port :: int
  pc_Password :: string
  pc_TLSSAN :: string
  pc_CertSHA :: string
  pc_SingBoxOutboundFile :: string
  pc_MihomoProxyFile :: string
  pc_V2RayNShareFile :: string
  pc_V2RayNShareURI :: string
  pc_ShareURI :: string
  pc_CertificatePEM :: string

record clientInfo =
  ci_SchemaVersion :: int
  ci_PublicAddress :: string
  ci_VLESSReality :: "vlessClientInfo option"
  ci_Hysteria2 :: "passwordClientInfo option"
  ci_AnyTLS :: "passwordClientInfo option"

text \<open>The documents \<open>json.MarshalIndent\<close> writes for them.\<close>

definition vlessClientJson :: "vlessClientInfo \<Rightarrow> json" where
  "vlessClientJson v = JObj
     (jsonField ''port'' (jsonInt (vc_Port v)) @ jsonField ''uuid'' (jsonString (vc_UUID v)) @
      jsonField ''public_key'' (jsonString (vc_PublicKey v)) @
      jsonField ''short_id'' (jsonString (vc_ShortID v)) @
      jsonField ''server_name'' (jsonString (vc_ServerName v)) @
      omitEmptyString ''share_uri'' (vc_ShareURI v))"

definition passwordClientJson :: "passwordClientInfo \<Rightarrow> json" where
  "passwordClientJson p = JObj
     (jsonField ''port'' (jsonInt (pc_Port p)) @ jsonField ''password'' (jsonString (pc_Password p)) @
      jsonField ''tls_san'' (jsonString (pc_TLSSAN p)) @
      omitEmptyString ''certificate_sha256'' (pc_CertSHA p) @
      omitEmptyString ''sing_box_outbound_file'' (pc_SingBoxOutboundFile p) @
      omitEmptyString ''mihomo_proxy_file'' (pc_MihomoProxyFile p) @
      omitEmptyString ''v2rayn_share_file'' (pc_V2RayNShareFile p) @
      omitEmptyString ''v2rayn_share_uri'' (pc_V2RayNShareURI p) @
      omitEmptyString ''share_uri'' (pc_ShareURI p))"

definition clientJson :: "clientInfo \<Rightarrow> json" where
  "clientJson c = JObj
     (jsonField ''schema_version'' (jsonInt (ci_SchemaVersion c)) @
      omitEmptyString ''public_address'' (ci_PublicAddress c) @
      omitNil ''vless_reality'' vlessClientJson (ci_VLESSReality c) @
      omitNil ''hysteria2'' passwordClientJson (ci_Hysteria2 c) @
      omitNil ''anytls'' passwordClientJson (ci_AnyTLS c))"

definition clientText :: "clientInfo \<Rightarrow> string" where
  "clientText c = pretty 0 (clientJson c) @ nl"

section \<open>Checks\<close>

definition generateLabel :: "string \<Rightarrow> bool" where
  "generateLabel l =
     (if l = [] \<or> length l > 63 \<or> hd l = CHR ''-'' \<or> last l = CHR ''-'' then False
      else list_all (\<lambda>ch. \<not> ((ch < 97 \<or> ch > 122) \<and> (ch < 65 \<or> ch > 90) \<and> (ch < 48 \<or> ch > 57) \<and> ch \<noteq> 45))
             (runes l))"

definition validGenerateDNSName :: "string \<Rightarrow> bool" where
  "validGenerateDNSName value =
     (let v = trimSuffix value ''.'' in
      if v = [] \<or> length v > 253 then False
      else list_all generateLabel (splitOn (CHR ''.'') v))"

definition addressError :: error where
  "addressError = Errorf ''public-address: must be a DNS name or IP address without a port''"

definition validatePublicAddress :: "string \<Rightarrow> unit res" where
  "validatePublicAddress value =
     (if value = [] \<or> trimSpace value \<noteq> value then Inl addressError
      else if parseIP value = None \<and> \<not> validGenerateDNSName value then Inl addressError
      else Inr ())"

definition certificateFingerprintSHA256 :: "cryptoLib \<Rightarrow> string \<Rightarrow> string res" where
  "certificateFingerprintSHA256 L certificatePEM =
     (case pemDecode certificatePEM of
        None \<Rightarrow> Inl (Errorf ''generated TLS certificate is not one PEM certificate'')
      | Some (typ, b, rest) \<Rightarrow>
          if typ \<noteq> ''CERTIFICATE'' \<or> length (trimSpace rest) \<noteq> 0
          then Inl (Errorf ''generated TLS certificate is not one PEM certificate'')
          else (case cl_parseCertificate L b of
              Inl e \<Rightarrow> Inl (Wrap ''parse generated TLS certificate: '' e [])
            | Inr certificate \<Rightarrow> Inr (hexEncode (cl_sha256 L (pc_Raw certificate)))))"

section \<open>Links and files\<close>

definition shareURI ::
  "string \<Rightarrow> string \<Rightarrow> string \<Rightarrow> int \<Rightarrow> string \<Rightarrow> strmap \<Rightarrow> string \<Rightarrow> string" where
  "shareURI scheme credential address port path query label =
     urlString \<lparr>su_Scheme = scheme, su_User = credential, su_Host = joinHostPort address (itoa port),
       su_Path = path, su_RawQuery = queryText query, su_Fragment = label\<rparr>"

definition shareFile :: "string \<Rightarrow> string \<Rightarrow> outfile" where
  "shareFile name uri = \<lparr>fname = name, fdata = uri @ nl, fmode = o600\<rparr>"

definition yamlString :: "string \<Rightarrow> string" where
  "yamlString v = goQuote v"

text \<open>\<open>json.Marshal\<close>: the compact text of a document.\<close>

fun compact :: "json \<Rightarrow> string" where
  "compact JNull = ''null''"
| "compact (JBool b) = (if b then ''true'' else ''false'')"
| "compact (JNum n) = n"
| "compact (JStr raw) = quoted raw"
| "compact (JArr es) = ''['' @ joinWith '','' (map compact es) @ '']''"
| "compact (JObj ms) = ''{'' @ joinWith '','' (map (\<lambda>(k, v). quoted k @ '':'' @ compact v) ms) @ ''}''"

definition v2rayNProfile :: "string \<Rightarrow> passwordClientInfo \<Rightarrow> json" where
  "v2rayNProfile address client = JObj
     (jsonField ''ConfigType'' (jsonInt 11) @ jsonField ''CoreType'' (jsonInt 24) @
      jsonField ''ConfigVersion'' (jsonInt 4) @
      jsonField ''Remarks'' (jsonString ''mini-singbox AnyTLS'') @
      jsonField ''Address'' (jsonString address) @ jsonField ''Port'' (jsonInt (pc_Port client)) @
      jsonField ''Password'' (jsonString (pc_Password client)) @ jsonField ''Network'' (jsonString []) @
      jsonField ''StreamSecurity'' (jsonString ''tls'') @
      jsonField ''AllowInsecure'' (jsonString ''false'') @
      jsonField ''Sni'' (jsonString (pc_TLSSAN client)) @
      jsonField ''Fingerprint'' (jsonString ''chrome'') @
      jsonField ''Cert'' (jsonString (pc_CertificatePEM client)))"

definition buildV2RayNAnyTLSURI :: "string \<Rightarrow> passwordClientInfo \<Rightarrow> string" where
  "buildV2RayNAnyTLSURI address client =
     ''v2rayn://anytls/'' @ b64Encode (compact (v2rayNProfile address client))"

definition singBoxOutbound :: "string \<Rightarrow> passwordClientInfo \<Rightarrow> json" where
  "singBoxOutbound address client = JObj
     (jsonField ''type'' (jsonString ''anytls'') @ jsonField ''tag'' (jsonString ''mini-singbox-anytls'') @
      jsonField ''server'' (jsonString address) @ jsonField ''server_port'' (jsonInt (pc_Port client)) @
      jsonField ''password'' (jsonString (pc_Password client)) @
      jsonField ''tls'' (JObj
        (jsonField ''enabled'' (JBool True) @ jsonField ''server_name'' (jsonString (pc_TLSSAN client)) @
         jsonField ''certificate'' (JArr [jsonString (pc_CertificatePEM client)]))))"

definition mihomoText :: "string \<Rightarrow> passwordClientInfo \<Rightarrow> string" where
  "mihomoText address client =
     ''proxies:'' @ nl @ ''  - name: '' @ yamlString ''mini-singbox AnyTLS'' @ nl @
     ''    type: anytls'' @ nl @ ''    server: '' @ yamlString address @ nl @
     ''    port: '' @ itoa (pc_Port client) @ nl @
     ''    password: '' @ yamlString (pc_Password client) @ nl @
     ''    sni: '' @ yamlString (pc_TLSSAN client) @ nl @ ''    udp: true'' @ nl @
     ''    client-fingerprint: chrome'' @ nl @ ''    skip-cert-verify: true'' @ nl @
     ''    fingerprint: '' @ yamlString (pc_CertSHA client) @ nl"

text \<open>The three sections of \<open>buildDeliveryFiles\<close>: the changed record and its files.\<close>

definition realityQuery :: "vlessClientInfo \<Rightarrow> strmap" where
  "realityQuery v =
     [(''encryption'', ''none''), (''flow'', ''xtls-rprx-vision''), (''fp'', ''chrome''),
      (''pbk'', vc_PublicKey v), (''security'', ''reality''), (''sid'', vc_ShortID v),
      (''sni'', vc_ServerName v), (''type'', ''tcp'')]"

definition realityDelivery :: "string \<Rightarrow> vlessClientInfo \<Rightarrow> vlessClientInfo \<times> outfile list" where
  "realityDelivery address v =
     (let uri = shareURI ''vless'' (vc_UUID v) address (vc_Port v) [] (realityQuery v) ''mini-singbox Reality''
      in (v\<lparr>vc_ShareURI := uri\<rparr>, [shareFile ''share-reality.txt'' uri]))"

definition hysteria2Query :: "passwordClientInfo \<Rightarrow> strmap" where
  "hysteria2Query h = [(''insecure'', ''1''), (''pinSHA256'', pc_CertSHA h), (''sni'', pc_TLSSAN h)]"

definition hysteria2Delivery :: "string \<Rightarrow> passwordClientInfo \<Rightarrow> passwordClientInfo \<times> outfile list" where
  "hysteria2Delivery address h =
     (let uri = shareURI ''hysteria2'' (pc_Password h) address (pc_Port h) ''/'' (hysteria2Query h)
            ''mini-singbox Hysteria2''
      in (h\<lparr>pc_ShareURI := uri\<rparr>, [shareFile ''share-hysteria2.txt'' uri]))"

definition anytlsQuery :: "passwordClientInfo \<Rightarrow> strmap" where
  "anytlsQuery a = [(''insecure'', ''1''), (''sni'', pc_TLSSAN a)]"

definition anytlsDelivery ::
  "string \<Rightarrow> bool \<Rightarrow> passwordClientInfo \<Rightarrow> (passwordClientInfo \<times> outfile list) res" where
  "anytlsDelivery address allowInsecure a =
     (if pc_CertificatePEM a = []
      then Inl (Errorf ''cannot build authenticated AnyTLS client delivery without the server certificate'')
      else
        let outboundName = ''client-anytls-sing-box-outbound.json'';
            mihomoName = ''client-anytls-mihomo.yaml'';
            shareName = ''share-anytls-v2rayn.txt'';
            v2rayN = buildV2RayNAnyTLSURI address a;
            a1 = a\<lparr>pc_SingBoxOutboundFile := outboundName, pc_MihomoProxyFile := mihomoName,
                   pc_V2RayNShareFile := shareName, pc_V2RayNShareURI := v2rayN\<rparr>;
            files = [\<lparr>fname = outboundName, fdata = pretty 0 (singBoxOutbound address a) @ nl, fmode = o600\<rparr>,
                     \<lparr>fname = mihomoName, fdata = mihomoText address a, fmode = o600\<rparr>,
                     shareFile shareName v2rayN];
            uri = shareURI ''anytls'' (pc_Password a) address (pc_Port a) ''/'' (anytlsQuery a)
                    ''mini-singbox AnyTLS UNSAFE''
        in if allowInsecure
           then Inr (a1\<lparr>pc_ShareURI := uri\<rparr>, files @ [shareFile ''share-anytls.txt'' uri])
           else Inr (a1, files))"

definition buildDeliveryFiles :: "clientInfo \<Rightarrow> bool \<Rightarrow> (clientInfo \<times> outfile list) res" where
  "buildDeliveryFiles client allowInsecure =
     (let address = ci_PublicAddress client;
          (c1, files1) = (case ci_VLESSReality client of
              None \<Rightarrow> (client, [])
            | Some v \<Rightarrow> (let (v', fs) = realityDelivery address v in (client\<lparr>ci_VLESSReality := Some v'\<rparr>, fs)));
          (c2, files2) = (case ci_Hysteria2 client of
              None \<Rightarrow> (c1, files1)
            | Some h \<Rightarrow>
                (let (h', fs) = hysteria2Delivery address h in (c1\<lparr>ci_Hysteria2 := Some h'\<rparr>, files1 @ fs)))
      in case (case ci_AnyTLS client of
                 None \<Rightarrow> Inr (c2, files2)
               | Some a \<Rightarrow>
                   (case anytlsDelivery address allowInsecure a of
                      Inl e \<Rightarrow> Inl e
                    | Inr (a', fs) \<Rightarrow> Inr (c2\<lparr>ci_AnyTLS := Some a'\<rparr>, files2 @ fs))) of
           Inl e \<Rightarrow> Inl e
         | Inr (c3, files3) \<Rightarrow>
             if files3 = []
             then Inl (Errorf ''cannot build sharing files without an enabled protocol'')
             else Inr (c3, files3))"

section \<open>Public ports\<close>

definition resolvePublicPort :: "string \<Rightarrow> int \<Rightarrow> int \<Rightarrow> int res" where
  "resolvePublicPort name requested fallback =
     (if requested = 0 then Inr fallback
      else if requested < 1 \<or> requested > 65535
      then Inl (Errorf (name @ '': must be in range 1-65535''))
      else Inr requested)"

definition applyPublicPorts :: "clientInfo \<Rightarrow> int \<Rightarrow> int \<Rightarrow> int \<Rightarrow> clientInfo res" where
  "applyPublicPorts client realityPort hysteria2Port anyTLSPort =
     (case (case ci_VLESSReality client of
              None \<Rightarrow> Inr (client, [])
            | Some v \<Rightarrow>
                (case resolvePublicPort ''public-reality-port'' realityPort (vc_Port v) of
                   Inl e \<Rightarrow> Inl e
                 | Inr port \<Rightarrow>
                     Inr (client\<lparr>ci_VLESSReality := Some (v\<lparr>vc_Port := port\<rparr>)\<rparr>, [(port, ''Reality'')]))) of
        Inl e \<Rightarrow> Inl e
      | Inr (c1, tcpPorts) \<Rightarrow>
     (case (case ci_Hysteria2 c1 of
              None \<Rightarrow> Inr c1
            | Some h \<Rightarrow>
                (case resolvePublicPort ''public-hy2-port'' hysteria2Port (pc_Port h) of
                   Inl e \<Rightarrow> Inl e
                 | Inr port \<Rightarrow> Inr (c1\<lparr>ci_Hysteria2 := Some (h\<lparr>pc_Port := port\<rparr>)\<rparr>))) of
        Inl e \<Rightarrow> Inl e
      | Inr c2 \<Rightarrow>
     (case ci_AnyTLS c2 of
        None \<Rightarrow> Inr c2
      | Some a \<Rightarrow>
          (case resolvePublicPort ''public-anytls-port'' anyTLSPort (pc_Port a) of
             Inl e \<Rightarrow> Inl e
           | Inr port \<Rightarrow>
               (case map_of tcpPorts port of
                  Some previous \<Rightarrow>
                    Inl (Errorf (''public-anytls-port: port '' @ itoa port @ '' conflicts with '' @ previous @ '' TCP''))
                | None \<Rightarrow> Inr (c2\<lparr>ci_AnyTLS := Some (a\<lparr>pc_Port := port\<rparr>)\<rparr>))))))"

text \<open>Public ports and links: the client that is written and the delivery files.\<close>

definition deliveryOf ::
  "clientInfo \<Rightarrow> int \<Rightarrow> int \<Rightarrow> int \<Rightarrow> bool \<Rightarrow> (clientInfo \<times> outfile list) res" where
  "deliveryOf client realityPort hysteria2Port anytlsPort allowInsecure =
     (case applyPublicPorts client realityPort hysteria2Port anytlsPort of
        Inl e \<Rightarrow> Inl e
      | Inr client1 \<Rightarrow> buildDeliveryFiles client1 allowInsecure)"

end
