(* ===== verification/Generate.thy ===== *)
theory Generate
  imports Share ConfigFile WriteFilesSpec
begin

text \<open>
  internal/app/generate.go: checking the options, generating credentials, certificate and client
  records, writing the batch of files and verifying the written configuration. The stages of
  \<open>Generate\<close> between two calls on the world are definitions of their own.
\<close>

section \<open>Options\<close>

record GenerateOptions =
  go_Output :: string
  go_Protocols :: "string list"
  go_Listen :: string
  go_PublicAddress :: string
  go_RealityPort :: int
  go_Hysteria2Port :: int
  go_AnyTLSPort :: int
  go_PublicRealityPort :: int
  go_PublicHysteria2Port :: int
  go_PublicAnyTLSPort :: int
  go_RealityServerName :: string
  go_RealityHandshake :: string
  go_TLSSAN :: string
  go_AllowInsecureAnyTLSShare :: bool
  go_Force :: bool

record GenerateResult =
  gr_Files :: "string list"
  gr_ClientInfo :: string

text \<open>
  The loop of \<open>normalizeProtocols\<close> with the protocols seen so far. (The text of an unknown name
  is quoted with its letters outside ASCII as given.)
\<close>

fun normalizeFrom :: "string list \<Rightarrow> string list \<Rightarrow> string list res" where
  "normalizeFrom seen [] = Inr []"
| "normalizeFrom seen (p # ps) =
     (let protocol = toLower (trimSpace p) in
      if protocol \<noteq> ''reality'' \<and> protocol \<noteq> ''hy2'' \<and> protocol \<noteq> ''anytls''
      then Inl (Errorf (''protocols: unknown protocol '' @ goQuote protocol))
      else if protocol \<in> set seen
      then Inl (Errorf (''protocols: duplicate protocol '' @ goQuote protocol))
      else (case normalizeFrom (protocol # seen) ps of
          Inl e \<Rightarrow> Inl e | Inr result \<Rightarrow> Inr (protocol # result)))"

definition normalizeProtocols :: "string list \<Rightarrow> string list res" where
  "normalizeProtocols protocols =
     (if protocols = []
      then Inl (Errorf ''protocols: enable at least one of reality, hy2, anytls'')
      else normalizeFrom [] protocols)"

definition containsProtocol :: "string list \<Rightarrow> string \<Rightarrow> bool" where
  "containsProtocol protocols expected = list_ex (\<lambda>protocol. protocol = expected) protocols"

definition portOf :: "GenerateOptions \<Rightarrow> string \<Rightarrow> int" where
  "portOf options protocol =
     (if protocol = ''reality'' then go_RealityPort options
      else if protocol = ''hy2'' then go_Hysteria2Port options
      else if protocol = ''anytls'' then go_AnyTLSPort options
      else 0)"

fun checkPorts :: "GenerateOptions \<Rightarrow> (int \<times> string) list \<Rightarrow> string list \<Rightarrow> unit res" where
  "checkPorts options ports [] = Inr ()"
| "checkPorts options ports (protocol # rest) =
     (let port = portOf options protocol in
      if port < 1024 \<or> port > 65535
      then Inl (Errorf (protocol @ '' port: must be in range 1024-65535''))
      else (case map_of ports port of
          Some previous \<Rightarrow>
            Inl (Errorf (protocol @ '' port '' @ itoa port @ '' conflicts with '' @ previous))
        | None \<Rightarrow> checkPorts options (AList.update port protocol ports) rest))"

definition checkPublic :: "GenerateOptions \<Rightarrow> unit res" where
  "checkPublic options =
     (if go_PublicAddress options \<noteq> [] then validatePublicAddress (go_PublicAddress options)
      else if go_PublicRealityPort options \<noteq> 0 \<or> go_PublicHysteria2Port options \<noteq> 0 \<or>
              go_PublicAnyTLSPort options \<noteq> 0
      then Inl (Errorf ''public-address: is required when a public port is set'')
      else Inr ())"

text \<open>The checks before anything is generated, and the protocols they yield.\<close>

definition checkOptions :: "GenerateOptions \<Rightarrow> string list res" where
  "checkOptions options =
     (case normalizeProtocols (go_Protocols options) of
        Inl e \<Rightarrow> Inl e
      | Inr protocols \<Rightarrow>
          if parseAddr (go_Listen options) = None
          then Inl (Errorf ''listen: must be an IP address literal'')
          else (case checkPorts options [] protocols of
              Inl e \<Rightarrow> Inl e
            | Inr _ \<Rightarrow>
                (case checkPublic options of Inl e \<Rightarrow> Inl e | Inr _ \<Rightarrow> Inr protocols)))"

definition splitHandshake :: "string \<Rightarrow> (string \<times> int) res" where
  "splitHandshake v =
     (case splitHostPort v of
        None \<Rightarrow> Inl (Errorf ''reality-handshake: use HOST:PORT (IPv6 must use [ADDRESS]:PORT)'')
      | Some (host, portText) \<Rightarrow>
          if host = []
          then Inl (Errorf ''reality-handshake: use HOST:PORT (IPv6 must use [ADDRESS]:PORT)'')
          else (case atoi portText of
              None \<Rightarrow> Inl (Errorf ''reality-handshake: port must be in range 1-65535'')
            | Some port \<Rightarrow>
                if port < 1 \<or> port > 65535
                then Inl (Errorf ''reality-handshake: port must be in range 1-65535'')
                else Inr (host, port)))"

section \<open>Generating the parts\<close>

definition generateReality ::
  "cryptoLib \<Rightarrow> GenerateOptions \<Rightarrow> world \<Rightarrow>
     (VLESSRealityConfig \<times> vlessClientInfo \<times> outfile list) res \<times> world" where
  "generateReality L options w =
     (case splitHandshake (go_RealityHandshake options) of
        Inl e \<Rightarrow> (Inl e, w)
      | Inr (host, port) \<Rightarrow>
          if go_RealityServerName options = []
          then (Inl (Errorf ''reality-server-name: is required for Reality''), w)
          else if parseIP (go_RealityServerName options) \<noteq> None
              \<or> \<not> validGenerateDNSName (go_RealityServerName options)
          then (Inl (Errorf ''reality-server-name: must be a valid DNS name''), w)
          else if parseIP host = None \<and> \<not> validGenerateDNSName host
          then (Inl (Errorf ''reality-handshake: host must be a valid DNS name or IP address''), w)
          else
     (case UUIDv4 w of
        (Inl e, w1) \<Rightarrow> (Inl e, w1)
      | (Inr uuid, w1) \<Rightarrow>
     (case ShortID w1 of
        (Inl e, w2) \<Rightarrow> (Inl e, w2)
      | (Inr shortID, w2) \<Rightarrow>
     (case RealityKeys L w2 of
        (Inl e, w3) \<Rightarrow> (Inl e, w3)
      | (Inr keyPair, w3) \<Rightarrow>
          (Inr (\<lparr>vl_Listen = go_Listen options, vl_Port = go_RealityPort options, vl_UUID = uuid,
                 vl_PrivateKeyPath = ''reality.key'', vl_ShortID = shortID,
                 vl_ServerName = go_RealityServerName options, vl_HandshakeServer = host,
                 vl_HandshakePort = port\<rparr>,
                \<lparr>vc_Port = go_RealityPort options, vc_UUID = uuid, vc_PublicKey = rk_Public keyPair,
                 vc_ShortID = shortID, vc_ServerName = go_RealityServerName options, vc_ShareURI = []\<rparr>,
                [\<lparr>fname = ''reality.key'', fdata = rk_Private keyPair @ nl, fmode = o600\<rparr>]), w3)))))"

text \<open>The certificate text, its fingerprint and the two files, for a name.\<close>

definition generateTLS ::
  "cryptoLib \<Rightarrow> string \<Rightarrow> world \<Rightarrow> (string \<times> string \<times> outfile list) res \<times> world" where
  "generateTLS L san w =
     (case sys_now w of (now, w1) \<Rightarrow>
     (case SelfSignedCertificate L san now w1 of
        (Inl e, w2) \<Rightarrow> (Inl e, w2)
      | (Inr certificate, w2) \<Rightarrow>
     (case certificateFingerprintSHA256 L (CertificatePEM certificate) of
        Inl e \<Rightarrow> (Inl e, w2)
      | Inr sha \<Rightarrow>
          (Inr (CertificatePEM certificate, sha,
             [\<lparr>fname = ''tls.crt'', fdata = CertificatePEM certificate, fmode = o644\<rparr>,
              \<lparr>fname = ''tls.key'', fdata = PrivateKeyPEM certificate, fmode = o600\<rparr>]), w2))))"

definition passwordClient :: "int \<Rightarrow> string \<Rightarrow> string \<Rightarrow> string \<Rightarrow> string \<Rightarrow> passwordClientInfo" where
  "passwordClient port password san sha pem =
     \<lparr>pc_Port = port, pc_Password = password, pc_TLSSAN = san, pc_CertSHA = sha,
      pc_SingBoxOutboundFile = [], pc_MihomoProxyFile = [], pc_V2RayNShareFile = [],
      pc_V2RayNShareURI = [], pc_ShareURI = [], pc_CertificatePEM = pem\<rparr>"

definition generateHysteria2 ::
  "GenerateOptions \<Rightarrow> string \<Rightarrow> world \<Rightarrow> (Hysteria2Config \<times> passwordClientInfo) res \<times> world" where
  "generateHysteria2 options sha w =
     (case Password w of
        (Inl e, w1) \<Rightarrow> (Inl e, w1)
      | (Inr password, w1) \<Rightarrow>
          (Inr (\<lparr>hy_Listen = go_Listen options, hy_Port = go_Hysteria2Port options,
                 hy_Password = password, hy_CertificatePath = ''tls.crt'', hy_KeyPath = ''tls.key'',
                 hy_UpMbps = None, hy_DownMbps = None\<rparr>,
                passwordClient (go_Hysteria2Port options) password (go_TLSSAN options) sha []), w1))"

definition generateAnyTLS ::
  "GenerateOptions \<Rightarrow> string \<Rightarrow> string \<Rightarrow> world \<Rightarrow> (AnyTLSConfig \<times> passwordClientInfo) res \<times> world" where
  "generateAnyTLS options sha pem w =
     (case Password w of
        (Inl e, w1) \<Rightarrow> (Inl e, w1)
      | (Inr password, w1) \<Rightarrow>
          (Inr (\<lparr>at_Listen = go_Listen options, at_Port = go_AnyTLSPort options,
                 at_Password = password, at_CertificatePath = ''tls.crt'', at_KeyPath = ''tls.key''\<rparr>,
                passwordClient (go_AnyTLSPort options) password (go_TLSSAN options) sha pem), w1))"

text \<open>A step that runs only when its protocol is enabled.\<close>

definition whenEnabled ::
  "bool \<Rightarrow> 'a \<Rightarrow> (world \<Rightarrow> 'a res \<times> world) \<Rightarrow> world \<Rightarrow> 'a res \<times> world" where
  "whenEnabled enabled skipped step w = (if enabled then step w else (Inr skipped, w))"

definition someFst :: "('a \<times> 'b) res \<times> world \<Rightarrow> ('a option \<times> 'b option) res \<times> world" where
  "someFst r = (map_sum id (\<lambda>(a, b). (Some a, Some b)) (fst r), snd r)"

text \<open>The share files, and the ports and links they put into the client.\<close>

definition addShareFiles ::
  "GenerateOptions \<Rightarrow> clientInfo \<Rightarrow> (clientInfo \<times> outfile list) res" where
  "addShareFiles options client =
     (if go_PublicAddress options = [] then Inr (client, [])
      else deliveryOf client (go_PublicRealityPort options) (go_PublicHysteria2Port options)
             (go_PublicAnyTLSPort options) (go_AllowInsecureAnyTLSShare options))"

text \<open>Everything before the first write: configuration, client and the batch of files.\<close>

definition generateFiles ::
  "cryptoLib \<Rightarrow> GenerateOptions \<Rightarrow> world \<Rightarrow> (Config \<times> clientInfo \<times> outfile list) res \<times> world" where
  "generateFiles L options w =
     (case checkOptions options of
        Inl e \<Rightarrow> (Inl e, w)
      | Inr protocols \<Rightarrow>
     (case whenEnabled (containsProtocol protocols ''reality'') (None, None, [])
             (\<lambda>w. case generateReality L options w of
                (Inl e, w1) \<Rightarrow> (Inl e, w1)
              | (Inr (v, c, fs), w1) \<Rightarrow> (Inr (Some v, Some c, fs), w1)) w of
        (Inl e, w1) \<Rightarrow> (Inl e, w1)
      | (Inr (vless, vlessClient, files1), w1) \<Rightarrow>
     (case whenEnabled (containsProtocol protocols ''hy2'' \<or> containsProtocol protocols ''anytls'')
             ([], [], []) (generateTLS L (go_TLSSAN options)) w1 of
        (Inl e, w2) \<Rightarrow> (Inl e, w2)
      | (Inr (pem, sha, files2), w2) \<Rightarrow>
     (case whenEnabled (containsProtocol protocols ''hy2'') (None, None)
             (\<lambda>w. someFst (generateHysteria2 options sha w)) w2 of
        (Inl e, w3) \<Rightarrow> (Inl e, w3)
      | (Inr (hysteria2, hysteria2Client), w3) \<Rightarrow>
     (case whenEnabled (containsProtocol protocols ''anytls'') (None, None)
             (\<lambda>w. someFst (generateAnyTLS options sha pem w)) w3 of
        (Inl e, w4) \<Rightarrow> (Inl e, w4)
      | (Inr (anytls, anytlsClient), w4) \<Rightarrow>
          let localConfig = \<lparr>c_SchemaVersion = SchemaVersion, c_Log = Some \<lparr>lg_Level = ''warn''\<rparr>,
                 c_VLESSReality = vless, c_Hysteria2 = hysteria2, c_AnyTLS = anytls\<rparr>;
              client = \<lparr>ci_SchemaVersion = SchemaVersion, ci_PublicAddress = go_PublicAddress options,
                 ci_VLESSReality = vlessClient, ci_Hysteria2 = hysteria2Client,
                 ci_AnyTLS = anytlsClient\<rparr>
          in (case addShareFiles options client of
                Inl e \<Rightarrow> (Inl e, w4)
              | Inr (client1, shareFiles) \<Rightarrow>
                  (Inr (localConfig, client1,
                     files1 @ files2 @ shareFiles @
                     [\<lparr>fname = ''config.json'', fdata = configText localConfig, fmode = o600\<rparr>,
                      \<lparr>fname = ''client-info.json'', fdata = clientText client1, fmode = o600\<rparr>]), w4)))))))"

section \<open>Generate\<close>

definition verifyError :: "error \<Rightarrow> error" where
  "verifyError e = Wrap ''verify generated config: '' e []"

definition resultFiles :: "string \<Rightarrow> outfile list \<Rightarrow> string list" where
  "resultFiles output files = map (\<lambda>f. joinPath [output, fname f]) files"

definition Generate ::
  "cryptoLib \<Rightarrow> (string \<Rightarrow> string) \<Rightarrow> GenerateOptions \<Rightarrow> world \<Rightarrow> GenerateResult res \<times> world" where
  "Generate L jsonMsg options w =
     (case generateFiles L options w of
        (Inl e, w1) \<Rightarrow> (Inl e, w1)
      | (Inr (localConfig, client, files), w1) \<Rightarrow>
     (case WriteFiles (go_Output options) files (go_Force options) w1 of
        (Inl e, w2) \<Rightarrow> (Inl e, w2)
      | (Inr _, w2) \<Rightarrow>
     (case DecodeFile jsonMsg (joinPath [go_Output options, ''config.json'']) w2 of
        (Inl e, w3) \<Rightarrow> (Inl (verifyError e), w3)
      | (Inr generated, w3) \<Rightarrow>
     (case Validate (cl_keyPair L) (Some generated) w3 of
        (Inl e, w4) \<Rightarrow> (Inl (verifyError e), w4)
      | (Inr _, w4) \<Rightarrow>
          (Inr \<lparr>gr_Files = resultFiles (go_Output options) files, gr_ClientInfo = clientText client\<rparr>, w4)))))"

end
