(* ===== verification/Deliver.thy ===== *)
theory Deliver
  imports Generate
begin

text \<open>
  internal/app/deliver.go and renew.go: client files for an existing server configuration, and
  the staging of a new certificate with matching client files. The certificate that the server
  uses is read from its file; its subject alternative name, fingerprint and text go into the
  client records.
\<close>

section \<open>net.IP as text\<close>

text \<open>The verb \<open>%x\<close> on a 16-bit group.\<close>

fun hexText :: "nat \<Rightarrow> string" where
  "hexText n = (if n < 16 then [hexDigits ! n] else hexText (n div 16) @ [hexDigits ! (n mod 16)])"

declare hexText.simps [simp del]

text \<open>
  The first longest run of at least two zero groups, as start and end (255 when there is none),
  and the groups with \<open>::\<close> for that run.
\<close>

definition zeroRun :: "nat list \<Rightarrow> nat \<times> nat" where
  "zeroRun gs =
     fold (\<lambda>i (zeroStart, zeroEnd).
         let l = length (takeWhile (\<lambda>g. g = 0) (drop i gs))
         in if l \<ge> 2 \<and> l > zeroEnd - zeroStart then (i, i + l) else (zeroStart, zeroEnd))
       [0..<length gs] (255, 255)"

definition groupsText :: "nat list \<Rightarrow> string" where
  "groupsText gs =
     (let (zeroStart, zeroEnd) = zeroRun gs in
      if zeroStart = 255 then joinWith '':'' (map hexText gs)
      else joinWith '':'' (map hexText (take zeroStart gs)) @ ''::'' @
           joinWith '':'' (map hexText (drop zeroEnd gs)))"

fun groupsOf :: "string \<Rightarrow> nat list" where
  "groupsOf (a # b # s) = (byte a * 256 + byte b) # groupsOf s"
| "groupsOf _ = []"

definition ipv4Text :: "string \<Rightarrow> string" where
  "ipv4Text b = joinWith ''.'' (map (\<lambda>c. natText (byte c)) b)"

text \<open>\<open>net.IP.String\<close> on the bytes of an address.\<close>

definition ipString :: "string \<Rightarrow> string" where
  "ipString b =
     (if b = [] then ''<nil>''
      else if length b = 4 then ipv4Text b
      else if length b \<noteq> 16 then ''?'' @ hexEncode b
      else if take 12 b = replicate 10 (char_of (0 :: nat)) @ [CHR 0xFF, CHR 0xFF] then ipv4Text (drop 12 b)
      else groupsText (groupsOf b))"

lemma ipString_samples:
  "ipString (map char_of [127, 0, 0, 1 :: nat]) = ''127.0.0.1''"
  "ipString (ipBytes (IPv4 [10, 0, 200, 3])) = ''10.0.200.3''"
  "ipString (ipBytes (IPv6 [0x2001, 0xdb8, 0, 0, 1, 0, 0, 1] [])) = ''2001:db8::1:0:0:1''"
  "ipString (ipBytes (IPv6 [0, 0, 0, 0, 0, 0, 0, 0] [])) = ''::''"
  "ipString (ipBytes (IPv6 [1, 0, 2, 3, 4, 5, 0, 0] [])) = ''1:0:2:3:4:5::''"
  by code_simp+

section \<open>The Reality public key\<close>

definition realityPublicKey :: "cryptoLib \<Rightarrow> string \<Rightarrow> string res" where
  "realityPublicKey L privateKey =
     (case b64Decode privateKey of
        None \<Rightarrow> Inl (Wrap ''derive Reality public key: decode private key: ''
                  (Errorf (cl_base64Error L privateKey)) [])
      | Some privateBytes \<Rightarrow>
          if length privateBytes \<noteq> 32
          then Inl (Wrap ''derive Reality public key: '' (Errorf ''crypto/ecdh: invalid private key size'') [])
          else Inr (b64Encode (cl_x25519 L privateBytes)))"

section \<open>The certificate in use\<close>

lemma getLine_le: "length (snd (getLine s)) \<le> length s"
  by (auto simp: getLine_def Let_def split: option.splits dest: cutAt_parts)

lemma pemBody_block: "pemBody typ n t trailer = PemBlock u b r \<Longrightarrow> length r \<le> length trailer"
  using getLine_le by (auto simp: pemBody_def Let_def split: if_splits option.splits)

lemma pemStep_block: "pemStep s = PemBlock t b r \<Longrightarrow> length r < length s"
proof -
  assume run: "pemStep s = PemBlock t b r"
  then obtain front trailer where c: "cutStr pemEnd s = Some (front, trailer)"
    by (auto simp: pemStep_def split: option.splits)
  have "length trailer < length s" using cutStr_append [OF c] by (simp add: pemEnd_def nl_def)
  moreover have "length r \<le> length trailer" using run c
    by (auto simp: pemStep_def Let_def split: option.splits if_splits prod.splits dest: pemBody_block)
  ultimately show ?thesis by linarith
qed

lemma pemDecode_shrinks: "pemDecode s = Some (t, b, r) \<Longrightarrow> length r < length s"
proof (induction s rule: pemDecode.induct)
  case (1 s)
  then show ?case
    by (subst (asm) (2) pemDecode.simps) (force split: pemRound.splits if_splits dest: pemStep_block)
qed

text \<open>The loop of \<open>tlsClientInfo\<close>: only certificates follow.\<close>

function onlyCertificates :: "string \<Rightarrow> bool" where
  "onlyCertificates rest =
     (if length (trimSpace rest) = 0 then True
      else (case pemDecode rest of
          None \<Rightarrow> False
        | Some (typ, _, rest') \<Rightarrow> typ = ''CERTIFICATE'' \<and> onlyCertificates rest'))"
  by pat_completeness auto
termination
  by (relation "measure length") (auto dest: pemDecode_shrinks)

declare onlyCertificates.simps [simp del]

definition serverNameOf :: "parsedCertificate \<Rightarrow> string" where
  "serverNameOf certificate =
     (if pc_DNSNames certificate \<noteq> [] then hd (pc_DNSNames certificate)
      else if pc_IPAddresses certificate \<noteq> [] then ipString (hd (pc_IPAddresses certificate))
      else [])"

text \<open>What \<open>tlsClientInfo\<close> makes of the content of the file.\<close>

definition readCertificate :: "cryptoLib \<Rightarrow> string \<Rightarrow> passwordClientInfo res" where
  "readCertificate L content =
     (case pemDecode content of
        None \<Rightarrow> Inl (Errorf ''expected a PEM certificate'')
      | Some (typ, b, rest) \<Rightarrow>
          if typ \<noteq> ''CERTIFICATE'' then Inl (Errorf ''expected a PEM certificate'')
          else if \<not> onlyCertificates rest
          then Inl (Errorf ''certificate file contains non-certificate PEM data'')
          else (case cl_parseCertificate L b of
              Inl e \<Rightarrow> Inl (Wrap ''parse certificate: '' e [])
            | Inr certificate \<Rightarrow>
                let serverName = serverNameOf certificate in
                if serverName = []
                then Inl (Errorf ''certificate has no DNS or IP subject alternative name'')
                else Inr (passwordClient 0 [] serverName
                       (hexEncode (cl_sha256 L (pc_Raw certificate))) content)))"

definition tlsClientInfo ::
  "cryptoLib \<Rightarrow> string \<Rightarrow> world \<Rightarrow> passwordClientInfo res \<times> world" where
  "tlsClientInfo L certificatePath w =
     (case sys_readFile certificatePath w of
        (Inl e, w1) \<Rightarrow> (Inl (Wrap ''read certificate: '' e []), w1)
      | (Inr content, w1) \<Rightarrow> (readCertificate L content, w1))"

section \<open>Deliver\<close>

record DeliverOptions =
  dl_ConfigPath :: string
  dl_Output :: string
  dl_PublicAddress :: string
  dl_RealityPort :: int
  dl_Hysteria2Port :: int
  dl_AnyTLSPort :: int
  dl_AllowInsecureAnyTLSShare :: bool
  dl_Force :: bool

record DeliverResult =
  dr_Files :: "string list"
  dr_ClientInfo :: string

text \<open>\<open>config.DecodeFile\<close> and \<open>config.Validate\<close>, as in \<open>Check\<close>, \<open>Run\<close>, \<open>Deliver\<close> and \<open>RenewCertificate\<close>.\<close>

definition loadValidated ::
  "cryptoLib \<Rightarrow> (string \<Rightarrow> string) \<Rightarrow> string \<Rightarrow> world \<Rightarrow> Validated res \<times> world" where
  "loadValidated L jsonMsg path w =
     (case DecodeFile jsonMsg path w of
        (Inl e, w1) \<Rightarrow> (Inl e, w1)
      | (Inr localConfig, w1) \<Rightarrow> Validate (cl_keyPair L) (Some localConfig) w1)"

definition realityClient ::
  "cryptoLib \<Rightarrow> string \<Rightarrow> VLESSRealityConfig option \<Rightarrow> vlessClientInfo option res" where
  "realityClient L privateKey section =
     (case section of
        None \<Rightarrow> Inr None
      | Some v \<Rightarrow>
          (case realityPublicKey L privateKey of
             Inl e \<Rightarrow> Inl e
           | Inr publicKey \<Rightarrow>
               Inr (Some \<lparr>vc_Port = vl_Port v, vc_UUID = vl_UUID v, vc_PublicKey = publicKey,
                     vc_ShortID = vl_ShortID v, vc_ServerName = vl_ServerName v, vc_ShareURI = []\<rparr>)))"

definition certificateClient ::
  "cryptoLib \<Rightarrow> string \<Rightarrow> (string \<times> int \<times> string) option \<Rightarrow> world \<Rightarrow>
     passwordClientInfo option res \<times> world" where
  "certificateClient L message section w =
     (case section of
        None \<Rightarrow> (Inr None, w)
      | Some (certificatePath, port, password) \<Rightarrow>
          (case tlsClientInfo L certificatePath w of
             (Inl e, w1) \<Rightarrow> (Inl (Wrap message e []), w1)
           | (Inr info, w1) \<Rightarrow> (Inr (Some (info\<lparr>pc_Port := port, pc_Password := password\<rparr>)), w1)))"

definition hysteria2Section :: "Config \<Rightarrow> (string \<times> int \<times> string) option" where
  "hysteria2Section c = map_option (\<lambda>h. (hy_CertificatePath h, hy_Port h, hy_Password h)) (c_Hysteria2 c)"

definition anytlsSection :: "Config \<Rightarrow> (string \<times> int \<times> string) option" where
  "anytlsSection c = map_option (\<lambda>a. (at_CertificatePath a, at_Port a, at_Password a)) (c_AnyTLS c)"

text \<open>The client record of an existing server.\<close>

definition deliverClient ::
  "cryptoLib \<Rightarrow> string \<Rightarrow> Validated \<Rightarrow> world \<Rightarrow> clientInfo res \<times> world" where
  "deliverClient L publicAddress validated w =
     (case realityClient L (v_RealityPrivateKey validated) (c_VLESSReality (v_Config validated)) of
        Inl e \<Rightarrow> (Inl e, w)
      | Inr reality \<Rightarrow>
     (case certificateClient L ''hysteria2 delivery certificate: '' (hysteria2Section (v_Config validated)) w of
        (Inl e, w1) \<Rightarrow> (Inl e, w1)
      | (Inr hysteria2, w1) \<Rightarrow>
     (case certificateClient L ''anytls delivery certificate: '' (anytlsSection (v_Config validated)) w1 of
        (Inl e, w2) \<Rightarrow> (Inl e, w2)
      | (Inr anytls, w2) \<Rightarrow>
          (Inr \<lparr>ci_SchemaVersion = SchemaVersion, ci_PublicAddress = publicAddress,
                ci_VLESSReality = reality, ci_Hysteria2 = hysteria2, ci_AnyTLS = anytls\<rparr>, w2))))"

definition clientFile :: "clientInfo \<Rightarrow> outfile" where
  "clientFile client = \<lparr>fname = ''client-info.json'', fdata = clientText client, fmode = o600\<rparr>"

definition Deliver ::
  "cryptoLib \<Rightarrow> (string \<Rightarrow> string) \<Rightarrow> DeliverOptions \<Rightarrow> world \<Rightarrow> DeliverResult res \<times> world" where
  "Deliver L jsonMsg options w =
     (case validatePublicAddress (dl_PublicAddress options) of
        Inl e \<Rightarrow> (Inl e, w)
      | Inr _ \<Rightarrow>
     (case loadValidated L jsonMsg (dl_ConfigPath options) w of
        (Inl e, w1) \<Rightarrow> (Inl e, w1)
      | (Inr validated, w1) \<Rightarrow>
     (case deliverClient L (dl_PublicAddress options) validated w1 of
        (Inl e, w2) \<Rightarrow> (Inl e, w2)
      | (Inr client0, w2) \<Rightarrow>
     (case deliveryOf client0 (dl_RealityPort options) (dl_Hysteria2Port options) (dl_AnyTLSPort options)
             (dl_AllowInsecureAnyTLSShare options) of
        Inl e \<Rightarrow> (Inl e, w2)
      | Inr (client, deliveryFiles) \<Rightarrow>
          let files = deliveryFiles @ [clientFile client]
          in (case WriteFiles (dl_Output options) files (dl_Force options) w2 of
                (Inl e, w3) \<Rightarrow> (Inl e, w3)
              | (Inr _, w3) \<Rightarrow>
                  (Inr \<lparr>dr_Files = resultFiles (dl_Output options) files, dr_ClientInfo = clientText client\<rparr>, w3))))))"

section \<open>RenewCertificate\<close>

record RenewCertificateOptions =
  rn_ConfigPath :: string
  rn_Output :: string
  rn_PublicAddress :: string
  rn_RealityPort :: int
  rn_Hysteria2Port :: int
  rn_AnyTLSPort :: int
  rn_AllowInsecureAnyTLSShare :: bool

record RenewCertificateResult =
  rr_Files :: "string list"
  rr_ClientInfo :: string

text \<open>The function literal \<open>validateManagedTLSPaths\<close>, and its two calls.\<close>

definition validateManagedTLSPaths ::
  "string \<Rightarrow> string \<Rightarrow> string \<Rightarrow> string \<Rightarrow> string \<Rightarrow> unit res" where
  "validateManagedTLSPaths expectedCertificatePath expectedKeyPath protocol certificatePath keyPath =
     (if clean certificatePath \<noteq> expectedCertificatePath \<or> clean keyPath \<noteq> expectedKeyPath
      then Inl (Errorf (protocol @ '' certificate renewal requires managed tls.crt and tls.key paths''))
      else Inr ())"

definition managedPaths :: "Config \<Rightarrow> string \<Rightarrow> unit res" where
  "managedPaths c absoluteConfigPath =
     (let check = validateManagedTLSPaths (joinPath [dirName absoluteConfigPath, ''tls.crt''])
                    (joinPath [dirName absoluteConfigPath, ''tls.key''])
      in case (case c_Hysteria2 c of None \<Rightarrow> Inr ()
                 | Some h \<Rightarrow> check ''hysteria2'' (hy_CertificatePath h) (hy_KeyPath h)) of
           Inl e \<Rightarrow> Inl e
         | Inr _ \<Rightarrow>
             (case c_AnyTLS c of None \<Rightarrow> Inr ()
                | Some a \<Rightarrow> check ''anytls'' (at_CertificatePath a) (at_KeyPath a)))"

text \<open>The path of the certificate in use: an error when no protocol uses one.\<close>

definition currentCertificate :: "Config \<Rightarrow> string res" where
  "currentCertificate c =
     (case c_Hysteria2 c of
        Some h \<Rightarrow> Inr (hy_CertificatePath h)
      | None \<Rightarrow>
          (case c_AnyTLS c of
             Some a \<Rightarrow> Inr (at_CertificatePath a)
           | None \<Rightarrow> Inl (Errorf ''certificate renewal requires Hysteria2 or AnyTLS'')))"

text \<open>The checks up to the certificate in use, whose name the new certificate takes over.\<close>

definition currentTLS ::
  "cryptoLib \<Rightarrow> string \<Rightarrow> Config \<Rightarrow> world \<Rightarrow> passwordClientInfo res \<times> world" where
  "currentTLS L configPath c w =
     (case currentCertificate c of
        Inl e \<Rightarrow> (Inl e, w)
      | Inr certificatePath \<Rightarrow>
     (case sys_abs configPath w of
        (Inl e, w1) \<Rightarrow> (Inl (Wrap ''resolve certificate renewal config path: '' e []), w1)
      | (Inr absoluteConfigPath, w1) \<Rightarrow>
     (case managedPaths c absoluteConfigPath of
        Inl e \<Rightarrow> (Inl e, w1)
      | Inr _ \<Rightarrow>
     (case tlsClientInfo L certificatePath w1 of
        (Inl e, w2) \<Rightarrow> (Inl (Wrap ''current delivery certificate: '' e []), w2)
      | (Inr info, w2) \<Rightarrow> (Inr info, w2)))))"

text \<open>The client record with the new certificate.\<close>

definition renewClient ::
  "cryptoLib \<Rightarrow> string \<Rightarrow> Validated \<Rightarrow> string \<Rightarrow> string \<Rightarrow> string \<Rightarrow> clientInfo res" where
  "renewClient L publicAddress validated san sha pem =
     (case realityClient L (v_RealityPrivateKey validated) (c_VLESSReality (v_Config validated)) of
        Inl e \<Rightarrow> Inl e
      | Inr reality \<Rightarrow>
          Inr \<lparr>ci_SchemaVersion = SchemaVersion, ci_PublicAddress = publicAddress, ci_VLESSReality = reality,
            ci_Hysteria2 = map_option (\<lambda>h. passwordClient (hy_Port h) (hy_Password h) san sha pem)
              (c_Hysteria2 (v_Config validated)),
            ci_AnyTLS = map_option (\<lambda>a. passwordClient (at_Port a) (at_Password a) san sha pem)
              (c_AnyTLS (v_Config validated))\<rparr>)"

definition RenewCertificate ::
  "cryptoLib \<Rightarrow> (string \<Rightarrow> string) \<Rightarrow> RenewCertificateOptions \<Rightarrow> world \<Rightarrow>
     RenewCertificateResult res \<times> world" where
  "RenewCertificate L jsonMsg options w =
     (case validatePublicAddress (rn_PublicAddress options) of
        Inl e \<Rightarrow> (Inl e, w)
      | Inr _ \<Rightarrow>
     (case loadValidated L jsonMsg (rn_ConfigPath options) w of
        (Inl e, w1) \<Rightarrow> (Inl e, w1)
      | (Inr validated, w1) \<Rightarrow>
     (case currentTLS L (rn_ConfigPath options) (v_Config validated) w1 of
        (Inl e, w2) \<Rightarrow> (Inl e, w2)
      | (Inr current, w2) \<Rightarrow>
     (case generateTLS L (pc_TLSSAN current) w2 of
        (Inl e, w3) \<Rightarrow> (Inl e, w3)
      | (Inr (pem, sha, tlsFiles), w3) \<Rightarrow>
     (case renewClient L (rn_PublicAddress options) validated (pc_TLSSAN current) sha pem of
        Inl e \<Rightarrow> (Inl e, w3)
      | Inr client0 \<Rightarrow>
     (case deliveryOf client0 (rn_RealityPort options) (rn_Hysteria2Port options) (rn_AnyTLSPort options)
             (rn_AllowInsecureAnyTLSShare options) of
        Inl e \<Rightarrow> (Inl e, w3)
      | Inr (client, deliveryFiles) \<Rightarrow>
          let files = deliveryFiles @ tlsFiles @ [clientFile client]
          in (case WriteFiles (rn_Output options) files False w3 of
                (Inl e, w4) \<Rightarrow> (Inl e, w4)
              | (Inr _, w4) \<Rightarrow>
                  (Inr \<lparr>rr_Files = resultFiles (rn_Output options) files, rr_ClientInfo = clientText client\<rparr>, w4))))))))"

end
