(* ===== verification/Runner.thy ===== *)
theory Runner
  imports Deliver
begin

text \<open>
  internal/app/run.go, check.go, signals.go and internal/core: loading the options, the life of
  the sing-box instance, and the context that termination signals cancel. The instance is a
  parameter: what its constructor and its methods do to its state and to the world. A run is
  recorded with the calls it made.
\<close>

section \<open>The sing-box instance\<close>

text \<open>The registrations of internal/core/registry.go; the registries not named stay empty.\<close>

datatype registration = VLESSInbounds | Hysteria2Inbounds | AnyTLSInbounds | LocalDNSTransport

record registries =
  rg_Inbounds :: "registration list"
  rg_Outbounds :: "registration list"
  rg_Endpoints :: "registration list"
  rg_DNSTransports :: "registration list"
  rg_Services :: "registration list"

definition coreContext :: registries where
  "coreContext =
     \<lparr>rg_Inbounds = [VLESSInbounds, Hysteria2Inbounds, AnyTLSInbounds], rg_Outbounds = [], rg_Endpoints = [],
      rg_DNSTransports = [LocalDNSTransport], rg_Services = []\<rparr>"

text \<open>\<open>box.New\<close>, \<open>Start\<close> and \<open>Close\<close> on a state of type \<open>'b\<close>.\<close>

record 'b boxLib =
  bx_New :: "registries \<Rightarrow> boxOptions \<Rightarrow> world \<Rightarrow> 'b res \<times> world"
  bx_Start :: "'b \<Rightarrow> world \<Rightarrow> unit res \<times> 'b \<times> world"
  bx_Close :: "'b \<Rightarrow> world \<Rightarrow> unit res \<times> 'b \<times> world"

definition coreNew :: "'b boxLib \<Rightarrow> boxOptions \<Rightarrow> world \<Rightarrow> 'b res \<times> world" where
  "coreNew B options w = bx_New B coreContext options w"

section \<open>Run and Check\<close>

text \<open>The calls on the instance, each with whether it succeeded.\<close>

datatype boxCall = CallNew bool | CallStart bool | CallClose bool

text \<open>A call returns, or panics in \<open>Convert\<close>, or waits for a context that nobody cancels.\<close>

datatype runResult = Finished "unit res" | Panicked | Blocked

definition loadOptions ::
  "cryptoLib \<Rightarrow> (string \<Rightarrow> string) \<Rightarrow> string \<Rightarrow> world \<Rightarrow> boxOptions option res \<times> world" where
  "loadOptions L jsonMsg path w =
     (case loadValidated L jsonMsg path w of
        (Inl e, w1) \<Rightarrow> (Inl e, w1)
      | (Inr validated, w1) \<Rightarrow> (Inr (Convert validated), w1))"

definition cannotCreate :: "error \<Rightarrow> error" where
  "cannotCreate e = Wrap ''core: cannot create sing-box: '' e []"

text \<open>
  \<open>Run\<close> from the created instance on; \<open>cancelled\<close> says whether the context is cancelled at some
  time.
\<close>

definition runBox ::
  "'b boxLib \<Rightarrow> bool \<Rightarrow> 'b \<Rightarrow> world \<Rightarrow> runResult \<times> boxCall list \<times> world" where
  "runBox B cancelled b w =
     (case bx_Start B b w of
        (Inl e, b1, w1) \<Rightarrow>
          (case bx_Close B b1 w1 of
             (c, _, w2) \<Rightarrow>
               (Finished (Inl (Wrap ''core: cannot start sing-box: '' e [])),
                [CallStart False, CallClose (is_ok c)], w2))
      | (Inr _, b1, w1) \<Rightarrow>
          if \<not> cancelled then (Blocked, [CallStart True], w1)
          else (case bx_Close B b1 w1 of
              (Inl e, _, w2) \<Rightarrow>
                (Finished (Inl (Wrap ''core: cannot close sing-box: '' e [])),
                 [CallStart True, CallClose False], w2)
            | (Inr _, _, w2) \<Rightarrow> (Finished (Inr ()), [CallStart True, CallClose True], w2)))"

definition Run ::
  "cryptoLib \<Rightarrow> 'b boxLib \<Rightarrow> (string \<Rightarrow> string) \<Rightarrow> bool \<Rightarrow> string \<Rightarrow> world \<Rightarrow>
     runResult \<times> boxCall list \<times> world" where
  "Run L B jsonMsg cancelled configPath w =
     (case loadOptions L jsonMsg configPath w of
        (Inl e, w1) \<Rightarrow> (Finished (Inl e), [], w1)
      | (Inr None, w1) \<Rightarrow> (Panicked, [], w1)
      | (Inr (Some options), w1) \<Rightarrow>
     (case coreNew B options w1 of
        (Inl e, w2) \<Rightarrow> (Finished (Inl (cannotCreate e)), [CallNew False], w2)
      | (Inr b, w2) \<Rightarrow>
          (case runBox B cancelled b w2 of (r, calls, w3) \<Rightarrow> (r, CallNew True # calls, w3))))"

definition Check ::
  "cryptoLib \<Rightarrow> 'b boxLib \<Rightarrow> (string \<Rightarrow> string) \<Rightarrow> string \<Rightarrow> world \<Rightarrow>
     runResult \<times> boxCall list \<times> world" where
  "Check L B jsonMsg configPath w =
     (case loadOptions L jsonMsg configPath w of
        (Inl e, w1) \<Rightarrow> (Finished (Inl e), [], w1)
      | (Inr None, w1) \<Rightarrow> (Panicked, [], w1)
      | (Inr (Some options), w1) \<Rightarrow>
     (case coreNew B options w1 of
        (Inl e, w2) \<Rightarrow> (Finished (Inl (cannotCreate e)), [CallNew False], w2)
      | (Inr b, w2) \<Rightarrow>
     (case bx_Close B b w2 of
        (Inl e, _, w3) \<Rightarrow>
          (Finished (Inl (Wrap ''core: cannot close sing-box after check: '' e [])),
           [CallNew True, CallClose False], w3)
      | (Inr _, _, w3) \<Rightarrow> (Finished (Inr ()), [CallNew True, CallClose True], w3))))"

section \<open>Signals\<close>

text \<open>
  The goroutine of \<open>SignalContext\<close>: in its first or second \<open>select\<close>, about to call \<open>cancel\<close> or
  \<open>force\<close> after a receive, or returned. \<open>sg_queue\<close> counts the signals in the channel, which
  holds two; \<open>sg_stop\<close> counts the statements of the stop function that have run. \<open>sg_received\<close>
  counts the signals that arrived while notification was on, \<open>sg_forced\<close> the calls of \<open>force\<close>.
\<close>

datatype goPoint = FirstSelect | Cancelling | SecondSelect | Forcing | GoReturned

record signalState =
  sg_queue :: nat
  sg_notify :: bool
  sg_doneClosed :: bool
  sg_cancelled :: bool
  sg_point :: goPoint
  sg_stop :: nat
  sg_parent :: bool
  sg_received :: nat
  sg_forced :: nat

definition SignalContext :: signalState where
  "SignalContext =
     \<lparr>sg_queue = 0, sg_notify = True, sg_doneClosed = False, sg_cancelled = False, sg_point = FirstSelect,
      sg_stop = 0, sg_parent = False, sg_received = 0, sg_forced = 0\<rparr>"

text \<open>
  Steps of the goroutine. A \<open>select\<close> with both channels ready may take either; a nil \<open>force\<close> is
  not called.
\<close>

inductive goStep :: "bool \<Rightarrow> signalState \<Rightarrow> signalState \<Rightarrow> bool" for hasForce where
  FirstSignal: "sg_point s = FirstSelect \<Longrightarrow> sg_queue s > 0 \<Longrightarrow>
    goStep hasForce s (s\<lparr>sg_queue := sg_queue s - 1, sg_point := Cancelling\<rparr>)"
| FirstDone: "sg_point s = FirstSelect \<Longrightarrow> sg_doneClosed s \<Longrightarrow>
    goStep hasForce s (s\<lparr>sg_point := GoReturned\<rparr>)"
| Cancel: "sg_point s = Cancelling \<Longrightarrow>
    goStep hasForce s (s\<lparr>sg_cancelled := True, sg_point := SecondSelect\<rparr>)"
| SecondSignal: "sg_point s = SecondSelect \<Longrightarrow> sg_queue s > 0 \<Longrightarrow>
    goStep hasForce s (s\<lparr>sg_queue := sg_queue s - 1, sg_point := Forcing\<rparr>)"
| SecondDone: "sg_point s = SecondSelect \<Longrightarrow> sg_doneClosed s \<Longrightarrow>
    goStep hasForce s (s\<lparr>sg_point := GoReturned\<rparr>)"
| Force: "sg_point s = Forcing \<Longrightarrow>
    goStep hasForce s (s\<lparr>sg_forced := sg_forced s + (if hasForce then 1 else 0), sg_point := GoReturned\<rparr>)"

text \<open>
  Steps of the others: the runtime puts a signal into the channel unless it is full, the caller
  runs the three statements of the stop function once, and the parent context may be cancelled.
\<close>

inductive outerStep :: "signalState \<Rightarrow> signalState \<Rightarrow> bool" where
  Arrive: "sg_notify s \<Longrightarrow>
    outerStep s (s\<lparr>sg_queue := min 2 (sg_queue s + 1), sg_received := sg_received s + 1\<rparr>)"
| StopNotify: "sg_stop s = 0 \<Longrightarrow> outerStep s (s\<lparr>sg_notify := False, sg_stop := 1\<rparr>)"
| StopDone: "sg_stop s = 1 \<Longrightarrow> outerStep s (s\<lparr>sg_doneClosed := True, sg_stop := 2\<rparr>)"
| StopCancel: "sg_stop s = 2 \<Longrightarrow> outerStep s (s\<lparr>sg_cancelled := True, sg_stop := 3\<rparr>)"
| ParentDone: "outerStep s (s\<lparr>sg_parent := True, sg_cancelled := True\<rparr>)"

inductive signalReach :: "bool \<Rightarrow> signalState \<Rightarrow> bool" for hasForce where
  Start: "signalReach hasForce SignalContext"
| Go: "signalReach hasForce s \<Longrightarrow> goStep hasForce s s' \<Longrightarrow> signalReach hasForce s'"
| Outer: "signalReach hasForce s \<Longrightarrow> outerStep s s' \<Longrightarrow> signalReach hasForce s'"

code_pred goStep .
code_pred outerStep .

end
