(* ===== verification/ShareProps.thy ===== *)
theory ShareProps
  imports Share "HOL-Library.Sublist"
begin

text \<open>
  What internal/app/share.go guarantees: a public address that passes the check is a plain host,
  the share links read back as exactly the parameters they were built from, and public ports
  are in range and do not clash.
\<close>

section \<open>Addresses\<close>

lemma generateLabel_dns: "generateLabel = dnsLabel"
  by (rule ext) (auto simp: generateLabel_def dnsLabel_def dnsRune_def list_all_iff)

lemma validGenerateDNSName_eq: "validGenerateDNSName = validDNSName"
  by (rule ext) (simp add: validGenerateDNSName_def validDNSName_def generateLabel_dns)

text \<open>Bytes of an address literal or a host name.\<close>

definition addressByte :: "char \<Rightarrow> bool" where
  "addressByte c = (hostByte c \<or> c = CHR ''.'' \<or> c = CHR '':'')"

lemma addressByte_free: "addressByte c \<Longrightarrow> c \<notin> set ''[]%/@?# ''"
  by (auto simp: addressByte_def hostByte_def isLowerAZ_def isUpperAZ_def isDigit_def byte_def)

lemma hexVal_addressByte: "hexVal c \<noteq> None \<Longrightarrow> addressByte c"
  by (auto simp: addressByte_def hostByte_def hexVal_def isLowerAZ_def isUpperAZ_def split: if_splits)

lemma splitOn_bytes: "c \<in> set s \<Longrightarrow> c = d \<or> (\<exists>x \<in> set (splitOn d s). c \<in> set x)"
proof (induction s)
  case (Cons a s)
  show ?case
  proof (cases "splitOn d s")
    case (Cons y ys)
    then show ?thesis using Cons.IH Cons.prems by auto
  qed simp
qed simp

lemma digitsVal_bytes: "digitsVal b acc s = Some n \<Longrightarrow> c \<in> set s \<Longrightarrow> hexVal c \<noteq> None"
  by (induction b acc s rule: digitsVal.induct) (auto simp: digitVal_def split: option.splits if_splits)

lemma collect_some: "collect f xs = Some ys \<Longrightarrow> x \<in> set xs \<Longrightarrow> f x \<noteq> None"
  by (induction xs arbitrary: ys) (auto split: option.splits)

lemma parseOctet_bytes: "parseOctet s \<noteq> None \<Longrightarrow> c \<in> set s \<Longrightarrow> addressByte c"
  using digitsVal_bytes [of 10 0 s _ c] hexVal_addressByte [of c]
  by (auto simp: parseOctet_def split: if_splits option.splits)

lemma IPv4_bytes: "parseIPv4Fields s = Some bs \<Longrightarrow> c \<in> set s \<Longrightarrow> addressByte c"
proof -
  assume p: "parseIPv4Fields s = Some bs" and c: "c \<in> set s"
  have ps: "collect parseOctet (splitOn (CHR ''.'') s) = Some bs"
    using p by (auto simp: parseIPv4Fields_def Let_def split: if_splits)
  show ?thesis
  proof (cases "c = CHR ''.''")
    case False
    then obtain x where "x \<in> set (splitOn (CHR ''.'') s)" "c \<in> set x" using splitOn_bytes [OF c] by blast
    then show ?thesis using parseOctet_bytes collect_some [OF ps] by blast
  qed (simp add: addressByte_def)
qed

lemma IPv6Loop_bytes:
  "parseIPv6Loop n acc el s = Some ([], acc', el') \<Longrightarrow> c \<in> set s \<Longrightarrow> addressByte c"
proof (induction n acc el s arbitrary: acc' el' rule: parseIPv6Loop.induct)
  case (1 acc el s)
  then show ?case by simp
next
  case (2 n acc el s)
  let ?ds = "takeWhile (\<lambda>c. hexVal c \<noteq> None) s"
  let ?acc = "the (digitsVal 16 0 ?ds) # acc"
  define rest where "rest = drop (length ?ds) s"
  have c: "c \<in> set ?ds \<or> c \<in> set rest"
    using 2(4) unfolding rest_def by (metis Un_iff append_take_drop_id set_append takeWhile_eq_take)
  have ds: "addressByte c" if "c \<in> set ?ds" using that hexVal_addressByte by (auto dest: set_takeWhileD)
  note run = 2(3) [unfolded parseIPv6Loop.simps Let_def, folded rest_def]
  have ok: "\<not> (?ds = [] \<or> length ?ds > 4)" using run by (auto split: if_splits)
  show ?case
  proof (cases "hasPrefix rest ''.''")
    case True
    then obtain bs where "parseIPv4Fields s = Some bs"
      using run ok by (auto split: if_splits option.splits)
    then show ?thesis using IPv4_bytes 2(4) by blast
  next
    case dot: False
    show ?thesis
    proof (cases "rest = []")
      case True
      then show ?thesis using c ds by auto
    next
      case False
      then obtain t where t: "rest = CHR '':'' # t" "t \<noteq> []"
        using run ok dot by (cases rest) (auto split: if_splits)
      have colon: "addressByte (CHR '':'')" by (simp add: addressByte_def)
      have "drop (length ?ds) s \<noteq> []" using t rest_def by simp
      then have len: "\<not> length s \<le> length ?ds" by simp
      show ?thesis
      proof (cases "hd t = CHR '':''")
        case True
        then obtain u where u: "t = CHR '':'' # u" using t(2) by (cases t) auto
        have "el = None" "u = [] \<or> (\<exists>a e. parseIPv6Loop n ?acc (Some (length ?acc)) u = Some ([], a, e))"
          using run ok dot t u by (auto split: if_splits)
        then have "addressByte c" if "c \<in> set u"
          using that 2(1) ok dot t u rest_def len by (cases "u = []") auto
        then show ?thesis using c ds colon t u by auto
      next
        case False
        have "parseIPv6Loop n ?acc el t = Some ([], acc', el')"
          using run ok dot t False by (auto split: if_splits)
        then have "addressByte c" if "c \<in> set t" using that 2(2) ok dot t False rest_def len by auto
        then show ?thesis using c ds colon t by auto
      qed
    qed
  qed
qed

lemma IPv6_bytes:
  assumes "parseIPv6 s = Some (IPv6 gs [])" "c \<in> set s"
  shows "addressByte c"
proof (cases "cutAt (CHR ''%'') s")
  case (Some p)
  then show ?thesis using assms(1)
    by (cases p) (auto simp: parseIPv6_def Let_def split: if_splits option.splits prod.splits)
next
  case None
  note p = assms(1) [unfolded parseIPv6_def None]
  show ?thesis
  proof (cases "hasPrefix s ''::''")
    case True
    then have s: "s = ''::'' @ drop 2 s"
      using append_take_drop_id [of "length ''::''" s] unfolding hasPrefix_def by (metis length_Cons list.size(3) One_nat_def Suc_1)
    have "drop 2 s = [] \<or> (\<exists>a e. parseIPv6Loop 8 [] (Some 0) (drop 2 s) = Some ([], a, e))"
      using p True by (auto simp: Let_def split: if_splits option.splits)
    then have "addressByte c" if "c \<in> set (drop 2 s)" using that IPv6Loop_bytes by fastforce
    moreover have "addressByte (CHR '':'')" by (simp add: addressByte_def)
    moreover have "c = CHR '':'' \<or> c \<in> set (drop 2 s)" using assms(2) by (subst (asm) s) auto
    ultimately show ?thesis by blast
  next
    case False
    then have "\<exists>a e. parseIPv6Loop 8 [] None s = Some ([], a, e)"
      using p by (auto simp: Let_def split: if_splits option.splits)
    then show ?thesis using IPv6Loop_bytes assms(2) by blast
  qed
qed

lemma parseIPv6_kind: "parseIPv6 s \<noteq> Some (IPv4 bs)"
  unfolding parseIPv6_def Let_def
  by (cases "cutAt (CHR ''%'') s") (simp_all del: parseIPv6Loop.simps split: option.split prod.split if_split)

lemma parseIP_bytes: "parseIP s \<noteq> None \<Longrightarrow> c \<in> set s \<Longrightarrow> addressByte c"
proof -
  assume p: "parseIP s \<noteq> None" and c: "c \<in> set s"
  obtain r where r: "parseAddr s = Some r" "\<forall>gs z. r = IPv6 gs z \<longrightarrow> z = []"
    using p by (cases "parseAddr s") (auto simp: parseIP_def split: ipAddr.splits if_splits)
  show ?thesis
  proof (cases r)
    case (IPv4 bs)
    then have "\<exists>bs. parseIPv4Fields s = Some bs"
      using r(1) parseIPv6_kind [of s bs] by (auto simp: parseAddr_def split: option.splits if_splits)
    then show ?thesis using IPv4_bytes c by blast
  next
    case (IPv6 gs z)
    then have "parseIPv6 s = Some (IPv6 gs [])"
      using r by (auto simp: parseAddr_def split: option.splits if_splits)
    then show ?thesis using IPv6_bytes c by blast
  qed
qed

lemma DNSName_bytes:
  assumes "validDNSName s" "c \<in> set s"
  shows "addressByte c"
proof -
  let ?v = "trimSuffix s ''.''"
  have l: "list_all dnsLabel (splitOn (CHR ''.'') ?v)"
    using assms(1) by (auto simp: validDNSName_def Let_def split: if_splits)
  have "addressByte d" if d: "d \<in> set ?v" for d
  proof (cases "d = CHR ''.''")
    case False
    then obtain x where "x \<in> set (splitOn (CHR ''.'') ?v)" "d \<in> set x" using splitOn_bytes [OF d] by blast
    then have "list_all hostByte x" "d \<in> set x" using l runes_host by (auto simp: list_all_iff dnsLabel_def)
    then show ?thesis by (simp add: list_all_iff addressByte_def)
  qed (simp add: addressByte_def)
  moreover have "c \<in> set ?v \<or> c = CHR ''.''"
  proof (cases "hasSuffix s ''.''")
    case True
    then have "s = ?v @ ''.''" using append_take_drop_id [of "length s - 1" s]
      by (auto simp: hasSuffix_def trimSuffix_def)
    then show ?thesis using assms(2) by (metis Un_iff list.set(1,2) set_append singletonD insertE empty_iff)
  qed (use assms(2) in \<open>simp add: trimSuffix_def\<close>)
  ultimately show ?thesis by (auto simp: addressByte_def)
qed

lemma publicAddress_bytes: "validatePublicAddress a = Inr () \<Longrightarrow> c \<in> set a \<Longrightarrow> addressByte c"
  using parseIP_bytes [of a c] DNSName_bytes [of a c]
  by (auto simp: validatePublicAddress_def validGenerateDNSName_eq split: if_splits)

section \<open>Links\<close>

lemma itoa_free: "c \<in> set '':[]'' \<Longrightarrow> c \<notin> set (itoa p)"
  using natText_digits [of "nat p"] natText_digits [of "nat (- p)"]
  by (auto simp: itoa_def list_all_iff isDigit_def byte_def split: if_splits)

lemma sorted_query:
  assumes "sorted (map fst q)" "distinct (map fst q)"
  shows "map (\<lambda>k. (k, mget q k)) (sortedKeysOf q) = q"
proof -
  have "sortedKeysOf q = map fst q" using assms(1) by (simp add: sortedKeysOf_def sorted_sort_id)
  moreover have "mget q (fst p) = snd p" if "p \<in> set q" for p
    using assms(2) that by (cases p) (simp add: mget_def)
  ultimately show ?thesis by (simp add: map_idI)
qed

text \<open>A link reads back as scheme, credential, address and port, and query.\<close>

definition linkReads :: "string \<Rightarrow> string \<Rightarrow> string \<Rightarrow> string \<Rightarrow> int \<Rightarrow> strmap \<Rightarrow> bool" where
  "linkReads uri scheme credential address port query =
     (\<exists>path label. readURL uri = Some (scheme, credential, (address, itoa port), path, query, label))"

lemma shareURI_reads:
  assumes "\<And>c. c \<in> set address \<Longrightarrow> addressByte c" "CHR '':'' \<notin> set scheme" "scheme \<noteq> []"
    "path \<in> {[], ''/''}" "query \<noteq> []" "sorted (map fst query)" "distinct (map fst query)" "label \<noteq> []"
  shows "linkReads (shareURI scheme credential address port path query label) scheme credential address port query"
proof -
  have "splitHostPort (joinHostPort address (itoa port)) = Some (address, itoa port)"
    by (rule split_joinHostPort) (use assms(1) addressByte_free itoa_free in \<open>force+\<close>)
  then show ?thesis
    using assms by (auto simp: linkReads_def shareURI_def readURL_String sorted_query)
qed

lemma query_keys:
  "sorted (map fst (realityQuery v))" "distinct (map fst (realityQuery v))"
  "sorted (map fst (hysteria2Query h))" "distinct (map fst (hysteria2Query h))"
  "sorted (map fst (anytlsQuery a))" "distinct (map fst (anytlsQuery a))"
proof -
  have "sorted [''encryption'', ''flow'', ''fp'', ''pbk'', ''security'', ''sid'', ''sni'', ''type'']"
    "sorted [''insecure'', ''pinSHA256'', ''sni'']" "sorted [''insecure'', ''sni'']" by code_simp+
  then show "sorted (map fst (realityQuery v))" "sorted (map fst (hysteria2Query h))"
    "sorted (map fst (anytlsQuery a))"
    unfolding realityQuery_def hysteria2Query_def anytlsQuery_def list.map fst_conv by blast+
qed (simp_all add: realityQuery_def hysteria2Query_def anytlsQuery_def)

section \<open>Delivery\<close>

lemma reality_delivery:
  assumes "realityDelivery address v = (v', fs)" "\<And>c. c \<in> set address \<Longrightarrow> addressByte c"
  shows "v' = v\<lparr>vc_ShareURI := vc_ShareURI v'\<rparr> \<and> fs = [shareFile ''share-reality.txt'' (vc_ShareURI v')] \<and>
    linkReads (vc_ShareURI v') ''vless'' (vc_UUID v) address (vc_Port v) (realityQuery v)"
proof -
  have "linkReads (shareURI ''vless'' (vc_UUID v) address (vc_Port v) [] (realityQuery v) ''mini-singbox Reality'')
      ''vless'' (vc_UUID v) address (vc_Port v) (realityQuery v)"
    by (rule shareURI_reads) (use assms(2) query_keys in \<open>auto simp: realityQuery_def\<close>)
  then show ?thesis using assms(1) by (auto simp: realityDelivery_def Let_def)
qed

lemma hysteria2_delivery:
  assumes "hysteria2Delivery address h = (h', fs)" "\<And>c. c \<in> set address \<Longrightarrow> addressByte c"
  shows "h' = h\<lparr>pc_ShareURI := pc_ShareURI h'\<rparr> \<and> fs = [shareFile ''share-hysteria2.txt'' (pc_ShareURI h')] \<and>
    linkReads (pc_ShareURI h') ''hysteria2'' (pc_Password h) address (pc_Port h) (hysteria2Query h)"
proof -
  have "linkReads (shareURI ''hysteria2'' (pc_Password h) address (pc_Port h) ''/'' (hysteria2Query h) ''mini-singbox Hysteria2'')
      ''hysteria2'' (pc_Password h) address (pc_Port h) (hysteria2Query h)"
    by (rule shareURI_reads) (use assms(2) query_keys in \<open>auto simp: hysteria2Query_def\<close>)
  then show ?thesis using assms(1) by (auto simp: hysteria2Delivery_def Let_def)
qed

text \<open>
  The AnyTLS part: the v2rayN profile decodes to its document, and a link that does not
  authenticate the server exists only when it was asked for.
\<close>

definition anytlsDelivered :: "string \<Rightarrow> bool \<Rightarrow> passwordClientInfo \<Rightarrow> passwordClientInfo \<Rightarrow> outfile list \<Rightarrow> bool" where
  "anytlsDelivered address allowInsecure a a' fs =
     (pc_CertificatePEM a \<noteq> [] \<and>
      (\<exists>profile. pc_V2RayNShareURI a' = ''v2rayn://anytls/'' @ profile \<and>
         b64Decode profile = Some (compact (v2rayNProfile address a))) \<and>
      shareFile ''share-anytls-v2rayn.txt'' (pc_V2RayNShareURI a') \<in> set fs \<and>
      \<lparr>fname = pc_SingBoxOutboundFile a', fdata = pretty 0 (singBoxOutbound address a) @ nl, fmode = o600\<rparr> \<in> set fs \<and>
      \<lparr>fname = pc_MihomoProxyFile a', fdata = mihomoText address a, fmode = o600\<rparr> \<in> set fs \<and>
      (if allowInsecure
       then linkReads (pc_ShareURI a') ''anytls'' (pc_Password a) address (pc_Port a) (anytlsQuery a) \<and>
            shareFile ''share-anytls.txt'' (pc_ShareURI a') \<in> set fs
       else pc_ShareURI a' = pc_ShareURI a \<and> ''share-anytls.txt'' \<notin> fname ` set fs))"

lemma anytls_delivery:
  assumes "anytlsDelivery address ins a = Inr (a', fs)" "\<And>c. c \<in> set address \<Longrightarrow> addressByte c"
  shows "anytlsDelivered address ins a a' fs"
proof -
  have "linkReads (shareURI ''anytls'' (pc_Password a) address (pc_Port a) ''/'' (anytlsQuery a) ''mini-singbox AnyTLS UNSAFE'')
      ''anytls'' (pc_Password a) address (pc_Port a) (anytlsQuery a)"
    by (rule shareURI_reads) (use assms(2) query_keys in \<open>auto simp: anytlsQuery_def\<close>)
  then show ?thesis using assms(1)
    by (auto simp: anytlsDelivery_def anytlsDelivered_def Let_def shareFile_def buildV2RayNAnyTLSURI_def
        b64Decode_Encode split: if_splits)
qed

text \<open>The parts of a delivery: a section that is present is delivered, an absent one adds nothing.\<close>

definition delivered :: "('a \<Rightarrow> ('a \<times> outfile list) res) \<Rightarrow> 'a option \<Rightarrow> 'a option \<Rightarrow> outfile list \<Rightarrow> bool" where
  "delivered f x x' fs =
     (case x of None \<Rightarrow> x' = None \<and> fs = [] | Some v \<Rightarrow> \<exists>v'. x' = Some v' \<and> f v = Inr (v', fs))"

lemma delivered_simps:
  "delivered f None x' fs \<longleftrightarrow> x' = None \<and> fs = []"
  "delivered f (Some v) x' fs \<longleftrightarrow> (\<exists>v'. x' = Some v' \<and> f v = Inr (v', fs))"
  by (simp_all add: delivered_def)

definition deliveredParts :: "clientInfo \<Rightarrow> bool \<Rightarrow> clientInfo \<Rightarrow> outfile list \<Rightarrow> outfile list \<Rightarrow> outfile list \<Rightarrow> bool" where
  "deliveredParts c ins c' f1 f2 f3 =
     (delivered (\<lambda>v. Inr (realityDelivery (ci_PublicAddress c) v)) (ci_VLESSReality c) (ci_VLESSReality c') f1 \<and>
      delivered (\<lambda>h. Inr (hysteria2Delivery (ci_PublicAddress c) h)) (ci_Hysteria2 c) (ci_Hysteria2 c') f2 \<and>
      delivered (anytlsDelivery (ci_PublicAddress c) ins) (ci_AnyTLS c) (ci_AnyTLS c') f3 \<and>
      ci_PublicAddress c' = ci_PublicAddress c \<and> ci_SchemaVersion c' = ci_SchemaVersion c)"

lemma build_parts:
  assumes "buildDeliveryFiles c ins = Inr (c', fs)"
  shows "\<exists>f1 f2 f3. deliveredParts c ins c' f1 f2 f3 \<and> fs = f1 @ f2 @ f3 \<and> fs \<noteq> []"
  using assms
  by (cases "ci_VLESSReality c"; cases "ci_Hysteria2 c"; cases "ci_AnyTLS c")
    (auto simp: buildDeliveryFiles_def Let_def deliveredParts_def delivered_simps
      split: if_splits sum.splits prod.splits)

definition deliveryNames :: "string list" where
  "deliveryNames =
     [''share-reality.txt'', ''share-hysteria2.txt'', ''client-anytls-sing-box-outbound.json'',
      ''client-anytls-mihomo.yaml'', ''share-anytls-v2rayn.txt'', ''share-anytls.txt'']"

lemma subseq_unique: "subseq xs deliveryNames \<Longrightarrow> distinct xs"
proof -
  have "distinct deliveryNames" by code_simp
  then show "subseq xs deliveryNames \<Longrightarrow> distinct xs" by (metis subseq_conv_nths distinct_nthsI)
qed

lemma delivery_files:
  assumes "buildDeliveryFiles c ins = Inr (c', fs)"
  shows "subseq (map fname fs) deliveryNames \<and> (\<forall>f \<in> set fs. fmode f = o600)"
proof -
  obtain f1 f2 f3 where p: "fs = f1 @ f2 @ f3" "deliveredParts c ins c' f1 f2 f3"
    using build_parts [OF assms] by blast
  note d = p(2) [unfolded deliveredParts_def delivered_def]
  have 1: "map fname f1 \<in> set [[], [''share-reality.txt'']]" "\<forall>f \<in> set f1. fmode f = o600"
    using d by (auto simp: realityDelivery_def Let_def shareFile_def split: option.splits)
  have 2: "map fname f2 \<in> set [[], [''share-hysteria2.txt'']]" "\<forall>f \<in> set f2. fmode f = o600"
    using d by (auto simp: hysteria2Delivery_def Let_def shareFile_def split: option.splits)
  have 3: "map fname f3 \<in> set [[], drop 2 (butlast deliveryNames), drop 2 deliveryNames]"
      "\<forall>f \<in> set f3. fmode f = o600"
    using d
    by (auto simp: anytlsDelivery_def Let_def shareFile_def deliveryNames_def split: option.splits if_splits)
  have "\<forall>a \<in> set [[], [''share-reality.txt'']]. \<forall>b \<in> set [[], [''share-hysteria2.txt'']].
      \<forall>c \<in> set [[], drop 2 (butlast deliveryNames), drop 2 deliveryNames]. subseq (a @ b @ c) deliveryNames"
    by code_simp
  from bspec [OF bspec [OF bspec [OF this 1(1)] 2(1)] 3(1)] show ?thesis using p(1) 1(2) 2(2) 3(2) by auto
qed

text \<open>The names of the files, which the sections that are present determine.\<close>

definition expectedNames :: "clientInfo \<Rightarrow> bool \<Rightarrow> string list" where
  "expectedNames c ins =
     (if ci_VLESSReality c = None then [] else [''share-reality.txt'']) @
     (if ci_Hysteria2 c = None then [] else [''share-hysteria2.txt'']) @
     (if ci_AnyTLS c = None then []
      else [''client-anytls-sing-box-outbound.json'', ''client-anytls-mihomo.yaml'', ''share-anytls-v2rayn.txt''] @
        (if ins then [''share-anytls.txt''] else []))"

lemma delivery_names:
  assumes "buildDeliveryFiles c ins = Inr (c', fs)"
  shows "map fname fs = expectedNames c ins"
proof -
  obtain f1 f2 f3 where p: "fs = f1 @ f2 @ f3" "deliveredParts c ins c' f1 f2 f3"
    using build_parts [OF assms] by blast
  note d = p(2) [unfolded deliveredParts_def delivered_def]
  have "map fname f1 = (if ci_VLESSReality c = None then [] else [''share-reality.txt''])"
    "map fname f2 = (if ci_Hysteria2 c = None then [] else [''share-hysteria2.txt''])"
    using d by (auto simp: realityDelivery_def hysteria2Delivery_def Let_def shareFile_def split: option.splits)
  moreover have "map fname f3 = (if ci_AnyTLS c = None then []
      else [''client-anytls-sing-box-outbound.json'', ''client-anytls-mihomo.yaml'', ''share-anytls-v2rayn.txt''] @
        (if ins then [''share-anytls.txt''] else []))"
    using d by (auto simp: anytlsDelivery_def Let_def shareFile_def split: option.splits if_splits)
  ultimately show ?thesis using p(1) by (simp add: expectedNames_def)
qed

section \<open>Properties\<close>

text \<open>
  Claim C30. A delivery has exactly the files that the enabled protocols call for, with different
  names, each for the owner only (mode 0600). Every link of a delivery for a checked public
  address reads back, through URL parsing and unescaping, as exactly the protocol, the credential,
  the public address and port and the query it was built from, whatever bytes the credential has,
  and is, with a newline, the content of its share file. The AnyTLS profile decodes to its
  document; the other two AnyTLS files are the printed outbound and the proxy list; a link that
  does not authenticate the server is written only when it was asked for. Ports, credentials and
  names of the client are not changed.
\<close>

theorem delivery_links:
  assumes "buildDeliveryFiles c ins = Inr (c', fs)"
    "validatePublicAddress (ci_PublicAddress c) = Inr ()"
  shows
    "map fname fs = expectedNames c ins \<and> distinct (map fname fs) \<and> (\<forall>f \<in> set fs. fmode f = o600) \<and>
     (\<forall>v. ci_VLESSReality c = Some v \<longrightarrow>
        (\<exists>v'. ci_VLESSReality c' = Some v' \<and> v' = v\<lparr>vc_ShareURI := vc_ShareURI v'\<rparr> \<and>
           linkReads (vc_ShareURI v') ''vless'' (vc_UUID v) (ci_PublicAddress c) (vc_Port v) (realityQuery v) \<and>
           shareFile ''share-reality.txt'' (vc_ShareURI v') \<in> set fs)) \<and>
     (\<forall>h. ci_Hysteria2 c = Some h \<longrightarrow>
        (\<exists>h'. ci_Hysteria2 c' = Some h' \<and> h' = h\<lparr>pc_ShareURI := pc_ShareURI h'\<rparr> \<and>
           linkReads (pc_ShareURI h') ''hysteria2'' (pc_Password h) (ci_PublicAddress c) (pc_Port h) (hysteria2Query h) \<and>
           shareFile ''share-hysteria2.txt'' (pc_ShareURI h') \<in> set fs)) \<and>
     (\<forall>a. ci_AnyTLS c = Some a \<longrightarrow>
        (\<exists>a' f3. ci_AnyTLS c' = Some a' \<and> set f3 \<subseteq> set fs \<and>
           pc_Port a' = pc_Port a \<and> pc_Password a' = pc_Password a \<and> pc_TLSSAN a' = pc_TLSSAN a \<and>
           anytlsDelivered (ci_PublicAddress c) ins a a' f3))"
proof -
  let ?a = "ci_PublicAddress c"
  have ab: "addressByte x" if "x \<in> set ?a" for x using publicAddress_bytes [OF assms(2) that] .
  obtain f1 f2 f3 where p: "fs = f1 @ f2 @ f3" "deliveredParts c ins c' f1 f2 f3"
    using build_parts [OF assms(1)] by blast
  note d = p(2) [unfolded deliveredParts_def]
  have same: "pc_Port a' = pc_Port a \<and> pc_Password a' = pc_Password a \<and> pc_TLSSAN a' = pc_TLSSAN a"
    if "anytlsDelivery ?a ins a = Inr (a', f3)" for a a'
    using that by (auto simp: anytlsDelivery_def Let_def split: if_splits)
  have files: "map fname fs = expectedNames c ins" "distinct (map fname fs)" "\<forall>f \<in> set fs. fmode f = o600"
    using delivery_names [OF assms(1)] delivery_files [OF assms(1)] subseq_unique by blast+
  show ?thesis
  proof (intro conjI files allI impI, goal_cases)
    case (1 v)
    then obtain v' where v: "ci_VLESSReality c' = Some v'" "realityDelivery ?a v = (v', f1)"
      using d by (auto simp: delivered_simps)
    note r = reality_delivery [OF v(2) ab]
    have "f1 = [shareFile ''share-reality.txt'' (vc_ShareURI v')]" using r by blast
    then have "shareFile ''share-reality.txt'' (vc_ShareURI v') \<in> set fs" using p(1) by simp
    then show ?case using v(1) r by blast
  next
    case (2 h)
    then obtain h' where h: "ci_Hysteria2 c' = Some h'" "hysteria2Delivery ?a h = (h', f2)"
      using d by (auto simp: delivered_simps)
    note r = hysteria2_delivery [OF h(2) ab]
    have "f2 = [shareFile ''share-hysteria2.txt'' (pc_ShareURI h')]" using r by blast
    then have "shareFile ''share-hysteria2.txt'' (pc_ShareURI h') \<in> set fs" using p(1) by simp
    then show ?case using h(1) r by blast
  next
    case (3 a)
    then obtain a' where a: "ci_AnyTLS c' = Some a'" "anytlsDelivery ?a ins a = Inr (a', f3)"
      using d by (auto simp: delivered_simps)
    then show ?case using anytls_delivery [OF a(2) ab] same [OF a(2)] p(1)
      by (intro exI [of _ a'] exI [of _ f3]) auto
  qed
qed

definition sampleClient :: clientInfo where
  "sampleClient =
     \<lparr>ci_SchemaVersion = 1, ci_PublicAddress = ''2001:db8::1'',
      ci_VLESSReality = Some \<lparr>vc_Port = 443, vc_UUID = ''12345678-9abc-4def-8123-456789abcdef'',
        vc_PublicKey = sampleKey, vc_ShortID = ''0123456789abcdef'', vc_ServerName = ''www.example.com'',
        vc_ShareURI = []\<rparr>,
      ci_Hysteria2 = Some \<lparr>pc_Port = 8443, pc_Password = ''a&b@c#d:e/f?g=h'', pc_TLSSAN = ''vpn.example.com'',
        pc_CertSHA = ''00'', pc_SingBoxOutboundFile = [], pc_MihomoProxyFile = [], pc_V2RayNShareFile = [],
        pc_V2RayNShareURI = [], pc_ShareURI = [], pc_CertificatePEM = []\<rparr>,
      ci_AnyTLS = None\<rparr>"

lemma delivery_links_witness:
  "\<exists>c' fs h'. buildDeliveryFiles sampleClient False = Inr (c', fs) \<and> ci_Hysteria2 c' = Some h' \<and>
     linkReads (pc_ShareURI h') ''hysteria2'' ''a&b@c#d:e/f?g=h'' ''2001:db8::1'' 8443
       [(''insecure'', ''1''), (''pinSHA256'', ''00''), (''sni'', ''vpn.example.com'')]"
proof -
  have "is_ok (buildDeliveryFiles sampleClient False)" by code_simp
  then obtain c' fs where run: "buildDeliveryFiles sampleClient False = Inr (c', fs)"
    by (auto simp: is_ok_iff)
  have v: "validatePublicAddress (ci_PublicAddress sampleClient) = Inr ()" by code_simp
  have h: "\<exists>h. ci_Hysteria2 sampleClient = Some h \<and> pc_Password h = ''a&b@c#d:e/f?g=h'' \<and> pc_Port h = 8443 \<and>
      hysteria2Query h = [(''insecure'', ''1''), (''pinSHA256'', ''00''), (''sni'', ''vpn.example.com'')] \<and>
      ci_PublicAddress sampleClient = ''2001:db8::1''"
    by (simp add: sampleClient_def hysteria2Query_def)
  show ?thesis using run h delivery_links [OF run v] by metis
qed

text \<open>The port a client is told: the requested one, or the listening port for 0.\<close>

definition chosenPort :: "int \<Rightarrow> int \<Rightarrow> int" where
  "chosenPort requested fallback = (if requested = 0 then fallback else requested)"

definition portRequest :: "int \<Rightarrow> bool" where
  "portRequest p = (p = 0 \<or> (1 \<le> p \<and> p \<le> 65535))"

definition requestOK :: "int \<Rightarrow> 'a option \<Rightarrow> bool" where
  "requestOK p x = (x = None \<or> portRequest p)"

definition publicPortsOK :: "clientInfo \<Rightarrow> int \<Rightarrow> int \<Rightarrow> int \<Rightarrow> bool" where
  "publicPortsOK c pr ph pa =
     (requestOK pr (ci_VLESSReality c) \<and> requestOK ph (ci_Hysteria2 c) \<and> requestOK pa (ci_AnyTLS c) \<and>
      (case (ci_VLESSReality c, ci_AnyTLS c) of
         (Some v, Some a) \<Rightarrow> chosenPort pr (vc_Port v) \<noteq> chosenPort pa (pc_Port a)
       | _ \<Rightarrow> True))"

definition withPublicPorts :: "clientInfo \<Rightarrow> int \<Rightarrow> int \<Rightarrow> int \<Rightarrow> clientInfo" where
  "withPublicPorts c pr ph pa =
     c\<lparr>ci_VLESSReality := map_option (\<lambda>v. v\<lparr>vc_Port := chosenPort pr (vc_Port v)\<rparr>) (ci_VLESSReality c),
       ci_Hysteria2 := map_option (\<lambda>h. h\<lparr>pc_Port := chosenPort ph (pc_Port h)\<rparr>) (ci_Hysteria2 c),
       ci_AnyTLS := map_option (\<lambda>a. a\<lparr>pc_Port := chosenPort pa (pc_Port a)\<rparr>) (ci_AnyTLS c)\<rparr>"

lemma resolvePublicPort_eq:
  "resolvePublicPort n p f =
     (if portRequest p then Inr (chosenPort p f) else Inl (Errorf (n @ '': must be in range 1-65535'')))"
  by (auto simp: resolvePublicPort_def chosenPort_def portRequest_def)

lemma applyPublicPorts_iff:
  "applyPublicPorts c pr ph pa = Inr c' \<longleftrightarrow> publicPortsOK c pr ph pa \<and> c' = withPublicPorts c pr ph pa"
  by (cases "ci_VLESSReality c"; cases "ci_Hysteria2 c"; cases "ci_AnyTLS c";
      cases "portRequest pr"; cases "portRequest ph"; cases "portRequest pa")
    (auto simp: applyPublicPorts_def publicPortsOK_def requestOK_def withPublicPorts_def resolvePublicPort_eq)

text \<open>
  Claim C31. \<open>applyPublicPorts\<close> succeeds exactly when every port requested for an enabled protocol
  is 0 or in 1-65535 and the two TCP protocols Reality and AnyTLS do not end up on one port; then
  it replaces exactly the ports, a request of 0 standing for the listening port.
\<close>

theorem public_ports:
  "applyPublicPorts c pr ph pa = Inr c' \<longleftrightarrow> publicPortsOK c pr ph pa \<and> c' = withPublicPorts c pr ph pa"
  by (rule applyPublicPorts_iff)

end
