(* ===== verification/GenerateProps.thy ===== *)
theory GenerateProps
  imports Generate ShareProps ReadOnly
begin

text \<open>
  What a run of \<open>Generate\<close> (internal/app/generate.go) leaves behind: a server configuration and
  a client record that belong together, nothing but the files of the batch, and the same files
  as before when it fails or finds something in its way.
\<close>

section \<open>Names of the batch\<close>

definition appNames :: "string list" where
  "appNames = [''reality.key'', ''tls.crt'', ''tls.key''] @ deliveryNames @ [''config.json'', ''client-info.json'']"

lemma app_names:
  "list_all simpleName appNames" "list_all (\<lambda>n. \<not> nameUnsafe n) appNames"
  "list_all (\<lambda>n. take 1 n \<noteq> ''.'') appNames" "list_all (\<lambda>n. \<not> hasSuffix n ''.backup'') appNames"
  by code_simp+

lemma app_batch:
  assumes "fname ` set files \<subseteq> set appNames"
  shows "batch_ok files"
proof -
  have "fname f \<noteq> bakName (fname g)" if "f \<in> set files" for f g
  proof -
    have "\<not> hasSuffix (fname f) ''.backup''" using app_names(4) that assms by (auto simp: list_all_iff)
    then show ?thesis using hasSuffix_append [of "fname g" "''.backup''"] by (metis bakName_def)
  qed
  moreover have "take 1 (fname f) \<noteq> ''.''" if "f \<in> set files" for f
    using app_names(3) that assms by (auto simp: list_all_iff)
  ultimately show ?thesis unfolding batch_ok_def by blast
qed

section \<open>The stages\<close>

lemma generateReality_result:
  assumes "generateReality L opts w = (Inr (v, c, fs), w')"
  shows "sameTree w w' \<and> (\<exists>raw. length raw = 32 \<and>
    fs = [\<lparr>fname = ''reality.key'', fdata = b64Encode raw @ nl, fmode = o600\<rparr>] \<and>
    vc_PublicKey c = b64Encode (cl_x25519 L raw)) \<and>
    vl_Port v = go_RealityPort opts \<and> vc_Port c = go_RealityPort opts \<and> vl_UUID v = vc_UUID c \<and>
    vl_ShortID v = vc_ShortID c \<and> vl_ServerName v = vc_ServerName c \<and> vc_ShareURI c = []"
proof -
  obtain host port where h: "splitHandshake (go_RealityHandshake opts) = Inr (host, port)"
    using assms by (auto simp: generateReality_def split: sum.splits)
  obtain r1 w1 where s1: "UUIDv4 w = (r1, w1)" by fastforce
  obtain r2 w2 where s2: "ShortID w1 = (r2, w2)" by fastforce
  obtain r3 w3 where s3: "RealityKeys L w2 = (r3, w3)" by fastforce
  note run = assms [unfolded generateReality_def h] s1 s2 s3
  obtain u s k where r: "r1 = Inr u" "r2 = Inr s" "r3 = Inr k"
    using run by (auto split: if_splits sum.splits)
  note f = UUIDv4_result [OF s1 [unfolded r]] ShortID_result [OF s2 [unfolded r]]
    RealityKeys_result [OF s3 [unfolded r]]
  have "sameTree w w3" using f sameTree_trans by blast
  then show ?thesis using run r f
    by (auto split: if_splits intro!: exI [of _ "fresh w2 32"])
qed

text \<open>Certificate, key file and fingerprint that belong together.\<close>

definition tlsBundle :: "cryptoLib \<Rightarrow> string \<Rightarrow> string \<Rightarrow> string \<Rightarrow> outfile list \<Rightarrow> bool" where
  "tlsBundle L san pem sha fs =
     (\<exists>now key serial nonce der pkcs8 cert.
        pem = pemEncode ''CERTIFICATE'' der \<and>
        cl_createCertificate L (certificateTemplate san now serial) key nonce = Inr der \<and>
        cl_marshalPKCS8 L key = Inr pkcs8 \<and> cl_parseCertificate L der = Inr cert \<and>
        sha = hexEncode (cl_sha256 L (pc_Raw cert)) \<and> validSAN san \<and>
        fs = [\<lparr>fname = ''tls.crt'', fdata = pem, fmode = o644\<rparr>,
              \<lparr>fname = ''tls.key'', fdata = pemEncode ''PRIVATE KEY'' pkcs8, fmode = o600\<rparr>])"

lemma fingerprint_der:
  "certificateFingerprintSHA256 L (pemEncode ''CERTIFICATE'' der) = Inr sha \<Longrightarrow>
     \<exists>cert. cl_parseCertificate L der = Inr cert \<and> sha = hexEncode (cl_sha256 L (pc_Raw cert))"
  by (auto simp: certificateFingerprintSHA256_def pemDecode_Encode pemTypes split: if_splits sum.splits)

lemma generateTLS_result:
  assumes "generateTLS L san w = (Inr (pem, sha, fs), w')"
  shows "sameTree w w' \<and> tlsBundle L san pem sha fs"
proof -
  obtain now w1 where s1: "sys_now w = (now, w1)" by fastforce
  obtain r2 w2 where s2: "SelfSignedCertificate L san now w1 = (r2, w2)" by fastforce
  note run = assms [unfolded generateTLS_def] s1 s2
  obtain c where c: "r2 = Inr c" using run by (auto split: sum.splits)
  obtain key serial nonce der pkcs8 where g:
    "cl_createCertificate L (certificateTemplate san now serial) key nonce = Inr der"
    "cl_marshalPKCS8 L key = Inr pkcs8"
    "CertificatePEM c = pemEncode ''CERTIFICATE'' der" "PrivateKeyPEM c = pemEncode ''PRIVATE KEY'' pkcs8"
    "validSAN san"
    using SelfSigned_result [OF s2 [unfolded c]] by blast
  have f: "certificateFingerprintSHA256 L (pemEncode ''CERTIFICATE'' der) = Inr sha" "pem = CertificatePEM c"
    "w' = w2" "fs = [\<lparr>fname = ''tls.crt'', fdata = pem, fmode = o644\<rparr>,
              \<lparr>fname = ''tls.key'', fdata = PrivateKeyPEM c, fmode = o600\<rparr>]"
    using run c g(3) by (auto split: sum.splits)
  obtain cert where "cl_parseCertificate L der = Inr cert" "sha = hexEncode (cl_sha256 L (pc_Raw cert))"
    using fingerprint_der [OF f(1)] by blast
  then have "tlsBundle L san pem sha fs"
    unfolding tlsBundle_def using g f by metis
  moreover have "sameTree w w1" using now.env [OF s1] now.fs_same [OF s1] by (simp add: sameTree_def)
  ultimately show ?thesis using SelfSigned_same [OF s2] f(3) sameTree_trans by blast
qed

lemma generateHysteria2_result:
  "generateHysteria2 opts sha w = (Inr (h, p), w') \<Longrightarrow> sameTree w w' \<and>
     h = \<lparr>hy_Listen = go_Listen opts, hy_Port = go_Hysteria2Port opts, hy_Password = b64Encode (fresh w 32),
          hy_CertificatePath = ''tls.crt'', hy_KeyPath = ''tls.key'', hy_UpMbps = None, hy_DownMbps = None\<rparr> \<and>
     p = passwordClient (go_Hysteria2Port opts) (b64Encode (fresh w 32)) (go_TLSSAN opts) sha []"
  by (auto simp: generateHysteria2_def split: prod.splits sum.splits dest: Password_result)

lemma generateAnyTLS_result:
  "generateAnyTLS opts sha pem w = (Inr (a, p), w') \<Longrightarrow> sameTree w w' \<and>
     a = \<lparr>at_Listen = go_Listen opts, at_Port = go_AnyTLSPort opts, at_Password = b64Encode (fresh w 32),
          at_CertificatePath = ''tls.crt'', at_KeyPath = ''tls.key''\<rparr> \<and>
     p = passwordClient (go_AnyTLSPort opts) (b64Encode (fresh w 32)) (go_TLSSAN opts) sha pem"
  by (auto simp: generateAnyTLS_def split: prod.splits sum.splits dest: Password_result)

text \<open>Nothing is written before the batch.\<close>

lemma ro_random [ro_intros]:
  "ro_call (randomBytes n)" "ro_call Password" "ro_call ShortID" "ro_call UUIDv4" "ro_call (RealityKeys L)"
  "ro_call (SelfSignedCertificate L san now)"
  unfolding randomBytes_def Password_def ShortID_def UUIDv4_def RealityKeys_def SelfSignedCertificate_def Let_def
  by (intro ro_intros)+

lemma ro_stages [ro_intros]:
  "ro_call (generateReality L opts)" "ro_call (generateTLS L san)"
  "ro_call (generateHysteria2 opts sha)" "ro_call (generateAnyTLS opts sha pem)"
  unfolding generateReality_def generateTLS_def generateHysteria2_def generateAnyTLS_def
  by (intro ro_intros)+

lemma ro_whenEnabled [ro_intros]: "ro_call step \<Longrightarrow> ro_call (whenEnabled b x step)"
  unfolding whenEnabled_def by (intro ro_intros)

lemma ro_someFst [ro_intros]: "ro_call f \<Longrightarrow> ro_call (\<lambda>w. someFst (f w))"
proof -
  assume f: "ro_call f"
  have "ro_call (\<lambda>w. case f w of (r, w') \<Rightarrow> (map_sum id (\<lambda>(a, b). (Some a, Some b)) r, w'))"
    by (intro ro_intros f)
  then show ?thesis by (rule ro_ext [rotated]) (simp add: someFst_def case_prod_beta)
qed

lemma ro_generateFiles: "ro_call (generateFiles L opts)"
  unfolding generateFiles_def Let_def by (intro ro_intros)

section \<open>Server and client belong together\<close>

text \<open>The port a client is told when nothing is shared is the listening port.\<close>

definition clientPort :: "GenerateOptions \<Rightarrow> int \<Rightarrow> int \<Rightarrow> int" where
  "clientPort opts requested port =
     (if go_PublicAddress opts = [] then port else chosenPort requested port)"

text \<open>What the share files change in a client record: its port and its links.\<close>

definition sameVLESS :: "(int \<Rightarrow> int) \<Rightarrow> vlessClientInfo \<Rightarrow> vlessClientInfo \<Rightarrow> bool" where
  "sameVLESS f v v' =
     (vc_Port v' = f (vc_Port v) \<and> vc_UUID v' = vc_UUID v \<and> vc_PublicKey v' = vc_PublicKey v \<and>
      vc_ShortID v' = vc_ShortID v \<and> vc_ServerName v' = vc_ServerName v)"

definition samePassword :: "(int \<Rightarrow> int) \<Rightarrow> passwordClientInfo \<Rightarrow> passwordClientInfo \<Rightarrow> bool" where
  "samePassword f p p' =
     (pc_Port p' = f (pc_Port p) \<and> pc_Password p' = pc_Password p \<and> pc_TLSSAN p' = pc_TLSSAN p \<and>
      pc_CertSHA p' = pc_CertSHA p \<and> pc_CertificatePEM p' = pc_CertificatePEM p)"

definition sameClient :: "(int \<Rightarrow> int) \<Rightarrow> (int \<Rightarrow> int) \<Rightarrow> (int \<Rightarrow> int) \<Rightarrow> clientInfo \<Rightarrow> clientInfo \<Rightarrow> bool" where
  "sameClient f g h c c' =
     (rel_option (sameVLESS f) (ci_VLESSReality c) (ci_VLESSReality c') \<and>
      rel_option (samePassword g) (ci_Hysteria2 c) (ci_Hysteria2 c') \<and>
      rel_option (samePassword h) (ci_AnyTLS c) (ci_AnyTLS c') \<and>
      ci_PublicAddress c' = ci_PublicAddress c \<and> ci_SchemaVersion c' = ci_SchemaVersion c)"

lemma delivered_same:
  assumes "deliveredParts (withPublicPorts c pr ph pa) ins c' f1 f2 f3"
  shows "sameClient (chosenPort pr) (chosenPort ph) (chosenPort pa) c c'"
proof -
  note d = assms [unfolded deliveredParts_def withPublicPorts_def]
  have "rel_option (sameVLESS (chosenPort pr)) (ci_VLESSReality c) (ci_VLESSReality c')"
    using d by (cases "ci_VLESSReality c") (auto simp: delivered_simps realityDelivery_def Let_def sameVLESS_def)
  moreover have "rel_option (samePassword (chosenPort ph)) (ci_Hysteria2 c) (ci_Hysteria2 c')"
    using d by (cases "ci_Hysteria2 c") (auto simp: delivered_simps hysteria2Delivery_def Let_def samePassword_def)
  moreover have "rel_option (samePassword (chosenPort pa)) (ci_AnyTLS c) (ci_AnyTLS c')"
    using d by (cases "ci_AnyTLS c")
      (auto simp: delivered_simps anytlsDelivery_def Let_def samePassword_def split: if_splits)
  ultimately show ?thesis using d by (simp add: sameClient_def)
qed

lemma rel_option_refl_on: "(\<And>x. P x x) \<Longrightarrow> rel_option P x x"
  by (cases x) auto

lemma deliveryOf_result:
  assumes "deliveryOf c pr ph pa ins = Inr (c', fs)"
  shows "sameClient (chosenPort pr) (chosenPort ph) (chosenPort pa) c c' \<and>
    subseq (map fname fs) deliveryNames \<and> (\<forall>f \<in> set fs. fmode f = o600)"
proof -
  let ?c1 = "withPublicPorts c pr ph pa"
  have b: "buildDeliveryFiles ?c1 ins = Inr (c', fs)"
    using assms by (auto simp: deliveryOf_def applyPublicPorts_iff split: sum.splits)
  obtain f1 f2 f3 where "deliveredParts ?c1 ins c' f1 f2 f3" using build_parts [OF b] by blast
  then show ?thesis using delivered_same delivery_files [OF b] by blast
qed

lemma addShareFiles_result:
  assumes "addShareFiles opts c = Inr (c', fs)"
  shows "sameClient (clientPort opts (go_PublicRealityPort opts)) (clientPort opts (go_PublicHysteria2Port opts))
      (clientPort opts (go_PublicAnyTLSPort opts)) c c' \<and>
    subseq (map fname fs) deliveryNames \<and> (\<forall>f \<in> set fs. fmode f = o600)"
proof (cases "go_PublicAddress opts = []")
  case True
  then have "clientPort opts = (\<lambda>requested port. port)" "c' = c" "fs = []"
    using assms by (auto simp: clientPort_def addShareFiles_def fun_eq_iff)
  then show ?thesis
    by (auto simp: sameClient_def sameVLESS_def samePassword_def intro: rel_option_refl_on)
next
  case False
  then have "clientPort opts = chosenPort" by (simp add: clientPort_def fun_eq_iff)
  then show ?thesis using assms False deliveryOf_result by (simp add: addShareFiles_def)
qed

text \<open>The matching of a server configuration, a client record and the files of a batch.\<close>

definition vlessMatch ::
  "cryptoLib \<Rightarrow> (int \<Rightarrow> int) \<Rightarrow> outfile list \<Rightarrow> VLESSRealityConfig \<Rightarrow> vlessClientInfo \<Rightarrow> bool" where
  "vlessMatch L port fs v c =
     (vc_Port c = port (vl_Port v) \<and> vc_UUID c = vl_UUID v \<and> vc_ShortID c = vl_ShortID v \<and>
      vc_ServerName c = vl_ServerName v \<and> vl_PrivateKeyPath v = ''reality.key'' \<and>
      (\<exists>raw. length raw = 32 \<and> vc_PublicKey c = b64Encode (cl_x25519 L raw) \<and>
         \<lparr>fname = ''reality.key'', fdata = b64Encode raw @ nl, fmode = o600\<rparr> \<in> set fs))"

definition passwordMatch ::
  "(int \<Rightarrow> int) \<Rightarrow> int \<Rightarrow> string \<Rightarrow> string \<Rightarrow> string \<Rightarrow> passwordClientInfo \<Rightarrow> bool" where
  "passwordMatch port listening password san sha p =
     (pc_Port p = port listening \<and> pc_Password p = password \<and> pc_TLSSAN p = san \<and> pc_CertSHA p = sha)"

definition clientMatches :: "cryptoLib \<Rightarrow> GenerateOptions \<Rightarrow> Config \<Rightarrow> clientInfo \<Rightarrow> outfile list \<Rightarrow> bool" where
  "clientMatches L opts cfg cl fs =
     (rel_option (vlessMatch L (clientPort opts (go_PublicRealityPort opts)) fs)
        (c_VLESSReality cfg) (ci_VLESSReality cl) \<and>
      (\<exists>pem sha tls. set tls \<subseteq> set fs \<and>
         (c_Hysteria2 cfg \<noteq> None \<or> c_AnyTLS cfg \<noteq> None \<longrightarrow> tlsBundle L (go_TLSSAN opts) pem sha tls) \<and>
         rel_option (\<lambda>h p. hy_CertificatePath h = ''tls.crt'' \<and> hy_KeyPath h = ''tls.key'' \<and>
             passwordMatch (clientPort opts (go_PublicHysteria2Port opts)) (hy_Port h) (hy_Password h)
               (go_TLSSAN opts) sha p) (c_Hysteria2 cfg) (ci_Hysteria2 cl) \<and>
         rel_option (\<lambda>a p. at_CertificatePath a = ''tls.crt'' \<and> at_KeyPath a = ''tls.key'' \<and>
             passwordMatch (clientPort opts (go_PublicAnyTLSPort opts)) (at_Port a) (at_Password a)
               (go_TLSSAN opts) sha p \<and> pc_CertificatePEM p = pem) (c_AnyTLS cfg) (ci_AnyTLS cl)) \<and>
      ci_PublicAddress cl = go_PublicAddress opts \<and> ci_SchemaVersion cl = 1)"



text \<open>The stages of a successful run.\<close>

lemma generateFiles_stages:
  assumes "generateFiles L opts w = (Inr (cfg, cl, fs), w')"
  obtains ps v vc f1 w1 pem sha f2 w2 h hc w3 a ac c0 share where
    "checkOptions opts = Inr ps"
    "if containsProtocol ps ''reality'' then \<exists>x y. v = Some x \<and> vc = Some y \<and> generateReality L opts w = (Inr (x, y, f1), w1)
     else v = None \<and> vc = None \<and> f1 = [] \<and> w1 = w"
    "if containsProtocol ps ''hy2'' \<or> containsProtocol ps ''anytls'' then generateTLS L (go_TLSSAN opts) w1 = (Inr (pem, sha, f2), w2)
     else pem = [] \<and> sha = [] \<and> f2 = [] \<and> w2 = w1"
    "if containsProtocol ps ''hy2'' then \<exists>x y. h = Some x \<and> hc = Some y \<and> generateHysteria2 opts sha w2 = (Inr (x, y), w3)
     else h = None \<and> hc = None \<and> w3 = w2"
    "if containsProtocol ps ''anytls'' then \<exists>x y. a = Some x \<and> ac = Some y \<and> generateAnyTLS opts sha pem w3 = (Inr (x, y), w')
     else a = None \<and> ac = None \<and> w' = w3"
    "cfg = \<lparr>c_SchemaVersion = SchemaVersion, c_Log = Some \<lparr>lg_Level = ''warn''\<rparr>,
            c_VLESSReality = v, c_Hysteria2 = h, c_AnyTLS = a\<rparr>"
    "c0 = \<lparr>ci_SchemaVersion = SchemaVersion, ci_PublicAddress = go_PublicAddress opts,
           ci_VLESSReality = vc, ci_Hysteria2 = hc, ci_AnyTLS = ac\<rparr>"
    "addShareFiles opts c0 = Inr (cl, share)"
    "fs = f1 @ f2 @ share @ [\<lparr>fname = ''config.json'', fdata = configText cfg, fmode = o600\<rparr>,
                             \<lparr>fname = ''client-info.json'', fdata = clientText cl, fmode = o600\<rparr>]"
proof -
  obtain ps where ps: "checkOptions opts = Inr ps"
    using assms by (auto simp: generateFiles_def split: sum.splits)
  let ?reality = "\<lambda>w. case generateReality L opts w of (Inl e, w1) \<Rightarrow> (Inl e, w1)
              | (Inr (v, c, fs), w1) \<Rightarrow> (Inr (Some v, Some c, fs), w1)"
  note run = assms [unfolded generateFiles_def ps]
  obtain v vc f1 w1 where s1: "whenEnabled (containsProtocol ps ''reality'') (None, None, []) ?reality w = (Inr (v, vc, f1), w1)"
    using run by (auto split: sum.splits prod.splits)
  obtain pem sha f2 w2 where s2: "whenEnabled (containsProtocol ps ''hy2'' \<or> containsProtocol ps ''anytls'')
             ([], [], []) (generateTLS L (go_TLSSAN opts)) w1 = (Inr (pem, sha, f2), w2)"
    using run s1 by (auto split: sum.splits prod.splits)
  obtain h hc w3 where s3: "whenEnabled (containsProtocol ps ''hy2'') (None, None)
             (\<lambda>w. someFst (generateHysteria2 opts sha w)) w2 = (Inr (h, hc), w3)"
    using run s1 s2 by (auto split: sum.splits prod.splits)
  obtain a ac w4 where s4: "whenEnabled (containsProtocol ps ''anytls'') (None, None)
             (\<lambda>w. someFst (generateAnyTLS opts sha pem w)) w3 = (Inr (a, ac), w4)"
    using run s1 s2 s3 by (auto split: sum.splits prod.splits)
  let ?cfg = "\<lparr>c_SchemaVersion = SchemaVersion, c_Log = Some \<lparr>lg_Level = ''warn''\<rparr>,
            c_VLESSReality = v, c_Hysteria2 = h, c_AnyTLS = a\<rparr>"
  let ?c0 = "\<lparr>ci_SchemaVersion = SchemaVersion, ci_PublicAddress = go_PublicAddress opts,
           ci_VLESSReality = vc, ci_Hysteria2 = hc, ci_AnyTLS = ac\<rparr>"
  obtain share where s5: "addShareFiles opts ?c0 = Inr (cl, share)" "cfg = ?cfg" "w' = w4"
    "fs = f1 @ f2 @ share @ [\<lparr>fname = ''config.json'', fdata = configText cfg, fmode = o600\<rparr>,
                             \<lparr>fname = ''client-info.json'', fdata = clientText cl, fmode = o600\<rparr>]"
    using run s1 s2 s3 s4 by (auto simp: Let_def split: sum.splits prod.splits)
  show thesis
  proof (rule that [OF ps _ _ _ _ s5(2) refl s5(1) s5(4)])
    show "if containsProtocol ps ''reality'' then \<exists>x y. v = Some x \<and> vc = Some y \<and> generateReality L opts w = (Inr (x, y, f1), w1)
     else v = None \<and> vc = None \<and> f1 = [] \<and> w1 = w"
      using s1 by (auto simp: whenEnabled_def split: if_splits prod.splits sum.splits)
    show "if containsProtocol ps ''hy2'' \<or> containsProtocol ps ''anytls'' then generateTLS L (go_TLSSAN opts) w1 = (Inr (pem, sha, f2), w2)
     else pem = [] \<and> sha = [] \<and> f2 = [] \<and> w2 = w1"
      using s2 by (auto simp: whenEnabled_def split: if_splits)
    show "if containsProtocol ps ''hy2'' then \<exists>x y. h = Some x \<and> hc = Some y \<and> generateHysteria2 opts sha w2 = (Inr (x, y), w3)
     else h = None \<and> hc = None \<and> w3 = w2"
      using s3 by (cases "generateHysteria2 opts sha w2"; cases "fst (generateHysteria2 opts sha w2)")
        (auto simp: whenEnabled_def someFst_def split: if_splits)
    show "if containsProtocol ps ''anytls'' then \<exists>x y. a = Some x \<and> ac = Some y \<and> generateAnyTLS opts sha pem w3 = (Inr (x, y), w')
     else a = None \<and> ac = None \<and> w' = w3"
      using s4 s5(3) by (cases "generateAnyTLS opts sha pem w3"; cases "fst (generateAnyTLS opts sha pem w3)")
        (auto simp: whenEnabled_def someFst_def split: if_splits)
  qed
qed

text \<open>The batch has different names from a fixed list, and only the certificate is public.\<close>

definition batchShape :: "outfile list \<Rightarrow> bool" where
  "batchShape fs =
     (distinct (map fname fs) \<and> fname ` set fs \<subseteq> set appNames \<and>
      (\<forall>f \<in> set fs. fmode f = (if fname f = ''tls.crt'' then o644 else o600)))"

lemma subseq_distinct: "subseq xs ys \<Longrightarrow> distinct ys \<Longrightarrow> distinct xs \<and> set xs \<subseteq> set ys"
  by (auto simp: subseq_conv_nths dest: in_set_nthsD)

lemma app_distinct: "distinct appNames" "distinct deliveryNames" "''tls.crt'' \<notin> set deliveryNames"
  by code_simp+

lemma generated_shape:
  assumes "map fname f1 \<in> {[], [''reality.key'']}" "map fname f2 \<in> {[], [''tls.crt'', ''tls.key'']}"
    "subseq (map fname share) deliveryNames" "\<forall>f \<in> set share. fmode f = o600"
    "\<forall>f \<in> set f1. fmode f = o600"
    "\<forall>f \<in> set f2. fmode f = (if fname f = ''tls.crt'' then o644 else o600)"
  shows "batchShape (f1 @ f2 @ share @ [\<lparr>fname = ''config.json'', fdata = x, fmode = o600\<rparr>,
            \<lparr>fname = ''client-info.json'', fdata = y, fmode = o600\<rparr>])"
proof -
  let ?fs = "f1 @ f2 @ share @ [\<lparr>fname = ''config.json'', fdata = x, fmode = o600\<rparr>,
            \<lparr>fname = ''client-info.json'', fdata = y, fmode = o600\<rparr>]"
  have "subseq (map fname f1 @ map fname f2) [''reality.key'', ''tls.crt'', ''tls.key'']"
    using assms(1,2) by auto
  then have "subseq ((map fname f1 @ map fname f2) @ (map fname share @ [''config.json'', ''client-info.json'']))
      ([''reality.key'', ''tls.crt'', ''tls.key''] @ (deliveryNames @ [''config.json'', ''client-info.json'']))"
    by (intro list_emb_append_mono assms(3)) auto
  then have "subseq (map fname ?fs) appNames" by (simp add: appNames_def)
  then have "distinct (map fname ?fs) \<and> set (map fname ?fs) \<subseteq> set appNames"
    using subseq_distinct app_distinct(1) by blast
  moreover have "fname f \<noteq> ''tls.crt''" if "f \<in> set share" for f
    using subseq_distinct [OF assms(3) app_distinct(2)] app_distinct(3) that by fastforce
  moreover have "fname f \<noteq> ''tls.crt''" if "f \<in> set f1" for f
    using assms(1) that by (cases f1) auto
  ultimately show ?thesis using assms(4-6) by (auto simp: batchShape_def)
qed

lemma generateFiles_result:
  assumes "generateFiles L opts w = (Inr (cfg, cl, fs), w')"
  shows "\<exists>ps. checkOptions opts = Inr ps \<and> clientMatches L opts cfg cl fs \<and> batchShape fs \<and> sameTree w w' \<and>
    \<lparr>fname = ''config.json'', fdata = configText cfg, fmode = o600\<rparr> \<in> set fs \<and>
    \<lparr>fname = ''client-info.json'', fdata = clientText cl, fmode = o600\<rparr> \<in> set fs \<and>
    (c_VLESSReality cfg \<noteq> None \<longleftrightarrow> containsProtocol ps ''reality'') \<and>
    (c_Hysteria2 cfg \<noteq> None \<longleftrightarrow> containsProtocol ps ''hy2'') \<and>
    (c_AnyTLS cfg \<noteq> None \<longleftrightarrow> containsProtocol ps ''anytls'')"
  using assms
proof (cases rule: generateFiles_stages)
  case (1 ps v vc f1 w1 pem sha f2 w2 h hc w3 a ac c0 share)
  note sh = addShareFiles_result [OF 1(8)] and stage = 1(6,7,9)
  let ?P = "clientPort opts (go_PublicRealityPort opts)"
  have r: "rel_option (vlessMatch L id f1) v vc \<and> map fname f1 \<in> {[], [''reality.key'']} \<and> (\<forall>f \<in> set f1. fmode f = o600)"
  proof (cases "containsProtocol ps ''reality''")
    case True
    then obtain x y where "v = Some x" "vc = Some y" "generateReality L opts w = (Inr (x, y, f1), w1)"
      using 1(2) by auto
    then show ?thesis using generateReality_result [of L opts w x y f1 w1]
      by (auto simp: vlessMatch_def generateReality_def split: sum.splits prod.splits if_splits)
  qed (use 1(2) in auto)
  have t: "(h \<noteq> None \<or> a \<noteq> None \<longrightarrow> tlsBundle L (go_TLSSAN opts) pem sha f2) \<and>
      map fname f2 \<in> {[], [''tls.crt'', ''tls.key'']} \<and>
      (\<forall>f \<in> set f2. fmode f = (if fname f = ''tls.crt'' then o644 else o600))"
  proof (cases "containsProtocol ps ''hy2'' \<or> containsProtocol ps ''anytls''")
    case True
    then have "tlsBundle L (go_TLSSAN opts) pem sha f2" using generateTLS_result 1(3) by auto
    then show ?thesis by (auto simp: tlsBundle_def)
  qed (use 1(3-5) in auto)
  have hh: "rel_option (\<lambda>h p. hy_CertificatePath h = ''tls.crt'' \<and> hy_KeyPath h = ''tls.key'' \<and>
        passwordMatch id (hy_Port h) (hy_Password h) (go_TLSSAN opts) sha p) h hc"
    using 1(4) generateHysteria2_result
    by (fastforce simp: passwordMatch_def passwordClient_def split: if_splits)
  have aa: "rel_option (\<lambda>a p. at_CertificatePath a = ''tls.crt'' \<and> at_KeyPath a = ''tls.key'' \<and>
        passwordMatch id (at_Port a) (at_Password a) (go_TLSSAN opts) sha p \<and> pc_CertificatePEM p = pem) a ac"
    using 1(5) generateAnyTLS_result
    by (fastforce simp: passwordMatch_def passwordClient_def split: if_splits)
  have cm: "clientMatches L opts cfg cl fs"
    unfolding clientMatches_def
  proof (intro conjI, goal_cases)
    case 2
    show ?case
    proof (rule exI [of _ pem], rule exI [of _ sha], rule exI [of _ f2], intro conjI)
    show "set f2 \<subseteq> set fs" using stage by auto
    show "c_Hysteria2 cfg \<noteq> None \<or> c_AnyTLS cfg \<noteq> None \<longrightarrow> tlsBundle L (go_TLSSAN opts) pem sha f2"
      using t by (simp add: stage)
    show "rel_option (\<lambda>h p. hy_CertificatePath h = ''tls.crt'' \<and> hy_KeyPath h = ''tls.key'' \<and>
           passwordMatch (clientPort opts (go_PublicHysteria2Port opts)) (hy_Port h) (hy_Password h)
             (go_TLSSAN opts) sha p) (c_Hysteria2 cfg) (ci_Hysteria2 cl)"
      using hh sh by (cases h; cases hc; cases "ci_Hysteria2 cl")
        (auto simp: stage sameClient_def samePassword_def passwordMatch_def)
    show "rel_option (\<lambda>a p. at_CertificatePath a = ''tls.crt'' \<and> at_KeyPath a = ''tls.key'' \<and>
           passwordMatch (clientPort opts (go_PublicAnyTLSPort opts)) (at_Port a) (at_Password a)
             (go_TLSSAN opts) sha p \<and> pc_CertificatePEM p = pem) (c_AnyTLS cfg) (ci_AnyTLS cl)"
      using aa sh by (cases a; cases ac; cases "ci_AnyTLS cl")
        (auto simp: stage sameClient_def samePassword_def passwordMatch_def)
    qed
  next
    case 1
    show ?case
      using r sh by (cases v; cases vc; cases "ci_VLESSReality cl")
        (auto simp: stage sameClient_def sameVLESS_def vlessMatch_def)
  qed (use sh in \<open>auto simp: stage sameClient_def SchemaVersion_def\<close>)
  moreover have "batchShape fs" unfolding 1(9)
    by (rule generated_shape) (use r t sh in auto)
  moreover have "sameTree w w'"
    using ro_call.fs_same [OF ro_generateFiles assms] ro_call_env [OF ro_generateFiles assms]
    by (simp add: sameTree_def)
  moreover have "c_VLESSReality cfg \<noteq> None \<longleftrightarrow> containsProtocol ps ''reality''"
    "c_Hysteria2 cfg \<noteq> None \<longleftrightarrow> containsProtocol ps ''hy2''"
    "c_AnyTLS cfg \<noteq> None \<longleftrightarrow> containsProtocol ps ''anytls''"
    using 1(2,4,5) by (auto simp: 1(6) split: if_splits)
  moreover have "\<lparr>fname = ''config.json'', fdata = configText cfg, fmode = o600\<rparr> \<in> set fs"
    "\<lparr>fname = ''client-info.json'', fdata = clientText cl, fmode = o600\<rparr> \<in> set fs" by (simp_all add: 1(9))
  ultimately show ?thesis using 1(1) by blast
qed

section \<open>Whole runs\<close>

lemma ro_validation [ro_intros]:
  "ro_call (checkFile p k)" "ro_call (loadKeyPair kp c key)" "ro_call (readRealityPrivateKey p)"
  unfolding checkFile_def loadKeyPair_def readRealityPrivateKey_def Let_def by (intro ro_intros)+

lemma ro_sections [ro_intros]:
  "ro_call (validateTLSFiles kp pre cert key)" "ro_call (validateVLESSReality v ports creds)"
  unfolding validateTLSFiles_def validateVLESSReality_def by (intro ro_intros)+

lemma ro_passwords [ro_intros]:
  "ro_call (validateHysteria2 kp h ports creds)" "ro_call (validateAnyTLS kp a ports creds)"
  unfolding validateHysteria2_def validateAnyTLS_def by (intro ro_intros)+

lemma ro_Validate [ro_intros]: "ro_call (Validate kp c)"
  unfolding Validate_def validateProtocols_def by (intro ro_intros)

lemma ro_decoded [ro_intros]: "ro_call (DecodeFile jsonMsg p)"
  unfolding DecodeFile_def Decode_def by (intro ro_intros)

lemma ro_tree: "ro_call f \<Longrightarrow> f w = (r, w') \<Longrightarrow> sameTree w w'"
  using ro_call.fs_same ro_call_env by (metis sameTree_def)

lemma Generate_runs:
  assumes "Generate L jsonMsg opts w = (r, w')"
  obtains (early) e where "fst (generateFiles L opts w) = Inl e" "r = Inl e" "sameTree w w'"
  | (write_error) cfg cl fs w1 e where "generateFiles L opts w = (Inr (cfg, cl, fs), w1)"
      "WriteFiles (go_Output opts) fs (go_Force opts) w1 = (Inl e, w')" "r = Inl e"
  | (verify) cfg cl fs w1 w2 e where "generateFiles L opts w = (Inr (cfg, cl, fs), w1)"
      "WriteFiles (go_Output opts) fs (go_Force opts) w1 = (Inr (), w2)" "sameTree w2 w'" "r = Inl (verifyError e)"
  | (finished) cfg cl fs w1 w2 generated w3 v where "generateFiles L opts w = (Inr (cfg, cl, fs), w1)"
      "WriteFiles (go_Output opts) fs (go_Force opts) w1 = (Inr (), w2)"
      "DecodeFile jsonMsg (joinPath [go_Output opts, ''config.json'']) w2 = (Inr generated, w3)"
      "Validate (cl_keyPair L) (Some generated) w3 = (Inr v, w')"
      "r = Inr \<lparr>gr_Files = resultFiles (go_Output opts) fs, gr_ClientInfo = clientText cl\<rparr>"
proof -
  obtain r1 w1 where s1: "generateFiles L opts w = (r1, w1)" by fastforce
  note run = assms [unfolded Generate_def] s1
  show thesis
  proof (cases r1)
    case (Inl e)
    then show thesis using run s1 early [of e] ro_tree [OF ro_generateFiles s1] by simp
  next
    case r1: (Inr x)
    obtain cfg cl fs where x: "x = (cfg, cl, fs)" by (cases x) auto
    obtain r2 w2 where s2: "WriteFiles (go_Output opts) fs (go_Force opts) w1 = (r2, w2)" by fastforce
    show thesis
    proof (cases r2)
      case (Inl e)
      then show thesis using run r1 x s2 write_error [of cfg cl fs w1 e] by simp
    next
      case r2: (Inr u)
      obtain r3 w3 where s3: "DecodeFile jsonMsg (joinPath [go_Output opts, ''config.json'']) w2 = (r3, w3)" by fastforce
      note t3 = ro_tree [OF ro_decoded s3]
      show thesis
      proof (cases r3)
        case (Inl e)
        then show thesis using run r1 x s2 r2 s3 t3 verify [of cfg cl fs w1 w2 e] by simp
      next
        case r3: (Inr generated)
        obtain r4 w4 where s4: "Validate (cl_keyPair L) (Some generated) w3 = (r4, w4)" by fastforce
        have t4: "sameTree w2 w4" using ro_tree [OF ro_Validate s4] t3 sameTree_trans by blast
        show thesis
        proof (cases r4)
          case (Inl e)
          then show thesis using run r1 x s2 r2 s3 r3 s4 t4 verify [of cfg cl fs w1 w2 e] by simp
        next
          case (Inr v)
          then show thesis using run r1 x s2 r2 s3 r3 s4 finished [of cfg cl fs w1 w2 generated w3 v] by simp
        qed
      qed
    qed
  qed
qed

text \<open>Outcomes carry over to worlds with the same tree.\<close>

lemma outcome_cong:
  assumes "sameTree w w1"
  shows "rolledBack dir fs w1 w' = rolledBack dir fs w w'" "oldSurvive dir fs w1 w' = oldSurvive dir fs w w'"
    "onlyTargets dir fs w1 w' = onlyTargets dir fs w w'" "plainDir dir w1 = plainDir dir w"
    "filesInstalled dir fs w1 = filesInstalled dir fs w" "onlyTargets dir fs w' w1 = onlyTargets dir fs w' w"
proof -
  have e: "sameEnv w w1" "tree w1 = tree w" using assms by (simp_all add: sameTree_def)
  note k = sameEnv_keyOf [OF e(1)] and l = sameTree_lookup [OF assms]
  have u: "euid w1 = euid w" "cwd w1 = cwd w" "kernel w1 = kernel w" using e(1) by (simp_all add: sameEnv_def)
  show "rolledBack dir fs w1 w' = rolledBack dir fs w w'" "oldSurvive dir fs w1 w' = oldSurvive dir fs w w'"
    "onlyTargets dir fs w1 w' = onlyTargets dir fs w w'" "plainDir dir w1 = plainDir dir w"
    "filesInstalled dir fs w1 = filesInstalled dir fs w" "onlyTargets dir fs w' w1 = onlyTargets dir fs w' w"
    by (simp_all add: rolledBack_def oldSurvive_def onlyTargets_def plainDir_def filesInstalled_def e(2) k l u)
qed

lemma installed_content:
  assumes "filesInstalled dir fs w" "f \<in> set fs"
  shows "lookup w (joinPath [dir, fname f]) = Some (newNode (euid w) f)"
    "contentOf w (joinPath [dir, fname f]) = fdata f"
  using assms by (simp_all add: filesInstalled_def contentOf_def newNode_def)

lemma configOK_same: "sameTree w w' \<Longrightarrow> configOK kp w' c key = configOK kp w c key"
proof -
  assume "sameTree w w'"
  note s = sameTree_lookup [OF this]
  have "vlessOK w' = vlessOK w" "hysteria2OK kp w' = hysteria2OK kp w" "anytlsOK kp w' = anytlsOK kp w"
    by (simp_all add: vlessOK_def hysteria2OK_def anytlsOK_def tlsOK_def secureFile_def contentOf_def s fun_eq_iff)
  then show ?thesis by (cases "c_VLESSReality c") (simp_all add: configOK_def vlessPart_def)
qed

text \<open>Writing the generated batch.\<close>

lemma batch_start:
  assumes "generateFiles L opts w = (Inr (cfg, cl, fs), w1)" "plainDir dir w"
  shows "batch_ok fs" "plainDir dir w1" "sameTree w w1" "fname ` set fs \<subseteq> set appNames" "batchShape fs" "fs \<noteq> []"
proof -
  have g: "batchShape fs" "sameTree w w1" "fs \<noteq> []" using generateFiles_result [OF assms(1)] by fastforce+
  then show "batch_ok fs" "plainDir dir w1" "sameTree w w1" "fname ` set fs \<subseteq> set appNames" "batchShape fs" "fs \<noteq> []"
    using assms(2) app_batch outcome_cong(4) [OF g(2)] by (simp_all add: batchShape_def)
qed

lemma batch_kept:
  assumes "generateFiles L opts w = (Inr (cfg, cl, fs), w1)" "plainDir dir w"
    "WriteFiles dir fs force w1 = (r, w2)" "sameTree w2 w'"
  shows "\<not> force \<longrightarrow> (\<forall>p. tree w p \<noteq> None \<longrightarrow> tree w' p = tree w p)"
  using assms(3,4) WriteFiles_keeps [OF _ batch_start(2,1) [OF assms(1,2)], of r w2]
    batch_start(3) [OF assms(1,2)] by (auto simp: sameTree_def)

text \<open>
  What an error of the writer says about its batch: rolled back, incompletely rolled back with
  every old file at its path or its backup path, or committed with every new file in place.
\<close>

definition batchError :: "string \<Rightarrow> outfile list \<Rightarrow> error \<Rightarrow> world \<Rightarrow> world \<Rightarrow> bool" where
  "batchError dir fs e w w' =
     (rolledBack dir fs w w' \<or> (incompleteError e \<and> oldSurvive dir fs w w') \<or>
      (committedError e \<and> filesInstalled dir fs w'))"

definition generatedBatch :: "cryptoLib \<Rightarrow> GenerateOptions \<Rightarrow> world \<Rightarrow> outfile list option" where
  "generatedBatch L opts w =
     (case fst (generateFiles L opts w) of Inl _ \<Rightarrow> None | Inr (_, _, fs) \<Rightarrow> Some fs)"

lemma Generate_outcome:
  assumes "Generate L jsonMsg opts w = (r, w')" "plainDir (go_Output opts) w"
  shows "(\<not> go_Force opts \<longrightarrow> (\<forall>p. tree w p \<noteq> None \<longrightarrow> tree w' p = tree w p)) \<and>
    (\<forall>e. r = Inl e \<longrightarrow>
       (case generatedBatch L opts w of
          None \<Rightarrow> sameTree w w'
        | Some fs \<Rightarrow> fs \<noteq> [] \<and> batchShape fs \<and>
            (batchError (go_Output opts) fs e w w' \<or>
             ((\<exists>e0. e = verifyError e0) \<and> filesInstalled (go_Output opts) fs w'))))"
  using assms(1)
proof (cases rule: Generate_runs)
  case (early e)
  then show ?thesis by (simp add: generatedBatch_def sameTree_def)
next
  case (write_error cfg cl fs w1 e)
  note b = batch_start [OF write_error(1) assms(2)]
  have "batchError (go_Output opts) fs e w w'"
    using WriteFiles_fails [OF write_error(2) b(2,1)] outcome_cong(1,2) [OF b(3)] by (simp add: batchError_def)
  moreover have "generatedBatch L opts w = Some fs" using write_error(1) by (simp add: generatedBatch_def)
  ultimately show ?thesis
    using batch_kept [OF write_error(1) assms(2) write_error(2) sameTree_refl] b(5,6) write_error(3) by simp
next
  case (verify cfg cl fs w1 w2 e)
  note b = batch_start [OF verify(1) assms(2)]
  have "filesInstalled (go_Output opts) fs w'"
    using WriteFiles_installs [OF verify(2) b(2,1)] outcome_cong(5) [OF verify(3)] by simp
  moreover have "generatedBatch L opts w = Some fs" using verify(1) by (simp add: generatedBatch_def)
  ultimately show ?thesis using batch_kept [OF verify(1) assms(2) verify(2,3)] b(5,6) verify(4) by auto
next
  case (finished cfg cl fs w1 w2 generated w3 v)
  have "sameTree w2 w'" using ro_tree [OF ro_decoded finished(3)] ro_tree [OF ro_Validate finished(4)]
    sameTree_trans by blast
  then show ?thesis using batch_kept [OF finished(1) assms(2) finished(2)] finished(5) by blast
qed

section \<open>Properties\<close>

text \<open>
  Claim C32. A successful \<open>Generate\<close> has written one batch of files with different names from a
  fixed list, of which only the certificate is readable by others, and changed nothing else. The
  server configuration has a section for each enabled protocol, and for each the client record
  has the same credential, the port it is to use, the public key of the key file, or the
  fingerprint of the certificate that belongs to the key file. What is on disk decodes and meets
  every condition of the validation.
\<close>

theorem Generate_consistent:
  assumes "Generate L jsonMsg opts w = (Inr r, w')" "plainDir (go_Output opts) w"
  shows "\<exists>cfg cl fs ps c0 key. checkOptions opts = Inr ps \<and> clientMatches L opts cfg cl fs \<and>
    (c_VLESSReality cfg \<noteq> None \<longleftrightarrow> containsProtocol ps ''reality'') \<and>
    (c_Hysteria2 cfg \<noteq> None \<longleftrightarrow> containsProtocol ps ''hy2'') \<and>
    (c_AnyTLS cfg \<noteq> None \<longleftrightarrow> containsProtocol ps ''anytls'') \<and>
    batchShape fs \<and> filesInstalled (go_Output opts) fs w' \<and> onlyTargets (go_Output opts) fs w w' \<and>
    contentOf w' (joinPath [go_Output opts, ''client-info.json'']) = clientText cl \<and>
    contentOf w' (joinPath [go_Output opts, ''config.json'']) = configText cfg \<and>
    decodeConfig jsonMsg (configText cfg) = Inr c0 \<and>
    configOK (cl_keyPair L) w' (resolveRelativePaths c0 (dirName (keyOf w' (joinPath [go_Output opts, ''config.json''])))) key \<and>
    r = \<lparr>gr_Files = resultFiles (go_Output opts) fs, gr_ClientInfo = clientText cl\<rparr>"
  using assms(1)
proof (cases rule: Generate_runs)
  case (finished cfg cl fs w1 w2 generated w3 v)
  let ?dir = "go_Output opts" and ?path = "joinPath [go_Output opts, ''config.json'']"
  obtain ps where g: "checkOptions opts = Inr ps" "clientMatches L opts cfg cl fs" "batchShape fs" "sameTree w w1"
    "\<lparr>fname = ''config.json'', fdata = configText cfg, fmode = o600\<rparr> \<in> set fs"
    "\<lparr>fname = ''client-info.json'', fdata = clientText cl, fmode = o600\<rparr> \<in> set fs"
    "c_VLESSReality cfg \<noteq> None \<longleftrightarrow> containsProtocol ps ''reality''"
    "c_Hysteria2 cfg \<noteq> None \<longleftrightarrow> containsProtocol ps ''hy2''"
    "c_AnyTLS cfg \<noteq> None \<longleftrightarrow> containsProtocol ps ''anytls''"
    using generateFiles_result [OF finished(1)] by blast
  have i: "filesInstalled ?dir fs w2" "onlyTargets ?dir fs w w2"
    using WriteFiles_installs [OF finished(2) batch_start(2,1) [OF finished(1) assms(2)]] outcome_cong(3) [OF g(4)] by simp_all
  have t: "sameTree w2 w3" "sameTree w3 w'"
    using ro_tree [OF ro_decoded finished(3)] ro_tree [OF ro_Validate finished(4)] by simp_all
  have i': "filesInstalled ?dir fs w'" "onlyTargets ?dir fs w w'"
    using i outcome_cong(5,6) [OF sameTree_trans [OF t]] by simp_all
  obtain c0 where d: "decodeConfig jsonMsg (contentOf w2 ?path) = Inr c0"
    "generated = resolveRelativePaths c0 (dirName (keyOf w2 ?path))"
    using DecodeFile_accepts [OF finished(3)] by blast
  have ok: "configOK (cl_keyPair L) w3 generated (v_RealityPrivateKey v)"
    by (rule Validate_accepted(2) [OF finished(4)])
  have "configOK (cl_keyPair L) w' generated (v_RealityPrivateKey v)"
    using ok configOK_same [OF t(2)] by simp
  moreover have "keyOf w' ?path = keyOf w2 ?path"
    using sameTree_trans [OF t] by (simp add: sameTree_def sameEnv_keyOf)
  moreover have "contentOf w2 ?path = configText cfg" using installed_content(2) [OF i(1) g(5)] by simp
  moreover have "contentOf w' ?path = configText cfg"
    "contentOf w' (joinPath [?dir, ''client-info.json'']) = clientText cl"
    using installed_content(2) [OF i'(1) g(5)] installed_content(2) [OF i'(1) g(6)] by simp_all
  ultimately have "configOK (cl_keyPair L) w' (resolveRelativePaths c0 (dirName (keyOf w' ?path))) (v_RealityPrivateKey v)"
    "decodeConfig jsonMsg (configText cfg) = Inr c0" "contentOf w' ?path = configText cfg"
    "contentOf w' (joinPath [?dir, ''client-info.json'']) = clientText cl"
    "r = \<lparr>gr_Files = resultFiles (go_Output opts) fs, gr_ClientInfo = clientText cl\<rparr>"
    using d finished(5) by simp_all
  then show ?thesis using g(1-3,7-9) i' by blast
qed simp_all

text \<open>
  Claim C33. For an ordinary output directory (as in C1) and whatever fails, \<open>Generate\<close> without
  force changes no existing path. When it returns an error and it had not come as far as a batch of files, the tree is as before. Otherwise the batch
  is the one that the options and the random bytes determine, with different names and private
  modes, and for exactly this batch: the tree is as before but for created directories and
  temporary files that could not be removed, or the error says that the rollback is incomplete
  and every old file is at its path or its backup path, or every file of the batch is in place and
  the error says that the batch was committed or that it could not be verified.
\<close>

theorem Generate_failure:
  assumes "Generate L jsonMsg opts w = (r, w')" "plainDir (go_Output opts) w"
  shows "(\<not> go_Force opts \<longrightarrow> (\<forall>p. tree w p \<noteq> None \<longrightarrow> tree w' p = tree w p)) \<and>
    (\<forall>e. r = Inl e \<longrightarrow>
       (case generatedBatch L opts w of
          None \<Rightarrow> sameTree w w'
        | Some fs \<Rightarrow> fs \<noteq> [] \<and> batchShape fs \<and>
            (batchError (go_Output opts) fs e w w' \<or>
             ((\<exists>e0. e = verifyError e0) \<and> filesInstalled (go_Output opts) fs w'))))"
  by (rule Generate_outcome [OF assms])

section \<open>A sample run\<close>

definition sampleOptions :: GenerateOptions where
  "sampleOptions =
     \<lparr>go_Output = ''/out'', go_Protocols = ['' Reality''], go_Listen = ''::'',
      go_PublicAddress = '''', go_RealityPort = 8443, go_Hysteria2Port = 0, go_AnyTLSPort = 0,
      go_PublicRealityPort = 0, go_PublicHysteria2Port = 0, go_PublicAnyTLSPort = 0,
      go_RealityServerName = ''www.example.com'', go_RealityHandshake = ''www.example.com:443'',
      go_TLSSAN = '''', go_AllowInsecureAnyTLSShare = False, go_Force = False\<rparr>"

lemma sample_generated: "\<exists>r w'. Generate sampleLib id sampleOptions outWorld = (Inr r, w')"
proof -
  have "is_ok (fst (Generate sampleLib id sampleOptions outWorld))" by code_simp
  then show ?thesis by (metis is_ok_iff prod.collapse)
qed

lemma Generate_consistent_witness:
  "\<exists>r w' cfg. Generate sampleLib id sampleOptions outWorld = (Inr r, w') \<and>
     contentOf w' ''/out/config.json'' = configText cfg \<and> c_VLESSReality cfg \<noteq> None \<and> c_AnyTLS cfg = None"
proof -
  obtain r w' where run: "Generate sampleLib id sampleOptions outWorld = (Inr r, w')"
    using sample_generated by blast
  have o: "go_Output sampleOptions = ''/out''" by (simp add: sampleOptions_def)
  have c: "checkOptions sampleOptions = Inr [''reality'']" "joinPath [''/out'', ''config.json''] = ''/out/config.json''"
    by code_simp+
  show ?thesis
    using Generate_consistent [OF run] run by (auto simp: o c containsProtocol_def)
qed

lemma Generate_failure_witness:
  "\<exists>e w' fs. Generate sampleLib id sampleOptions (failing 8 outWorld) = (Inl e, w') \<and>
     generatedBatch sampleLib sampleOptions (failing 8 outWorld) = Some fs \<and> fs \<noteq> [] \<and>
     (batchError ''/out'' fs e (failing 8 outWorld) w' \<or> ((\<exists>e0. e = verifyError e0) \<and> filesInstalled ''/out'' fs w')) \<and>
     tree w' ''/out'' = Some (dirNode o700 0)"
proof -
  have "(is_ok (fst (Generate sampleLib id sampleOptions (failing 8 outWorld))),
      generatedBatch sampleLib sampleOptions (failing 8 outWorld) = None) = (False, False)" by code_simp
  then have c: "\<not> is_ok (fst (Generate sampleLib id sampleOptions (failing 8 outWorld)))"
    "generatedBatch sampleLib sampleOptions (failing 8 outWorld) \<noteq> None" by blast+
  obtain e w' where run: "Generate sampleLib id sampleOptions (failing 8 outWorld) = (Inl e, w')"
    using c(1) by (metis is_ok_iff prod.collapse obj_sumE)
  obtain fs where b: "generatedBatch sampleLib sampleOptions (failing 8 outWorld) = Some fs" using c(2) by blast
  have o: "go_Output sampleOptions = ''/out''" "\<not> go_Force sampleOptions" by (simp_all add: sampleOptions_def)
  have t: "tree (failing 8 outWorld) ''/out'' = Some (dirNode o700 0)" by (simp add: failing_def outTree_def)
  have p: "plainDir (go_Output sampleOptions) (failing 8 outWorld)" unfolding o(1) by (rule sample_plain(2))
  note g = Generate_failure [OF run p, unfolded b o(1) option.case]
  have "tree w' ''/out'' = Some (dirNode o700 0)" using g o(2) t by simp
  then show ?thesis using g run b by blast
qed

end
