(* ===== verification/DeliverProps.thy ===== *)
theory DeliverProps
  imports Deliver GenerateProps
begin

text \<open>
  What \<open>Deliver\<close> and \<open>RenewCertificate\<close> (internal/app/deliver.go, renew.go) make of an existing
  server configuration: client records that match it, and no change to the files the server uses.
\<close>

section \<open>Reading the server\<close>

lemma ro_loadValidated [ro_intros]: "ro_call (loadValidated L jsonMsg path)"
  unfolding loadValidated_def by (intro ro_intros ro_decoded ro_Validate)

lemma ro_tlsClientInfo [ro_intros]: "ro_call (tlsClientInfo L path)"
  unfolding tlsClientInfo_def by (intro ro_intros)

lemma ro_certificateClient [ro_intros]: "ro_call (certificateClient L m section)"
  unfolding certificateClient_def by (intro ro_intros)

lemma ro_deliverClient [ro_intros]: "ro_call (deliverClient L address v)"
  unfolding deliverClient_def by (intro ro_intros)

lemma ro_currentTLS [ro_intros]: "ro_call (currentTLS L path c)"
  unfolding currentTLS_def by (intro ro_intros)

text \<open>The configuration that a path holds, as the validation accepted it.\<close>

definition servedConfig ::
  "cryptoLib \<Rightarrow> (string \<Rightarrow> string) \<Rightarrow> string \<Rightarrow> world \<Rightarrow> Validated \<Rightarrow> bool" where
  "servedConfig L jsonMsg path w v =
     (secureFile w path fileConfig \<and>
      (\<exists>c0. decodeConfig jsonMsg (contentOf w path) = Inr c0 \<and>
         v_Config v = resolveRelativePaths c0 (dirName (keyOf w path))) \<and>
      configOK (cl_keyPair L) w (v_Config v) (v_RealityPrivateKey v))"

lemma servedConfig_same: "sameTree w w' \<Longrightarrow> servedConfig L jsonMsg path w' v = servedConfig L jsonMsg path w v"
proof -
  assume t: "sameTree w w'"
  then have "keyOf w' path = keyOf w path" by (simp add: sameTree_def sameEnv_keyOf)
  then show ?thesis by (simp add: servedConfig_def configOK_same [OF t] sameTree_secure [OF t] sameTree_content [OF t])
qed

lemma loadValidated_result:
  assumes "loadValidated L jsonMsg path w = (Inr v, w')"
  shows "sameTree w w' \<and> servedConfig L jsonMsg path w v"
proof -
  obtain c w1 where s: "DecodeFile jsonMsg path w = (Inr c, w1)" "Validate (cl_keyPair L) (Some c) w1 = (Inr v, w')"
    using assms by (auto simp: loadValidated_def split: prod.splits sum.splits)
  note d = DecodeFile_accepts [OF s(1)] and v = Validate_accepted [OF s(2)]
  have t: "sameTree w w1" using d by blast
  have "configOK (cl_keyPair L) w (v_Config v) (v_RealityPrivateKey v)" using v(1,2) configOK_same [OF t] by simp
  moreover have "sameTree w w'" using t v(3) by (rule sameTree_trans)
  ultimately show ?thesis using d v(1) unfolding servedConfig_def by simp
qed

text \<open>The certificate that a file begins with, and its name.\<close>

definition certificateIn :: "cryptoLib \<Rightarrow> string \<Rightarrow> parsedCertificate \<Rightarrow> bool" where
  "certificateIn L content cert =
     (\<exists>der rest. pemDecode content = Some (''CERTIFICATE'', der, rest) \<and> onlyCertificates rest \<and>
        cl_parseCertificate L der = Inr cert \<and> serverNameOf cert \<noteq> [])"

lemma readCertificate_result:
  "readCertificate L content = Inr p \<Longrightarrow>
     \<exists>cert. certificateIn L content cert \<and>
       p = passwordClient 0 [] (serverNameOf cert) (hexEncode (cl_sha256 L (pc_Raw cert))) content"
  unfolding certificateIn_def readCertificate_def Let_def by (auto split: option.splits if_splits sum.splits)

lemma tlsClientInfo_result:
  assumes "tlsClientInfo L path w = (Inr p, w')" "secureFile w path k"
  shows "sameTree w w' \<and> readCertificate L (contentOf w path) = Inr p"
proof -
  obtain content where s: "sys_readFile path w = (Inr content, w')" "readCertificate L content = Inr p"
    using assms(1) by (auto simp: tlsClientInfo_def split: prod.splits sum.splits)
  have "content = contentOf w path" using secure_regular [OF assms(2)] readFile_file [OF s(1)] by auto
  then show ?thesis using s ro_tree [OF ro_tlsClientInfo assms(1)] by simp
qed

section \<open>Client records of a server\<close>

definition servesReality ::
  "cryptoLib \<Rightarrow> world \<Rightarrow> (int \<Rightarrow> int) \<Rightarrow> VLESSRealityConfig \<Rightarrow> vlessClientInfo \<Rightarrow> bool" where
  "servesReality L w port v c =
     (vc_Port c = port (vl_Port v) \<and> vc_UUID c = vl_UUID v \<and> vc_ShortID c = vl_ShortID v \<and>
      vc_ServerName c = vl_ServerName v \<and>
      (\<exists>key raw. storesKey (contentOf w (vl_PrivateKeyPath v)) key \<and> b64Decode key = Some raw \<and>
         vc_PublicKey c = b64Encode (cl_x25519 L raw)))"

definition servesPassword ::
  "cryptoLib \<Rightarrow> world \<Rightarrow> (int \<Rightarrow> int) \<Rightarrow> string \<times> int \<times> string \<Rightarrow> passwordClientInfo \<Rightarrow> bool" where
  "servesPassword L w port section p =
     (case section of (path, listening, password) \<Rightarrow>
        \<exists>cert. certificateIn L (contentOf w path) cert \<and>
          passwordMatch port listening password (serverNameOf cert) (hexEncode (cl_sha256 L (pc_Raw cert))) p \<and>
          pc_CertificatePEM p = contentOf w path)"

lemma serves_tree:
  assumes "sameTree w w'"
  shows "servesReality L w' = servesReality L w" "servesPassword L w' = servesPassword L w"
  by (simp_all add: servesReality_def servesPassword_def fun_eq_iff sameTree_content [OF assms])

lemma realityPublicKey_result:
  "realityPublicKey L key = Inr pub \<Longrightarrow> \<exists>raw. b64Decode key = Some raw \<and> pub = b64Encode (cl_x25519 L raw)"
  by (auto simp: realityPublicKey_def split: option.splits if_splits)

lemma realityClient_result:
  assumes "realityClient L key (c_VLESSReality c) = Inr r" "vlessPart w c key"
  shows "rel_option (servesReality L w (\<lambda>port. port)) (c_VLESSReality c) r"
proof (cases "c_VLESSReality c")
  case None
  then show ?thesis using assms(1) by (simp add: realityClient_def)
next
  case (Some v)
  then obtain pub where p: "realityPublicKey L key = Inr pub"
    "r = Some \<lparr>vc_Port = vl_Port v, vc_UUID = vl_UUID v, vc_PublicKey = pub,
                     vc_ShortID = vl_ShortID v, vc_ServerName = vl_ServerName v, vc_ShareURI = []\<rparr>"
    using assms(1) by (auto simp: realityClient_def split: sum.splits)
  have "storesKey (contentOf w (vl_PrivateKeyPath v)) key" using assms(2) Some by (simp add: vlessPart_def vlessOK_def)
  then show ?thesis using Some p realityPublicKey_result [OF p(1)] unfolding servesReality_def by auto
qed

lemma certificateClient_result:
  assumes "certificateClient L m section w = (Inr r, w')"
    "whenSome (\<lambda>(path, rest). \<exists>k. secureFile w path k) section"
  shows "sameTree w w' \<and> rel_option (servesPassword L w (\<lambda>port. port)) section r"
proof (cases "section")
  case None
  then show ?thesis using assms(1) by (simp add: certificateClient_def)
next
  case (Some s)
  obtain path port password where s: "s = (path, port, password)" by (cases s) auto
  obtain p where p: "tlsClientInfo L path w = (Inr p, w')" "r = Some (p\<lparr>pc_Port := port, pc_Password := password\<rparr>)"
    using assms(1) Some s by (auto simp: certificateClient_def split: prod.splits sum.splits)
  obtain k where "secureFile w path k" using assms(2) Some s by (auto simp: whenSome_def)
  note t = tlsClientInfo_result [OF p(1) this]
  then show ?thesis using readCertificate_result [of L "contentOf w path" p] Some s p(2)
    by (auto simp: servesPassword_def passwordMatch_def passwordClient_def)
qed


lemma deliverClient_result:
  assumes "deliverClient L address v w = (Inr c, w')" "servedConfig L jsonMsg path w v"
  shows "rel_option (servesReality L w (\<lambda>port. port)) (c_VLESSReality (v_Config v)) (ci_VLESSReality c) \<and>
    rel_option (servesPassword L w (\<lambda>port. port)) (hysteria2Section (v_Config v)) (ci_Hysteria2 c) \<and>
    rel_option (servesPassword L w (\<lambda>port. port)) (anytlsSection (v_Config v)) (ci_AnyTLS c) \<and>
    ci_PublicAddress c = address \<and> ci_SchemaVersion c = SchemaVersion"
proof -
  let ?c = "v_Config v"
  obtain q1 where q1: "realityClient L (v_RealityPrivateKey v) (c_VLESSReality ?c) = Inr q1"
    using assms(1) by (cases "realityClient L (v_RealityPrivateKey v) (c_VLESSReality ?c)") (auto simp: deliverClient_def)
  obtain r2 w1 where s2: "certificateClient L ''hysteria2 delivery certificate: '' (hysteria2Section ?c) w = (r2, w1)" by fastforce
  obtain r3 w2 where s3: "certificateClient L ''anytls delivery certificate: '' (anytlsSection ?c) w1 = (r3, w2)" by fastforce
  obtain q2 q3 where q: "r2 = Inr q2" "r3 = Inr q3" and
    c: "c = \<lparr>ci_SchemaVersion = SchemaVersion, ci_PublicAddress = address,
              ci_VLESSReality = q1, ci_Hysteria2 = q2, ci_AnyTLS = q3\<rparr>"
    using assms(1) q1 s2 s3 by (auto simp: deliverClient_def split: sum.splits)
  have ok: "vlessPart w ?c (v_RealityPrivateKey v)" "whenSome (hysteria2OK (cl_keyPair L) w) (c_Hysteria2 ?c)"
    "whenSome (anytlsOK (cl_keyPair L) w) (c_AnyTLS ?c)"
    using assms(2) by (simp_all add: servedConfig_def configOK_def)
  have f: "whenSome (\<lambda>(path, rest). \<exists>k. secureFile w path k) (hysteria2Section ?c)"
    "whenSome (\<lambda>(path, rest). \<exists>k. secureFile w path k) (anytlsSection ?c)"
    using ok by (auto simp: whenSome_def hysteria2Section_def anytlsSection_def hysteria2OK_def anytlsOK_def tlsOK_def
        split: option.splits)
  have t: "sameTree w w1" using ro_tree [OF ro_certificateClient s2] .
  have f2: "whenSome (\<lambda>(path, rest). \<exists>k. secureFile w1 path k) (anytlsSection ?c)"
    using f(2) t by simp
  have "rel_option (servesPassword L w1 (\<lambda>port. port)) (anytlsSection ?c) q3"
    using certificateClient_result [OF s3 [unfolded q] f2] by blast
  moreover have "servesPassword L w1 = servesPassword L w"
    by (rule serves_tree [OF t])
  ultimately show ?thesis
    using realityClient_result [OF q1 ok(1)] certificateClient_result [OF s2 [unfolded q] f(1)] c by simp
qed

section \<open>The written batch\<close>

definition clientNames :: "string list" where
  "clientNames = ''client-info.json'' # deliveryNames"

definition renewedNames :: "string list" where
  "renewedNames = [''tls.crt'', ''tls.key''] @ clientNames"

lemma client_names:
  "distinct clientNames" "set clientNames \<subseteq> set appNames" "''tls.crt'' \<notin> set clientNames"
  "''tls.key'' \<notin> set clientNames" "distinct renewedNames" "set renewedNames \<subseteq> set appNames"
  by code_simp+

lemma lastPart_child: "simpleName n \<Longrightarrow> lastPart (child k n) = n"
proof -
  assume "simpleName n"
  then have "takeWhile (\<lambda>c. c \<noteq> slash) (rev n @ slash # s) = rev n" for s
    by (subst takeWhile_append2) (auto simp: simpleName_def)
  then show ?thesis by (simp add: child_def lastPart_def)
qed

text \<open>What a batch with names from a list leaves alone.\<close>

definition elsewhereSame :: "string list \<Rightarrow> world \<Rightarrow> world \<Rightarrow> bool" where
  "elsewhereSame names w w' = (\<forall>k. tree w k \<noteq> None \<longrightarrow> lastPart k \<notin> set names \<longrightarrow> tree w' k = tree w k)"

lemma batch_written:
  assumes "WriteFiles dir fs force w1 = (Inr x, w')" "sameTree w w1" "plainDir dir w"
    "batchShape fs" "fname ` set fs \<subseteq> set names"
  shows "filesInstalled dir fs w' \<and> onlyTargets dir fs w w' \<and> elsewhereSame names w w'"
proof -
  have p: "plainDir dir w1" using outcome_cong(4) [OF assms(2)] assms(3) by simp
  have b: "batch_ok fs" using assms(4) by (simp add: batchShape_def app_batch)
  note i = WriteFiles_installs [OF assms(1) p b]
  have o: "onlyTargets dir fs w w'" using i outcome_cong(3) [OF assms(2)] by simp
  have "tree w' k = tree w k" if "tree w k \<noteq> None" "lastPart k \<notin> set names" for k
  proof -
    have n: "k \<noteq> keyOf w (target dir f)" if f: "f \<in> set fs" for f
    proof -
      have "fname f \<in> set appNames" using assms(4) f by (auto simp: batchShape_def)
      then have s: "simpleName (fname f)" using app_names(1) by (simp add: list_all_iff)
      have "keyOf w (target dir f) = child (keyOf w dir) (fname f)"
        using keyOf_join s assms(3) by (simp add: plainDir_def)
      then show ?thesis using lastPart_child [OF s] \<open>lastPart k \<notin> set names\<close> f assms(5) by auto
    qed
    have "k \<notin> (\<lambda>f. keyOf w (target dir f)) ` set fs" using n by (simp add: image_iff)
    then have "tree w' k = tree w k \<or> (tree w k = None \<and> k \<in> set (ancestors (keyOf w dir)))"
      using o by (simp add: onlyTargets_def)
    then show ?thesis using that(1) by simp
  qed
  then show ?thesis using i o by (simp add: elsewhereSame_def)
qed

lemma client_shape:
  assumes "subseq (map fname df) deliveryNames" "\<forall>f \<in> set df. fmode f = o600"
  shows "batchShape (df @ [clientFile cl])" "fname ` set (df @ [clientFile cl]) \<subseteq> set clientNames"
proof -
  have d: "distinct (map fname df) \<and> set (map fname df) \<subseteq> set deliveryNames"
    using subseq_distinct [OF assms(1) app_distinct(2)] .
  have n: "''client-info.json'' \<notin> set deliveryNames" using client_names(1) by (simp add: clientNames_def)
  have s: "fname ` set (df @ [clientFile cl]) \<subseteq> set clientNames"
    using d by (auto simp: clientNames_def clientFile_def)
  moreover have "distinct (map fname (df @ [clientFile cl]))" using d n by (auto simp: clientFile_def)
  moreover have "fname f \<noteq> ''tls.crt''" if "f \<in> set (df @ [clientFile cl])" for f
    using s client_names(3) that by (metis image_eqI subset_iff)
  moreover have "\<forall>f \<in> set (df @ [clientFile cl]). fmode f = o600" using assms(2) by (auto simp: clientFile_def)
  ultimately show "batchShape (df @ [clientFile cl])" using client_names(2) unfolding batchShape_def by force
  show "fname ` set (df @ [clientFile cl]) \<subseteq> set clientNames" by (rule s)
qed


lemma rel_option_trans:
  "rel_option P x y \<Longrightarrow> rel_option Q y z \<Longrightarrow> (\<And>a b c. P a b \<Longrightarrow> Q b c \<Longrightarrow> R a c) \<Longrightarrow> rel_option R x z"
  by (cases x; cases y; cases z) auto

lemma serves_same:
  "servesReality L w (\<lambda>port. port) v c \<Longrightarrow> sameVLESS f c c' \<Longrightarrow> servesReality L w f v c'"
  "servesPassword L w (\<lambda>port. port) s p \<Longrightarrow> samePassword f p p' \<Longrightarrow> servesPassword L w f s p'"
  by (auto simp: servesReality_def sameVLESS_def servesPassword_def samePassword_def passwordMatch_def)

text \<open>A client record for the server at a path, with the ports that were asked for.\<close>

definition servesClient ::
  "cryptoLib \<Rightarrow> world \<Rightarrow> int \<Rightarrow> int \<Rightarrow> int \<Rightarrow> Config \<Rightarrow> clientInfo \<Rightarrow> bool" where
  "servesClient L w pr ph pa c cl =
     (rel_option (servesReality L w (chosenPort pr)) (c_VLESSReality c) (ci_VLESSReality cl) \<and>
      rel_option (servesPassword L w (chosenPort ph)) (hysteria2Section c) (ci_Hysteria2 cl) \<and>
      rel_option (servesPassword L w (chosenPort pa)) (anytlsSection c) (ci_AnyTLS cl) \<and>
      ci_SchemaVersion cl = SchemaVersion)"

lemma servesClient_tree:
  assumes "sameTree w w'"
  shows "servesClient L w' = servesClient L w"
  by (intro ext) (simp add: servesClient_def serves_tree [OF assms])

lemma deliverClient_serves:
  assumes "deliverClient L address v w = (Inr c, w')" "servedConfig L jsonMsg path w v"
    "sameClient (chosenPort pr) (chosenPort ph) (chosenPort pa) c cl"
  shows "servesClient L w pr ph pa (v_Config v) cl" "ci_PublicAddress cl = address"
proof -
  note d = deliverClient_result [OF assms(1,2)] and s = assms(3) [unfolded sameClient_def]
  have "rel_option (servesReality L w (chosenPort pr)) (c_VLESSReality (v_Config v)) (ci_VLESSReality cl)"
    by (rule rel_option_trans [of "servesReality L w (\<lambda>port. port)" _ "ci_VLESSReality c"
          "sameVLESS (chosenPort pr)"]) (use d s serves_same(1) in auto)
  moreover have "rel_option (servesPassword L w (chosenPort ph)) (hysteria2Section (v_Config v)) (ci_Hysteria2 cl)"
    by (rule rel_option_trans [of "servesPassword L w (\<lambda>port. port)" _ "ci_Hysteria2 c"
          "samePassword (chosenPort ph)"]) (use d s serves_same(2) in auto)
  moreover have "rel_option (servesPassword L w (chosenPort pa)) (anytlsSection (v_Config v)) (ci_AnyTLS cl)"
    by (rule rel_option_trans [of "servesPassword L w (\<lambda>port. port)" _ "ci_AnyTLS c"
          "samePassword (chosenPort pa)"]) (use d s serves_same(2) in auto)
  ultimately show "servesClient L w pr ph pa (v_Config v) cl" "ci_PublicAddress cl = address"
    using d s by (simp_all add: servesClient_def)
qed

text \<open>The batch of files that a run comes to, when it comes that far.\<close>

definition deliverBatch ::
  "cryptoLib \<Rightarrow> (string \<Rightarrow> string) \<Rightarrow> DeliverOptions \<Rightarrow> world \<Rightarrow> outfile list option" where
  "deliverBatch L jsonMsg opts w =
     (case validatePublicAddress (dl_PublicAddress opts) of
        Inl _ \<Rightarrow> None
      | Inr _ \<Rightarrow>
     (case loadValidated L jsonMsg (dl_ConfigPath opts) w of
        (Inl _, _) \<Rightarrow> None
      | (Inr v, w1) \<Rightarrow>
     (case deliverClient L (dl_PublicAddress opts) v w1 of
        (Inl _, _) \<Rightarrow> None
      | (Inr c0, _) \<Rightarrow>
     (case deliveryOf c0 (dl_RealityPort opts) (dl_Hysteria2Port opts) (dl_AnyTLSPort opts)
             (dl_AllowInsecureAnyTLSShare opts) of
        Inl _ \<Rightarrow> None
      | Inr (cl, df) \<Rightarrow> Some (df @ [clientFile cl])))))"

lemma Deliver_runs:
  assumes "Deliver L jsonMsg opts w = (r, w')"
  obtains (early) e where "deliverBatch L jsonMsg opts w = None" "r = Inl e" "sameTree w w'"
  | (batch) v c0 cl df w1 w2 q where "validatePublicAddress (dl_PublicAddress opts) = Inr ()"
      "loadValidated L jsonMsg (dl_ConfigPath opts) w = (Inr v, w1)"
      "deliverClient L (dl_PublicAddress opts) v w1 = (Inr c0, w2)" "sameTree w w2"
      "deliveryOf c0 (dl_RealityPort opts) (dl_Hysteria2Port opts) (dl_AnyTLSPort opts)
         (dl_AllowInsecureAnyTLSShare opts) = Inr (cl, df)"
      "WriteFiles (dl_Output opts) (df @ [clientFile cl]) (dl_Force opts) w2 = (q, w')"
      "r = map_sum id (\<lambda>_. \<lparr>dr_Files = resultFiles (dl_Output opts) (df @ [clientFile cl]),
             dr_ClientInfo = clientText cl\<rparr>) q"
proof -
  obtain r1 w1 where s1: "loadValidated L jsonMsg (dl_ConfigPath opts) w = (r1, w1)" by fastforce
  note t1 = ro_tree [OF ro_loadValidated s1]
  show thesis
  proof (cases "validatePublicAddress (dl_PublicAddress opts)")
    case (Inl e)
    then show thesis using assms early [of e] by (simp add: Deliver_def deliverBatch_def)
  next
    case a: (Inr u)
    show thesis
    proof (cases r1)
      case (Inl e)
      then show thesis using assms a s1 t1 early [of e] by (simp add: Deliver_def deliverBatch_def)
    next
      case r1: (Inr v)
      obtain r2 w2 where s2: "deliverClient L (dl_PublicAddress opts) v w1 = (r2, w2)" by fastforce
      have t2: "sameTree w w2" using t1 ro_tree [OF ro_deliverClient s2] sameTree_trans by blast
      show thesis
      proof (cases r2)
        case (Inl e)
        then show thesis using assms a s1 r1 s2 t2 early [of e] by (simp add: Deliver_def deliverBatch_def)
      next
        case r2: (Inr c0)
        show thesis
        proof (cases "deliveryOf c0 (dl_RealityPort opts) (dl_Hysteria2Port opts) (dl_AnyTLSPort opts)
            (dl_AllowInsecureAnyTLSShare opts)")
          case (Inl e)
          then show thesis using assms a s1 r1 s2 r2 t2 early [of e] by (simp add: Deliver_def deliverBatch_def)
        next
          case d: (Inr x)
          obtain cl df where x: "x = (cl, df)" by (cases x) auto
          obtain q w3 where s3: "WriteFiles (dl_Output opts) (df @ [clientFile cl]) (dl_Force opts) w2 = (q, w3)"
            by fastforce
          have "w3 = w'" "r = map_sum id (\<lambda>_. \<lparr>dr_Files = resultFiles (dl_Output opts) (df @ [clientFile cl]),
             dr_ClientInfo = clientText cl\<rparr>) q"
            using assms a s1 r1 s2 r2 d x s3 by (auto simp: Deliver_def Let_def split: sum.splits)
          then show thesis using batch a s1 r1 s2 r2 t2 d x s3 by simp
        qed
      qed
    qed
  qed
qed


lemma delivery_built:
  "deliveryOf c pr ph pa ins = Inr (cl, df) \<Longrightarrow> \<exists>c1. buildDeliveryFiles c1 ins = Inr (cl, df)"
  by (auto simp: deliveryOf_def split: sum.splits)

text \<open>
  A run that failed, seen from the world before it: without a batch nothing changed, otherwise
  the error tells the truth about just that batch.
\<close>

definition runFailed :: "string \<Rightarrow> outfile list option \<Rightarrow> error \<Rightarrow> world \<Rightarrow> world \<Rightarrow> bool" where
  "runFailed dir batch e w w' =
     (case batch of
        None \<Rightarrow> sameTree w w'
      | Some fs \<Rightarrow> fs \<noteq> [] \<and> batchShape fs \<and> batchError dir fs e w w')"

lemma batch_failed:
  assumes "WriteFiles dir fs force w1 = (Inl e, w')" "sameTree w w1" "plainDir dir w" "batchShape fs" "fs \<noteq> []"
  shows "runFailed dir (Some fs) e w w'"
proof -
  have p: "plainDir dir w1" using outcome_cong(4) [OF assms(2)] assms(3) by simp
  have b: "batch_ok fs" using assms(4) by (simp add: batchShape_def app_batch)
  show ?thesis using WriteFiles_fails [OF assms(1) p b] outcome_cong(1,2) [OF assms(2)] assms(4,5)
    by (simp add: runFailed_def batchError_def)
qed

lemma batch_keeps:
  assumes "WriteFiles dir fs False w1 = (q, w')" "sameTree w w1" "plainDir dir w" "batchShape fs"
    "tree w k \<noteq> None"
  shows "tree w' k = tree w k"
proof -
  have p: "plainDir dir w1" using outcome_cong(4) [OF assms(2)] assms(3) by simp
  have b: "batch_ok fs" using assms(4) by (simp add: batchShape_def app_batch)
  have "tree w1 = tree w" using assms(2) by (simp add: sameTree_def)
  then show ?thesis using WriteFiles_keeps [OF assms(1) p b] assms(5) by simp
qed

section \<open>Deliver\<close>

text \<open>
  Claim C34. A successful \<open>Deliver\<close> has written client files for the server that its
  configuration path describes: each enabled protocol has a client record with the credential of
  the configuration, the listening port or the one asked for, the public key of the private key
  file or the name and fingerprint of the certificate file, and the links of that record. It
  leaves alone every existing path whose last element is not the name of a client file, so the
  configuration, the keys and the certificate of the server.
\<close>

theorem Deliver_matches:
  assumes "Deliver L jsonMsg opts w = (Inr r, w')" "plainDir (dl_Output opts) w"
  shows "\<exists>v c1 cl df. servedConfig L jsonMsg (dl_ConfigPath opts) w v \<and>
    servesClient L w (dl_RealityPort opts) (dl_Hysteria2Port opts) (dl_AnyTLSPort opts) (v_Config v) cl \<and>
    ci_PublicAddress cl = dl_PublicAddress opts \<and>
    buildDeliveryFiles c1 (dl_AllowInsecureAnyTLSShare opts) = Inr (cl, df) \<and>
    filesInstalled (dl_Output opts) (df @ [clientFile cl]) w' \<and>
    onlyTargets (dl_Output opts) (df @ [clientFile cl]) w w' \<and> elsewhereSame clientNames w w' \<and>
    r = \<lparr>dr_Files = resultFiles (dl_Output opts) (df @ [clientFile cl]), dr_ClientInfo = clientText cl\<rparr>"
  using assms(1)
proof (cases rule: Deliver_runs)
  case (batch v c0 cl df w1 w2 q)
  obtain u where q: "q = Inr u" using batch(7) by (cases q) auto
  note d = deliveryOf_result [OF batch(5)]
  have cs: "batchShape (df @ [clientFile cl])" "fname ` set (df @ [clientFile cl]) \<subseteq> set clientNames"
    using client_shape d by blast+
  have l: "sameTree w w1" "servedConfig L jsonMsg (dl_ConfigPath opts) w v"
    using loadValidated_result [OF batch(2)] by simp_all
  have l1: "servedConfig L jsonMsg (dl_ConfigPath opts) w1 v" using l servedConfig_same [OF l(1)] by simp
  have "servesClient L w1 = servesClient L w" by (rule servesClient_tree [OF l(1)])
  then have c: "servesClient L w (dl_RealityPort opts) (dl_Hysteria2Port opts) (dl_AnyTLSPort opts) (v_Config v) cl"
    "ci_PublicAddress cl = dl_PublicAddress opts"
    using deliverClient_serves [OF batch(3) l1] d by metis+
  note b = batch_written [OF batch(6) [unfolded q] batch(4) assms(2) cs]
  obtain c1 where "buildDeliveryFiles c1 (dl_AllowInsecureAnyTLSShare opts) = Inr (cl, df)"
    using delivery_built [OF batch(5)] by blast
  then show ?thesis using l(2) c b batch(7) q by auto
qed simp


section \<open>RenewCertificate\<close>

text \<open>Certificate and key paths of the sections that use them, and where renewal wants them.\<close>

definition tlsPaths :: "Config \<Rightarrow> (string \<times> string) list" where
  "tlsPaths c =
     (case c_Hysteria2 c of None \<Rightarrow> [] | Some h \<Rightarrow> [(hy_CertificatePath h, hy_KeyPath h)]) @
     (case c_AnyTLS c of None \<Rightarrow> [] | Some a \<Rightarrow> [(at_CertificatePath a, at_KeyPath a)])"

definition managedTLS :: "Config \<Rightarrow> string \<Rightarrow> bool" where
  "managedTLS c dir =
     (\<forall>(cert, key) \<in> set (tlsPaths c).
        clean cert = joinPath [dir, ''tls.crt''] \<and> clean key = joinPath [dir, ''tls.key''])"

lemma managedPaths_result: "managedPaths c p = Inr u \<Longrightarrow> managedTLS c (dirName p)"
  by (auto simp: managedPaths_def managedTLS_def tlsPaths_def validateManagedTLSPaths_def Let_def
      split: option.splits if_splits sum.splits)

lemma currentCertificate_result:
  "currentCertificate c = Inr p \<Longrightarrow> tlsPaths c \<noteq> [] \<and> p = fst (hd (tlsPaths c))"
  by (auto simp: currentCertificate_def tlsPaths_def split: option.splits)

lemma tlsPaths_secure:
  assumes "configOK kp w c key" "(p, k) \<in> set (tlsPaths c)"
  shows "secureFile w p fileCertificate"
  using assms by (auto simp: configOK_def tlsPaths_def whenSome_def hysteria2OK_def anytlsOK_def tlsOK_def
      split: option.splits)

lemma currentTLS_result:
  assumes "currentTLS L path c w = (Inr p, w')" "configOK kp w c key"
  shows "sameTree w w' \<and> tlsPaths c \<noteq> [] \<and> managedTLS c (dirName (keyOf w path)) \<and>
    (\<exists>cert. certificateIn L (contentOf w (fst (hd (tlsPaths c)))) cert \<and> pc_TLSSAN p = serverNameOf cert)"
proof -
  obtain q where q: "currentCertificate c = Inr q" using assms(1) by (auto simp: currentTLS_def split: sum.splits)
  obtain r1 w1 where s1: "sys_abs path w = (r1, w1)" by fastforce
  obtain a where a: "r1 = Inr a" using assms(1) q s1 by (auto simp: currentTLS_def split: sum.splits)
  obtain u where u: "managedPaths c a = Inr u" using assms(1) q s1 a by (auto simp: currentTLS_def split: sum.splits)
  have s2: "tlsClientInfo L q w1 = (Inr p, w')"
    using assms(1) q s1 a u by (auto simp: currentTLS_def split: prod.splits sum.splits)
  note c = currentCertificate_result [OF q]
  have t1: "sameTree w w1" using ro_tree [OF abs_ro.ro_call_axioms s1] .
  have "secureFile w q fileCertificate"
    using tlsPaths_secure [OF assms(2), of q "snd (hd (tlsPaths c))"] c by simp
  then have "secureFile w1 q fileCertificate" by (simp add: sameTree_secure [OF t1])
  note r = tlsClientInfo_result [OF s2 this]
  have "dirName a = dirName (keyOf w path)" using sys_abs_result s1 a by (simp add: keyOf_def)
  then have "managedTLS c (dirName (keyOf w path))" using managedPaths_result [OF u] by simp
  moreover have "\<exists>cert. certificateIn L (contentOf w q) cert \<and> pc_TLSSAN p = serverNameOf cert"
    using readCertificate_result [of L "contentOf w1 q" p] r by (auto simp: passwordClient_def sameTree_content [OF t1])
  ultimately show ?thesis using c r t1 sameTree_trans by blast
qed

text \<open>The records that renewal makes: credentials kept, certificate new.\<close>

definition renewedPassword ::
  "(int \<Rightarrow> int) \<Rightarrow> string \<Rightarrow> string \<Rightarrow> string \<Rightarrow> string \<times> int \<times> string \<Rightarrow> passwordClientInfo \<Rightarrow> bool" where
  "renewedPassword port san sha pem = (\<lambda>(path, listening, password) p.
     passwordMatch port listening password san sha p \<and> pc_CertificatePEM p = pem)"

definition renewedClient ::
  "cryptoLib \<Rightarrow> world \<Rightarrow> int \<Rightarrow> int \<Rightarrow> int \<Rightarrow> string \<Rightarrow> string \<Rightarrow> string \<Rightarrow> Config \<Rightarrow> clientInfo \<Rightarrow> bool" where
  "renewedClient L w pr ph pa san sha pem c cl =
     (rel_option (servesReality L w (chosenPort pr)) (c_VLESSReality c) (ci_VLESSReality cl) \<and>
      rel_option (renewedPassword (chosenPort ph) san sha pem) (hysteria2Section c) (ci_Hysteria2 cl) \<and>
      rel_option (renewedPassword (chosenPort pa) san sha pem) (anytlsSection c) (ci_AnyTLS cl) \<and>
      ci_SchemaVersion cl = SchemaVersion)"

lemma renewClient_result:
  assumes "renewClient L address v san sha pem = Inr c" "vlessPart w (v_Config v) (v_RealityPrivateKey v)"
    "sameClient (chosenPort pr) (chosenPort ph) (chosenPort pa) c cl"
  shows "renewedClient L w pr ph pa san sha pem (v_Config v) cl" "ci_PublicAddress cl = address"
proof -
  obtain q where q: "realityClient L (v_RealityPrivateKey v) (c_VLESSReality (v_Config v)) = Inr q" and
    c: "c = \<lparr>ci_SchemaVersion = SchemaVersion, ci_PublicAddress = address, ci_VLESSReality = q,
            ci_Hysteria2 = map_option (\<lambda>h. passwordClient (hy_Port h) (hy_Password h) san sha pem)
              (c_Hysteria2 (v_Config v)),
            ci_AnyTLS = map_option (\<lambda>a. passwordClient (at_Port a) (at_Password a) san sha pem)
              (c_AnyTLS (v_Config v))\<rparr>"
    using assms(1) by (auto simp: renewClient_def split: sum.splits)
  note s = assms(3) [unfolded sameClient_def]
  have "rel_option (servesReality L w (chosenPort pr)) (c_VLESSReality (v_Config v)) (ci_VLESSReality cl)"
    by (rule rel_option_trans [of "servesReality L w (\<lambda>port. port)" _ q "sameVLESS (chosenPort pr)"])
      (use realityClient_result [OF q assms(2)] s c serves_same(1) in auto)
  moreover have "rel_option (renewedPassword (chosenPort ph) san sha pem) (hysteria2Section (v_Config v)) (ci_Hysteria2 cl)"
    using s c by (cases "c_Hysteria2 (v_Config v)"; cases "ci_Hysteria2 cl")
      (auto simp: hysteria2Section_def renewedPassword_def samePassword_def passwordMatch_def passwordClient_def)
  moreover have "rel_option (renewedPassword (chosenPort pa) san sha pem) (anytlsSection (v_Config v)) (ci_AnyTLS cl)"
    using s c by (cases "c_AnyTLS (v_Config v)"; cases "ci_AnyTLS cl")
      (auto simp: anytlsSection_def renewedPassword_def samePassword_def passwordMatch_def passwordClient_def)
  ultimately show "renewedClient L w pr ph pa san sha pem (v_Config v) cl" "ci_PublicAddress cl = address"
    using s c by (simp_all add: renewedClient_def)
qed


definition renewFiles :: "outfile list \<Rightarrow> outfile list \<Rightarrow> clientInfo \<Rightarrow> outfile list" where
  "renewFiles df tls cl = df @ tls @ [clientFile cl]"

lemma renew_shape:
  assumes "subseq (map fname df) deliveryNames" "\<forall>f \<in> set df. fmode f = o600" "tlsBundle L san pem sha tls"
  shows "batchShape (renewFiles df tls cl)" "fname ` set (renewFiles df tls cl) \<subseteq> set renewedNames"
proof -
  note d = client_shape [OF assms(1,2), of cl]
  obtain c k where t: "tls = [\<lparr>fname = ''tls.crt'', fdata = c, fmode = o644\<rparr>, \<lparr>fname = ''tls.key'', fdata = k, fmode = o600\<rparr>]"
    using assms(3) by (auto simp: tlsBundle_def)
  have n: "''tls.crt'' \<notin> fname ` set (df @ [clientFile cl])" "''tls.key'' \<notin> fname ` set (df @ [clientFile cl])"
    using d(2) client_names(3,4) by blast+
  have "distinct (map fname (renewFiles df tls cl))"
    using d(1) n by (auto simp: renewFiles_def t batchShape_def)
  moreover show s: "fname ` set (renewFiles df tls cl) \<subseteq> set renewedNames"
    using d(2) by (auto simp: renewFiles_def renewedNames_def t)
  moreover have "\<forall>f \<in> set (renewFiles df tls cl). fmode f = (if fname f = ''tls.crt'' then o644 else o600)"
    using d(1) by (auto simp: renewFiles_def t batchShape_def)
  ultimately show "batchShape (renewFiles df tls cl)" using client_names(6) unfolding batchShape_def by blast
qed

definition renewBatch ::
  "cryptoLib \<Rightarrow> (string \<Rightarrow> string) \<Rightarrow> RenewCertificateOptions \<Rightarrow> world \<Rightarrow> outfile list option" where
  "renewBatch L jsonMsg opts w =
     (case validatePublicAddress (rn_PublicAddress opts) of
        Inl _ \<Rightarrow> None
      | Inr _ \<Rightarrow>
     (case loadValidated L jsonMsg (rn_ConfigPath opts) w of
        (Inl _, _) \<Rightarrow> None
      | (Inr v, w1) \<Rightarrow>
     (case currentTLS L (rn_ConfigPath opts) (v_Config v) w1 of
        (Inl _, _) \<Rightarrow> None
      | (Inr current, w2) \<Rightarrow>
     (case generateTLS L (pc_TLSSAN current) w2 of
        (Inl _, _) \<Rightarrow> None
      | (Inr (pem, sha, tls), _) \<Rightarrow>
     (case renewClient L (rn_PublicAddress opts) v (pc_TLSSAN current) sha pem of
        Inl _ \<Rightarrow> None
      | Inr c0 \<Rightarrow>
     (case deliveryOf c0 (rn_RealityPort opts) (rn_Hysteria2Port opts) (rn_AnyTLSPort opts)
             (rn_AllowInsecureAnyTLSShare opts) of
        Inl _ \<Rightarrow> None
      | Inr (cl, df) \<Rightarrow> Some (renewFiles df tls cl)))))))"

lemma Renew_runs:
  assumes "RenewCertificate L jsonMsg opts w = (r, w')"
  obtains (early) e where "renewBatch L jsonMsg opts w = None" "r = Inl e" "sameTree w w'"
  | (batch) v w1 cur w2 pem sha tls w3 c0 cl df q where
      "validatePublicAddress (rn_PublicAddress opts) = Inr ()"
      "loadValidated L jsonMsg (rn_ConfigPath opts) w = (Inr v, w1)"
      "currentTLS L (rn_ConfigPath opts) (v_Config v) w1 = (Inr cur, w2)"
      "generateTLS L (pc_TLSSAN cur) w2 = (Inr (pem, sha, tls), w3)" "sameTree w w3"
      "renewClient L (rn_PublicAddress opts) v (pc_TLSSAN cur) sha pem = Inr c0"
      "deliveryOf c0 (rn_RealityPort opts) (rn_Hysteria2Port opts) (rn_AnyTLSPort opts)
         (rn_AllowInsecureAnyTLSShare opts) = Inr (cl, df)"
      "WriteFiles (rn_Output opts) (renewFiles df tls cl) False w3 = (q, w')"
      "r = map_sum id (\<lambda>_. \<lparr>rr_Files = resultFiles (rn_Output opts) (renewFiles df tls cl),
             rr_ClientInfo = clientText cl\<rparr>) q"
proof (cases "validatePublicAddress (rn_PublicAddress opts)")
  case (Inl e)
  then show thesis using assms early [of e] by (simp add: RenewCertificate_def renewBatch_def)
next
  case a: (Inr u)
  obtain r1 w1 where s1: "loadValidated L jsonMsg (rn_ConfigPath opts) w = (r1, w1)" by fastforce
  note t1 = ro_tree [OF ro_loadValidated s1]
  show thesis
  proof (cases r1)
    case (Inl e)
    then show thesis using assms a s1 t1 early [of e] by (simp add: RenewCertificate_def renewBatch_def)
  next
    case r1: (Inr v)
    obtain r2 w2 where s2: "currentTLS L (rn_ConfigPath opts) (v_Config v) w1 = (r2, w2)" by fastforce
    have t2: "sameTree w w2" using t1 ro_tree [OF ro_currentTLS s2] sameTree_trans by blast
    show thesis
    proof (cases r2)
      case (Inl e)
      then show thesis using assms a s1 r1 s2 t2 early [of e] by (simp add: RenewCertificate_def renewBatch_def)
    next
      case r2: (Inr cur)
      obtain r3 w3 where s3: "generateTLS L (pc_TLSSAN cur) w2 = (r3, w3)" by fastforce
      have t3: "sameTree w w3" using t2 ro_tree [OF ro_stages(2) s3] sameTree_trans by blast
      note run = assms [unfolded RenewCertificate_def] a s1 r1 s2 r2 s3
      show thesis
      proof (cases r3)
        case (Inl e)
        then show thesis using run t3 early [of e] by (simp add: renewBatch_def)
      next
        case r3: (Inr x)
        obtain pem sha tls where x: "x = (pem, sha, tls)" by (cases x) auto
        show thesis
        proof (cases "renewClient L (rn_PublicAddress opts) v (pc_TLSSAN cur) sha pem")
          case (Inl e)
          then show thesis using run r3 x t3 early [of e] by (simp add: renewBatch_def)
        next
          case c: (Inr c0)
          show thesis
          proof (cases "deliveryOf c0 (rn_RealityPort opts) (rn_Hysteria2Port opts) (rn_AnyTLSPort opts)
              (rn_AllowInsecureAnyTLSShare opts)")
            case (Inl e)
            then show thesis using run r3 x c t3 early [of e] by (simp add: renewBatch_def)
          next
            case d: (Inr y)
            obtain cl df where y: "y = (cl, df)" by (cases y) auto
            obtain q w4 where s4: "WriteFiles (rn_Output opts) (renewFiles df tls cl) False w3 = (q, w4)" by fastforce
            have e: "(r, w') = (map_sum id (\<lambda>_. \<lparr>rr_Files = resultFiles (rn_Output opts) (renewFiles df tls cl),
                rr_ClientInfo = clientText cl\<rparr>) q, w4)"
              using assms a s1 [unfolded r1] s2 [unfolded r2] s3 [unfolded r3 x] c d [unfolded y] s4
              by (cases q) (simp_all add: RenewCertificate_def Let_def renewFiles_def)
            show thesis
              by (rule batch [OF a [simplified] s1 [unfolded r1] s2 [unfolded r2] s3 [unfolded r3 x] t3 c d [unfolded y]])
                (use s4 e in simp_all)
          qed
        qed
      qed
    qed
  qed
qed

lemma Deliver_outcome:
  assumes "Deliver L jsonMsg opts w = (r, w') \<and> dl_Output opts = dir" "plainDir dir w"
  shows "(\<not> dl_Force opts \<longrightarrow> (\<forall>k. tree w k \<noteq> None \<longrightarrow> tree w' k = tree w k)) \<and>
    (\<forall>e. r = Inl e \<longrightarrow> runFailed dir (deliverBatch L jsonMsg opts w) e w w')"
  using assms(1) [THEN conjunct1]
proof (cases rule: Deliver_runs)
  case (early e)
  then show ?thesis by (simp add: runFailed_def sameTree_def)
next
  case (batch v c0 cl df w1 w2 q)
  note d = deliveryOf_result [OF batch(5)]
  have cs: "batchShape (df @ [clientFile cl])" "fname ` set (df @ [clientFile cl]) \<subseteq> set clientNames"
    using client_shape d by blast+
  have o: "WriteFiles dir (df @ [clientFile cl]) (dl_Force opts) w2 = (q, w')" using batch(6) assms(1) by simp
  have "\<forall>e. r = Inl e \<longrightarrow> q = Inl e" using batch(7) by (cases q) auto
  then have "runFailed dir (Some (df @ [clientFile cl])) e w w'" if "r = Inl e" for e
    using batch_failed [OF _ batch(4) assms(2) cs(1)] o that by blast
  moreover have "deliverBatch L jsonMsg opts w = Some (df @ [clientFile cl])"
    using batch(1-3,5) by (simp add: deliverBatch_def)
  moreover have "tree w' k = tree w k" if "\<not> dl_Force opts" "tree w k \<noteq> None" for k
    using batch_keeps [OF _ batch(4) assms(2) cs(1) that(2)] o that(1) by simp
  ultimately show ?thesis by simp
qed

lemma Renew_outcome:
  assumes "RenewCertificate L jsonMsg opts w = (r, w') \<and> rn_Output opts = dir" "plainDir dir w"
  shows "(\<forall>k. tree w k \<noteq> None \<longrightarrow> tree w' k = tree w k) \<and>
    (\<forall>e. r = Inl e \<longrightarrow> runFailed dir (renewBatch L jsonMsg opts w) e w w')"
  using assms(1) [THEN conjunct1]
proof (cases rule: Renew_runs)
  case (early e)
  then show ?thesis by (simp add: runFailed_def sameTree_def)
next
  case (batch v w1 cur w2 pem sha tls w3 c0 cl df q)
  have sh: "batchShape (renewFiles df tls cl)" "fname ` set (renewFiles df tls cl) \<subseteq> set renewedNames"
    using renew_shape deliveryOf_result [OF batch(7)] generateTLS_result [OF batch(4)] by blast+
  have o: "WriteFiles dir (renewFiles df tls cl) False w3 = (q, w')" using batch(8) assms(1) by simp
  have "\<forall>e. r = Inl e \<longrightarrow> q = Inl e" using batch(9) by (cases q) auto
  then have "runFailed dir (Some (renewFiles df tls cl)) e w w'" if "r = Inl e" for e
    using batch_failed [OF _ batch(5) assms(2) sh(1)] o that by (simp add: renewFiles_def)
  moreover have "renewBatch L jsonMsg opts w = Some (renewFiles df tls cl)"
    using batch(1-4,6,7) by (simp add: renewBatch_def)
  ultimately show ?thesis using batch_keeps [OF o batch(5) assms(2) sh(1)] by simp
qed

text \<open>
  Claim C35. A successful \<open>RenewCertificate\<close> has staged a new certificate and key for the name of
  the certificate in use, with client records that keep the credentials of the configuration and
  carry the fingerprint of the new certificate. Every section that uses a certificate has it at
  the managed paths beside the configuration. No existing path changes, so nothing of the running
  server.
\<close>

theorem Renew_matches:
  assumes "RenewCertificate L jsonMsg opts w = (Inr r, w')" "plainDir (rn_Output opts) w"
  shows "\<exists>v cert pem sha tls c1 cl df. servedConfig L jsonMsg (rn_ConfigPath opts) w v \<and>
    tlsPaths (v_Config v) \<noteq> [] \<and> managedTLS (v_Config v) (dirName (keyOf w (rn_ConfigPath opts))) \<and>
    certificateIn L (contentOf w (fst (hd (tlsPaths (v_Config v))))) cert \<and>
    tlsBundle L (serverNameOf cert) pem sha tls \<and>
    renewedClient L w (rn_RealityPort opts) (rn_Hysteria2Port opts) (rn_AnyTLSPort opts)
      (serverNameOf cert) sha pem (v_Config v) cl \<and> ci_PublicAddress cl = rn_PublicAddress opts \<and>
    buildDeliveryFiles c1 (rn_AllowInsecureAnyTLSShare opts) = Inr (cl, df) \<and>
    filesInstalled (rn_Output opts) (renewFiles df tls cl) w' \<and>
    onlyTargets (rn_Output opts) (renewFiles df tls cl) w w' \<and> (\<forall>k. tree w k \<noteq> None \<longrightarrow> tree w' k = tree w k) \<and>
    r = \<lparr>rr_Files = resultFiles (rn_Output opts) (renewFiles df tls cl), rr_ClientInfo = clientText cl\<rparr>"
  using assms(1)
proof (cases rule: Renew_runs)
  case (batch v w1 cur w2 pem sha tls w3 c0 cl df q)
  let ?c = "v_Config v"
  obtain u where q: "q = Inr u" using batch(9) by (cases q) auto
  have l: "sameTree w w1" "servedConfig L jsonMsg (rn_ConfigPath opts) w v"
    using loadValidated_result [OF batch(2)] by simp_all
  have ok0: "configOK (cl_keyPair L) w ?c (v_RealityPrivateKey v)" using l(2) by (simp add: servedConfig_def)
  have ok: "configOK (cl_keyPair L) w1 ?c (v_RealityPrivateKey v)" "vlessPart w ?c (v_RealityPrivateKey v)"
    using ok0 configOK_same [OF l(1)] by (blast, simp add: configOK_def)
  have k: "keyOf w1 p = keyOf w p" "contentOf w1 p = contentOf w p" for p
    using l(1) by (simp_all add: sameTree_def sameEnv_keyOf sameTree_content [OF l(1)])
  obtain cert where c: "tlsPaths ?c \<noteq> []" "managedTLS ?c (dirName (keyOf w (rn_ConfigPath opts)))"
    "certificateIn L (contentOf w (fst (hd (tlsPaths ?c)))) cert" "pc_TLSSAN cur = serverNameOf cert"
    using currentTLS_result [OF batch(3) ok(1)] by (auto simp: k)
  have t: "tlsBundle L (serverNameOf cert) pem sha tls" using generateTLS_result [OF batch(4)] c(4) by simp
  note d = deliveryOf_result [OF batch(7)]
  have sh: "batchShape (renewFiles df tls cl)" "fname ` set (renewFiles df tls cl) \<subseteq> set renewedNames"
    using renew_shape d t by blast+
  have rc: "renewedClient L w (rn_RealityPort opts) (rn_Hysteria2Port opts) (rn_AnyTLSPort opts)
      (serverNameOf cert) sha pem ?c cl" "ci_PublicAddress cl = rn_PublicAddress opts"
    using renewClient_result [OF batch(6) ok(2)] d c(4) by metis+
  note b = batch_written [OF batch(8) [unfolded q] batch(5) assms(2) sh]
  have kp: "\<forall>p. tree w p \<noteq> None \<longrightarrow> tree w' p = tree w p"
    using batch_keeps [OF batch(8) batch(5) assms(2) sh(1)] by blast
  obtain c1 where "buildDeliveryFiles c1 (rn_AllowInsecureAnyTLSShare opts) = Inr (cl, df)"
    using delivery_built [OF batch(7)] by blast
  then show ?thesis using l(2) c t rc b kp batch(9) q
    by (intro exI [of _ v] exI [of _ cert] exI [of _ pem] exI [of _ sha] exI [of _ tls] exI [of _ c1]
        exI [of _ cl] exI [of _ df]) auto
qed simp

text \<open>
  Claim C36. For an ordinary output directory (as in C1), \<open>Deliver\<close> without force and
  \<open>RenewCertificate\<close> change no existing path, whatever fails. When either returns an error before it has a batch of files, the tree is as before.
  Otherwise, for exactly the batch that the options, the configuration, the certificates and the
  random bytes determine: the tree is as before but for created directories and temporary files
  that could not be removed, or the error says that the rollback is incomplete and every old file
  is at its path or its backup path, or it says that the batch was committed and every file of it
  is in place.
\<close>

theorem delivery_failure:
  assumes "plainDir dir w"
  shows "(Deliver L jsonMsg dopts w = (rd, w1) \<and> dl_Output dopts = dir \<longrightarrow>
      (\<not> dl_Force dopts \<longrightarrow> (\<forall>k. tree w k \<noteq> None \<longrightarrow> tree w1 k = tree w k)) \<and>
      (\<forall>e. rd = Inl e \<longrightarrow> runFailed dir (deliverBatch L jsonMsg dopts w) e w w1)) \<and>
    (RenewCertificate L jsonMsg ropts w = (rr, w2) \<and> rn_Output ropts = dir \<longrightarrow>
      (\<forall>k. tree w k \<noteq> None \<longrightarrow> tree w2 k = tree w k) \<and>
      (\<forall>e. rr = Inl e \<longrightarrow> runFailed dir (renewBatch L jsonMsg ropts w) e w w2))"
  by (rule conjI; rule impI; (erule Deliver_outcome [OF _ assms] | erule Renew_outcome [OF _ assms]))


section \<open>A sample server\<close>

definition serverConfig :: Config where
  "serverConfig =
     \<lparr>c_SchemaVersion = 1, c_Log = None, c_VLESSReality = None,
      c_Hysteria2 = Some \<lparr>hy_Listen = ''::'', hy_Port = 8444, hy_Password = ''0123456789abcdef'',
        hy_CertificatePath = ''tls.crt'', hy_KeyPath = ''tls.key'', hy_UpMbps = None, hy_DownMbps = None\<rparr>,
      c_AnyTLS = None\<rparr>"

definition serverTree :: "string \<Rightarrow> inode option" where
  "serverTree = [''/'' \<mapsto> dirNode o755 0, ''/out'' \<mapsto> dirNode o700 0, ''/etc'' \<mapsto> dirNode o755 0,
     ''/etc/config.json'' \<mapsto> fileNode o600 0 (configText serverConfig),
     ''/etc/tls.crt'' \<mapsto> fileNode o644 0 (pemEncode ''CERTIFICATE'' ''Dvpn.example.com''),
     ''/etc/tls.key'' \<mapsto> fileNode o600 0 (pemEncode ''PRIVATE KEY'' ''key'')]"

definition serverWorld :: world where
  "serverWorld = sampleWorld serverTree"

definition deliverOptions :: DeliverOptions where
  "deliverOptions =
     \<lparr>dl_ConfigPath = ''/etc/config.json'', dl_Output = ''/out'', dl_PublicAddress = ''vpn.example.com'',
      dl_RealityPort = 0, dl_Hysteria2Port = 443, dl_AnyTLSPort = 0, dl_AllowInsecureAnyTLSShare = False,
      dl_Force = False\<rparr>"

definition renewOptions :: RenewCertificateOptions where
  "renewOptions =
     \<lparr>rn_ConfigPath = ''/etc/config.json'', rn_Output = ''/out'', rn_PublicAddress = ''vpn.example.com'',
      rn_RealityPort = 0, rn_Hysteria2Port = 443, rn_AnyTLSPort = 0, rn_AllowInsecureAnyTLSShare = False\<rparr>"

lemma server_plain: "plainDir ''/out'' serverWorld"
  by (simp add: plainDir_def serverWorld_def sampleWorld_def isAbs_def hasPrefix_def)

lemma Deliver_matches_witness:
  "\<exists>r w'. Deliver sampleLib id deliverOptions serverWorld = (Inr r, w') \<and> elsewhereSame clientNames serverWorld w'"
proof -
  have "is_ok (fst (Deliver sampleLib id deliverOptions serverWorld))" by code_simp
  then obtain r w' where run: "Deliver sampleLib id deliverOptions serverWorld = (Inr r, w')"
    by (metis is_ok_iff prod.collapse)
  have "dl_Output deliverOptions = ''/out''" by (simp add: deliverOptions_def)
  then have "plainDir (dl_Output deliverOptions) serverWorld" using server_plain by simp
  then show ?thesis using Deliver_matches [OF run] run by blast
qed

lemma Renew_matches_witness:
  "\<exists>r w'. RenewCertificate sampleLib id renewOptions serverWorld = (Inr r, w') \<and>
     tree w' ''/etc/tls.key'' = tree serverWorld ''/etc/tls.key''"
proof -
  have "is_ok (fst (RenewCertificate sampleLib id renewOptions serverWorld))" by code_simp
  then obtain r w' where run: "RenewCertificate sampleLib id renewOptions serverWorld = (Inr r, w')"
    by (metis is_ok_iff prod.collapse)
  have "rn_Output renewOptions = ''/out''" by (simp add: renewOptions_def)
  then have p: "plainDir (rn_Output renewOptions) serverWorld" using server_plain by simp
  have "tree serverWorld ''/etc/tls.key'' \<noteq> None" by (simp add: serverWorld_def sampleWorld_def serverTree_def)
  then show ?thesis using Renew_matches [OF run p] run by blast
qed

text \<open>A delivery whose writer fails: the output directory can be written by others.\<close>

definition openWorld :: world where
  "openWorld = sampleWorld (serverTree(''/out'' \<mapsto> dirNode 0x1FF 0))"

lemma delivery_failure_witness:
  "\<exists>e w' fs. Deliver sampleLib id deliverOptions openWorld = (Inl e, w') \<and>
     deliverBatch sampleLib id deliverOptions openWorld = Some fs \<and> fs \<noteq> [] \<and>
     batchError ''/out'' fs e openWorld w' \<and> tree w' ''/etc/config.json'' = tree openWorld ''/etc/config.json''"
proof -
  have "(is_ok (fst (Deliver sampleLib id deliverOptions openWorld)),
      deliverBatch sampleLib id deliverOptions openWorld = None) = (False, False)" by code_simp
  then have c: "\<not> is_ok (fst (Deliver sampleLib id deliverOptions openWorld))"
    "deliverBatch sampleLib id deliverOptions openWorld \<noteq> None" by blast+
  obtain e w' where run: "Deliver sampleLib id deliverOptions openWorld = (Inl e, w')"
    using c(1) by (metis is_ok_iff prod.collapse obj_sumE)
  obtain fs where b: "deliverBatch sampleLib id deliverOptions openWorld = Some fs" using c(2) by blast
  have o: "dl_Output deliverOptions = ''/out''" "\<not> dl_Force deliverOptions" by (simp_all add: deliverOptions_def)
  have p: "plainDir ''/out'' openWorld"
    by (simp add: plainDir_def openWorld_def sampleWorld_def isAbs_def hasPrefix_def)
  note d = delivery_failure [OF p, of sampleLib id deliverOptions "Inl e" w', THEN conjunct1, rule_format, OF conjI [OF run o(1)]]
  have "runFailed ''/out'' (deliverBatch sampleLib id deliverOptions openWorld) e openWorld w'" using d by simp
  moreover have "tree openWorld ''/etc/config.json'' \<noteq> None" by (simp add: openWorld_def sampleWorld_def serverTree_def)
  ultimately show ?thesis using d o(2) run b by (auto simp: runFailed_def)
qed

end
