(* ===== verification/RunnerProps.thy ===== *)
theory RunnerProps
  imports Runner DeliverProps
begin

text \<open>
  The life of the sing-box instance in \<open>Run\<close> and \<open>Check\<close> (internal/app/run.go, check.go), and the
  states that \<open>SignalContext\<close> (signals.go) can reach.
\<close>

section \<open>Loading\<close>

lemma ro_loadOptions [ro_intros]: "ro_call (loadOptions L jsonMsg path)"
  unfolding loadOptions_def by (intro ro_intros)

text \<open>The inbounds registry that an inbound needs.\<close>

fun registrationOf :: "inboundOptions \<Rightarrow> registration" where
  "registrationOf (VLESSInbound _ _ _) = VLESSInbounds"
| "registrationOf (Hysteria2Inbound _ _ _ _ _) = Hysteria2Inbounds"
| "registrationOf (AnyTLSInbound _ _ _) = AnyTLSInbounds"

lemma registered: "registrationOf i \<in> set (rg_Inbounds coreContext)"
  by (cases i) (simp_all add: coreContext_def)

definition servedOptions ::
  "cryptoLib \<Rightarrow> (string \<Rightarrow> string) \<Rightarrow> string \<Rightarrow> world \<Rightarrow> boxOptions \<Rightarrow> bool" where
  "servedOptions L jsonMsg path w opts =
     (\<exists>v. servedConfig L jsonMsg path w v \<and> Convert v = Some opts \<and>
        bo_LogLevel opts = LogLevel (v_Config v) \<and> inboundsServe (v_Config v) (bo_Inbounds opts))"

lemma loadOptions_result:
  assumes "loadOptions L jsonMsg path w = (Inr o1, w')"
  shows "sameTree w w' \<and> (\<exists>opts. o1 = Some opts \<and> servedOptions L jsonMsg path w opts)"
proof -
  obtain v where v: "loadValidated L jsonMsg path w = (Inr v, w')" "o1 = Convert v"
    using assms by (auto simp: loadOptions_def split: prod.splits sum.splits)
  note l = loadValidated_result [OF v(1)]
  then have "configOK (cl_keyPair L) w (v_Config v) (v_RealityPrivateKey v)" by (simp add: servedConfig_def)
  then obtain opts where "Convert v = Some opts" "bo_LogLevel opts = LogLevel (v_Config v)"
    "inboundsServe (v_Config v) (bo_Inbounds opts)" using Convert_serves by metis
  then show ?thesis using l v(2) unfolding servedOptions_def by blast
qed

section \<open>The life of the instance\<close>

text \<open>The sequences of calls that can occur.\<close>

definition runCalls :: "bool \<Rightarrow> runResult \<Rightarrow> boxCall list \<Rightarrow> bool" where
  "runCalls cancelled r calls =
     ((r = Blocked \<and> \<not> cancelled \<and> calls = [CallNew True, CallStart True]) \<or>
      (r = Finished (Inr ()) \<and> cancelled \<and> calls = [CallNew True, CallStart True, CallClose True]) \<or>
      (\<exists>e. r = Finished (Inl e) \<and>
         (calls = [] \<or> calls = [CallNew False] \<or>
          (\<exists>c. calls = [CallNew True, CallStart False, CallClose c]) \<or>
          (cancelled \<and> calls = [CallNew True, CallStart True, CallClose False]))))"

definition checkCalls :: "runResult \<Rightarrow> boxCall list \<Rightarrow> bool" where
  "checkCalls r calls =
     ((r = Finished (Inr ()) \<and> calls = [CallNew True, CallClose True]) \<or>
      (\<exists>e. r = Finished (Inl e) \<and>
         (calls = [] \<or> calls = [CallNew False] \<or> calls = [CallNew True, CallClose False])))"

lemma instance_calls:
  assumes "Run L B jsonMsg cancelled path w = (r, calls, w')" "Check L B jsonMsg path w = (rc, ccalls, wc)"
  shows "runCalls cancelled r calls \<and> checkCalls rc ccalls \<and>
    (calls = [] \<longrightarrow> ccalls = [] \<and> sameTree w w' \<and> sameTree w wc) \<and>
    (calls \<noteq> [] \<longrightarrow> (\<exists>opts. servedOptions L jsonMsg path w opts \<and>
       (\<forall>i \<in> set (bo_Inbounds opts). registrationOf (in_Options i) \<in> set (rg_Inbounds coreContext))))"
proof -
  obtain r1 w1 where s1: "loadOptions L jsonMsg path w = (r1, w1)" by fastforce
  note t = ro_tree [OF ro_loadOptions s1]
  show ?thesis
  proof (cases r1)
    case (Inl e)
    then show ?thesis using assms s1 t by (auto simp: Run_def Check_def runCalls_def checkCalls_def)
  next
    case (Inr o1)
    then obtain opts where o: "r1 = Inr (Some opts)" "servedOptions L jsonMsg path w opts"
      using loadOptions_result s1 by blast
    have c: "\<exists>opts. servedOptions L jsonMsg path w opts \<and>
         (\<forall>i \<in> set (bo_Inbounds opts). registrationOf (in_Options i) \<in> set (rg_Inbounds coreContext))"
      using o(2) registered by blast
    have "runCalls cancelled r calls \<and> calls \<noteq> []" using assms(1) s1 o
      by (auto simp: Run_def runBox_def runCalls_def split: prod.splits sum.splits if_splits)
    moreover have "checkCalls rc ccalls" using assms(2) s1 o
      by (auto simp: Check_def checkCalls_def split: prod.splits sum.splits)
    ultimately show ?thesis using c by simp
  qed
qed

text \<open>
  Claim C37. \<open>Run\<close> and \<open>Check\<close> never panic. They create an instance only for a configuration that
  was validated and converted, with one inbound per protocol whose type is registered, and
  change no file before. An instance that was created is closed exactly once before they return,
  whatever fails; \<open>Run\<close> starts it exactly once and waits exactly when it has started and the
  context is not cancelled; \<open>Check\<close> never starts it. They succeed exactly when all their calls do.
\<close>

theorem instance_lifecycle:
  assumes "Run L B jsonMsg cancelled path w = (r, calls, w')" "Check L B jsonMsg path w = (rc, ccalls, wc)"
  shows "runCalls cancelled r calls \<and> checkCalls rc ccalls \<and>
    (calls = [] \<longrightarrow> ccalls = [] \<and> sameTree w w' \<and> sameTree w wc) \<and>
    (calls \<noteq> [] \<longrightarrow> (\<exists>opts. servedOptions L jsonMsg path w opts \<and>
       (\<forall>i \<in> set (bo_Inbounds opts). registrationOf (in_Options i) \<in> set (rg_Inbounds coreContext))))"
  by (rule instance_calls [OF assms])

text \<open>An instance that does nothing.\<close>

definition sampleBox :: "unit boxLib" where
  "sampleBox = \<lparr>bx_New = (\<lambda>_ _ w. (Inr (), w)), bx_Start = (\<lambda>b w. (Inr (), b, w)), bx_Close = (\<lambda>b w. (Inr (), b, w))\<rparr>"

lemma instance_lifecycle_witness:
  "\<exists>w' opts. Run sampleLib sampleBox id True ''/etc/config.json'' serverWorld =
       (Finished (Inr ()), [CallNew True, CallStart True, CallClose True], w') \<and>
     servedOptions sampleLib id ''/etc/config.json'' serverWorld opts"
proof -
  have v: "fst (Run sampleLib sampleBox id True ''/etc/config.json'' serverWorld) = Finished (Inr ())" by code_simp
  obtain calls w' where run: "Run sampleLib sampleBox id True ''/etc/config.json'' serverWorld = (Finished (Inr ()), calls, w')"
    using v by (metis prod.collapse)
  obtain rc ccalls wc where chk: "Check sampleLib sampleBox id ''/etc/config.json'' serverWorld = (rc, ccalls, wc)"
    by (metis prod.collapse)
  note l = instance_lifecycle [OF run chk]
  then have "calls = [CallNew True, CallStart True, CallClose True]" by (simp add: runCalls_def)
  then show ?thesis using l run by blast
qed

section \<open>Signals\<close>

inductive_cases goStepE: "goStep hasForce s s'"
inductive_cases outerStepE: "outerStep s s'"

text \<open>
  How far the goroutine has come: the signals it took out of the channel, and what must hold at
  each point. As it takes only two signals, those that find the channel full are not missed.
\<close>

fun taken :: "goPoint \<Rightarrow> nat" where
  "taken FirstSelect = 0" | "taken Cancelling = 1" | "taken SecondSelect = 1" | "taken Forcing = 2"
| "taken GoReturned = 2"

definition signalInv :: "bool \<Rightarrow> signalState \<Rightarrow> bool" where
  "signalInv hasForce s =
     (sg_queue s \<le> 2 \<and> sg_queue s \<le> sg_received s \<and> sg_stop s \<le> 3 \<and>
      (sg_notify s \<longleftrightarrow> sg_stop s = 0) \<and> (sg_doneClosed s \<longleftrightarrow> sg_stop s \<ge> 2) \<and>
      (sg_stop s = 3 \<or> sg_parent s \<or> sg_point s \<in> {SecondSelect, Forcing} \<longrightarrow> sg_cancelled s) \<and>
      (sg_cancelled s \<longrightarrow> sg_stop s = 3 \<or> sg_parent s \<or> sg_received s \<ge> 1) \<and>
      (sg_point s \<noteq> GoReturned \<longrightarrow> sg_forced s = 0 \<and>
         min 2 (sg_received s) \<le> taken (sg_point s) + sg_queue s \<and>
         taken (sg_point s) + sg_queue s \<le> sg_received s) \<and>
      (sg_point s = GoReturned \<longrightarrow> sg_doneClosed s \<or>
         (sg_received s \<ge> 2 \<and> sg_cancelled s \<and> sg_forced s = (if hasForce then 1 else 0))) \<and>
      (sg_forced s > 0 \<longrightarrow> hasForce \<and> sg_forced s = 1 \<and> sg_received s \<ge> 2 \<and> sg_cancelled s))"

lemma signalInv_go: "goStep hasForce s s' \<Longrightarrow> signalInv hasForce s \<Longrightarrow> signalInv hasForce s'"
  by (induction rule: goStep.induct; simp add: signalInv_def min_def split: if_splits; linarith?)

lemma signalInv_outer: "outerStep s s' \<Longrightarrow> signalInv hasForce s \<Longrightarrow> signalInv hasForce s'"
  by (induction rule: outerStep.induct; simp add: signalInv_def min_def split: if_splits; (linarith | blast)?)

lemma signalInv_reach: "signalReach hasForce s \<Longrightarrow> signalInv hasForce s"
proof (induction rule: signalReach.induct)
  case Start
  show ?case by (simp add: signalInv_def SignalContext_def)
qed (blast intro: signalInv_go signalInv_outer)+


text \<open>The goroutine rests only in a \<open>select\<close> with nothing to take, or when it has returned.\<close>

lemma goStep_idle:
  "(\<nexists>s'. goStep hasForce s s') \<longleftrightarrow>
     sg_point s = GoReturned \<or> (sg_point s \<in> {FirstSelect, SecondSelect} \<and> sg_queue s = 0 \<and> \<not> sg_doneClosed s)"
proof (cases "sg_point s")
  case Cancelling
  then show ?thesis using goStep.Cancel by auto
next
  case Forcing
  then show ?thesis using goStep.Force by auto
qed (auto elim: goStepE intro: goStep.FirstSignal goStep.FirstDone goStep.SecondSignal goStep.SecondDone)

fun goRank :: "goPoint \<Rightarrow> nat" where
  "goRank FirstSelect = 4" | "goRank Cancelling = 3" | "goRank SecondSelect = 2" | "goRank Forcing = 1"
| "goRank GoReturned = 0"

lemma goStep_rank: "goStep hasForce s s' \<Longrightarrow> goRank (sg_point s') < goRank (sg_point s)"
  by (induction rule: goStep.induct) simp_all

text \<open>
  Claim C38. In every state that \<open>SignalContext\<close> can reach, however signals, the stop function and
  the parent interleave with its goroutine: the context is cancelled only after a signal, the
  stop function or the parent, and \<open>force\<close> is called at most once, only after two signals and
  after cancelling. The goroutine takes at most four steps; when it can take none and the stop
  function has not closed its channel, it has answered every signal: none was received, or one
  and the context is cancelled, or at least two and \<open>force\<close> was called if there is one. After the
  stop function the context is cancelled, and the goroutine at rest has returned.
\<close>

theorem signal_context:
  assumes "signalReach hasForce s"
  shows "(sg_cancelled s \<longrightarrow> sg_received s \<ge> 1 \<or> sg_stop s = 3 \<or> sg_parent s) \<and>
    sg_forced s \<le> 1 \<and> (sg_forced s = 1 \<longrightarrow> hasForce \<and> sg_received s \<ge> 2 \<and> sg_cancelled s) \<and>
    (\<forall>s'. goStep hasForce s s' \<longrightarrow> goRank (sg_point s') < goRank (sg_point s)) \<and> goRank (sg_point s) \<le> 4 \<and>
    ((\<nexists>s'. goStep hasForce s s') \<longrightarrow> sg_stop s < 2 \<longrightarrow>
       (sg_point s = FirstSelect \<and> sg_received s = 0) \<or>
       (sg_point s = SecondSelect \<and> sg_received s = 1 \<and> sg_cancelled s) \<or>
       (sg_point s = GoReturned \<and> sg_received s \<ge> 2 \<and> sg_cancelled s \<and> sg_forced s = (if hasForce then 1 else 0))) \<and>
    (sg_stop s = 3 \<longrightarrow> sg_cancelled s \<and> ((\<nexists>s'. goStep hasForce s s') \<longrightarrow> sg_point s = GoReturned))"
proof -
  note i = signalInv_reach [OF assms, unfolded signalInv_def]
  have r: "goRank (sg_point s) \<le> 4" by (cases "sg_point s") simp_all
  have idle: "(sg_point s = FirstSelect \<and> sg_received s = 0) \<or>
       (sg_point s = SecondSelect \<and> sg_received s = 1 \<and> sg_cancelled s) \<or>
       (sg_point s = GoReturned \<and> sg_received s \<ge> 2 \<and> sg_cancelled s \<and> sg_forced s = (if hasForce then 1 else 0))"
    if n: "\<nexists>s'. goStep hasForce s s'" "sg_stop s < 2"
  proof (cases "sg_point s")
    case FirstSelect
    then show ?thesis using i goStep_idle [THEN iffD1, OF n(1)] by (auto simp: min_def split: if_splits)
  next
    case SecondSelect
    then show ?thesis using i goStep_idle [THEN iffD1, OF n(1)] by (auto simp: min_def split: if_splits)
  next
    case GoReturned
    have "\<not> sg_doneClosed s" using i n(2) by linarith
    then show ?thesis using i GoReturned by blast
  qed (use goStep_idle [THEN iffD1, OF n(1)] in simp_all)
  have "sg_point s = GoReturned" if "\<nexists>s'. goStep hasForce s s'" "sg_stop s = 3"
    using i goStep_idle [THEN iffD1, OF that(1)] that(2) by simp
  moreover have l: "sg_forced s > 0 \<longrightarrow> hasForce \<and> sg_forced s = 1 \<and> sg_received s \<ge> 2 \<and> sg_cancelled s"
    using i by blast
  moreover have "sg_forced s \<le> 1" using l by linarith
  moreover have "sg_cancelled s \<longrightarrow> sg_received s \<ge> 1 \<or> sg_stop s = 3 \<or> sg_parent s" "sg_stop s = 3 \<longrightarrow> sg_cancelled s"
    using i by blast+
  ultimately show ?thesis using r idle goStep_rank by (metis zero_less_one)
qed

lemma signal_context_witness:
  "\<exists>s. signalReach True s \<and> sg_received s = 2 \<and> sg_cancelled s \<and> sg_forced s = 1 \<and> goRank (sg_point s) \<le> 4"
proof -
  let ?s1 = "SignalContext\<lparr>sg_queue := 1, sg_received := 1\<rparr>"
  let ?s2 = "SignalContext\<lparr>sg_queue := 2, sg_received := 2\<rparr>"
  let ?s3 = "SignalContext\<lparr>sg_queue := 1, sg_received := 2, sg_point := Cancelling\<rparr>"
  let ?s4 = "SignalContext\<lparr>sg_queue := 1, sg_received := 2, sg_cancelled := True, sg_point := SecondSelect\<rparr>"
  let ?s5 = "SignalContext\<lparr>sg_queue := 0, sg_received := 2, sg_cancelled := True, sg_point := Forcing\<rparr>"
  let ?s6 = "SignalContext\<lparr>sg_queue := 0, sg_received := 2, sg_cancelled := True, sg_forced := 1, sg_point := GoReturned\<rparr>"
  have "signalReach True SignalContext" by (rule signalReach.Start)
  moreover have "outerStep SignalContext ?s1" using outerStep.Arrive [of SignalContext] by (simp add: SignalContext_def)
  moreover have "outerStep ?s1 ?s2" using outerStep.Arrive [of ?s1] by (simp add: SignalContext_def numeral_2_eq_2)
  moreover have "goStep True ?s2 ?s3" using goStep.FirstSignal [of ?s2] by (simp add: SignalContext_def)
  moreover have "goStep True ?s3 ?s4" using goStep.Cancel [of ?s3] by (simp add: SignalContext_def)
  moreover have "goStep True ?s4 ?s5" using goStep.SecondSignal [of ?s4] by (simp add: SignalContext_def)
  moreover have "goStep True ?s5 ?s6" using goStep.Force [of ?s5 True] by (simp add: SignalContext_def)
  ultimately have "signalReach True ?s6" by (meson signalReach.Go signalReach.Outer)
  then show ?thesis using signal_context [of True ?s6] by (intro exI [of _ ?s6]) (simp add: SignalContext_def)
qed

end
