(* ===== verification/Lifecycle.thy ===== *)
theory Lifecycle
  imports RunnerProps
begin

text \<open>
  From \<open>Generate\<close> to \<open>Run\<close>: what one command of internal/app writes, the others accept. The
  conditions of the validation depend on the files alone, so that they carry over to a later
  process.
\<close>

section \<open>The same files for another process\<close>

definition sameFiles :: "world \<Rightarrow> world \<Rightarrow> bool" where
  "sameFiles w u = (tree u = tree w \<and> cwd u = cwd w)"

lemma sameFiles_reads:
  assumes "sameFiles w u"
  shows "keyOf u p = keyOf w p" "lookup u p = lookup w p" "secureFile u p k = secureFile w p k"
    "contentOf u p = contentOf w p"
  using assms by (simp_all add: sameFiles_def keyOf_def lookup_def secureFile_def contentOf_def)

lemma sameFiles_config:
  assumes "sameFiles w u"
  shows "configOK kp u c key = configOK kp w c key"
proof -
  note r = sameFiles_reads(3,4) [OF assms]
  have "tlsOK kp u = tlsOK kp w" by (intro ext) (simp add: tlsOK_def r)
  then have "hysteria2OK kp u = hysteria2OK kp w" "anytlsOK kp u = anytlsOK kp w"
    by (intro ext, simp add: hysteria2OK_def anytlsOK_def)+
  moreover have "vlessPart u c key = vlessPart w c key"
    by (simp add: vlessPart_def vlessOK_def r split: option.splits)
  ultimately show ?thesis by (simp add: configOK_def)
qed

lemma sameFiles_served: "sameFiles w u \<Longrightarrow> servedConfig L jsonMsg path u v = servedConfig L jsonMsg path w v"
  by (simp add: servedConfig_def sameFiles_reads sameFiles_config)

section \<open>Loading without failures\<close>

lemma Decode_quiet:
  assumes "quiet w" "lookup w h = Some i" "\<not> isDir i" "decodeConfig jsonMsg (data i) = Inr c"
  shows "Decode jsonMsg h w = (Inr c, tick w)"
proof -
  have "length (data i) \<le> MaxConfigSize" using assms(4) by (auto simp: decodeConfig_def split: if_splits)
  then show ?thesis using read_quiet [OF assms(1-3)] assms(4) by (simp add: Decode_def)
qed

lemma abs_quiet: "quiet w \<Longrightarrow> \<exists>w'. sys_abs p w = (Inr (keyOf w p), w')"
  by (simp add: sys_abs_def keyOf_def absPath_def)

lemma DecodeFile_quiet:
  assumes "quiet w" "secureFile w path fileConfig" "decodeConfig jsonMsg (contentOf w path) = Inr c0"
  shows "\<exists>w'. DecodeFile jsonMsg path w = (Inr (resolveRelativePaths c0 (dirName (keyOf w path))), w')"
proof -
  obtain i where i: "lookup w path = Some i" "isRegular i" "\<not> isSymlink i" "data i = contentOf w path"
    using secure_regular [OF assms(2)] by blast
  have k: "checkFile path fileConfig w = (Inr (), tick w)" by (rule checkFile_quiet [OF assms(1,2)])
  have o: "sys_open path (tick w) = (Inr path, tick (tick w))"
    using open_quiet [of "tick w" path i] assms(1) i by simp
  have d: "Decode jsonMsg path (tick (tick w)) = (Inr c0, tick (tick (tick w)))"
    using Decode_quiet [of "tick (tick w)" path i jsonMsg c0] assms(1,3) i by (simp add: isRegular_def isDir_def)
  obtain w' where "sys_abs path (tick (tick (tick w))) = (Inr (keyOf w path), w')"
    using abs_quiet [of "tick (tick (tick w))" path] assms(1) by (auto simp: keyOf_def tick_def quiet_def)
  moreover have "path \<noteq> []" using i(1) by (auto simp: lookup_def)
  ultimately show ?thesis using k o d by (simp add: DecodeFile_def)
qed

lemma loadValidated_quiet:
  assumes "quiet w" "servedConfig L jsonMsg path w v"
  shows "\<exists>w'. loadValidated L jsonMsg path w = (Inr v, w')"
proof -
  obtain c0 where c: "secureFile w path fileConfig" "decodeConfig jsonMsg (contentOf w path) = Inr c0"
    "v_Config v = resolveRelativePaths c0 (dirName (keyOf w path))"
    "configOK (cl_keyPair L) w (v_Config v) (v_RealityPrivateKey v)"
    using assms(2) unfolding servedConfig_def by blast
  obtain w1 where d: "DecodeFile jsonMsg path w = (Inr (v_Config v), w1)"
    using DecodeFile_quiet [OF assms(1) c(1,2)] c(3) by metis
  have t: "sameTree w w1" by (rule ro_tree [OF ro_decoded d])
  have "quiet w1" "configOK (cl_keyPair L) w1 (v_Config v) (v_RealityPrivateKey v)"
    using assms(1) c(4) sameTree_quiet [OF t] configOK_same [OF t] by simp_all
  then obtain w2 where "Validate (cl_keyPair L) (Some (v_Config v)) w1 =
      (Inr \<lparr>v_Config = v_Config v, v_RealityPrivateKey = v_RealityPrivateKey v\<rparr>, w2)"
    using Validate_quiet by blast
  then show ?thesis using d by (simp add: loadValidated_def)
qed

lemma loadOptions_quiet:
  assumes "quiet w" "servedConfig L jsonMsg path w v"
  shows "\<exists>opts w'. loadOptions L jsonMsg path w = (Inr (Some opts), w') \<and> sameTree w w' \<and>
    servedOptions L jsonMsg path w opts"
proof -
  obtain w' where l: "loadValidated L jsonMsg path w = (Inr v, w')" using loadValidated_quiet [OF assms] by blast
  then have o: "loadOptions L jsonMsg path w = (Inr (Convert v), w')" by (simp add: loadOptions_def)
  show ?thesis using loadOptions_result [OF o] o by auto
qed

section \<open>Generated configurations\<close>

lemma Generate_serves:
  assumes "Generate L jsonMsg opts w = (Inr r, w')"
  shows "\<exists>v. servedConfig L jsonMsg (joinPath [go_Output opts, ''config.json'']) w' v"
  using assms
proof (cases rule: Generate_runs)
  case (finished cfg cl fs w1 w2 generated w3 v)
  then have "loadValidated L jsonMsg (joinPath [go_Output opts, ''config.json'']) w2 = (Inr v, w')"
    by (simp add: loadValidated_def)
  then show ?thesis using loadValidated_result servedConfig_same by blast
qed simp_all

text \<open>
  Claim C40. What \<open>Generate\<close> leaves behind can be served. After it has returned without error, a
  later process that finds the same files, with no failing file system call, gets through
  loading, validation and conversion: \<open>Run\<close> and \<open>Check\<close> on \<open>config.json\<close> in the output directory
  create the instance with one inbound for each section of that configuration, and from there
  on they do what the instance does.
\<close>

theorem generated_config_serves:
  assumes "Generate L jsonMsg opts w = (Inr r, w')" "sameFiles w' u" "quiet u"
  shows "\<exists>bo u1. servedOptions L jsonMsg (joinPath [go_Output opts, ''config.json'']) u bo \<and> sameTree u u1 \<and>
    (\<forall>e u2. coreNew B bo u1 = (Inl e, u2) \<longrightarrow>
       Run L B jsonMsg cancelled (joinPath [go_Output opts, ''config.json'']) u =
         (Finished (Inl (cannotCreate e)), [CallNew False], u2)) \<and>
    (\<forall>b u2. coreNew B bo u1 = (Inr b, u2) \<longrightarrow>
       (\<forall>x calls u3. runBox B cancelled b u2 = (x, calls, u3) \<longrightarrow>
          Run L B jsonMsg cancelled (joinPath [go_Output opts, ''config.json'']) u = (x, CallNew True # calls, u3)) \<and>
       (\<forall>b' u3. bx_Close B b u2 = (Inr (), b', u3) \<longrightarrow>
          Check L B jsonMsg (joinPath [go_Output opts, ''config.json'']) u =
            (Finished (Inr ()), [CallNew True, CallClose True], u3)))"
proof -
  obtain v where "servedConfig L jsonMsg (joinPath [go_Output opts, ''config.json'']) u v"
    using Generate_serves [OF assms(1)] sameFiles_served [OF assms(2)] by blast
  then obtain bo u1 where l: "loadOptions L jsonMsg (joinPath [go_Output opts, ''config.json'']) u = (Inr (Some bo), u1)"
    "sameTree u u1" "servedOptions L jsonMsg (joinPath [go_Output opts, ''config.json'']) u bo"
    using loadOptions_quiet [OF assms(3)] by blast
  then show ?thesis by (intro exI [of _ bo] exI [of _ u1]) (simp add: Run_def Check_def)
qed

text \<open>The sample output, checked by a later process.\<close>

lemma generated_config_serves_witness:
  "\<exists>r w' u3. Generate sampleLib id sampleOptions outWorld = (Inr r, w') \<and>
     Check sampleLib sampleBox id ''/out/config.json'' (w'\<lparr>faults := \<lambda>_. None\<rparr>) = (Finished (Inr ()), [CallNew True, CallClose True], u3)"
proof -
  obtain r w' where run: "Generate sampleLib id sampleOptions outWorld = (Inr r, w')"
    using sample_generated by blast
  have p: "joinPath [go_Output sampleOptions, ''config.json''] = ''/out/config.json''" by code_simp
  let ?u = "w'\<lparr>faults := \<lambda>_. None\<rparr>"
  have "sameFiles w' ?u" "quiet ?u" by (simp_all add: sameFiles_def quiet_def)
  then have "\<exists>u3. Check sampleLib sampleBox id ''/out/config.json'' ?u =
      (Finished (Inr ()), [CallNew True, CallClose True], u3)"
    using generated_config_serves [OF run, of ?u sampleBox True] by (auto simp: p coreNew_def sampleBox_def)
  then show ?thesis using run by auto
qed

end
