(* ===== verification/Flags.thy ===== *)
theory Flags
  imports GoOS
begin

text \<open>
  The part of the package flag that cmd/mini-singbox/main.go uses: a flag set with string, int,
  uint64 and bool flags, parsing of an argument list, and the texts that go to the output of the
  set when parsing fails.
\<close>

section \<open>Numbers with a base prefix\<close>

text \<open>\<open>strconv.ErrSyntax\<close> and \<open>ErrRange\<close>, with the texts the flag package gives them.\<close>

datatype numError = SyntaxError | RangeError

fun numErrorText :: "numError \<Rightarrow> string" where
  "numErrorText SyntaxError = ''parse error''"
| "numErrorText RangeError = ''value out of range''"

text \<open>The base of a text and the text behind the prefix.\<close>

definition basePrefix :: "string \<Rightarrow> nat \<times> string" where
  "basePrefix s =
     (if \<not> hasPrefix s ''0'' then (10, s)
      else let l = toLower (take 2 s) in
        if length s \<ge> 3 \<and> l = ''0b'' then (2, drop 2 s)
        else if length s \<ge> 3 \<and> l = ''0o'' then (8, drop 2 s)
        else if length s \<ge> 3 \<and> l = ''0x'' then (16, drop 2 s)
        else (8, tl s))"

definition digit36 :: "char \<Rightarrow> nat option" where
  "digit36 c =
     (let n = byte c in
      if 48 \<le> n \<and> n \<le> 57 then Some (n - 48)
      else if 97 \<le> n \<and> n \<le> 122 then Some (n - 97 + 10)
      else if 65 \<le> n \<and> n \<le> 90 then Some (n - 65 + 10)
      else None)"

text \<open>The loop of \<open>ParseUint\<close>, which passes over underscores.\<close>

fun uintLoop :: "nat \<Rightarrow> nat \<Rightarrow> string \<Rightarrow> numError + nat" where
  "uintLoop base n [] = Inr n"
| "uintLoop base n (c # cs) =
     (if c = CHR ''_'' then uintLoop base n cs
      else case digit36 c of
        None \<Rightarrow> Inl SyntaxError
      | Some d \<Rightarrow>
          if d \<ge> base then Inl SyntaxError
          else if n * base + d \<ge> 2 ^ 64 then Inl RangeError
          else uintLoop base (n * base + d) cs)"

text \<open>
  \<open>underscoreOK\<close> with the class of the character before: \<open>0\<close> a digit, \<open>_\<close> an underscore, \<open>!\<close>
  anything else.
\<close>

fun underscoreLoop :: "bool \<Rightarrow> char \<Rightarrow> string \<Rightarrow> bool" where
  "underscoreLoop hex saw [] = (saw \<noteq> CHR ''_'')"
| "underscoreLoop hex saw (c # cs) =
     (if (case digit36 c of None \<Rightarrow> False | Some d \<Rightarrow> d < (if hex then 16 else 10))
      then underscoreLoop hex (CHR ''0'') cs
      else if c = CHR ''_'' then saw = CHR ''0'' \<and> underscoreLoop hex (CHR ''_'') cs
      else saw \<noteq> CHR ''_'' \<and> underscoreLoop hex (CHR ''!'') cs)"

definition underscoreOK :: "string \<Rightarrow> bool" where
  "underscoreOK s0 =
     (let s = (if hasPrefix s0 ''-'' \<or> hasPrefix s0 ''+'' then tl s0 else s0); l = toLower (take 2 s) in
      if l = ''0b'' \<or> l = ''0o'' \<or> l = ''0x'' then underscoreLoop (l = ''0x'') (CHR ''0'') (drop 2 s)
      else underscoreLoop False (CHR ''^'') s)"

text \<open>\<open>strconv.ParseUint(s, 0, 64)\<close> and \<open>strconv.ParseInt(s, 0, 64)\<close>.\<close>

definition parseUint0 :: "string \<Rightarrow> numError + nat" where
  "parseUint0 s =
     (if s = [] then Inl SyntaxError
      else case basePrefix s of
        (base, ds) \<Rightarrow>
          (case uintLoop base 0 ds of
             Inl e \<Rightarrow> Inl e
           | Inr n \<Rightarrow> if CHR ''_'' \<in> set ds \<and> \<not> underscoreOK s then Inl SyntaxError else Inr n))"

definition parseInt0 :: "string \<Rightarrow> numError + int" where
  "parseInt0 s =
     (let neg = hasPrefix s ''-''; ds = (if neg \<or> hasPrefix s ''+'' then tl s else s) in
      case parseUint0 ds of
        Inl e \<Rightarrow> Inl e
      | Inr n \<Rightarrow>
          if \<not> neg \<and> n \<ge> 2 ^ 63 then Inl RangeError
          else if neg \<and> n > 2 ^ 63 then Inl RangeError
          else Inr (if neg then - int n else int n))"

lemma parseInt0_samples:
  "parseInt0 ''20001'' = Inr 20001" "parseInt0 ''-0x1F'' = Inr (- 31)" "parseInt0 ''0'' = Inr 0"
  "parseInt0 ''08'' = Inl SyntaxError" "parseInt0 ''1_000'' = Inr 1000" "parseInt0 ''1__0'' = Inl SyntaxError"
  "parseInt0 ''9223372036854775808'' = Inl RangeError" "parseInt0 ''-9223372036854775808'' = Inr (- (2 ^ 63))"
  "parseInt0 ''0x'' = Inl SyntaxError" "parseInt0 '''' = Inl SyntaxError" "parseInt0 ''0_7'' = Inr 7"
  by code_simp+

definition parseBool :: "string \<Rightarrow> bool option" where
  "parseBool s =
     (if s \<in> set [''1'', ''t'', ''T'', ''true'', ''TRUE'', ''True''] then Some True
      else if s \<in> set [''0'', ''f'', ''F'', ''false'', ''FALSE'', ''False''] then Some False
      else None)"

section \<open>Flag sets\<close>

datatype flagValue = StringValue string | IntValue int | UintValue "64 word" | BoolValue bool

record flagDef =
  fg_Name :: string
  fg_Default :: flagValue
  fg_Usage :: string

type_synonym flagValues = "(string \<times> flagValue) list"

definition isBoolFlag :: "flagDef \<Rightarrow> bool" where
  "isBoolFlag f = (case fg_Default f of BoolValue _ \<Rightarrow> True | _ \<Rightarrow> False)"

text \<open>\<open>Set\<close> of a value of the kind of the default.\<close>

definition setValue :: "flagDef \<Rightarrow> string \<Rightarrow> numError + flagValue" where
  "setValue f v =
     (case fg_Default f of
        StringValue _ \<Rightarrow> Inr (StringValue v)
      | IntValue _ \<Rightarrow> map_sum id IntValue (parseInt0 v)
      | UintValue _ \<Rightarrow> map_sum id (\<lambda>n. UintValue (of_nat n)) (parseUint0 v)
      | BoolValue _ \<Rightarrow> (case parseBool v of None \<Rightarrow> Inl SyntaxError | Some b \<Rightarrow> Inr (BoolValue b)))"

text \<open>Parsing ends well, with a request for help, or with a message.\<close>

datatype flagError = HelpRequested | FlagMessage string

definition findFlag :: "flagDef list \<Rightarrow> string \<Rightarrow> flagDef option" where
  "findFlag defs name = find (\<lambda>f. fg_Name f = name) defs"

definition invalidValue :: "flagDef \<Rightarrow> string \<Rightarrow> numError \<Rightarrow> string" where
  "invalidValue f v e =
     (if isBoolFlag f
      then ''invalid boolean value '' @ goQuote v @ '' for -'' @ fg_Name f @ '': '' @ numErrorText e
      else ''invalid value '' @ goQuote v @ '' for flag -'' @ fg_Name f @ '': '' @ numErrorText e)"

text \<open>
  \<open>Parse\<close>: one round of \<open>parseOne\<close> per flag. The value is the error, the values set so far and
  the arguments that remain.
\<close>

fun parseFlags ::
  "flagDef list \<Rightarrow> flagValues \<Rightarrow> string list \<Rightarrow> flagError option \<times> flagValues \<times> string list" where
  "parseFlags defs vals [] = (None, vals, [])"
| "parseFlags defs vals (s # args) =
     (if length s < 2 \<or> \<not> hasPrefix s ''-'' then (None, vals, s # args)
      else if s = ''--'' then (None, vals, args)
      else
        let body = (if hasPrefix s ''--'' then drop 2 s else tl s) in
        if body = [] \<or> hd body = CHR ''-'' \<or> hd body = CHR ''=''
        then (Some (FlagMessage (''bad flag syntax: '' @ s)), vals, s # args)
        else
          let (name, inline) = (case cutAt (CHR ''='') body of None \<Rightarrow> (body, None) | Some (n, v) \<Rightarrow> (n, Some v)) in
          case findFlag defs name of
            None \<Rightarrow>
              (if name = ''help'' \<or> name = ''h'' then (Some HelpRequested, vals, args)
               else (Some (FlagMessage (''flag provided but not defined: -'' @ name)), vals, args))
          | Some f \<Rightarrow>
              if isBoolFlag f \<and> inline = None
              then parseFlags defs (AList.update name (BoolValue True) vals) args
              else (case (inline, args) of
                  (Some v, _) \<Rightarrow>
                    (case setValue f v of
                       Inl e \<Rightarrow> (Some (FlagMessage (invalidValue f v e)), vals, args)
                     | Inr x \<Rightarrow> parseFlags defs (AList.update name x vals) args)
                | (None, []) \<Rightarrow> (Some (FlagMessage (''flag needs an argument: -'' @ name)), vals, [])
                | (None, v # rest) \<Rightarrow>
                    (case setValue f v of
                       Inl e \<Rightarrow> (Some (FlagMessage (invalidValue f v e)), vals, rest)
                     | Inr x \<Rightarrow> parseFlags defs (AList.update name x vals) rest)))"

definition defaultsOf :: "flagDef list \<Rightarrow> flagValues" where
  "defaultsOf defs = map (\<lambda>f. (fg_Name f, fg_Default f)) defs"

section \<open>Usage\<close>

fun kindName :: "flagValue \<Rightarrow> string" where
  "kindName (StringValue _) = ''string''"
| "kindName (IntValue _) = ''int''"
| "kindName (UintValue _) = ''uint''"
| "kindName (BoolValue _) = ''''"

text \<open>What \<open>PrintDefaults\<close> says of a default that is not the zero value.\<close>

fun defaultText :: "flagValue \<Rightarrow> string" where
  "defaultText (StringValue s) = (if s = [] then [] else '' (default '' @ goQuote s @ '')'')"
| "defaultText (IntValue i) = (if i = 0 then [] else '' (default '' @ itoa i @ '')'')"
| "defaultText (UintValue n) = (if n = 0 then [] else '' (default '' @ natText (unat n) @ '')'')"
| "defaultText (BoolValue b) = (if b then '' (default true)'' else [])"

definition tab :: string where "tab = [CHR 0x09]"

definition usageLine :: "flagDef \<Rightarrow> string" where
  "usageLine f =
     (let kind = kindName (fg_Default f);
          b = ''  -'' @ fg_Name f @ (if kind = [] then [] else '' '' @ kind)
      in b @ (if length b \<le> 4 then tab else nl @ ''    '' @ tab) @ fg_Usage f @ defaultText (fg_Default f) @ nl)"

definition usageText :: "string \<Rightarrow> flagDef list \<Rightarrow> string" where
  "usageText name defs = ''Usage of '' @ name @ '':'' @ nl @ concat (map usageLine (sort_key fg_Name defs))"

text \<open>What a failed \<open>Parse\<close> has written to the output of the set.\<close>

definition flagErrorText :: "string \<Rightarrow> flagDef list \<Rightarrow> flagError \<Rightarrow> string" where
  "flagErrorText name defs e =
     (case e of HelpRequested \<Rightarrow> usageText name defs | FlagMessage m \<Rightarrow> m @ nl @ usageText name defs)"

text \<open>
  \<open>if err := flags.Parse(args); err != nil || flags.NArg() != 0\<close> with the message of its body: the
  text for the output of the set, and the values when both tests fail.
\<close>

definition parseSet ::
  "string \<Rightarrow> flagDef list \<Rightarrow> string list \<Rightarrow> string \<times> flagValues option" where
  "parseSet name defs args =
     (case parseFlags defs (defaultsOf defs) args of
        (err, vals, rest) \<Rightarrow>
          if err = None \<and> rest = [] then ([], Some vals)
          else ((case err of None \<Rightarrow> [] | Some e \<Rightarrow> flagErrorText name defs e) @
                (if rest \<noteq> [] then name @ '': unexpected arguments'' @ nl else []), None))"

text \<open>Reading a variable that a flag was bound to.\<close>

definition stringFlag :: "flagValues \<Rightarrow> string \<Rightarrow> string" where
  "stringFlag vals name = (case map_of vals name of Some (StringValue s) \<Rightarrow> s | _ \<Rightarrow> [])"

definition intFlag :: "flagValues \<Rightarrow> string \<Rightarrow> int" where
  "intFlag vals name = (case map_of vals name of Some (IntValue i) \<Rightarrow> i | _ \<Rightarrow> 0)"

definition uintFlag :: "flagValues \<Rightarrow> string \<Rightarrow> 64 word" where
  "uintFlag vals name = (case map_of vals name of Some (UintValue n) \<Rightarrow> n | _ \<Rightarrow> 0)"

definition boolFlag :: "flagValues \<Rightarrow> string \<Rightarrow> bool" where
  "boolFlag vals name = (case map_of vals name of Some (BoolValue b) \<Rightarrow> b | _ \<Rightarrow> False)"

end
