(* ===== verification/TuneOutput.thy ===== *)
theory TuneOutput
  imports TuneManager
begin

text \<open>
  internal/tune/output.go: the reports of the tune commands as the text they write. Numbers of
  bytes are printed from a double, so the rounding of the conversion and of the verb \<open>%.1f\<close> is
  part of the model.
\<close>

section \<open>Numbers of bytes\<close>

text \<open>The quotient rounded to the nearest integer, ties to even.\<close>

definition divRoundEven :: "nat \<Rightarrow> nat \<Rightarrow> nat" where
  "divRoundEven n d =
     (if 2 * (n mod d) < d \<or> (2 * (n mod d) = d \<and> even (n div d)) then n div d else n div d + 1)"

text \<open>\<open>float64\<close> of an unsigned integer: 53 significant bits, the excess bits rounded away.\<close>

fun excessBits :: "nat \<Rightarrow> nat" where
  "excessBits n = (if n < 2 ^ 53 then 0 else Suc (excessBits (n div 2)))"

declare excessBits.simps [simp del]

definition float64 :: "nat \<Rightarrow> nat" where
  "float64 n = divRoundEven n (2 ^ excessBits n) * 2 ^ excessBits n"

definition mib :: nat where "mib = 1024 * 1024"

text \<open>\<open>%.1f\<close> of \<open>float64(n) / mib\<close>; the division by a power of two is exact.\<close>

definition tenthsOfMiB :: "nat \<Rightarrow> nat" where
  "tenthsOfMiB n = divRoundEven (10 * float64 n) mib"

definition formatBytes :: "uint64 \<Rightarrow> string" where
  "formatBytes b =
     (let n = unat b in
      if n = 0 then ''unknown''
      else if n mod mib = 0 then natText (n div mib) @ '' MiB''
      else natText (tenthsOfMiB n div 10) @ ''.'' @ natText (tenthsOfMiB n mod 10) @ '' MiB'')"

lemma formatBytes_samples:
  "formatBytes 0 = ''unknown''" "formatBytes 1048576 = ''1 MiB''" "formatBytes 1 = ''0.0 MiB''"
  "formatBytes 1572864 = ''1.5 MiB''" "formatBytes 1625293 = ''1.6 MiB''"
  by code_simp+

section \<open>Words\<close>

definition valueOrUnknown :: "string \<Rightarrow> string" where
  "valueOrUnknown v = (if trimSpace v = [] then ''unknown'' else v)"

definition yesNo :: "bool \<Rightarrow> string" where
  "yesNo v = (if v then ''yes'' else ''no'')"

definition enabledText :: "bool \<Rightarrow> string" where
  "enabledText v = (if v then ''enabled'' else ''disabled'')"

definition containsValue :: "string list \<Rightarrow> string \<Rightarrow> bool" where
  "containsValue values expected = list_ex (\<lambda>v. v = expected) values"

text \<open>\<open>fmt.Fprintln\<close> and a line made of a label and a text.\<close>

definition println :: "string \<Rightarrow> string" where
  "println s = s @ nl"

definition uintText :: "uint64 \<Rightarrow> string" where
  "uintText n = natText (unat n)"

section \<open>Reports\<close>

definition printEnvironment :: "Profile \<Rightarrow> string" where
  "printEnvironment profile =
     (let e = pf_Environment profile in
      println ''Environment'' @
      println (''  Distribution   : '' @ valueOrUnknown (ev_Distribution e)) @
      println (''  Kernel         : '' @ valueOrUnknown (ev_Kernel e)) @
      println (''  Architecture   : '' @ valueOrUnknown (ev_Architecture e)) @
      println (''  Virtualization : '' @ valueOrUnknown (ev_Virtualization e)) @
      println (''  Visible RAM    : '' @ formatBytes (ev_VisibleMemoryBytes e)) @
      println (''  Cgroup limit   : '' @ formatBytes (ev_CgroupMemoryLimit e)) @
      println (''  Effective RAM  : '' @ formatBytes (ev_EffectiveMemoryBytes e) @ '' ('' @ ev_MemoryPolicy e @ '')'') @
      println (''  CPU            : '' @ itoa (ev_LogicalCPUs e) @ '' logical, '' @ itoa (ev_EffectiveCPUs e) @ '' effective'') @
      println (''  Interface      : '' @ valueOrUnknown (ev_Interface e)) @
      (if ev_MTU e > 0 then println (''  MTU            : '' @ itoa (ev_MTU e))
       else println ''  MTU            : unknown'') @
      println (''  TCP CC         : '' @ valueOrUnknown (mget (pf_Sysctls profile) KeyCongestionControl)) @
      println (''  Default qdisc  : '' @ valueOrUnknown (mget (pf_Sysctls profile) KeyDefaultQdisc)) @
      println (''  BBR available  : '' @ yesNo (containsValue (pf_AvailableCC profile) ''bbr'')) @
      println (''  fq available   : '' @ yesNo (pf_FQAvailable profile)))"

definition printWorkload :: "WorkloadProfile \<Rightarrow> string" where
  "printWorkload wl =
     println ''Workload'' @
     println (''  Reality        : '' @ enabledText (wl_Reality wl) @ '' (TCP)'') @
     println (''  AnyTLS         : '' @ enabledText (wl_AnyTLS wl) @ '' (TCP)'') @
     println (''  Hysteria2      : '' @ enabledText (wl_Hysteria2 wl) @ '' (UDP/QUIC, observe only)'')"

definition writableCount :: "CapabilityProfile \<Rightarrow> nat" where
  "writableCount cp = length (filter (\<lambda>key. map_of (cp_SysctlWritable cp) key = Some True) managedKeys)"

definition printCapabilities :: "CapabilityProfile \<Rightarrow> string" where
  "printCapabilities cp =
     println ''Capabilities'' @
     println (''  Root           : '' @ yesNo (cp_Root cp)) @
     println (''  CAP_NET_ADMIN  : '' @ yesNo (cp_NetAdmin cp)) @
     println (''  Sysctl write   : '' @ natText (writableCount cp) @ ''/'' @ natText (length managedKeys) @ '' managed keys'')"

definition PrintProfile :: "Profile \<Rightarrow> string" where
  "PrintProfile profile =
     printEnvironment profile @ printWorkload (pf_Workload profile) @
     printCapabilities (pf_Capabilities profile) @
     concat (map (\<lambda>warning. println (''  Warning        : '' @ warning)) (pf_Warnings profile))"

definition printMeasurement :: "Plan \<Rightarrow> string" where
  "printMeasurement plan =
     println ''Measurement'' @
     (if in_BandwidthMbps (pl_Inputs plan) = 0
      then println ''  Bandwidth      : unknown (no active speed test performed)''
      else println (''  Bandwidth      : '' @ uintText (in_BandwidthMbps (pl_Inputs plan)) @ '' Mbps (user supplied)'')) @
     (if in_RTTMillis (pl_Inputs plan) = 0
      then println ''  RTT            : unknown (no public host contacted)''
      else println (''  RTT            : '' @ uintText (in_RTTMillis (pl_Inputs plan)) @ '' ms (user supplied)'')) @
     (if pl_BDPBytes plan > 0
      then println (''  BDP            : '' @ formatBytes (pl_BDPBytes plan) @
             '' (informational; automatic buffer tuning is disabled)'')
      else [])"

text \<open>The verb \<open>%-11s\<close> on the text of an action, and the UTF-8 bytes of an em dash.\<close>

definition pad11 :: "string \<Rightarrow> string" where
  "pad11 s = s @ replicate (11 - length s) (CHR '' '')"

definition emDash :: string where
  "emDash = [CHR 0xE2, CHR 0x80, CHR 0x94]"

definition printAction :: "TuneAction \<Rightarrow> string" where
  "printAction a =
     (let values = (if ta_ProposedValue a \<noteq> [] \<and> ta_CurrentValue a \<noteq> ta_ProposedValue a
                    then '' '' @ valueOrUnknown (ta_CurrentValue a) @ '' -> '' @ ta_ProposedValue a else [])
      in println (''  ['' @ pad11 (actionText (ta_Action a)) @ ''] '' @ ta_Key a @ values @ '' '' @ emDash @ '' '' @
           ta_Reason a))"

definition PrintPlan :: "Plan \<Rightarrow> string" where
  "PrintPlan plan =
     PrintProfile (pl_Profile plan) @ printMeasurement plan @ println ''Plan'' @
     concat (map printAction (pl_Actions plan))"

definition PrintVerification :: "VerifyResult \<Rightarrow> string" where
  "PrintVerification result =
     (if \<not> vr_Managed result then println ''Tuning state: unmanaged''
      else println (''Tuning state: '' @ vr_Phase result) @
        (if vr_Drift result = []
         then println ''Verification: managed runtime values and persistence match; no drift''
         else println ''Verification: drift detected'' @
           concat (map (\<lambda>item. println (''  - '' @ item)) (vr_Drift result))))"

section \<open>Accuracy\<close>

lemma divRoundEven_bounds:
  assumes "0 < d"
  shows "2 * n \<le> 2 * (divRoundEven n d * d) + d" "2 * (divRoundEven n d * d) \<le> 2 * n + d"
proof -
  have e: "n = n div d * d + n mod d" by simp
  have m: "n mod d < d" using assms by simp
  then have r: "(divRoundEven n d * d = n div d * d \<and> 2 * (n mod d) \<le> d) \<or>
      (divRoundEven n d * d = n div d * d + d \<and> d \<le> 2 * (n mod d))"
    by (auto simp: divRoundEven_def)
  show "2 * n \<le> 2 * (divRoundEven n d * d) + d" using e m r by linarith
  show "2 * (divRoundEven n d * d) \<le> 2 * n + d" using e m r by linarith
qed

lemma excessBits_bound: "n < 2 ^ (53 + k) \<Longrightarrow> excessBits n \<le> k"
proof (induction k arbitrary: n)
  case 0
  then show ?case by (simp add: excessBits.simps)
next
  case (Suc k)
  have "(2::nat) ^ (53 + Suc k) = 2 ^ (53 + k) * 2" by (metis add_Suc_right power_Suc2)
  then have "n < 2 ^ (53 + k) * 2" using Suc.prems by metis
  then have "n div 2 < 2 ^ (53 + k)" by (rule less_mult_imp_div_less)
  then have "excessBits (n div 2) \<le> k" by (rule Suc.IH)
  then show ?case by (subst excessBits.simps) simp
qed

lemma float64_exact: "n < 2 ^ 53 \<Longrightarrow> float64 n = n"
  by (simp add: float64_def excessBits.simps divRoundEven_def)

lemma float64_bounds:
  assumes "n < 2 ^ 64"
  shows "n \<le> float64 n + 1024" "float64 n \<le> n + 1024"
proof -
  have "excessBits n \<le> 11" using excessBits_bound [of n 11] assms by simp
  then have p: "(2::nat) ^ excessBits n \<le> 2 ^ 11" by (rule power_increasing) simp
  have q: "(0::nat) < 2 ^ excessBits n" by simp
  note b = divRoundEven_bounds [OF q, of n]
  show "n \<le> float64 n + 1024" "float64 n \<le> n + 1024"
    using b p unfolding float64_def by simp_all
qed

text \<open>The printed tenths are the number of bytes up to half a tenth and the error of the double.\<close>

lemma tenthsOfMiB_accuracy:
  assumes "n < 2 ^ 64"
  shows "10 * n \<le> tenthsOfMiB n * mib + mib div 2 + 10240" "tenthsOfMiB n * mib \<le> 10 * n + mib div 2 + 10240"
proof -
  have m: "0 < mib" "2 * (mib div 2) = mib" by (simp_all add: mib_def)
  note d = divRoundEven_bounds [OF m(1), of "10 * float64 n", folded tenthsOfMiB_def]
  note f = float64_bounds [OF assms]
  show "10 * n \<le> tenthsOfMiB n * mib + mib div 2 + 10240" using d(1) f m(2) by linarith
  show "tenthsOfMiB n * mib \<le> 10 * n + mib div 2 + 10240" using d(2) f m(2) by linarith
qed

end
