(* ===== verification/Cli.thy ===== *)
theory Cli
  imports Flags TuneOutput Runner
begin

text \<open>
  cmd/mini-singbox/main.go and internal/version/info.go: the commands, their flags, what they
  write to the two output streams, and the exit code. A command is a function of its arguments
  and the world.
\<close>

section \<open>Surroundings\<close>

text \<open>
  What the build leaves in the binary: the variables of internal/version, the constants of
  package runtime, and the modules of \<open>debug.ReadBuildInfo\<close> with their replacement versions.
\<close>

record buildInfo =
  bi_Version :: string
  bi_Commit :: string
  bi_BuildTime :: string
  bi_Dirty :: string
  bi_GoVersion :: string
  bi_GOOS :: string
  bi_GOARCH :: string
  bi_Deps :: "(string \<times> string \<times> string option) list option"

record 'b program =
  pg_crypto :: cryptoLib
  pg_box :: "'b boxLib"
  pg_go :: goLib
  pg_build :: buildInfo

definition jsonMsgOf :: "'b program \<Rightarrow> string \<Rightarrow> string" where
  "jsonMsgOf P = gl_jsonMsg (pg_go P)"

fun moduleVersion :: "(string \<times> string \<times> string option) list \<Rightarrow> string" where
  "moduleVersion [] = ''unknown''"
| "moduleVersion ((path, version, replace) # deps) =
     (if path = ''github.com/sagernet/sing-box''
      then (case replace of Some v \<Rightarrow> v | None \<Rightarrow> version)
      else moduleVersion deps)"

definition singBoxVersion :: "buildInfo \<Rightarrow> string" where
  "singBoxVersion b = (case bi_Deps b of None \<Rightarrow> ''unknown'' | Some deps \<Rightarrow> moduleVersion deps)"

definition versionString :: "buildInfo \<Rightarrow> string" where
  "versionString b =
     ''mini-singbox '' @ bi_Version b @ nl @ ''git_commit '' @ bi_Commit b @ nl @
     ''build_time '' @ bi_BuildTime b @ nl @ ''go_version '' @ bi_GoVersion b @ nl @
     ''sing_box_version '' @ singBoxVersion b @ nl @
     ''target '' @ bi_GOOS b @ ''/'' @ bi_GOARCH b @ nl @ ''dirty_build '' @ bi_Dirty b"

text \<open>
  A command exits, or waits for a signal, or panics; with the text it wrote to standard output
  and standard error.
\<close>

datatype exitStatus = Exit int | Waits | Crashed

type_synonym outcome = "exitStatus \<times> string \<times> string"

definition usageError :: "string \<Rightarrow> outcome" where
  "usageError err = (Exit 2, [], err)"

definition failure :: "string \<Rightarrow> error \<Rightarrow> outcome" where
  "failure out e = (Exit 1, out, println (error_text e))"

definition success :: "string \<Rightarrow> outcome" where
  "success out = (Exit 0, out, [])"

definition printUsage :: string where
  "printUsage = println ''usage: mini-singbox <run|check|generate|deliver|renew-certificate|tune|version> [options]''"

definition pathLines :: "string list \<Rightarrow> string" where
  "pathLines files = concat (map println files)"

section \<open>run, check and version\<close>

definition stringDef :: "string \<Rightarrow> string \<Rightarrow> string \<Rightarrow> flagDef" where
  "stringDef name value1 usage = \<lparr>fg_Name = name, fg_Default = StringValue value1, fg_Usage = usage\<rparr>"

definition intDef :: "string \<Rightarrow> int \<Rightarrow> string \<Rightarrow> flagDef" where
  "intDef name value1 usage = \<lparr>fg_Name = name, fg_Default = IntValue value1, fg_Usage = usage\<rparr>"

definition uintDef :: "string \<Rightarrow> string \<Rightarrow> flagDef" where
  "uintDef name usage = \<lparr>fg_Name = name, fg_Default = UintValue 0, fg_Usage = usage\<rparr>"

definition boolDef :: "string \<Rightarrow> string \<Rightarrow> flagDef" where
  "boolDef name usage = \<lparr>fg_Name = name, fg_Default = BoolValue False, fg_Usage = usage\<rparr>"

definition configFlags :: "flagDef list" where
  "configFlags = [stringDef ''c'' ''config.json'' ''path to mini-singbox config'']"

text \<open>The text for standard error, and the path when parsing succeeds.\<close>

definition parseConfigFlag :: "string \<Rightarrow> string list \<Rightarrow> string \<times> string option" where
  "parseConfigFlag command args =
     (case parseSet command configFlags args of
        (err, None) \<Rightarrow> (err, None)
      | (err, Some vals) \<Rightarrow> (err, Some (stringFlag vals ''c'')))"

fun runOutcome :: "string \<Rightarrow> runResult \<Rightarrow> outcome" where
  "runOutcome out (Finished (Inr _)) = success out"
| "runOutcome out (Finished (Inl e)) = failure [] e"
| "runOutcome out Panicked = (Crashed, [], [])"
| "runOutcome out Blocked = (Waits, [], [])"

definition executeRun :: "'b program \<Rightarrow> bool \<Rightarrow> string list \<Rightarrow> world \<Rightarrow> outcome \<times> world" where
  "executeRun P cancelled args w =
     (case parseConfigFlag ''run'' args of
        (err, None) \<Rightarrow> (usageError err, w)
      | (_, Some configPath) \<Rightarrow>
          (case Run (pg_crypto P) (pg_box P) (jsonMsgOf P) cancelled configPath w of
             (r, _, w') \<Rightarrow> (runOutcome [] r, w')))"

definition executeCheck :: "'b program \<Rightarrow> string list \<Rightarrow> world \<Rightarrow> outcome \<times> world" where
  "executeCheck P args w =
     (case parseConfigFlag ''check'' args of
        (err, None) \<Rightarrow> (usageError err, w)
      | (_, Some configPath) \<Rightarrow>
          (case Check (pg_crypto P) (pg_box P) (jsonMsgOf P) configPath w of
             (r, _, w') \<Rightarrow> (runOutcome (println ''configuration is valid'') r, w')))"

definition executeVersion :: "'b program \<Rightarrow> string list \<Rightarrow> outcome" where
  "executeVersion P args =
     (if args \<noteq> [] then usageError (println ''version: unexpected arguments'')
      else success (println (versionString (pg_build P))))"

section \<open>generate, deliver and renew-certificate\<close>

definition generateFlags :: "flagDef list" where
  "generateFlags =
     [stringDef ''output'' ''.'' ''output directory'',
      stringDef ''protocols'' ''reality,hy2,anytls'' ''comma-separated protocols'',
      stringDef ''listen'' ''::'' ''listening IP address'',
      stringDef ''public-address'' '''' ''client-facing DNS name or IP address'',
      intDef ''reality-port'' 20001 ''VLESS Reality port'',
      intDef ''hy2-port'' 20002 ''Hysteria2 port'',
      intDef ''anytls-port'' 20003 ''AnyTLS port'',
      intDef ''public-reality-port'' 0 ''client-facing VLESS Reality port (defaults to --reality-port)'',
      intDef ''public-hy2-port'' 0 ''client-facing Hysteria2 port (defaults to --hy2-port)'',
      intDef ''public-anytls-port'' 0 ''client-facing AnyTLS port (defaults to --anytls-port)'',
      stringDef ''reality-server-name'' '''' ''Reality server name'',
      stringDef ''reality-handshake'' '''' ''Reality handshake HOST:PORT'',
      stringDef ''tls-san'' '''' ''self-signed certificate DNS/IP SAN'',
      boolDef ''allow-insecure-anytls-share'' ''generate an unauthenticated AnyTLS URI (unsafe)'',
      boolDef ''force'' ''replace existing generated files'',
      boolDef ''show-secrets'' ''print client credentials to stdout'']"

definition generateOptionsOf :: "flagValues \<Rightarrow> GenerateOptions" where
  "generateOptionsOf v =
     \<lparr>go_Output = stringFlag v ''output'', go_Protocols = splitOn (CHR '','') (stringFlag v ''protocols''),
      go_Listen = stringFlag v ''listen'', go_PublicAddress = stringFlag v ''public-address'',
      go_RealityPort = intFlag v ''reality-port'', go_Hysteria2Port = intFlag v ''hy2-port'',
      go_AnyTLSPort = intFlag v ''anytls-port'', go_PublicRealityPort = intFlag v ''public-reality-port'',
      go_PublicHysteria2Port = intFlag v ''public-hy2-port'',
      go_PublicAnyTLSPort = intFlag v ''public-anytls-port'',
      go_RealityServerName = stringFlag v ''reality-server-name'',
      go_RealityHandshake = stringFlag v ''reality-handshake'', go_TLSSAN = stringFlag v ''tls-san'',
      go_AllowInsecureAnyTLSShare = boolFlag v ''allow-insecure-anytls-share'',
      go_Force = boolFlag v ''force''\<rparr>"

definition executeGenerate :: "'b program \<Rightarrow> string list \<Rightarrow> world \<Rightarrow> outcome \<times> world" where
  "executeGenerate P args w =
     (case parseSet ''generate'' generateFlags args of
        (err, None) \<Rightarrow> (usageError err, w)
      | (_, Some v) \<Rightarrow>
          (case Generate (pg_crypto P) (jsonMsgOf P) (generateOptionsOf v) w of
             (Inl e, w') \<Rightarrow> (failure [] e, w')
           | (Inr result, w') \<Rightarrow>
               if boolFlag v ''show-secrets''
               then ((Exit 0, pathLines (gr_Files result) @ gr_ClientInfo result,
                      println ''WARNING: client credentials follow on stdout''), w')
               else (success (pathLines (gr_Files result)), w')))"

definition deliveryFlags :: "string \<Rightarrow> flagDef list" where
  "deliveryFlags outputUsage =
     [stringDef ''c'' ''config.json'' ''path to existing mini-singbox config'',
      stringDef ''output'' ''.'' outputUsage,
      stringDef ''public-address'' '''' ''client-facing DNS name or IP address'',
      intDef ''reality-port'' 0 ''client-facing VLESS Reality port'',
      intDef ''hy2-port'' 0 ''client-facing Hysteria2 port'',
      intDef ''anytls-port'' 0 ''client-facing AnyTLS port'',
      boolDef ''allow-insecure-anytls-share'' ''generate an unauthenticated AnyTLS URI (unsafe)'']"

definition deliverFlags :: "flagDef list" where
  "deliverFlags = deliveryFlags ''delivery output directory'' @ [boolDef ''force'' ''replace existing delivery files'']"

definition renewFlags :: "flagDef list" where
  "renewFlags = deliveryFlags ''empty staging output directory''"

definition deliverOptionsOf :: "flagValues \<Rightarrow> DeliverOptions" where
  "deliverOptionsOf v =
     \<lparr>dl_ConfigPath = stringFlag v ''c'', dl_Output = stringFlag v ''output'',
      dl_PublicAddress = stringFlag v ''public-address'', dl_RealityPort = intFlag v ''reality-port'',
      dl_Hysteria2Port = intFlag v ''hy2-port'', dl_AnyTLSPort = intFlag v ''anytls-port'',
      dl_AllowInsecureAnyTLSShare = boolFlag v ''allow-insecure-anytls-share'', dl_Force = boolFlag v ''force''\<rparr>"

definition executeDeliver :: "'b program \<Rightarrow> string list \<Rightarrow> world \<Rightarrow> outcome \<times> world" where
  "executeDeliver P args w =
     (case parseSet ''deliver'' deliverFlags args of
        (err, None) \<Rightarrow> (usageError err, w)
      | (_, Some v) \<Rightarrow>
          (case Deliver (pg_crypto P) (jsonMsgOf P) (deliverOptionsOf v) w of
             (Inl e, w') \<Rightarrow> (failure [] e, w')
           | (Inr result, w') \<Rightarrow> (success (pathLines (dr_Files result)), w')))"

definition renewOptionsOf :: "flagValues \<Rightarrow> RenewCertificateOptions" where
  "renewOptionsOf v =
     \<lparr>rn_ConfigPath = stringFlag v ''c'', rn_Output = stringFlag v ''output'',
      rn_PublicAddress = stringFlag v ''public-address'', rn_RealityPort = intFlag v ''reality-port'',
      rn_Hysteria2Port = intFlag v ''hy2-port'', rn_AnyTLSPort = intFlag v ''anytls-port'',
      rn_AllowInsecureAnyTLSShare = boolFlag v ''allow-insecure-anytls-share''\<rparr>"

definition executeRenewCertificate :: "'b program \<Rightarrow> string list \<Rightarrow> world \<Rightarrow> outcome \<times> world" where
  "executeRenewCertificate P args w =
     (case parseSet ''renew-certificate'' renewFlags args of
        (err, None) \<Rightarrow> (usageError err, w)
      | (_, Some v) \<Rightarrow>
          (case RenewCertificate (pg_crypto P) (jsonMsgOf P) (renewOptionsOf v) w of
             (Inl e, w') \<Rightarrow> (failure [] e, w')
           | (Inr result, w') \<Rightarrow> (success (pathLines (rr_Files result)), w')))"

section \<open>tune\<close>

definition printTuneUsage :: string where
  "printTuneUsage =
     println ''usage: mini-singbox tune <detect|plan|apply|verify|status|rollback> [options]'' @
     println ''       tune plan|apply [--bw Mbps --rtt ms]'' @
     println ''       tune apply [--dry-run]''"

definition tuneFlags :: "flagDef list" where
  "tuneFlags =
     [stringDef ''c'' DefaultConfigPath ''path to mini-singbox config'',
      stringDef ''state-dir'' DefaultStateDirectory ''tuning state directory'',
      uintDef ''bw'' ''known line rate in Mbps (no speed test is performed)'',
      uintDef ''rtt'' ''known round-trip time in milliseconds (no ping is performed)'',
      boolDef ''dry-run'' ''show actions without modifying the system'']"

text \<open>The three checks of flag combinations.\<close>

definition tuneCombination :: "string \<Rightarrow> flagValues \<Rightarrow> string option" where
  "tuneCombination command v =
     (let bandwidth = uintFlag v ''bw''; rtt = uintFlag v ''rtt'' in
      if (bandwidth = 0) \<noteq> (rtt = 0) then Some ''tune: --bw and --rtt must be supplied together''
      else if command \<noteq> ''apply'' \<and> boolFlag v ''dry-run''
      then Some ''tune: --dry-run is valid only with apply''
      else if command \<noteq> ''plan'' \<and> command \<noteq> ''apply'' \<and> (bandwidth \<noteq> 0 \<or> rtt \<noteq> 0)
      then Some ''tune: --bw and --rtt are valid only with plan or apply''
      else None)"

definition tuneManager :: "'b program \<Rightarrow> flagValues \<Rightarrow> Manager" where
  "tuneManager P v =
     New \<lparr>op_ConfigPath = stringFlag v ''c'', op_StateDirectory = stringFlag v ''state-dir'',
          op_SysctlFile = [], op_RootDirectory = [], op_ProcDirectory = [], op_SysDirectory = [],
          op_ProgramVersion = bi_Version (pg_build P)\<rparr>"

definition tuneInputs :: "flagValues \<Rightarrow> Inputs" where
  "tuneInputs v = \<lparr>in_BandwidthMbps = uintFlag v ''bw'', in_RTTMillis = uintFlag v ''rtt''\<rparr>"

text \<open>A verification behind what was printed before: its report, and 1 for drift.\<close>

definition reportVerification :: "string \<Rightarrow> VerifyResult res \<times> world \<Rightarrow> outcome \<times> world" where
  "reportVerification out r =
     (case r of
        (Inl e, w) \<Rightarrow> (failure out e, w)
      | (Inr result, w) \<Rightarrow>
          ((Exit (if vr_Drift result \<noteq> [] then 1 else 0), out @ PrintVerification result, []), w))"

definition applyText :: "ApplyResult \<Rightarrow> string" where
  "applyText result =
     PrintPlan (ar_Plan result) @
     (if ar_DryRun result then println ''Result: dry run; no system state changed''
      else if ar_Changed result = [] then println ''Result: no safe changes were required or supported''
      else println (''Result: applied and verified '' @ natText (length (ar_Changed result)) @ '' sysctl change(s)''))"

definition rollbackText :: "string list \<Rightarrow> string" where
  "rollbackText restored =
     (if restored = [] then println ''Result: no active mini-singbox tuning to rollback''
      else println (''Result: restored '' @ natText (length restored) @
             '' sysctl value(s) and removed managed persistence''))"

definition tuneCommand ::
  "goLib \<Rightarrow> Manager \<Rightarrow> string \<Rightarrow> Inputs \<Rightarrow> bool \<Rightarrow> world \<Rightarrow> outcome \<times> world" where
  "tuneCommand g m command inputs dryRun w =
     (if command = ''detect'' then
        (case Detect g m w of
           (Inl e, w1) \<Rightarrow> (failure [] e, w1)
         | (Inr profile, w1) \<Rightarrow> (success (PrintProfile profile), w1))
      else if command = ''plan'' then
        (case makePlan g m inputs w of
           (Inl e, w1) \<Rightarrow> (failure [] e, w1)
         | (Inr plan, w1) \<Rightarrow> (success (PrintPlan plan), w1))
      else if command = ''apply'' then
        (case Apply g m inputs dryRun w of
           (Inl e, w1) \<Rightarrow> (failure [] e, w1)
         | (Inr result, w1) \<Rightarrow> (success (applyText result), w1))
      else if command = ''verify'' then reportVerification [] (Verify g m w)
      else if command = ''status'' then
        (case makePlan g m \<lparr>in_BandwidthMbps = 0, in_RTTMillis = 0\<rparr> w of
           (Inl e, w1) \<Rightarrow> (failure [] e, w1)
         | (Inr plan, w1) \<Rightarrow> reportVerification (PrintPlan plan) (Verify g m w1))
      else if command = ''rollback'' then
        (case Rollback g m w of
           ((_, Some e), w1) \<Rightarrow> (failure [] e, w1)
         | ((restored, None), w1) \<Rightarrow> (success (rollbackText restored), w1))
      else if command = ''help'' \<or> command = ''-h'' \<or> command = ''--help''
      then (success printTuneUsage, w)
      else (usageError (println (''unknown tune command '' @ goQuote command) @ printTuneUsage), w))"

definition executeTune :: "'b program \<Rightarrow> string list \<Rightarrow> world \<Rightarrow> outcome \<times> world" where
  "executeTune P args w =
     (case args of
        [] \<Rightarrow> (usageError printTuneUsage, w)
      | command # rest \<Rightarrow>
          (case parseSet (''tune '' @ command) tuneFlags rest of
             (err, None) \<Rightarrow> (usageError err, w)
           | (_, Some v) \<Rightarrow>
               (case tuneCombination command v of
                  Some m \<Rightarrow> (usageError (println m), w)
                | None \<Rightarrow>
                    tuneCommand (pg_go P) (tuneManager P v) command (tuneInputs v) (boolFlag v ''dry-run'') w)))"

section \<open>The program\<close>

text \<open>\<open>cancelled\<close> says whether a signal cancels the context of \<open>run\<close>.\<close>

definition execute :: "'b program \<Rightarrow> bool \<Rightarrow> string list \<Rightarrow> world \<Rightarrow> outcome \<times> world" where
  "execute P cancelled args w =
     (case args of
        [] \<Rightarrow> (usageError printUsage, w)
      | command # rest \<Rightarrow>
          if command = ''run'' then executeRun P cancelled rest w
          else if command = ''check'' then executeCheck P rest w
          else if command = ''generate'' then executeGenerate P rest w
          else if command = ''deliver'' then executeDeliver P rest w
          else if command = ''renew-certificate'' then executeRenewCertificate P rest w
          else if command = ''tune'' then executeTune P rest w
          else if command = ''version'' then (executeVersion P rest, w)
          else (usageError (println (''unknown command '' @ goQuote command) @ printUsage), w))"

end
