(* ===== verification/CliProps.thy ===== *)
theory CliProps
  imports Cli RunnerProps TuneGuard
begin

text \<open>
  The commands of cmd/mini-singbox/main.go: which exit codes occur, what a usage error and an
  inspecting command leave alone, and what the file writing commands may overwrite.
\<close>

section \<open>Usage errors\<close>

lemma parseSet_error: "parseSet name defs args = (err, None) \<Longrightarrow> err \<noteq> []"
  by (auto simp: parseSet_def flagErrorText_def usageText_def nl_def split: res_splits flagError.splits)

lemma usageError_sel: "usageError e = (st, out, err) \<longleftrightarrow> st = Exit 2 \<and> out = [] \<and> err = e"
  by (auto simp: usageError_def)

text \<open>An outcome of a command that got past its flags.\<close>

definition settled :: "outcome \<Rightarrow> bool" where
  "settled q = (fst q = Exit 0 \<or> fst q = Exit 1)"

lemma settled_simps [simp]: "settled (success out)" "settled (failure out e)"
  "settled (Exit 0, out, err)" "settled (Exit 1, out, err)" "settled (Exit (if b then 1 else 0), out, err)"
  by (simp_all add: settled_def success_def failure_def)

text \<open>The outcome of a usage error.\<close>

definition refused :: "outcome \<Rightarrow> bool" where
  "refused q = (fst q = Exit 2 \<and> fst (snd q) = [] \<and> snd (snd q) \<noteq> [])"

lemma refused_usage [simp]: "refused (usageError err) \<longleftrightarrow> err \<noteq> []"
  by (simp add: refused_def usageError_def)

lemma println_nonempty [simp]: "println s \<noteq> []"
  by (simp add: println_def nl_def)

lemma printUsage_nonempty [simp]: "printUsage \<noteq> []" "printTuneUsage \<noteq> []"
  by (simp_all add: printUsage_def printTuneUsage_def)

section \<open>The commands\<close>

lemma executeGenerate_cases:
  assumes "executeGenerate P args w = (q, w')"
  shows "(refused q \<and> w' = w) \<or>
    (\<exists>err v r. settled q \<and> parseSet ''generate'' generateFlags args = (err, Some v) \<and>
       Generate (pg_crypto P) (jsonMsgOf P) (generateOptionsOf v) w = (r, w'))"
  using assms by (auto simp: executeGenerate_def dest: parseSet_error split: res_splits)

lemma executeDeliver_cases:
  assumes "executeDeliver P args w = (q, w')"
  shows "(refused q \<and> w' = w) \<or>
    (\<exists>err v r. settled q \<and> parseSet ''deliver'' deliverFlags args = (err, Some v) \<and>
       Deliver (pg_crypto P) (jsonMsgOf P) (deliverOptionsOf v) w = (r, w'))"
  using assms by (auto simp: executeDeliver_def dest: parseSet_error split: res_splits)

lemma executeRenew_cases:
  assumes "executeRenewCertificate P args w = (q, w')"
  shows "(refused q \<and> w' = w) \<or>
    (\<exists>err v r. settled q \<and> parseSet ''renew-certificate'' renewFlags args = (err, Some v) \<and>
       RenewCertificate (pg_crypto P) (jsonMsgOf P) (renewOptionsOf v) w = (r, w'))"
  using assms by (auto simp: executeRenewCertificate_def dest: parseSet_error split: res_splits)

text \<open>The tune commands that only look at the system.\<close>

definition inspectsTune :: "string \<Rightarrow> bool \<Rightarrow> bool" where
  "inspectsTune command dryRun = (command \<noteq> ''rollback'' \<and> (command = ''apply'' \<longrightarrow> dryRun))"

lemma reportVerification_settled: "reportVerification out r = (q, w) \<Longrightarrow> settled q \<and> w = snd r"
  by (auto simp: reportVerification_def split: prod.splits sum.splits)

lemma six_or_none:
  "(a \<Longrightarrow> t) \<Longrightarrow> (b \<Longrightarrow> t) \<Longrightarrow> (c \<Longrightarrow> t) \<Longrightarrow> (d \<Longrightarrow> t) \<Longrightarrow> (e \<Longrightarrow> t) \<Longrightarrow> (f \<Longrightarrow> t) \<Longrightarrow>
     (\<not> a \<Longrightarrow> \<not> b \<Longrightarrow> \<not> c \<Longrightarrow> \<not> d \<Longrightarrow> \<not> e \<Longrightarrow> \<not> f \<Longrightarrow> t) \<Longrightarrow> t"
  by blast

lemma tuneCommand_cases:
  assumes "tuneCommand g m command inputs dryRun w = (q, w')"
  shows "(settled q \<or> (refused q \<and> w' = w)) \<and> (inspectsTune command dryRun \<longrightarrow> sameTree w w')"
proof -
  have v: "sameTree u u'" if "Verify g m u = (r, u')" for u r u' by (rule ro_same [OF ro_Verify that])
  have p: "sameTree u u'" if "makePlan g m i u = (r, u')" for i u r u' by (rule ro_same [OF ro_makePlan that])
  have d: "sameTree u u'" if "Detect g m u = (r, u')" for u r u' by (rule ro_same [OF ro_Detect that])
  have a: "sameTree w u" if "Apply g m inputs True w = (r, u)" for r u using Apply_cases [OF that] by blast
  consider "command = ''detect''" | "command = ''plan''" | "command = ''apply''" | "command = ''verify''"
    | "command = ''status''" | "command = ''rollback''"
    | "command \<noteq> ''detect''" "command \<noteq> ''plan''" "command \<noteq> ''apply''" "command \<noteq> ''verify''"
      "command \<noteq> ''status''" "command \<noteq> ''rollback''" by (rule six_or_none)
  then show ?thesis
  proof cases
    case 1
    then show ?thesis using assms d by (auto simp: tuneCommand_def split: prod.splits sum.splits)
  next
    case 2
    then show ?thesis using assms p by (auto simp: tuneCommand_def split: prod.splits sum.splits)
  next
    case 3
    then show ?thesis using assms a by (auto simp: tuneCommand_def inspectsTune_def split: prod.splits sum.splits)
  next
    case 4
    then show ?thesis using assms reportVerification_settled [of "[]" "Verify g m w" q w'] v [of w "fst (Verify g m w)" w']
      by (auto simp: tuneCommand_def)
  next
    case 5
    obtain r1 w1 where s1: "makePlan g m \<lparr>in_BandwidthMbps = 0, in_RTTMillis = 0\<rparr> w = (r1, w1)" by fastforce
    show ?thesis
    proof (cases r1)
      case (Inl e)
      then show ?thesis using assms 5 s1 p [OF s1] by (auto simp: tuneCommand_def)
    next
      case (Inr plan)
      have run: "reportVerification (PrintPlan plan) (Verify g m w1) = (q, w')"
        using assms 5 s1 Inr by (simp add: tuneCommand_def)
      obtain r2 w2 where s2: "Verify g m w1 = (r2, w2)" by fastforce
      have "settled q" "w' = w2" using reportVerification_settled [OF run] s2 by simp_all
      then show ?thesis using sameTree_trans [OF p [OF s1] v [OF s2]] by simp
    qed
  next
    case 6
    then show ?thesis using assms by (auto simp: tuneCommand_def inspectsTune_def split: prod.splits option.splits)
  next
    case 7
    then have "(q, w') = (success printTuneUsage, w) \<or>
        (q, w') = (usageError (println (''unknown tune command '' @ goQuote command) @ printTuneUsage), w)"
      using assms unfolding tuneCommand_def by (simp only: if_False) metis
    then show ?thesis by (elim disjE) simp_all
  qed
qed

lemma executeTune_cases:
  assumes "executeTune P args w = (q, w')"
  shows "(settled q \<or> (refused q \<and> w' = w)) \<and>
    (\<forall>command rest err v. args = command # rest \<longrightarrow> parseSet (''tune '' @ command) tuneFlags rest = (err, Some v) \<longrightarrow>
       inspectsTune command (boolFlag v ''dry-run'') \<longrightarrow> sameTree w w')"
proof (cases args)
  case Nil
  then show ?thesis using assms by (auto simp: executeTune_def)
next
  case (Cons command rest)
  show ?thesis
  proof (cases "parseSet (''tune '' @ command) tuneFlags rest")
    case (Pair err vals)
    show ?thesis
    proof (cases vals)
      case None
      then show ?thesis using assms Cons Pair by (auto simp: executeTune_def dest: parseSet_error)
    next
      case (Some v)
      show ?thesis
      proof (cases "tuneCombination command v")
        case None
        then have "tuneCommand (pg_go P) (tuneManager P v) command (tuneInputs v) (boolFlag v ''dry-run'') w = (q, w')"
          using assms Cons Pair Some by (simp add: executeTune_def)
        then show ?thesis using tuneCommand_cases Cons Pair Some by fastforce
      next
        case s: (Some m)
        then show ?thesis using assms Cons Pair Some by (auto simp: executeTune_def)
      qed
    qed
  qed
qed


lemma executeRun_cases:
  assumes "executeRun P cancelled args w = (q, w')"
  shows "(refused q \<and> w' = w) \<or> settled q \<or> (fst q = Waits \<and> \<not> cancelled)"
proof (cases "parseConfigFlag ''run'' args")
  case (Pair err path)
  show ?thesis
  proof (cases path)
    case None
    then show ?thesis using assms Pair
      by (auto simp: executeRun_def parseConfigFlag_def dest: parseSet_error split: prod.splits option.splits)
  next
    case (Some p)
    obtain r calls u where run: "Run (pg_crypto P) (pg_box P) (jsonMsgOf P) cancelled p w = (r, calls, u)"
      by (metis prod.collapse)
    obtain rc cc uc where chk: "Check (pg_crypto P) (pg_box P) (jsonMsgOf P) p w = (rc, cc, uc)"
      by (metis prod.collapse)
    have "runCalls cancelled r calls" using instance_calls [OF run chk] by blast
    moreover have "q = runOutcome [] r" using assms Pair Some run by (simp add: executeRun_def)
    ultimately show ?thesis by (auto simp: runCalls_def)
  qed
qed

lemma executeCheck_cases:
  assumes "executeCheck P args w = (q, w')"
  shows "(refused q \<and> w' = w) \<or> settled q"
proof (cases "parseConfigFlag ''check'' args")
  case (Pair err path)
  show ?thesis
  proof (cases path)
    case None
    then show ?thesis using assms Pair
      by (auto simp: executeCheck_def parseConfigFlag_def dest: parseSet_error split: prod.splits option.splits)
  next
    case (Some p)
    obtain r calls u where run: "Run (pg_crypto P) (pg_box P) (jsonMsgOf P) True p w = (r, calls, u)"
      by (metis prod.collapse)
    obtain rc cc uc where chk: "Check (pg_crypto P) (pg_box P) (jsonMsgOf P) p w = (rc, cc, uc)"
      by (metis prod.collapse)
    have "checkCalls rc cc" using instance_calls [OF run chk] by blast
    moreover have "q = runOutcome (println ''configuration is valid'') rc" using assms Pair Some chk by (simp add: executeCheck_def)
    ultimately show ?thesis by (auto simp: checkCalls_def)
  qed
qed

section \<open>The program\<close>

text \<open>Arguments that only look at the system, and those that must not overwrite files.\<close>

definition inspects :: "string list \<Rightarrow> bool" where
  "inspects args =
     (case args of
        [] \<Rightarrow> True
      | command # rest \<Rightarrow>
          if command = ''tune'' then
            (case rest of
               [] \<Rightarrow> True
             | sub # flags \<Rightarrow>
                 (case snd (parseSet (''tune '' @ sub) tuneFlags flags) of
                    None \<Rightarrow> True
                  | Some v \<Rightarrow> inspectsTune sub (boolFlag v ''dry-run'')))
          else command \<notin> set [''run'', ''check'', ''generate'', ''deliver'', ''renew-certificate''])"

definition keepsFiles :: "string list \<Rightarrow> string \<Rightarrow> bool" where
  "keepsFiles args dir =
     (case args of
        [] \<Rightarrow> False
      | command # rest \<Rightarrow>
          (command = ''generate'' \<and> (\<exists>v. snd (parseSet command generateFlags rest) = Some v \<and>
             \<not> boolFlag v ''force'' \<and> dir = stringFlag v ''output'')) \<or>
          (command = ''deliver'' \<and> (\<exists>v. snd (parseSet command deliverFlags rest) = Some v \<and>
             \<not> boolFlag v ''force'' \<and> dir = stringFlag v ''output'')) \<or>
          (command = ''renew-certificate'' \<and> (\<exists>v. snd (parseSet command renewFlags rest) = Some v \<and>
             dir = stringFlag v ''output'')))"

definition kept :: "world \<Rightarrow> world \<Rightarrow> bool" where
  "kept w w' = (\<forall>k. tree w k \<noteq> None \<longrightarrow> tree w' k = tree w k)"

lemma kept_refl [simp]: "kept w w"
  by (simp add: kept_def)

lemma generate_keeps:
  "executeGenerate P args w = (q, w') \<Longrightarrow> snd (parseSet ''generate'' generateFlags args) = Some v \<Longrightarrow>
     \<not> boolFlag v ''force'' \<Longrightarrow> plainDir (stringFlag v ''output'') w \<Longrightarrow> kept w w'"
  using executeGenerate_cases [of P args w q w'] Generate_outcome [of "pg_crypto P" "jsonMsgOf P" "generateOptionsOf v" w _ w']
  by (auto simp: kept_def generateOptionsOf_def)

lemma deliver_keeps:
  "executeDeliver P args w = (q, w') \<Longrightarrow> snd (parseSet ''deliver'' deliverFlags args) = Some v \<Longrightarrow>
     \<not> boolFlag v ''force'' \<Longrightarrow> plainDir (stringFlag v ''output'') w \<Longrightarrow> kept w w'"
  using executeDeliver_cases [of P args w q w'] Deliver_outcome [of "pg_crypto P" "jsonMsgOf P" "deliverOptionsOf v" w _ w']
  by (auto simp: kept_def deliverOptionsOf_def)

lemma renew_keeps:
  "executeRenewCertificate P args w = (q, w') \<Longrightarrow> snd (parseSet ''renew-certificate'' renewFlags args) = Some v \<Longrightarrow>
     plainDir (stringFlag v ''output'') w \<Longrightarrow> kept w w'"
  using executeRenew_cases [of P args w q w'] Renew_outcome [of "pg_crypto P" "jsonMsgOf P" "renewOptionsOf v" w _ w']
  by (auto simp: kept_def renewOptionsOf_def)

section \<open>The contract of the commands\<close>

lemma seven_or_none:
  "(a \<Longrightarrow> t) \<Longrightarrow> (b \<Longrightarrow> t) \<Longrightarrow> (c \<Longrightarrow> t) \<Longrightarrow> (d \<Longrightarrow> t) \<Longrightarrow> (e \<Longrightarrow> t) \<Longrightarrow> (f \<Longrightarrow> t) \<Longrightarrow>
     (\<not> a \<Longrightarrow> \<not> b \<Longrightarrow> \<not> c \<Longrightarrow> \<not> d \<Longrightarrow> \<not> e \<Longrightarrow> \<not> f \<Longrightarrow> t) \<Longrightarrow> t"
  by blast

text \<open>The ways a call of the program ends.\<close>

definition endsWell :: "bool \<Rightarrow> string list \<Rightarrow> outcome \<Rightarrow> world \<Rightarrow> world \<Rightarrow> bool" where
  "endsWell cancelled args q w w' =
     ((refused q \<and> w' = w) \<or> settled q \<or> (fst q = Waits \<and> \<not> cancelled \<and> take 1 args = [''run'']))"

lemma executeVersion_cases: "endsWell cancelled args (executeVersion P rest) w w"
  by (simp add: executeVersion_def endsWell_def)

lemma execute_ends:
  assumes "execute P cancelled args w = (q, w')"
  shows "endsWell cancelled args q w w'"
proof (cases args)
  case Nil
  then show ?thesis using assms by (auto simp: execute_def endsWell_def)
next
  case (Cons command rest)
  consider "command = ''run''" | "command = ''check''" | "command = ''generate''" | "command = ''deliver''"
    | "command = ''renew-certificate''" | "command = ''tune''"
    | "command \<noteq> ''run''" "command \<noteq> ''check''" "command \<noteq> ''generate''" "command \<noteq> ''deliver''"
      "command \<noteq> ''renew-certificate''" "command \<noteq> ''tune''" by (rule seven_or_none)
  then show ?thesis
  proof cases
    case 1
    then show ?thesis using executeRun_cases [of P cancelled rest w q w'] assms Cons
      by (simp add: execute_def endsWell_def)
  next
    case 2
    then show ?thesis using executeCheck_cases [of P rest w q w'] assms Cons
      by (simp add: execute_def endsWell_def)
  next
    case 3
    then show ?thesis using executeGenerate_cases [of P rest w q w'] assms Cons
      by (simp add: execute_def endsWell_def) blast
  next
    case 4
    then show ?thesis using executeDeliver_cases [of P rest w q w'] assms Cons
      by (simp add: execute_def endsWell_def) blast
  next
    case 5
    then show ?thesis using executeRenew_cases [of P rest w q w'] assms Cons
      by (simp add: execute_def endsWell_def) blast
  next
    case 6
    then show ?thesis using executeTune_cases [of P rest w q w'] assms Cons
      by (simp add: execute_def endsWell_def) blast
  next
    case 7
    then have "(if command = ''version'' then (executeVersion P rest, w)
        else (usageError (println (''unknown command '' @ goQuote command) @ printUsage), w)) = (q, w')"
      using assms Cons by (simp only: execute_def list.case if_False)
    then show ?thesis using executeVersion_cases [of cancelled args P rest w]
      by (cases "command = ''version''") (auto simp: endsWell_def)
  qed
qed

lemma execute_inspects:
  assumes "execute P cancelled args w = (q, w')" "inspects args"
  shows "sameTree w w'"
proof (cases args)
  case Nil
  then show ?thesis using assms by (auto simp: execute_def)
next
  case (Cons command rest)
  show ?thesis
  proof (cases "command = ''tune''")
    case True
    then have run: "executeTune P rest w = (q, w')" using assms(1) Cons by (simp add: execute_def)
    show ?thesis
    proof (cases rest)
      case Nil
      then show ?thesis using run by (auto simp: executeTune_def)
    next
      case r: (Cons sub flags)
      obtain err vals where p: "parseSet (''tune '' @ sub) tuneFlags flags = (err, vals)" by fastforce
      show ?thesis
      proof (cases vals)
        case None
        then show ?thesis using run r p by (auto simp: executeTune_def)
      next
        case (Some v)
        then have "inspectsTune sub (boolFlag v ''dry-run'')" using assms(2) Cons True r p by (simp add: inspects_def)
        then show ?thesis using executeTune_cases [OF run] r p Some by simp
      qed
    qed
  next
    case False
    then have "command \<noteq> ''run''" "command \<noteq> ''check''" "command \<noteq> ''generate''" "command \<noteq> ''deliver''"
      "command \<noteq> ''renew-certificate''" using assms(2) Cons by (simp_all add: inspects_def)
    then have "(if command = ''version'' then (executeVersion P rest, w)
        else (usageError (println (''unknown command '' @ goQuote command) @ printUsage), w)) = (q, w')"
      using assms(1) Cons False by (simp only: execute_def list.case if_False)
    then show ?thesis by (cases "command = ''version''") simp_all
  qed
qed

lemma execute_keeps:
  assumes "execute P cancelled args w = (q, w')" "keepsFiles args dir" "plainDir dir w"
  shows "kept w w'"
proof (cases args)
  case Nil
  then show ?thesis using assms by (simp add: keepsFiles_def)
next
  case (Cons command rest)
  consider (generate) v where "command = ''generate''" "snd (parseSet command generateFlags rest) = Some v"
      "\<not> boolFlag v ''force''" "dir = stringFlag v ''output''"
    | (deliver) v where "command = ''deliver''" "snd (parseSet command deliverFlags rest) = Some v"
      "\<not> boolFlag v ''force''" "dir = stringFlag v ''output''"
    | (renew) v where "command = ''renew-certificate''" "snd (parseSet command renewFlags rest) = Some v"
      "dir = stringFlag v ''output''"
    using assms(2) unfolding keepsFiles_def Cons list.case by (elim disjE conjE exE) blast+
  then show ?thesis
  proof cases
    case generate
    then show ?thesis using generate_keeps [of P rest w q w' v] assms Cons by (simp add: execute_def)
  next
    case deliver
    then show ?thesis using deliver_keeps [of P rest w q w' v] assms Cons by (simp add: execute_def)
  next
    case renew
    then show ?thesis using renew_keeps [of P rest w q w' v] assms Cons by (simp add: execute_def)
  qed
qed

text \<open>
  Claim C39. Every call of the program exits with 0, 1 or 2, and only \<open>run\<close> with a context that
  nobody cancels waits; it never panics (the second signal, which ends the process with 130, is a
  step of the signal machine of C38). With 2 nothing was done to the system, nothing is on
  standard output and the reason is on standard error. Wrong usage, \<open>version\<close> and the tune commands
  other than \<open>rollback\<close> and \<open>apply\<close> without \<open>--dry-run\<close> change no file; \<open>generate\<close> and \<open>deliver\<close>
  without \<open>--force\<close>, and \<open>renew-certificate\<close>, change no existing file.
\<close>

theorem execute_contract:
  assumes "execute P cancelled args w = ((st, out, err), w')"
  shows "(st \<in> {Exit 0, Exit 1, Exit 2} \<or> (st = Waits \<and> \<not> cancelled \<and> take 1 args = [''run''])) \<and>
    (st = Exit 2 \<longrightarrow> w' = w \<and> out = [] \<and> err \<noteq> []) \<and>
    (inspects args \<longrightarrow> sameTree w w') \<and>
    (\<forall>dir. keepsFiles args dir \<longrightarrow> plainDir dir w \<longrightarrow> kept w w')"
proof -
  have "endsWell cancelled args (st, out, err) w w'" by (rule execute_ends [OF assms])
  then have "st \<in> {Exit 0, Exit 1, Exit 2} \<or> (st = Waits \<and> \<not> cancelled \<and> take 1 args = [''run''])"
    "st = Exit 2 \<longrightarrow> w' = w \<and> out = [] \<and> err \<noteq> []"
    by (auto simp: endsWell_def refused_def settled_def)
  then show ?thesis using execute_inspects [OF assms] execute_keeps [OF assms] by blast
qed

section \<open>A sample program\<close>

definition sampleProgram :: "unit program" where
  "sampleProgram =
     \<lparr>pg_crypto = SecretProps.sampleLib, pg_box = sampleBox, pg_go = TuneSurvey.sampleLib\<lparr>gl_jsonMsg := id\<rparr>,
      pg_build = \<lparr>bi_Version = ''1.0.0'', bi_Commit = ''abc'', bi_BuildTime = ''unknown'', bi_Dirty = ''false'',
        bi_GoVersion = ''go1.24'', bi_GOOS = ''linux'', bi_GOARCH = ''amd64'',
        bi_Deps = Some [(''github.com/sagernet/sing-box'', ''v1.12.0'', None)]\<rparr>\<rparr>"

definition generateArgs :: "string list" where
  "generateArgs =
     [''generate'', ''-output=/out'', ''--protocols'', '' Reality'', ''-reality-port'', ''8443'',
      ''-hy2-port=0'', ''-anytls-port'', ''0x0'', ''-reality-server-name'', ''www.example.com'',
      ''-reality-handshake=www.example.com:443'']"

lemma generateArgs_parsed:
  "\<exists>v. parseSet ''generate'' generateFlags (tl generateArgs) = ([], Some v) \<and>
     generateOptionsOf v = GenerateProps.sampleOptions \<and> \<not> boolFlag v ''force'' \<and> \<not> boolFlag v ''show-secrets'' \<and>
     stringFlag v ''output'' = ''/out''"
proof -
  have "case parseSet ''generate'' generateFlags (tl generateArgs) of
      (err, Some v) \<Rightarrow> err = [] \<and> generateOptionsOf v = GenerateProps.sampleOptions \<and> \<not> boolFlag v ''force'' \<and>
        \<not> boolFlag v ''show-secrets'' \<and> stringFlag v ''output'' = ''/out''
    | _ \<Rightarrow> False" by code_simp
  then show ?thesis by (auto split: prod.splits option.splits)
qed

lemma execute_contract_witness:
  "\<exists>out w'. execute sampleProgram False generateArgs outWorld = ((Exit 0, out, []), w') \<and> kept outWorld w'"
proof -
  obtain v where v: "parseSet ''generate'' generateFlags (tl generateArgs) = ([], Some v)"
    "generateOptionsOf v = GenerateProps.sampleOptions" "\<not> boolFlag v ''force''" "\<not> boolFlag v ''show-secrets''"
    "stringFlag v ''output'' = ''/out''" using generateArgs_parsed by blast
  obtain r w' where g: "Generate SecretProps.sampleLib id GenerateProps.sampleOptions outWorld = (Inr r, w')"
    using sample_generated by blast
  have a: "generateArgs = ''generate'' # tl generateArgs" by (simp add: generateArgs_def)
  have "execute sampleProgram False (''generate'' # tl generateArgs) outWorld =
      executeGenerate sampleProgram (tl generateArgs) outWorld" by (simp add: execute_def)
  also have "\<dots> = ((Exit 0, pathLines (gr_Files r), []), w')"
    using v g by (simp add: executeGenerate_def sampleProgram_def jsonMsgOf_def success_def)
  finally have run: "execute sampleProgram False generateArgs outWorld = ((Exit 0, pathLines (gr_Files r), []), w')"
    using a by simp
  have "keepsFiles (''generate'' # tl generateArgs) ''/out''" using v by (simp add: keepsFiles_def)
  then show ?thesis using execute_contract [OF run] run a sample_plain(1) by auto
qed

end
