(* ===== verification/Spec2Isabelle.thy ===== *)
theory Spec2Isabelle
  imports WriteFilesSpec ConfigFile GoTime TuneCycle Lifecycle CliProps
begin

text \<open>
  A verification development for mini-singbox, a small sing-box server: one configuration file
  with up to three inbound protocols (VLESS Reality, Hysteria2, AnyTLS), a generator for such
  configurations with client files, certificate renewal, and a conservative tuner of TCP sysctls.
  All paths below are under src/.

  Parts and how they interact. cmd/mini-singbox/main.go parses flags and calls one function of
  internal/app or one operation of the \<open>Manager\<close> in internal/tune. \<open>Generate\<close>, \<open>Deliver\<close> and
  \<open>RenewCertificate\<close> (internal/app) read configurations with internal/config, make credentials with
  internal/secret, build share links, and hand one batch of files to the transactional writer
  \<open>WriteFiles\<close> of internal/secret. \<open>Run\<close> and \<open>Check\<close> decode, validate and convert a configuration
  with internal/config and create an instance with internal/core. The manager surveys the host,
  plans, writes sysctls and a sysctl.d file in a transaction recorded in two JSON state files, and
  undoes it. Everything goes through one explicit \<open>world\<close> that is passed from call to call.

  The world (GoOS, GoPath, DirView). A tree from clean absolute paths to inodes, the working
  directory, user and umask, the random bytes and the clock still to come, and a schedule \<open>faults\<close>
  that says for every call whether it fails, how, and after how many bytes. Statements about every
  world are statements about every schedule of failures; \<open>quiet\<close> worlds have none. Files below
  /proc/sys answer a write with what \<open>kernel\<close> makes of it. The locales \<open>fs_call\<close> (a call changes
  only the stated keys) and \<open>ro_call\<close> (a call changes no file) are the interface between the calls
  and the proofs; every call is an interpretation. ReadOnly holds their composition rules, by which
  \<open>intro ro_intros\<close> proves whole readers harmless.

  The standard library (Prelude, GoStrings, NetAddr, Codec, Url, Json, JsonProof, JsonDecode, GoTime,
  Flags). Errors as values of one datatype with \<open>%w\<close> wrapping; strings as lists of bytes; number
  texts, quoting and UTF-8 decoding; addresses; base64 and PEM; percent encoding and URLs; the JSON
  reader, printer and the rules of \<open>DisallowUnknownFields\<close> with the proof that the reader undoes the
  printer; RFC 3339 times; the flag package as far as the program uses it.

  secret/atomic.go, atomic_unix.go (AtomicWrite; proofs AtomicProof, AtomicRollback, AtomicSpec,
  AtomicLive, WriteFilesSpec). \<open>stageFile\<close>, \<open>writeTemp\<close>, \<open>replaceTarget\<close>, \<open>rollbackWrite\<close> and
  \<open>cleanupTemps\<close> as in the code, with the renaming function as a parameter. The proofs work on one
  directory as a map of names: an invariant relates the directory before the batch, the directory
  now and the records of the staged files, and holds after every step. The results: all files of a
  batch or a rollback or an error that says what is left (C1-C3), and success in a quiet world (C4).
  They are about batches in which no name is hidden and none is another one with \<open>.backup\<close> appended
  (\<open>batch_ok\<close>), as in every batch the program builds; the code does not refuse others, and
  \<open>backup_name_lost\<close> runs one that loses a new file.

  config (Config, ConfigDecode; proofs ConfigSpec, ConfigProps, ConfigFile). schema.go as records,
  validate.go check by check, convert.go for the options it sets, decode.go with its limits.
  \<open>configOK\<close> is a declarative reading of what is valid; \<open>Validate\<close> decides exactly it (C5, C6), with
  the two registries of ports and credentials as interpretations of the locale \<open>registry\<close>.
  \<open>Convert\<close> is faithful (C7); UUIDs and names are characterised (C8, C9); decoding is strict, safe and
  undoes the printer (C12-C14).

  tune (TunePlan, TuneDetect, TuneState, TuneManager, TuneOutput; proofs TuneSurvey, TuneFrame,
  TuneEffects, TuneFootprint, TuneGuard, TuneVerify, TuneCommit, TuneSuccess, TuneRollback, TuneCycle,
  runs in TuneRuns). plan.go on 64-bit words (C10, C11); the survey of detect.go changes nothing and
  reports what the files say (C15-C17); manager.go: when \<open>Apply\<close> may change anything and what (C18,
  C19), trusted state files (in a tree where every entry has its directory), \<open>Verify\<close>, and the round
  trip of ASCII states (C20-C22), recovery of a failed run (C23), commitment (C24),
  \<open>Rollback\<close> (C25, C26) and the cycle of both (C27). The locale \<open>tuning\<close> states what the paths of a
  manager must satisfy; the paths that the program uses are its interpretation. output.go is text
  with the rounding of byte counts, whose error is bounded.

  secret and app (Secret, Share, Generate, Deliver, Runner; proofs SecretProps, ShareProps,
  GenerateProps, DeliverProps, RunnerProps, Lifecycle). Credentials as functions of fresh random
  bytes (C28), certificates (C29), share links that read back (C30), public ports (C31), \<open>Generate\<close>
  (C32, C33), \<open>Deliver\<close> and \<open>RenewCertificate\<close> (C34-C36), the calls on the instance by \<open>Run\<close> and
  \<open>Check\<close> (C37), the goroutine of signals.go as a step relation with the runtime, the stop function
  and the parent context (C38), and that a generated configuration can be run (C40).

  cmd/mini-singbox/main.go and version/info.go (Cli; proofs CliProps). One function per command; exit
  codes, streams and what each command may touch (C39).

  Parameters. \<open>cryptoLib\<close>: ECDSA, X25519, DER and x509 (\<open>cl_keyPair\<close> is \<open>tls.X509KeyPair\<close>), SHA-256, the
  text of a base64 error. \<open>goLib\<close>: the texts of JSON errors, SHA-256, GOARCH, NumCPU. \<open>boxLib\<close>: \<open>box.New\<close>,
  \<open>Start\<close> and \<open>Close\<close> of sing-box on a state of any type. \<open>buildInfo\<close>: what the linker and
  \<open>debug.ReadBuildInfo\<close> provide. Nothing is assumed of them in the definitions; a property that needs a
  law of one states it as a hypothesis.

  Bounds and termination. The only fuel is in \<open>resolve\<close>, which follows symbolic links: 41 steps, one
  more than the 40 links after which Linux gives up with ELOOP, so running out is that error. Every
  other loop is structural or has a measure (PEM blocks shrink the text, the cgroup walk shortens the
  path, excess bits halve the number). \<open>int\<close> values are mathematical integers where the code keeps
  them in range, byte counts and bandwidths are 64-bit words, ports are cut to 16 bits by \<open>Convert\<close>,
  modes are 32-bit words.

  Not modelled. sing-box itself and the cryptography (parameters). Symbolic links in the directory
  part of a path, hard links, and other processes between two calls of one operation; a change
  between two operations is covered, as the start world is arbitrary. The Windows and other stubs of
  the permission and directory checks. In \<open>execute\<close> the context of \<open>run\<close> is the boolean
  \<open>cancelled\<close> and the second signal, \<open>os.Exit(130)\<close>, does not occur; both are in the signal machine of Runner.
  Failing writes to the standard streams, which the program ignores. The shell scripts, service
  units, container files and tests.
\<close>

end
